(* ===== verification/Prelude.thy ===== *)
theory Prelude
  imports Main "HOL-Library.Word" "HOL-Library.Sublist"
begin

text \<open>
  The shared vocabulary of the development.

  \<^item> Results of Go functions: a value, an error, or a run-time panic
    (\<open>gres\<close>), with its sequencing operator.
  \<^item> Go's byte strings as \<^typ>\<open>string\<close> (one \<^typ>\<open>char\<close> per byte), and
    the functions of the packages \<^verbatim>\<open>strings\<close> and \<^verbatim>\<open>strconv\<close>
    that the repository calls.
  \<^item> UUIDs as 16 bytes (128 bits); their textual form belongs to a third-party package
    and is a parameter (\<open>uuid_lib\<close>).
  \<^item> The named collections \<open>go_simps\<close> (unfolding of the small wrappers) and
    \<open>go_string\<close> (facts on the string functions).
\<close>

named_theorems go_simps \<open>unfolding rules of the small wrappers of the model\<close>
named_theorems go_string \<open>facts about the string functions of the model\<close>

section \<open>Results\<close>

datatype ('e, 'a) gres = Ok 'a | Err 'e | Panic

fun res_bind :: "('e, 'a) gres \<Rightarrow> ('a \<Rightarrow> ('e, 'b) gres) \<Rightarrow> ('e, 'b) gres" where
  "res_bind (Ok x) f = f x"
| "res_bind (Err e) f = Err e"
| "res_bind Panic f = Panic"

fun map_err :: "('e \<Rightarrow> 'f) \<Rightarrow> ('e, 'a) gres \<Rightarrow> ('f, 'a) gres" where
  "map_err f (Ok x) = Ok x"
| "map_err f (Err e) = Err (f e)"
| "map_err f Panic = Panic"

fun is_ok :: "('e, 'a) gres \<Rightarrow> bool" where
  "is_ok (Ok _) = True"
| "is_ok (Err _) = False"
| "is_ok Panic = False"

text \<open>A loop that converts every element of a slice and stops at the first failure.\<close>

fun map_res :: "('a \<Rightarrow> ('e, 'b) gres) \<Rightarrow> 'a list \<Rightarrow> ('e, 'b list) gres" where
  "map_res f [] = Ok []"
| "map_res f (x # xs) = res_bind (f x) (\<lambda>y. res_bind (map_res f xs) (\<lambda>ys. Ok (y # ys)))"

section \<open>Strings\<close>

definition HasPrefix :: "string \<Rightarrow> string \<Rightarrow> bool" where
  "HasPrefix s p \<longleftrightarrow> prefix p s"

definition TrimPrefix :: "string \<Rightarrow> string \<Rightarrow> string" where
  "TrimPrefix s p = (if prefix p s then drop (length p) s else s)"

definition Contains :: "string \<Rightarrow> string \<Rightarrow> bool" where
  "Contains s sub \<longleftrightarrow> sublist sub s"

fun Join :: "string list \<Rightarrow> string \<Rightarrow> string" where
  "Join [] sep = []"
| "Join [x] sep = x"
| "Join (x # y # xs) sep = x @ sep @ Join (y # xs) sep"

text \<open>\<^verbatim>\<open>strings.Split\<close> for a separator of one byte.\<close>

fun split_on :: "char \<Rightarrow> string \<Rightarrow> string list" where
  "split_on c [] = [[]]"
| "split_on c (x # xs) =
     (if x = c then [] # split_on c xs
      else (case split_on c xs of [] \<Rightarrow> [[x]] | w # ws \<Rightarrow> (x # w) # ws))"

text \<open>\<^verbatim>\<open>strings.Replace(s, old, new, -1)\<close> for one-byte arguments.\<close>

definition replace_char :: "char \<Rightarrow> char \<Rightarrow> string \<Rightarrow> string" where
  "replace_char old new = map (\<lambda>c. if c = old then new else c)"

text \<open>
  The UTF-8 encodings of the code points that \<^verbatim>\<open>unicode.IsSpace\<close> accepts:
  the six ASCII ones, U+0085, U+00A0, U+1680, U+2000 to U+200A, U+2028, U+2029, U+202F,
  U+205F and U+3000.
\<close>

definition utf8_spaces :: "string list" where
  "utf8_spaces =
     map (\<lambda>n. [char_of n]) [9, 10, 11, 12, 13, 32 :: nat] @
     map (\<lambda>n. [char_of (194 :: nat), char_of n]) [133, 160 :: nat] @
     [map char_of [225, 154, 128 :: nat]] @
     map (\<lambda>n. map char_of [226, 128, n :: nat])
       [128, 129, 130, 131, 132, 133, 134, 135, 136, 137, 138, 168, 169, 175] @
     [map char_of [226, 129, 159 :: nat], map char_of [227, 128, 128 :: nat]]"

fun strip_one :: "string list \<Rightarrow> string \<Rightarrow> string option" where
  "strip_one [] s = None"
| "strip_one (w # ws) s =
     (if w \<noteq> [] \<and> prefix w s then Some (drop (length w) s) else strip_one ws s)"

lemma strip_one_shorter: "strip_one ws s = Some t \<Longrightarrow> length t < length s"
  by (induction ws) (auto split: if_splits simp: prefix_def)

function strip_all :: "string list \<Rightarrow> string \<Rightarrow> string" where
  "strip_all ws s = (case strip_one ws s of None \<Rightarrow> s | Some t \<Rightarrow> strip_all ws t)"
  by pat_completeness auto
termination
  by (relation "measure (\<lambda>(ws, s). length s)") (auto dest: strip_one_shorter)

declare strip_all.simps [simp del]

definition TrimSpace :: "string \<Rightarrow> string" where
  "TrimSpace s = rev (strip_all (map rev utf8_spaces) (rev (strip_all utf8_spaces s)))"

section \<open>Decimal numbers\<close>

definition digit_char :: "nat \<Rightarrow> char" where
  "digit_char d = char_of (48 + d)"

fun nat_digits :: "nat \<Rightarrow> string" where
  "nat_digits n = (if n < 10 then [digit_char n] else nat_digits (n div 10) @ [digit_char (n mod 10)])"

declare nat_digits.simps [simp del]

definition itoa :: "int \<Rightarrow> string" where
  "itoa i = (if i < 0 then CHR ''-'' # nat_digits (nat (- i)) else nat_digits (nat i))"

definition digit_val :: "char \<Rightarrow> nat option" where
  "digit_val c = (let n = of_char c in if 48 \<le> n \<and> n \<le> (57 :: nat) then Some (n - 48) else None)"

fun parse_digits :: "nat \<Rightarrow> string \<Rightarrow> nat option" where
  "parse_digits acc [] = Some acc"
| "parse_digits acc (c # cs) =
     (case digit_val c of None \<Rightarrow> None | Some d \<Rightarrow> parse_digits (10 * acc + d) cs)"

text \<open>
  \<^verbatim>\<open>strconv.Atoi\<close> on a 64-bit platform: an optional sign, at least one decimal
  digit, nothing else, and a value in the range of \<^verbatim>\<open>int64\<close>.
\<close>

definition atoi :: "string \<Rightarrow> int option" where
  "atoi s =
     (let (neg, ds) = (case s of [] \<Rightarrow> (False, [])
                       | c # cs \<Rightarrow> if c = CHR ''-'' then (True, cs)
                                  else if c = CHR ''+'' then (False, cs) else (False, s))
      in if ds = [] then None
         else case parse_digits 0 ds of None \<Rightarrow> None
         | Some n \<Rightarrow> (let i = (if neg then - int n else int n)
                    in if - (2 ^ 63) \<le> i \<and> i < 2 ^ 63 then Some i else None))"

section \<open>UUIDs\<close>

type_synonym uuid = "128 word"

abbreviation uuid_Nil :: uuid where
  "uuid_Nil \<equiv> 0"

text \<open>
  The printing and parsing functions of \<^verbatim>\<open>github.com/satori/go.uuid\<close>. The code
  relies on them being inverse, on the printed form using hexadecimal digits and dashes
  only, and on the empty string not being a UUID.
\<close>

record uuid_lib =
  uString :: "uuid \<Rightarrow> string"
  uFromString :: "string \<Rightarrow> uuid option"

definition uuid_alphabet :: string where
  "uuid_alphabet = ''0123456789abcdef-''"

definition uuid_lib_ok :: "uuid_lib \<Rightarrow> bool" where
  "uuid_lib_ok U \<longleftrightarrow>
     (\<forall>u. uFromString U (uString U u) = Some u) \<and>
     (\<forall>u. uString U u \<noteq> [] \<and> set (uString U u) \<subseteq> set uuid_alphabet) \<and>
     uFromString U [] = None"

text \<open>
  A concrete pair of functions with that behaviour, for witnesses: 32 hexadecimal digits in
  groups of 8, 4, 4, 4 and 12.
\<close>

definition hex_char :: "nat \<Rightarrow> char" where
  "hex_char d = char_of (if d < 10 then 48 + d else 87 + d)"

definition hex_val :: "char \<Rightarrow> nat option" where
  "hex_val c = (let n = of_char c in
     if 48 \<le> n \<and> n \<le> (57 :: nat) then Some (n - 48)
     else if 97 \<le> n \<and> n \<le> 102 then Some (n - 87) else None)"

fun hex_digits :: "nat \<Rightarrow> nat \<Rightarrow> string" where
  "hex_digits 0 n = []"
| "hex_digits (Suc k) n = hex_digits k (n div 16) @ [hex_char (n mod 16)]"

fun parse_hex :: "nat \<Rightarrow> string \<Rightarrow> nat option" where
  "parse_hex acc [] = Some acc"
| "parse_hex acc (c # cs) =
     (if c = CHR ''-'' then parse_hex acc cs
      else case hex_val c of None \<Rightarrow> None | Some d \<Rightarrow> parse_hex (16 * acc + d) cs)"

definition canonical_uuid :: uuid_lib where
  "canonical_uuid =
     \<lparr>uString = (\<lambda>u. let h = hex_digits 32 (unat u) in
         take 8 h @ ''-'' @ take 4 (drop 8 h) @ ''-'' @ take 4 (drop 12 h) @ ''-'' @
         take 4 (drop 16 h) @ ''-'' @ drop 20 h),
      uFromString = (\<lambda>s. if length s \<noteq> 36 then None
         else map_option of_nat (parse_hex 0 s))\<rparr>"

section \<open>Lemmas on results\<close>

lemma res_bind_Ok_iff [simp]: "res_bind m f = Ok y \<longleftrightarrow> (\<exists>x. m = Ok x \<and> f x = Ok y)"
  by (cases m) auto

lemma res_bind_Err_iff: "res_bind m f = Err e \<longleftrightarrow> m = Err e \<or> (\<exists>x. m = Ok x \<and> f x = Err e)"
  by (cases m) auto

lemma res_bind_Panic_iff: "res_bind m f = Panic \<longleftrightarrow> m = Panic \<or> (\<exists>x. m = Ok x \<and> f x = Panic)"
  by (cases m) auto

lemma res_bind_assoc: "res_bind (res_bind m f) g = res_bind m (\<lambda>x. res_bind (f x) g)"
  by (cases m) auto

lemma res_bind_cong [fundef_cong]:
  "m = m' \<Longrightarrow> (\<And>x. m' = Ok x \<Longrightarrow> f x = f' x) \<Longrightarrow> res_bind m f = res_bind m' f'"
  by (cases m') auto

lemma map_err_Ok_iff [simp]: "map_err f m = Ok y \<longleftrightarrow> m = Ok y"
  by (cases m) auto

lemma map_err_Panic_iff [simp]: "map_err f m = Panic \<longleftrightarrow> m = Panic"
  by (cases m) auto

lemma is_ok_iff: "is_ok m \<longleftrightarrow> (\<exists>x. m = Ok x)"
  by (cases m) auto

lemma map_res_Ok_iff: "map_res f xs = Ok ys \<longleftrightarrow> list_all2 (\<lambda>x y. f x = Ok y) xs ys"
  by (induction xs arbitrary: ys) (auto simp: list_all2_Cons1)

lemma map_res_length: "map_res f xs = Ok ys \<Longrightarrow> length ys = length xs"
  by (auto simp: map_res_Ok_iff dest: list_all2_lengthD)

lemma map_res_Ok_map: "(\<And>x. x \<in> set xs \<Longrightarrow> f x = Ok (g x)) \<Longrightarrow> map_res f xs = Ok (map g xs)"
  by (induction xs) auto

lemma map_res_cong [fundef_cong]:
  "xs = ys \<Longrightarrow> (\<And>x. x \<in> set ys \<Longrightarrow> f x = g x) \<Longrightarrow> map_res f xs = map_res g ys"
proof (induction ys arbitrary: xs)
  case (Cons y ys)
  then have "f y = g y" "map_res f ys = map_res g ys" by auto
  with Cons.prems(1) show ?case by simp
qed simp

lemma map_res_no_panic: "(\<And>x. x \<in> set xs \<Longrightarrow> f x \<noteq> Panic) \<Longrightarrow> map_res f xs \<noteq> Panic"
  by (induction xs) (auto simp: res_bind_Panic_iff)

lemma map_res_Err: "map_res f xs = Err e \<Longrightarrow> \<exists>x \<in> set xs. f x = Err e"
  by (induction xs) (auto simp: res_bind_Err_iff)

section \<open>Lemmas on strings\<close>

lemma HasPrefix_append [simp, go_string]: "HasPrefix (p @ s) p"
  by (simp add: HasPrefix_def)

lemma TrimPrefix_append [simp, go_string]: "TrimPrefix (p @ s) p = s"
  by (simp add: TrimPrefix_def)

lemma HasPrefix_TrimPrefix: "HasPrefix s p \<Longrightarrow> s = p @ TrimPrefix s p"
  by (auto simp: HasPrefix_def TrimPrefix_def prefix_def)

lemma Contains_single [simp, go_string]: "Contains s [c] \<longleftrightarrow> c \<in> set s"
proof
  assume "Contains s [c]"
  then show "c \<in> set s" by (auto simp: Contains_def sublist_def)
next
  assume "c \<in> set s"
  then obtain a b where "s = a @ c # b" by (auto simp: in_set_conv_decomp)
  then have "s = a @ [c] @ b" by simp
  then show "Contains s [c]" unfolding Contains_def sublist_def by blast
qed

lemma Contains_append [intro]: "Contains (a @ sub @ b) sub"
  by (auto simp: Contains_def sublist_def)

lemma split_on_nonempty [simp]: "split_on c s \<noteq> []"
  by (induction s) (auto split: list.splits)

lemma split_on_notin: "c \<notin> set s \<Longrightarrow> split_on c s = [s]"
  by (induction s) auto

lemma split_on_append: "c \<notin> set w \<Longrightarrow> split_on c (w @ c # s) = w # split_on c s"
  by (induction w) auto

lemma split_on_Join:
  "ws \<noteq> [] \<Longrightarrow> (\<And>w. w \<in> set ws \<Longrightarrow> c \<notin> set w) \<Longrightarrow> split_on c (Join ws [c]) = ws"
proof (induction ws "[c]" rule: Join.induct)
  case (3 x y xs)
  then have "split_on c (x @ c # Join (y # xs) [c]) = x # (y # xs)"
    by (subst split_on_append) auto
  then show ?case by simp
qed (auto simp: split_on_notin)

lemma set_Join: "set (Join ws sep) \<subseteq> (\<Union>w \<in> set ws. set w) \<union> set sep"
  by (induction ws sep rule: Join.induct) auto

lemma map_Join: "map f (Join ws sep) = Join (map (map f) ws) (map f sep)"
  by (induction ws sep rule: Join.induct) auto

lemma replace_char_Join:
  "replace_char a b (Join ws sep) = Join (map (replace_char a b) ws) (replace_char a b sep)"
  by (simp add: replace_char_def map_Join)

lemma replace_char_inverse:
  "b \<notin> set s \<Longrightarrow> replace_char b a (replace_char a b s) = s"
  by (induction s) (auto simp: replace_char_def)

lemma set_replace_char: "set (replace_char a b s) \<subseteq> insert b (set s - {a})"
  by (auto simp: replace_char_def)

lemma replace_char_idle: "a \<notin> set s \<Longrightarrow> replace_char a b s = s"
  by (induction s) (auto simp: replace_char_def)

lemma strip_one_subset: "strip_one ws s = Some t \<Longrightarrow> set t \<subseteq> set s"
  by (induction ws) (auto split: if_splits dest: in_set_dropD)

lemma strip_all_subset: "set (strip_all ws s) \<subseteq> set s"
proof (induction ws s rule: strip_all.induct)
  case (1 ws s)
  then show ?case
    using strip_one_subset [of ws s] by (subst strip_all.simps) (fastforce split: option.splits)
qed

lemma TrimSpace_subset: "set (TrimSpace s) \<subseteq> set s"
  unfolding TrimSpace_def set_rev
  using strip_all_subset [of "map rev utf8_spaces" "rev (strip_all utf8_spaces s)"]
    strip_all_subset [of utf8_spaces s] by auto

lemma TrimPrefix_subset: "set (TrimPrefix s p) \<subseteq> set s"
  by (auto simp: TrimPrefix_def dest: in_set_dropD)

lemma strip_all_no_prefix: "strip_one ws (strip_all ws s) = None"
proof (induction ws s rule: strip_all.induct)
  case (1 ws s)
  then show ?case
    by (subst strip_all.simps) (auto split: option.splits)
qed

section \<open>Lemmas on decimal numbers\<close>

lemma digit_val_digit_char [simp]: "d < 10 \<Longrightarrow> digit_val (digit_char d) = Some d"
  by (simp add: digit_val_def digit_char_def)

lemma parse_digits_append:
  "parse_digits acc (xs @ ys) =
     (case parse_digits acc xs of None \<Rightarrow> None | Some a \<Rightarrow> parse_digits a ys)"
  by (induction xs arbitrary: acc) (auto split: option.splits)

lemma parse_nat_digits: "parse_digits 0 (nat_digits n) = Some n"
proof (induction n rule: nat_digits.induct)
  case (1 n)
  show ?case
  proof (cases "n < 10")
    case True
    then show ?thesis by (simp add: nat_digits.simps [of n])
  next
    case False
    then have "parse_digits 0 (nat_digits (n div 10)) = Some (n div 10)" using "1.IH" by simp
    with False show ?thesis
      by (simp add: nat_digits.simps [of n] parse_digits_append)
  qed
qed

lemma nat_digits_nonempty [simp]: "nat_digits n \<noteq> []"
  by (subst nat_digits.simps) simp

lemma nat_digits_set: "set (nat_digits n) \<subseteq> digit_char ` {..<10}"
proof (induction n rule: nat_digits.induct)
  case (1 n)
  then show ?case
    by (subst nat_digits.simps) auto
qed

lemma digit_char_not_sign: "d < 10 \<Longrightarrow> digit_char d \<noteq> CHR ''-'' \<and> digit_char d \<noteq> CHR ''+''"
proof -
  assume "d < 10"
  then have "(of_char (digit_char d) :: nat) = 48 + d" by (simp add: digit_char_def)
  then have "(of_char (digit_char d) :: nat) \<noteq> of_char (CHR ''-'')"
    and "(of_char (digit_char d) :: nat) \<noteq> of_char (CHR ''+'')" by simp_all
  then show ?thesis by auto
qed

lemma nat_digits_no_sign: "c \<in> set (nat_digits n) \<Longrightarrow> c \<noteq> CHR ''-'' \<and> c \<noteq> CHR ''+''"
  using nat_digits_set [of n] digit_char_not_sign by fastforce

lemma atoi_itoa: "- (2 ^ 63) \<le> i \<Longrightarrow> i < 2 ^ 63 \<Longrightarrow> atoi (itoa i) = Some i"
proof -
  assume lo: "- (2 ^ 63) \<le> i" and hi: "i < 2 ^ 63"
  obtain c cs where d: "nat_digits (nat i) = c # cs"
    by (meson neq_Nil_conv nat_digits_nonempty)
  then have "c \<noteq> CHR ''-'' \<and> c \<noteq> CHR ''+''"
    by (metis list.set_intros(1) nat_digits_no_sign)
  with d lo hi show ?thesis
    using parse_nat_digits [of "nat i"] parse_nat_digits [of "nat (- i)"]
    by (auto simp: atoi_def itoa_def Let_def)
qed

section \<open>The canonical UUID functions have the documented behaviour\<close>

lemma hex_val_hex_char: "d < 16 \<Longrightarrow> hex_val (hex_char d) = Some d"
  by (auto simp: hex_val_def hex_char_def)

lemma hex_char_alphabet: "d < 16 \<Longrightarrow> hex_char d \<in> set uuid_alphabet"
proof -
  assume "d < 16"
  moreover have "\<forall>d \<in> set [0..<16]. hex_char d \<in> set uuid_alphabet" by code_simp
  ultimately show ?thesis by simp
qed

lemma hex_char_not_dash: "d < 16 \<Longrightarrow> hex_char d \<noteq> CHR ''-''"
  using hex_val_hex_char [of d] by (auto simp: hex_val_def)

lemma length_hex_digits [simp]: "length (hex_digits k n) = k"
  by (induction k arbitrary: n) auto

lemma set_hex_digits: "set (hex_digits k n) \<subseteq> hex_char ` {..<16}"
  by (induction k arbitrary: n) auto

lemma parse_hex_append:
  "parse_hex acc (xs @ ys) = (case parse_hex acc xs of None \<Rightarrow> None | Some a \<Rightarrow> parse_hex a ys)"
  by (induction xs arbitrary: acc) (auto split: option.splits)

lemma parse_hex_digits: "parse_hex acc (hex_digits k n) = Some (acc * 16 ^ k + n mod 16 ^ k)"
proof (induction k arbitrary: n)
  case (Suc k)
  have "n mod (16 * 16 ^ k) = 16 * (n div 16 mod 16 ^ k) + n mod 16"
    by (simp add: mod_mult2_eq)
  with Suc show ?case
    by (simp add: parse_hex_append hex_val_hex_char hex_char_not_dash algebra_simps)
qed simp

lemma canonical_uString_parse: "parse_hex 0 (uString canonical_uuid u) = Some (unat u)"
proof -
  let ?h = "hex_digits 32 (unat u)"
  have "parse_hex 0 (uString canonical_uuid u) =
      parse_hex 0 (take 8 ?h @ take 4 (drop 8 ?h) @ take 4 (drop 12 ?h) @ take 4 (drop 16 ?h) @ drop 20 ?h)"
    by (simp add: canonical_uuid_def Let_def parse_hex_append split: option.splits)
  also have "take 8 ?h @ take 4 (drop 8 ?h) @ take 4 (drop 12 ?h) @ take 4 (drop 16 ?h) @ drop 20 ?h = ?h"
    by (simp add: append_take_drop_id drop_drop flip: take_add append_assoc)
  also have "parse_hex 0 ?h = Some (unat u)"
    using unsigned_less [of u, where 'a = nat] by (simp add: parse_hex_digits)
  finally show ?thesis .
qed

lemma canonical_uString_set: "set (uString canonical_uuid u) \<subseteq> set uuid_alphabet"
proof -
  have "set (uString canonical_uuid u) \<subseteq> insert (CHR ''-'') (set (hex_digits 32 (unat u)))"
    by (auto simp: canonical_uuid_def Let_def dest: in_set_takeD in_set_dropD)
  moreover have "set (hex_digits 32 (unat u)) \<subseteq> set uuid_alphabet"
    using set_hex_digits hex_char_alphabet by fastforce
  moreover have "CHR ''-'' \<in> set uuid_alphabet" by (simp add: uuid_alphabet_def)
  ultimately show ?thesis by blast
qed

lemma canonical_uuid_ok: "uuid_lib_ok canonical_uuid"
proof -
  have len: "length (uString canonical_uuid u) = 36" for u
    by (simp add: canonical_uuid_def Let_def)
  have "uFromString canonical_uuid s =
      (if length s \<noteq> 36 then None else map_option of_nat (parse_hex 0 s))" for s
    by (simp add: canonical_uuid_def)
  then have "uFromString canonical_uuid (uString canonical_uuid u) = Some u" for u
    by (simp add: len canonical_uString_parse)
  moreover have "uString canonical_uuid u \<noteq> []" for u
    using len [of u] by (metis list.size(3) zero_neq_numeral)
  moreover have "uFromString canonical_uuid [] = None"
    by (simp add: canonical_uuid_def)
  ultimately show ?thesis
    using canonical_uString_set by (auto simp: uuid_lib_ok_def)
qed

end
