(* ===== verification/Go_Values.thy ===== *)
theory Go_Values
  imports Prelude
begin

text \<open>
  Values of Go's \<^verbatim>\<open>interface{}\<close>: what the fields of a work item, the literals of a
  search expression and the arguments of an error carry. The theory holds the dynamic types
  the repository tells apart, \<^verbatim>\<open>reflect.Kind\<close>, the comparison \<^verbatim>\<open>==\<close> on
  interface values (which panics on slices and maps), \<^verbatim>\<open>reflect.DeepEqual\<close>, and
  the bit-level view of \<^verbatim>\<open>float64\<close> that the conversions need.
\<close>

section \<open>float64\<close>

text \<open>An IEEE 754 double as its 64 bits.\<close>

type_synonym float64 = "64 word"

definition f_exp :: "float64 \<Rightarrow> nat" where
  "f_exp f = (unat f div 2 ^ 52) mod 2 ^ 11"

definition f_man :: "float64 \<Rightarrow> nat" where
  "f_man f = unat f mod 2 ^ 52"

definition f_neg :: "float64 \<Rightarrow> bool" where
  "f_neg f \<longleftrightarrow> 2 ^ 63 \<le> unat f"

definition f_nan :: "float64 \<Rightarrow> bool" where
  "f_nan f \<longleftrightarrow> f_exp f = 2047 \<and> f_man f \<noteq> 0"

definition f_inf :: "float64 \<Rightarrow> bool" where
  "f_inf f \<longleftrightarrow> f_exp f = 2047 \<and> f_man f = 0"

definition f_zero :: "float64 \<Rightarrow> bool" where
  "f_zero f \<longleftrightarrow> f_exp f = 0 \<and> f_man f = 0"

text \<open>Go's \<^verbatim>\<open>==\<close> on floats: a NaN differs from everything, the two zeros are equal.\<close>

definition f_eq :: "float64 \<Rightarrow> float64 \<Rightarrow> bool" where
  "f_eq a b \<longleftrightarrow> \<not> f_nan a \<and> \<not> f_nan b \<and> (a = b \<or> f_zero a \<and> f_zero b)"

text \<open>A finite value is \<open>\<plusminus> f_sig * 2 ^ f_e2\<close>.\<close>

definition f_sig :: "float64 \<Rightarrow> nat" where
  "f_sig f = (if f_exp f = 0 then f_man f else f_man f + 2 ^ 52)"

definition f_e2 :: "float64 \<Rightarrow> int" where
  "f_e2 f = int (max (f_exp f) 1) - 1075"

text \<open>\<^verbatim>\<open>f == math.Trunc(f)\<close>: true for the infinities, false for a NaN.\<close>

definition f_whole :: "float64 \<Rightarrow> bool" where
  "f_whole f \<longleftrightarrow>
     \<not> f_nan f \<and> (f_inf f \<or> 0 \<le> f_e2 f \<or> f_sig f mod 2 ^ nat (- f_e2 f) = 0)"

definition f_trunc :: "float64 \<Rightarrow> int" where
  "f_trunc f =
     (let a = (if 0 \<le> f_e2 f then f_sig f * 2 ^ nat (f_e2 f) else f_sig f div 2 ^ nat (- f_e2 f))
      in if f_neg f then - int a else int a)"

text \<open>
  \<^verbatim>\<open>int(f)\<close> and \<^verbatim>\<open>int64(f)\<close>: truncation; a value outside the range of
  \<^verbatim>\<open>int64\<close> gives the amd64 result \<open>0x8000000000000000\<close>.
\<close>

definition f_to_int :: "float64 \<Rightarrow> 64 word" where
  "f_to_int f =
     (if \<not> f_nan f \<and> \<not> f_inf f \<and> - (2 ^ 63) \<le> f_trunc f \<and> f_trunc f < 2 ^ 63
      then word_of_int (f_trunc f) else 0x8000000000000000)"

section \<open>Interface values\<close>

record markup_content =
  mc_Content :: string
  mc_Markup :: string

record codebase_content =
  cb_Repository :: string
  cb_Branch :: string
  cb_FileName :: string
  cb_LineNumber :: "64 word"
  cb_CodebaseID :: string

text \<open>
  One constructor per dynamic type. \<open>VNamedString\<close> is a value of a named type whose
  underlying type is \<^verbatim>\<open>string\<close> (it has the reflect kind \<^verbatim>\<open>String\<close> but
  fails the type assertion \<^verbatim>\<open>.(string)\<close>). A time is an instant in nanoseconds and a
  location. \<open>VNilSlice\<close> is the nil slice of type \<^verbatim>\<open>[]interface{}\<close>, which is not
  the nil interface. A map is an association list without repeated keys. \<open>VOther\<close> is any
  other type, with a name and an identity.
\<close>

datatype goval =
    VNil
  | VString string
  | VNamedString string string
  | VInt "64 word"
  | VInt64 "64 word"
  | VUint "64 word"
  | VUint64 "64 word"
  | VFloat float64
  | VBool bool
  | VUUID uuid
  | VTime int string
  | VBytes string
  | VStrSlice "string list"
  | VSlice "goval list"
  | VNilSlice
  | VMap "(string \<times> goval) list"
  | VMarkup markup_content
  | VCodebase codebase_content
  | VOther string nat

datatype reflect_kind =
    RInvalid | RString | RInt | RInt64 | RUint | RUint64 | RFloat64 | RBool
  | RStruct | RArray | RSlice | RMap | ROther

fun reflect_Kind :: "goval \<Rightarrow> reflect_kind" where
  "reflect_Kind VNil = RInvalid"
| "reflect_Kind (VString _) = RString"
| "reflect_Kind (VNamedString _ _) = RString"
| "reflect_Kind (VInt _) = RInt"
| "reflect_Kind (VInt64 _) = RInt64"
| "reflect_Kind (VUint _) = RUint"
| "reflect_Kind (VUint64 _) = RUint64"
| "reflect_Kind (VFloat _) = RFloat64"
| "reflect_Kind (VBool _) = RBool"
| "reflect_Kind (VUUID _) = RArray"
| "reflect_Kind (VTime _ _) = RStruct"
| "reflect_Kind (VBytes _) = RSlice"
| "reflect_Kind (VStrSlice _) = RSlice"
| "reflect_Kind (VSlice _) = RSlice"
| "reflect_Kind VNilSlice = RSlice"
| "reflect_Kind (VMap _) = RMap"
| "reflect_Kind (VMarkup _) = RStruct"
| "reflect_Kind (VCodebase _) = RStruct"
| "reflect_Kind (VOther _ _) = ROther"

text \<open>
  The comparison \<^verbatim>\<open>a == b\<close> of two interface values: different dynamic types are
  unequal; two slices or two maps of the same type make the comparison panic.
\<close>

definition go_eq :: "goval \<Rightarrow> goval \<Rightarrow> ('e, bool) gres" where
  "go_eq a b =
     (case a of
        VFloat f \<Rightarrow> (case b of VFloat g \<Rightarrow> Ok (f_eq f g) | _ \<Rightarrow> Ok False)
      | VBytes _ \<Rightarrow> (case b of VBytes _ \<Rightarrow> Panic | _ \<Rightarrow> Ok False)
      | VStrSlice _ \<Rightarrow> (case b of VStrSlice _ \<Rightarrow> Panic | _ \<Rightarrow> Ok False)
      | VSlice _ \<Rightarrow> (case b of VSlice _ \<Rightarrow> Panic | VNilSlice \<Rightarrow> Panic | _ \<Rightarrow> Ok False)
      | VNilSlice \<Rightarrow> (case b of VSlice _ \<Rightarrow> Panic | VNilSlice \<Rightarrow> Panic | _ \<Rightarrow> Ok False)
      | VMap _ \<Rightarrow> (case b of VMap _ \<Rightarrow> Panic | _ \<Rightarrow> Ok False)
      | _ \<Rightarrow> Ok (a = b))"

text \<open>
  \<^verbatim>\<open>reflect.DeepEqual\<close>: slices element by element, maps key by key, everything
  else as \<^verbatim>\<open>==\<close>.
\<close>

lemma size_zip_left [termination_simp]:
  "(a, b) \<in> set (zip xs ys) \<Longrightarrow> size a < Suc (size_list size xs)"
  by (auto dest: set_zip_leftD simp: less_Suc_eq_le size_list_estimation')

fun deep_equal :: "goval \<Rightarrow> goval \<Rightarrow> bool" where
  "deep_equal (VSlice xs) b =
     (case b of VSlice ys \<Rightarrow>
        length xs = length ys \<and> (\<forall>(x, y) \<in> set (zip xs ys). deep_equal x y)
      | _ \<Rightarrow> False)"
| "deep_equal (VMap m) b =
     (case b of VMap n \<Rightarrow>
        length m = length n \<and>
        (\<forall>(k, v) \<in> set m. case map_of n k of None \<Rightarrow> False | Some w \<Rightarrow> deep_equal v w)
      | _ \<Rightarrow> False)"
| "deep_equal (VStrSlice xs) b = (b = VStrSlice xs)"
| "deep_equal (VBytes xs) b = (b = VBytes xs)"
| "deep_equal VNilSlice b = (b = VNilSlice)"
| "deep_equal a b = (case (go_eq a b :: (unit, bool) gres) of Ok r \<Rightarrow> r | _ \<Rightarrow> False)"

text \<open>Types on which \<^verbatim>\<open>==\<close> never panics.\<close>

definition comparable :: "goval \<Rightarrow> bool" where
  "comparable v \<longleftrightarrow> reflect_Kind v \<notin> {RSlice, RMap}"

text \<open>A slice that may be nil as an interface value, and its elements.\<close>

definition slice_val :: "goval list option \<Rightarrow> goval" where
  "slice_val s = (case s of None \<Rightarrow> VNilSlice | Some xs \<Rightarrow> VSlice xs)"

definition slice_elems :: "'a list option \<Rightarrow> 'a list" where
  "slice_elems s = (case s of None \<Rightarrow> [] | Some xs \<Rightarrow> xs)"

text \<open>
  The elements that \<^verbatim>\<open>reflect.ValueOf(v).Index(i).Interface()\<close> yields for an array or
  slice. The bytes of a UUID or a byte slice are values of type \<^verbatim>\<open>uint8\<close>.
\<close>

definition uuid_bytes :: "uuid \<Rightarrow> nat list" where
  "uuid_bytes u = map (\<lambda>i. (unat u div 256 ^ (15 - i)) mod 256) [0..<16]"

fun reflect_elems :: "goval \<Rightarrow> goval list" where
  "reflect_elems (VSlice xs) = xs"
| "reflect_elems (VStrSlice ss) = map VString ss"
| "reflect_elems (VBytes bs) = map (\<lambda>c. VOther ''uint8'' (of_char c)) bs"
| "reflect_elems (VUUID u) = map (VOther ''uint8'') (uuid_bytes u)"
| "reflect_elems _ = []"

text \<open>A value without NaN anywhere: those are the values equal to themselves.\<close>

fun no_nan :: "goval \<Rightarrow> bool" where
  "no_nan (VFloat f) = (\<not> f_nan f)"
| "no_nan (VSlice xs) = (\<forall>x \<in> set xs. no_nan x)"
| "no_nan (VMap m) = (distinct (map fst m) \<and> (\<forall>(k, v) \<in> set m. no_nan v))"
| "no_nan _ = True"

section \<open>Times\<close>

text \<open>\<^verbatim>\<open>t.UnixNano()\<close> is the instant in 64-bit two's complement arithmetic.\<close>

definition UnixNano :: "int \<Rightarrow> 64 word" where
  "UnixNano t = word_of_int t"

text \<open>\<^verbatim>\<open>time.Unix(0, n)\<close>: the instant in the local time zone.\<close>

definition time_Unix0 :: "64 word \<Rightarrow> goval" where
  "time_Unix0 n = VTime (sint n) ''Local''"

section \<open>Facts\<close>

lemma reflect_Kind_RInvalid_iff [simp]: "reflect_Kind v = RInvalid \<longleftrightarrow> v = VNil"
  by (cases v) auto

lemma reflect_Kind_RString_iff:
  "reflect_Kind v = RString \<longleftrightarrow> (\<exists>s. v = VString s) \<or> (\<exists>t s. v = VNamedString t s)"
  by (cases v) auto

lemma reflect_Kind_RFloat64_iff [simp]: "reflect_Kind v = RFloat64 \<longleftrightarrow> (\<exists>f. v = VFloat f)"
  by (cases v) auto

lemma reflect_Kind_RBool_iff [simp]: "reflect_Kind v = RBool \<longleftrightarrow> (\<exists>b. v = VBool b)"
  by (cases v) auto

lemma reflect_Kind_RMap_iff [simp]: "reflect_Kind v = RMap \<longleftrightarrow> (\<exists>m. v = VMap m)"
  by (cases v) auto

lemma go_eq_comparable: "comparable a \<or> comparable b \<Longrightarrow> go_eq a b \<noteq> Panic"
  by (auto simp: go_eq_def comparable_def split: goval.splits)

lemma go_eq_no_Err [simp]: "go_eq a b \<noteq> Err e"
  by (auto simp: go_eq_def split: goval.splits)

lemma go_eq_refl: "comparable v \<Longrightarrow> no_nan v \<Longrightarrow> go_eq v v = Ok True"
  by (auto simp: go_eq_def comparable_def f_eq_def split: goval.splits)

lemma go_eq_VNil_left: "go_eq VNil v = Ok (v = VNil)"
  by (auto simp: go_eq_def)

lemma go_eq_sym: "go_eq a b = go_eq b a"
  by (auto simp: go_eq_def f_eq_def split: goval.splits)

lemma deep_equal_refl: "no_nan v \<Longrightarrow> deep_equal v v"
proof (induction v rule: no_nan.induct)
  case (2 xs)
  then show ?case by (auto simp: zip_same)
next
  case (3 m)
  then show ?case by (fastforce simp: map_of_is_SomeI)
qed (auto simp: go_eq_def f_eq_def)

lemma sint_UnixNano: "- (2 ^ 63) \<le> t \<Longrightarrow> t < 2 ^ 63 \<Longrightarrow> sint (UnixNano t) = t"
  by (simp add: UnixNano_def sint_uint uint_word_of_int_eq signed_take_bit_take_bit signed_take_bit_int_eq_self)

lemma slice_elems_simps [simp]: "slice_elems None = []" "slice_elems (Some xs) = xs"
  by (simp_all add: slice_elems_def)

end
