(* ===== verification/Errors.thy ===== *)
theory Errors
  imports Go_Values
begin

text \<open>
  The error values of \<^verbatim>\<open>errors/errors.go\<close>, their translation to HTTP in
  \<^verbatim>\<open>jsonapi/jsonapi_utility.go\<close>, and the recognition of PostgreSQL error codes in
  \<^verbatim>\<open>gormsupport/postgres.go\<close>.

  Errors made by third-party packages are constructors too: \<open>EErrorf\<close> is
  \<^verbatim>\<open>errors.New\<close>/\<^verbatim>\<open>Errorf\<close> with its format text, \<open>EWrap\<close> is
  \<^verbatim>\<open>Wrap\<close>/\<^verbatim>\<open>WithStack\<close>, \<open>EPq\<close> a PostgreSQL driver error,
  \<open>EGoaService\<close> and \<open>EGoaResponse\<close> the two error types of goa. What those packages
  compute (\<^verbatim>\<open>errs.Cause\<close>, message texts) is a parameter of the definitions below.
\<close>

section \<open>Error values\<close>

record bad_parameter =
  bp_parameter :: string
  bp_value :: goval
  bp_expectedValue :: goval
  bp_hasExpectedValue :: bool
  bp_preDefinedErrorMessage :: "string option"

record not_found =
  nf_entity :: string
  nf_ID :: string
  nf_preDefinedErrorMessage :: "string option"

datatype go_error =
    EErrorf string
  | EWrap string go_error
  | EPq string string string
  | EGoaService int string
  | EGoaResponse int string string string
  | InternalError go_error
  | UnauthorizedError string
  | ForbiddenError string
  | VersionConflictError string
  | DataConflictError string
  | ConversionError string
  | BadParameterError bad_parameter
  | NotFoundError not_found

type_synonym 'a res = "(go_error, 'a) gres"

definition NewInternalError :: "go_error \<Rightarrow> go_error" where
  "NewInternalError e = InternalError e"

definition NewInternalErrorFromString :: "string \<Rightarrow> go_error" where
  "NewInternalErrorFromString msg = InternalError (EErrorf msg)"

definition NewUnauthorizedError :: "string \<Rightarrow> go_error" where
  "NewUnauthorizedError msg = UnauthorizedError msg"

definition NewForbiddenError :: "string \<Rightarrow> go_error" where
  "NewForbiddenError msg = ForbiddenError msg"

definition NewVersionConflictError :: "string \<Rightarrow> go_error" where
  "NewVersionConflictError msg = VersionConflictError msg"

definition NewDataConflictError :: "string \<Rightarrow> go_error" where
  "NewDataConflictError msg = DataConflictError msg"

definition NewConversionError :: "string \<Rightarrow> go_error" where
  "NewConversionError msg = ConversionError msg"

definition NewBadParameterError :: "string \<Rightarrow> goval \<Rightarrow> go_error" where
  "NewBadParameterError param actual =
     BadParameterError \<lparr>bp_parameter = param, bp_value = actual, bp_expectedValue = VNil,
       bp_hasExpectedValue = False, bp_preDefinedErrorMessage = None\<rparr>"

definition NewBadParameterErrorFromString :: "string \<Rightarrow> go_error" where
  "NewBadParameterErrorFromString msg =
     BadParameterError \<lparr>bp_parameter = [], bp_value = VNil, bp_expectedValue = VNil,
       bp_hasExpectedValue = False, bp_preDefinedErrorMessage = Some msg\<rparr>"

text \<open>The method \<^verbatim>\<open>Expected\<close> of \<^verbatim>\<open>BadParameterError\<close>.\<close>

fun Expected :: "go_error \<Rightarrow> goval \<Rightarrow> go_error" where
  "Expected (BadParameterError b) v =
     BadParameterError (b\<lparr>bp_expectedValue := v, bp_hasExpectedValue := True\<rparr>)"
| "Expected e v = e"

definition NewNotFoundError :: "string \<Rightarrow> string \<Rightarrow> go_error" where
  "NewNotFoundError entity i =
     NotFoundError \<lparr>nf_entity = entity, nf_ID = i, nf_preDefinedErrorMessage = None\<rparr>"

definition NewNotFoundErrorFromString :: "string \<Rightarrow> go_error" where
  "NewNotFoundErrorFromString msg =
     NotFoundError \<lparr>nf_entity = [], nf_ID = [], nf_preDefinedErrorMessage = Some msg\<rparr>"

text \<open>
  The methods \<^verbatim>\<open>Error()\<close>. \<open>fmtv\<close> is the verb \<^verbatim>\<open>%v\<close> on an interface
  value; \<open>text\<close> gives the messages of errors that other packages define.
\<close>

fun Error :: "(goval \<Rightarrow> string) \<Rightarrow> (go_error \<Rightarrow> string) \<Rightarrow> go_error \<Rightarrow> string" where
  "Error fmtv text (InternalError e) = Error fmtv text e"
| "Error fmtv text (UnauthorizedError m) = m"
| "Error fmtv text (ForbiddenError m) = m"
| "Error fmtv text (VersionConflictError m) = m"
| "Error fmtv text (DataConflictError m) = m"
| "Error fmtv text (ConversionError m) = m"
| "Error fmtv text (BadParameterError b) =
     (if bp_hasExpectedValue b
      then ''Bad value for parameter '' @ [CHR 0x27] @ bp_parameter b @ [CHR 0x27] @ '': '' @
           [CHR 0x27] @ fmtv (bp_value b) @ [CHR 0x27] @ '' (expected: '' @
           [CHR 0x27] @ fmtv (bp_expectedValue b) @ [CHR 0x27] @ '')''
      else (case bp_preDefinedErrorMessage b of
              Some m \<Rightarrow> m
            | None \<Rightarrow> ''Bad value for parameter '' @ [CHR 0x27] @ bp_parameter b @ [CHR 0x27] @
                '': '' @ [CHR 0x27] @ fmtv (bp_value b) @ [CHR 0x27]))"
| "Error fmtv text (NotFoundError n) =
     (case nf_preDefinedErrorMessage n of
        Some m \<Rightarrow> m
      | None \<Rightarrow> nf_entity n @ '' with id '' @ [CHR 0x27] @ nf_ID n @ [CHR 0x27] @ '' not found'')"
| "Error fmtv text e = text e"

section \<open>Recognising errors\<close>

text \<open>
  Each recogniser looks at the cause of the error. \<open>cause\<close> is
  \<^verbatim>\<open>errs.Cause\<close> of \<^verbatim>\<open>github.com/pkg/errors\<close>, whose documented behaviour
  is \<open>cause_ok\<close>: it removes every layer of wrapping and keeps other errors.
\<close>

fun is_wrap :: "go_error \<Rightarrow> bool" where
  "is_wrap (EWrap _ _) = True"
| "is_wrap _ = False"

definition cause_ok :: "(go_error \<Rightarrow> go_error) \<Rightarrow> bool" where
  "cause_ok cause \<longleftrightarrow>
     (\<forall>m e. cause (EWrap m e) = cause e) \<and> (\<forall>e. \<not> is_wrap e \<longrightarrow> cause e = e)"

definition IsInternalError :: "(go_error \<Rightarrow> go_error) \<Rightarrow> go_error \<Rightarrow> bool \<times> go_error option" where
  "IsInternalError cause err =
     (case cause err of InternalError e \<Rightarrow> (True, Some (InternalError e)) | _ \<Rightarrow> (False, None))"

definition IsUnauthorizedError :: "(go_error \<Rightarrow> go_error) \<Rightarrow> go_error \<Rightarrow> bool \<times> go_error option" where
  "IsUnauthorizedError cause err =
     (case cause err of UnauthorizedError m \<Rightarrow> (True, Some (UnauthorizedError m)) | _ \<Rightarrow> (False, None))"

definition IsForbiddenError :: "(go_error \<Rightarrow> go_error) \<Rightarrow> go_error \<Rightarrow> bool \<times> go_error option" where
  "IsForbiddenError cause err =
     (case cause err of ForbiddenError m \<Rightarrow> (True, Some (ForbiddenError m)) | _ \<Rightarrow> (False, None))"

definition IsDataConflictError :: "(go_error \<Rightarrow> go_error) \<Rightarrow> go_error \<Rightarrow> bool \<times> go_error option" where
  "IsDataConflictError cause err =
     (case cause err of DataConflictError m \<Rightarrow> (True, Some (DataConflictError m)) | _ \<Rightarrow> (False, None))"

definition IsVersionConflictError :: "(go_error \<Rightarrow> go_error) \<Rightarrow> go_error \<Rightarrow> bool \<times> go_error option" where
  "IsVersionConflictError cause err =
     (case cause err of VersionConflictError m \<Rightarrow> (True, Some (VersionConflictError m)) | _ \<Rightarrow> (False, None))"

definition IsBadParameterError :: "(go_error \<Rightarrow> go_error) \<Rightarrow> go_error \<Rightarrow> bool \<times> go_error option" where
  "IsBadParameterError cause err =
     (case cause err of BadParameterError b \<Rightarrow> (True, Some (BadParameterError b)) | _ \<Rightarrow> (False, None))"

definition IsConversionError :: "(go_error \<Rightarrow> go_error) \<Rightarrow> go_error \<Rightarrow> bool \<times> go_error option" where
  "IsConversionError cause err =
     (case cause err of ConversionError m \<Rightarrow> (True, Some (ConversionError m)) | _ \<Rightarrow> (False, None))"

definition IsNotFoundError :: "(go_error \<Rightarrow> go_error) \<Rightarrow> go_error \<Rightarrow> bool \<times> go_error option" where
  "IsNotFoundError cause err =
     (case cause err of NotFoundError n \<Rightarrow> (True, Some (NotFoundError n)) | _ \<Rightarrow> (False, None))"

text \<open>The constructor chosen from an HTTP status code; \<open>msg\<close> is the formatted message.\<close>

definition FromStatusCode :: "int \<Rightarrow> string \<Rightarrow> go_error" where
  "FromStatusCode statusCode msg =
     (if statusCode = 404 then NewNotFoundErrorFromString msg
      else if statusCode = 400 then NewBadParameterErrorFromString msg
      else if statusCode = 409 then NewVersionConflictError msg
      else if statusCode = 401 then NewUnauthorizedError msg
      else if statusCode = 403 then NewForbiddenError msg
      else NewInternalErrorFromString msg)"

section \<open>PostgreSQL error codes\<close>

definition IsCheckViolation :: "go_error option \<Rightarrow> string \<Rightarrow> bool" where
  "IsCheckViolation err constraintName =
     (case err of None \<Rightarrow> False
      | Some (EPq code constraint msg) \<Rightarrow> code = ''23514'' \<and> constraint = constraintName
      | Some _ \<Rightarrow> False)"

definition IsDataException :: "go_error option \<Rightarrow> bool" where
  "IsDataException err =
     (case err of None \<Rightarrow> False
      | Some (EPq code constraint msg) \<Rightarrow> take 2 code = ''22''
      | Some _ \<Rightarrow> False)"

definition IsInvalidCatalogName :: "go_error option \<Rightarrow> bool" where
  "IsInvalidCatalogName err =
     (case err of None \<Rightarrow> False
      | Some (EPq code constraint msg) \<Rightarrow> code = ''3D000''
      | Some _ \<Rightarrow> False)"

definition IsUniqueViolation :: "go_error option \<Rightarrow> string \<Rightarrow> bool" where
  "IsUniqueViolation err indexName =
     (case err of None \<Rightarrow> False
      | Some (EPq code constraint msg) \<Rightarrow> code = ''23505'' \<and> constraint = indexName
      | Some _ \<Rightarrow> False)"

definition IsForeignKeyViolation :: "go_error option \<Rightarrow> string \<Rightarrow> bool" where
  "IsForeignKeyViolation err indexName =
     (case err of None \<Rightarrow> False
      | Some (EPq code constraint msg) \<Rightarrow> code = ''23503'' \<and> constraint = indexName
      | Some _ \<Rightarrow> False)"

section \<open>JSON API errors\<close>

record jsonapi_error =
  je_ID :: "string option"
  je_Code :: string
  je_Status :: string
  je_Title :: string
  je_Detail :: string

text \<open>The other packages' functions used by the translation.\<close>

record err_env =
  ee_cause :: "go_error \<Rightarrow> go_error"
  ee_fmtv :: "goval \<Rightarrow> string"
  ee_text :: "go_error \<Rightarrow> string"
  ee_statusText :: "int \<Rightarrow> string"

definition mk_jsonapi :: "err_env \<Rightarrow> go_error \<Rightarrow> string \<Rightarrow> string \<Rightarrow> int \<Rightarrow> jsonapi_error \<times> int" where
  "mk_jsonapi E c code title status =
     (\<lparr>je_ID = None, je_Code = code, je_Status = itoa status, je_Title = title,
       je_Detail = Error (ee_fmtv E) (ee_text E) c\<rparr>, status)"

definition ErrorToJSONAPIError :: "err_env \<Rightarrow> go_error \<Rightarrow> jsonapi_error \<times> int" where
  "ErrorToJSONAPIError E err =
     (let c = ee_cause E err in
      case c of
        NotFoundError _ \<Rightarrow> mk_jsonapi E c ''not_found'' ''Not found error'' 404
      | ConversionError _ \<Rightarrow> mk_jsonapi E c ''conversion_error'' ''Conversion error'' 400
      | BadParameterError _ \<Rightarrow> mk_jsonapi E c ''bad_parameter'' ''Bad parameter error'' 400
      | VersionConflictError _ \<Rightarrow> mk_jsonapi E c ''version_conflict'' ''Version conflict error'' 409
      | DataConflictError _ \<Rightarrow> mk_jsonapi E c ''data_conflict_error'' ''Data conflict error'' 409
      | InternalError _ \<Rightarrow> mk_jsonapi E c ''internal_error'' ''Internal error'' 500
      | UnauthorizedError _ \<Rightarrow> mk_jsonapi E c ''unauthorized_error'' ''Unauthorized error'' 401
      | ForbiddenError _ \<Rightarrow> mk_jsonapi E c ''forbidden_error'' ''Forbidden error'' 403
      | EGoaService status token \<Rightarrow>
          (\<lparr>je_ID = Some token, je_Code = ''unknown_error'', je_Status = itoa status,
            je_Title = ee_statusText E status, je_Detail = Error (ee_fmtv E) (ee_text E) c\<rparr>, status)
      | EGoaResponse status token code detail \<Rightarrow>
          (\<lparr>je_ID = Some token, je_Code = code, je_Status = itoa status,
            je_Title = ee_statusText E status, je_Detail = detail\<rparr>, status)
      | _ \<Rightarrow> mk_jsonapi E c ''unknown_error'' ''Unknown error'' 500)"

definition ErrorToJSONAPIErrors :: "err_env \<Rightarrow> go_error \<Rightarrow> jsonapi_error list \<times> int" where
  "ErrorToJSONAPIErrors E err =
     (let (jerr, httpStatusCode) = ErrorToJSONAPIError E err in ([jerr], httpStatusCode))"

text \<open>
  Which responses the context of a request offers, besides
  \<^verbatim>\<open>InternalServerError\<close>, and the response that is sent.
\<close>

record response_ctx =
  rc_BadRequest :: bool
  rc_NotFound :: bool
  rc_Unauthorized :: bool
  rc_Forbidden :: bool
  rc_Conflict :: bool

datatype error_response =
    RespBadRequest "jsonapi_error list"
  | RespNotFound "jsonapi_error list"
  | RespUnauthorized "jsonapi_error list"
  | RespForbidden "jsonapi_error list"
  | RespConflict "jsonapi_error list"
  | RespInternalServerError "jsonapi_error list"

definition JSONErrorResponse :: "err_env \<Rightarrow> response_ctx \<Rightarrow> go_error \<Rightarrow> error_response" where
  "JSONErrorResponse E ctx err =
     (let (jsonErr, status) = ErrorToJSONAPIErrors E err in
      if status = 400 \<and> rc_BadRequest ctx then RespBadRequest jsonErr
      else if status = 404 \<and> rc_NotFound ctx then RespNotFound jsonErr
      else if status = 401 \<and> rc_Unauthorized ctx then RespUnauthorized jsonErr
      else if status = 403 \<and> rc_Forbidden ctx then RespForbidden jsonErr
      else if status = 409 \<and> rc_Conflict ctx then RespConflict jsonErr
      else RespInternalServerError jsonErr)"

text \<open>
  Member names: every maximal run of bytes other than letters, digits and underscores
  becomes one underscore; then the underscores at both ends go.
\<close>

definition member_char :: "char \<Rightarrow> bool" where
  "member_char c \<longleftrightarrow>
     (let n = (of_char c :: nat) in
      48 \<le> n \<and> n \<le> 57 \<or> 65 \<le> n \<and> n \<le> 90 \<or> 97 \<le> n \<and> n \<le> 122 \<or> n = 95)"

fun collapse :: "bool \<Rightarrow> string \<Rightarrow> string" where
  "collapse inRun [] = []"
| "collapse inRun (c # cs) =
     (if member_char c then c # collapse False cs
      else if inRun then collapse True cs
      else CHR ''_'' # collapse True cs)"

definition FormatMemberName :: "string \<Rightarrow> string" where
  "FormatMemberName name =
     (let s = dropWhile (\<lambda>c. c = CHR ''_'') (collapse False name)
      in rev (dropWhile (\<lambda>c. c = CHR ''_'') (rev s)))"

section \<open>Facts\<close>

text \<open>Adding layers of wrapping.\<close>

fun wrap_all :: "string list \<Rightarrow> go_error \<Rightarrow> go_error" where
  "wrap_all [] e = e"
| "wrap_all (m # ms) e = EWrap m (wrap_all ms e)"

lemmas new_error_defs [go_simps] =
  NewInternalError_def NewInternalErrorFromString_def NewUnauthorizedError_def
  NewForbiddenError_def NewVersionConflictError_def NewDataConflictError_def
  NewConversionError_def NewBadParameterError_def NewBadParameterErrorFromString_def
  NewNotFoundError_def NewNotFoundErrorFromString_def

lemma cause_wrap_all: "cause_ok cause \<Longrightarrow> \<not> is_wrap e \<Longrightarrow> cause (wrap_all ms e) = e"
  by (induction ms) (auto simp: cause_ok_def)

lemma FromStatusCode_not_wrap [simp]: "\<not> is_wrap (FromStatusCode s msg)"
  by (simp add: FromStatusCode_def go_simps)

lemma member_char_underscore [simp]: "member_char (CHR ''_'')"
  by (simp add: member_char_def)

lemma collapse_member: "c \<in> set (collapse b s) \<Longrightarrow> member_char c"
  by (induction b s rule: collapse.induct) (auto split: if_splits)

lemma collapse_id: "(\<And>c. c \<in> set s \<Longrightarrow> member_char c) \<Longrightarrow> collapse False s = s"
  by (induction s) auto

lemma in_set_dropWhile: "x \<in> set (dropWhile P xs) \<Longrightarrow> x \<in> set xs"
  by (auto dest: set_dropWhileD)

lemma FormatMemberName_subset: "set (FormatMemberName s) \<subseteq> set (collapse False s)"
  by (auto simp: FormatMemberName_def Let_def dest!: in_set_dropWhile)

lemma last_dropWhile: "dropWhile P xs \<noteq> [] \<Longrightarrow> last (dropWhile P xs) = last xs"
  by (induction xs) (auto split: if_splits)

lemma dropWhile_hd_idle: "xs = [] \<or> \<not> P (hd xs) \<Longrightarrow> dropWhile P xs = xs"
  by (cases xs) auto

text \<open>Trimming both ends leaves a string without the trimmed byte at either end.\<close>

lemma trim_ends:
  fixes P :: "'a \<Rightarrow> bool" and xs :: "'a list"
  defines "t \<equiv> rev (dropWhile P (rev (dropWhile P xs)))"
  assumes "t \<noteq> []"
  shows "\<not> P (hd t)" and "\<not> P (last t)"
proof -
  let ?s = "dropWhile P xs"
  have ne: "dropWhile P (rev ?s) \<noteq> []" using assms by auto
  then show "\<not> P (last t)"
    using hd_dropWhile [OF ne] by (simp add: t_def last_rev)
  have "?s \<noteq> []" using ne by (cases ?s) auto
  then have "\<not> P (hd ?s)" by (rule hd_dropWhile)
  moreover have "hd t = hd ?s"
    using last_dropWhile [OF ne] \<open>?s \<noteq> []\<close> by (simp add: t_def hd_rev last_rev)
  ultimately show "\<not> P (hd t)" by simp
qed

section \<open>Properties\<close>

text \<open>
  The translation of errors to HTTP inverts the construction from a status code: an error
  made by \<^verbatim>\<open>FromStatusCode\<close> and wrapped any number of times is reported with the
  same status when that is one of the five client errors the package knows, and as 500
  otherwise; the detail is the message.
\<close>

theorem status_code_roundtrip:
  assumes "cause_ok (ee_cause E)" and "\<And>m. ee_text E (EErrorf m) = m"
  shows "snd (ErrorToJSONAPIError E (wrap_all ms (FromStatusCode s msg))) =
           (if s \<in> {400, 401, 403, 404, 409} then s else 500) \<and>
         je_Detail (fst (ErrorToJSONAPIError E (wrap_all ms (FromStatusCode s msg)))) = msg"
proof -
  have "ee_cause E (wrap_all ms (FromStatusCode s msg)) = FromStatusCode s msg"
    by (rule cause_wrap_all [OF assms(1)]) simp
  then show ?thesis
    by (simp add: ErrorToJSONAPIError_def mk_jsonapi_def FromStatusCode_def go_simps assms(2))
qed

text \<open>The witness instantiates the parameters with an unwrapping function and printers.\<close>

fun unwrap_cause :: "go_error \<Rightarrow> go_error" where
  "unwrap_cause (EWrap m e) = unwrap_cause e"
| "unwrap_cause e = e"

definition sample_env :: err_env where
  "sample_env = \<lparr>ee_cause = unwrap_cause, ee_fmtv = (\<lambda>v. case v of VString s \<Rightarrow> s | _ \<Rightarrow> ''?''),
     ee_text = (\<lambda>e. case e of EErrorf m \<Rightarrow> m | _ \<Rightarrow> ''?''), ee_statusText = (\<lambda>n. ''status'')\<rparr>"

lemma unwrap_cause_ok: "cause_ok unwrap_cause"
proof -
  have "\<not> is_wrap e \<longrightarrow> unwrap_cause e = e" for e by (cases e) auto
  then show ?thesis by (simp add: cause_ok_def)
qed

theorem status_code_roundtrip_witness:
  "snd (ErrorToJSONAPIError sample_env (wrap_all [''a'', ''b''] (FromStatusCode 404 ''gone''))) = 404"
  using status_code_roundtrip [of sample_env "[''a'', ''b'']" 404 "''gone''"] unwrap_cause_ok
  by (simp add: sample_env_def)

text \<open>
  Every error of the package is answered with the response of its class when the request
  context offers that response, and with \<^verbatim>\<open>InternalServerError\<close> otherwise; the body
  is the one-element list of the translated error.
\<close>

lemma JSONErrorResponse_dispatch:
  "JSONErrorResponse E ctx err =
     (let j = [fst (ErrorToJSONAPIError E err)] in
      case ee_cause E err of
        NotFoundError _ \<Rightarrow> if rc_NotFound ctx then RespNotFound j else RespInternalServerError j
      | ConversionError _ \<Rightarrow> if rc_BadRequest ctx then RespBadRequest j else RespInternalServerError j
      | BadParameterError _ \<Rightarrow> if rc_BadRequest ctx then RespBadRequest j else RespInternalServerError j
      | VersionConflictError _ \<Rightarrow> if rc_Conflict ctx then RespConflict j else RespInternalServerError j
      | DataConflictError _ \<Rightarrow> if rc_Conflict ctx then RespConflict j else RespInternalServerError j
      | UnauthorizedError _ \<Rightarrow> if rc_Unauthorized ctx then RespUnauthorized j else RespInternalServerError j
      | ForbiddenError _ \<Rightarrow> if rc_Forbidden ctx then RespForbidden j else RespInternalServerError j
      | EGoaService _ _ \<Rightarrow> JSONErrorResponse E ctx err
      | EGoaResponse _ _ _ _ \<Rightarrow> JSONErrorResponse E ctx err
      | _ \<Rightarrow> RespInternalServerError j)"
  by (cases "ee_cause E err")
     (simp_all add: JSONErrorResponse_def ErrorToJSONAPIErrors_def ErrorToJSONAPIError_def
        mk_jsonapi_def Let_def split_beta)

text \<open>
  A formatted member name consists of letters, digits and underscores only, neither
  starts nor ends with an underscore, and formatting it again changes nothing.
\<close>

theorem FormatMemberName_wellformed:
  "(\<forall>c \<in> set (FormatMemberName s). member_char c) \<and>
   (FormatMemberName s = [] \<or>
      hd (FormatMemberName s) \<noteq> CHR ''_'' \<and> last (FormatMemberName s) \<noteq> CHR ''_'') \<and>
   FormatMemberName (FormatMemberName s) = FormatMemberName s"
proof -
  let ?t = "FormatMemberName s"
  have mem: "\<forall>c \<in> set ?t. member_char c"
    using FormatMemberName_subset [of s] collapse_member by blast
  have ends: "?t = [] \<or> hd ?t \<noteq> CHR ''_'' \<and> last ?t \<noteq> CHR ''_''"
    using trim_ends [of "\<lambda>c. c = CHR ''_''" "collapse False s"]
    by (auto simp: FormatMemberName_def Let_def)
  have "collapse False ?t = ?t" using mem by (intro collapse_id) auto
  then have "FormatMemberName ?t = ?t"
    using ends by (auto simp: FormatMemberName_def [of ?t] dropWhile_hd_idle hd_rev)
  with mem ends show ?thesis by blast
qed

theorem FormatMemberName_wellformed_witness:
  "FormatMemberName (FormatMemberName ''--Hello, World!'') = FormatMemberName ''--Hello, World!''
   \<and> FormatMemberName ''--Hello, World!'' = ''Hello_World''"
  using FormatMemberName_wellformed [of "''--Hello, World!''"]
  by (auto simp: FormatMemberName_def member_char_def)

end
