(* ===== verification/Db_Codec.thy ===== *)
theory Db_Codec
  imports Errors
begin

text \<open>
  Types that cross the database boundary through \<^verbatim>\<open>driver.Valuer\<close> and
  \<^verbatim>\<open>sql.Scanner\<close>. The interface is the locale \<open>db_codec\<close>; this theory
  interprets it for the iteration state (\<^verbatim>\<open>iteration/state.go\<close>) and the link
  topology (\<^verbatim>\<open>workitem/link/topology.go\<close>).
\<close>

section \<open>Iteration states\<close>

definition StateNew :: string where "StateNew = ''new''"

definition StateStart :: string where "StateStart = ''start''"

definition StateClose :: string where "StateClose = ''close''"

definition State_IsSet :: "string \<Rightarrow> bool" where
  "State_IsSet s \<longleftrightarrow> s \<noteq> []"

definition State_CheckValid :: "string \<Rightarrow> go_error option" where
  "State_CheckValid s =
     (if s = StateNew \<or> s = StateStart \<or> s = StateClose then None
      else Some (Expected (NewBadParameterError ''iteration state'' (VNamedString ''iteration.State'' s))
             (VNamedString ''iteration.State'' (StateNew @ ''|'' @ StateStart @ ''|'' @ StateClose))))"

text \<open>\<open>fmtv\<close> is \<^verbatim>\<open>%+v\<close> on the scanned value.\<close>

definition State_Scan :: "(goval \<Rightarrow> string) \<Rightarrow> goval \<Rightarrow> string res" where
  "State_Scan fmtv value =
     (let s = (case value of
                 VNamedString t x \<Rightarrow> if t = ''iteration.State'' then x else ''illegal value: '' @ fmtv value
               | VString x \<Rightarrow> x
               | VBytes x \<Rightarrow> x
               | VNil \<Rightarrow> ''illegal value: nil''
               | _ \<Rightarrow> ''illegal value: '' @ fmtv value)
      in case State_CheckValid s of None \<Rightarrow> Ok s | Some e \<Rightarrow> Err e)"

definition State_Value :: "string \<Rightarrow> goval" where
  "State_Value s = VString s"

section \<open>Link topologies\<close>

definition TopologyNetwork :: string where "TopologyNetwork = ''network''"

definition TopologyDirectedNetwork :: string where "TopologyDirectedNetwork = ''directed_network''"

definition TopologyDependency :: string where "TopologyDependency = ''dependency''"

definition TopologyTree :: string where "TopologyTree = ''tree''"

definition Topology_CheckValid :: "string \<Rightarrow> go_error option" where
  "Topology_CheckValid t =
     (if t \<in> {TopologyNetwork, TopologyDirectedNetwork, TopologyDependency, TopologyTree} then None
      else Some (Expected (NewBadParameterError ''topolgy'' (VNamedString ''link.Topology'' t))
             (VNamedString ''link.Topology''
               (TopologyNetwork @ ''|'' @ TopologyDirectedNetwork @ ''|'' @ TopologyDependency @ ''|'' @ TopologyTree))))"

definition Topology_Scan :: "goval \<Rightarrow> string res" where
  "Topology_Scan value =
     (let check = (\<lambda>t. case Topology_CheckValid t of None \<Rightarrow> Ok t | Some e \<Rightarrow> Err e) in
      case value of
        VBytes v \<Rightarrow> check v
      | VString v \<Rightarrow> check v
      | VNamedString t v \<Rightarrow>
          if t = ''link.Topology'' then check v
          else Err (EErrorf ''failed to convert value of type %[1]T to topology: %[1]v'')
      | _ \<Rightarrow> Err (EErrorf ''failed to convert value of type %[1]T to topology: %[1]v''))"

definition Topology_Value :: "string \<Rightarrow> goval" where
  "Topology_Value t = VString t"

section \<open>The interface\<close>

text \<open>
  The driver hands a stored text back as bytes, so a column that was written with
  \<open>value\<close> is read by \<open>scan\<close> in the form \<open>wire\<close>.
\<close>

fun wire :: "goval \<Rightarrow> goval" where
  "wire (VString s) = VBytes s"
| "wire v = v"

locale db_codec =
  fixes valid :: "'a \<Rightarrow> bool"
    and "value" :: "'a \<Rightarrow> goval"
    and scan :: "goval \<Rightarrow> 'a res"
  assumes scan_wire_value: "valid x \<Longrightarrow> scan (wire (value x)) = Ok x"
    and scan_sound: "scan v = Ok x \<Longrightarrow> valid x"
begin

lemma stored_injective: "valid x \<Longrightarrow> valid y \<Longrightarrow> value x = value y \<Longrightarrow> x = y"
  using scan_wire_value by (metis gres.inject(1))

lemma rescan: "scan v = Ok x \<Longrightarrow> scan (wire (value x)) = Ok x"
  by (rule scan_wire_value [OF scan_sound])

lemma scan_complete: "valid x \<longleftrightarrow> (\<exists>v. scan v = Ok x)"
  using scan_sound scan_wire_value by blast

end

lemmas state_defs [go_simps] = StateNew_def StateStart_def StateClose_def
  State_CheckValid_def State_Value_def

lemmas topology_defs [go_simps] = TopologyNetwork_def TopologyDirectedNetwork_def
  TopologyDependency_def TopologyTree_def Topology_CheckValid_def Topology_Value_def

definition valid_State :: "string \<Rightarrow> bool" where
  "valid_State s \<longleftrightarrow> State_CheckValid s = None"

definition valid_Topology :: "string \<Rightarrow> bool" where
  "valid_Topology t \<longleftrightarrow> Topology_CheckValid t = None"

lemma illegal_state: "State_CheckValid (''illegal value: '' @ s) \<noteq> None"
  by (simp add: go_simps)

interpretation state_codec: db_codec valid_State State_Value "State_Scan fmtv"
proof unfold_locales
  show "State_Scan fmtv (wire (State_Value x)) = Ok x" if "valid_State x" for x
    using that by (simp add: State_Scan_def State_Value_def valid_State_def)
  show "valid_State x" if "State_Scan fmtv v = Ok x" for v x
    using that by (auto simp: State_Scan_def valid_State_def Let_def split: option.splits)
qed

interpretation topology_codec: db_codec valid_Topology Topology_Value Topology_Scan
proof unfold_locales
  show "Topology_Scan (wire (Topology_Value x)) = Ok x" if "valid_Topology x" for x
    using that by (simp add: Topology_Scan_def Topology_Value_def valid_Topology_def)
  show "valid_Topology x" if "Topology_Scan v = Ok x" for v x
    using that
    by (auto simp: Topology_Scan_def valid_Topology_def Let_def split: option.splits goval.splits if_splits)
qed

section \<open>Properties\<close>

text \<open>
  Scanning accepts exactly the legal values, for iteration states and for link
  topologies: whatever the driver delivers, a scan either fails or gives one of the constants of
  the package, and writing a scanned value and reading it back gives the same value.
\<close>

theorem scanned_enumerations_legal:
  "(State_Scan fmtv v = Ok s \<longrightarrow>
      s \<in> {''new'', ''start'', ''close''} \<and> State_Scan fmtv (wire (State_Value s)) = Ok s) \<and>
   (Topology_Scan w = Ok t \<longrightarrow>
      t \<in> {''network'', ''directed_network'', ''dependency'', ''tree''} \<and>
      Topology_Scan (wire (Topology_Value t)) = Ok t)"
proof -
  have "s \<in> {''new'', ''start'', ''close''}" if "State_Scan fmtv v = Ok s"
    using state_codec.scan_sound [OF that]
    by (simp add: valid_State_def go_simps split: if_splits)
  moreover have "t \<in> {''network'', ''directed_network'', ''dependency'', ''tree''}"
    if "Topology_Scan w = Ok t"
    using topology_codec.scan_sound [OF that]
    by (simp add: valid_Topology_def go_simps split: if_splits)
  ultimately show ?thesis
    using state_codec.rescan topology_codec.rescan by blast
qed

theorem scanned_enumerations_legal_witness:
  "State_Scan (\<lambda>_. []) (VBytes ''start'') = Ok ''start'' \<and>
   Topology_Scan (VString ''tree'') = Ok ''tree'' \<and>
   State_Scan (\<lambda>_. []) (wire (State_Value ''start'')) = Ok ''start''"
proof -
  have s: "State_Scan (\<lambda>_. []) (VBytes ''start'') = Ok ''start''"
    and t: "Topology_Scan (VString ''tree'') = Ok ''tree''"
    by (simp_all add: State_Scan_def Topology_Scan_def go_simps)
  show ?thesis
    using s t scanned_enumerations_legal [of "\<lambda>_. []" "VBytes ''start''" "''start''" "VString ''tree''" "''tree''"]
    by simp
qed

end
