(* ===== verification/Paths.thy ===== *)
theory Paths
  imports Db_Codec "HOL-Library.Multiset"
begin

text \<open>
  \<^verbatim>\<open>path/path.go\<close>: the materialised path of an area or an iteration, a list of
  UUIDs that PostgreSQL stores as an \<^verbatim>\<open>ltree\<close>. The UUID package is the parameter
  \<open>U\<close>.
\<close>

type_synonym path = "uuid list"

definition SepInService :: string where "SepInService = ''/''"

definition SepInDatabase :: string where "SepInDatabase = ''.''"

definition IsEmpty :: "path \<Rightarrow> bool" where
  "IsEmpty p \<longleftrightarrow> length p = 0"

definition This :: "path \<Rightarrow> uuid" where
  "This p = (if \<not> IsEmpty p then p ! (length p - 1) else uuid_Nil)"

definition ParentID :: "path \<Rightarrow> uuid" where
  "ParentID p = (if length p > 1 then p ! (length p - 2) else uuid_Nil)"

definition ParentPath :: "path \<Rightarrow> path" where
  "ParentPath p = (if length p > 1 then take (length p - 1) p else [])"

definition Convert :: "uuid_lib \<Rightarrow> path \<Rightarrow> string" where
  "Convert U p =
     (if length p = 0 then []
      else replace_char (CHR ''-'') (CHR ''_'') (Join (map (uString U) p) SepInDatabase))"

definition Path_String :: "uuid_lib \<Rightarrow> path \<Rightarrow> string" where
  "Path_String U p =
     (if length p = 0 then SepInService
      else SepInService @ Join (map (uString U) p) SepInService)"

definition Root :: "path \<Rightarrow> path" where
  "Root p = (if length p > 0 then [p ! 0] else [uuid_Nil])"

definition ConvertToLtree :: "uuid_lib \<Rightarrow> uuid \<Rightarrow> string" where
  "ConvertToLtree U i = replace_char (CHR ''-'') (CHR ''_'') (uString U i)"

fun parse_uuids :: "uuid_lib \<Rightarrow> string list \<Rightarrow> path res" where
  "parse_uuids U [] = Ok []"
| "parse_uuids U (x # xs) =
     (case uFromString U x of
        None \<Rightarrow> Err (EErrorf ''uuid'')
      | Some i \<Rightarrow> res_bind (parse_uuids U xs) (\<lambda>op. Ok (i # op)))"

definition convertFromLtree :: "uuid_lib \<Rightarrow> string \<Rightarrow> path res" where
  "convertFromLtree U uuidStr =
     parse_uuids U (split_on (CHR ''.'') (replace_char (CHR ''_'') (CHR ''-'') uuidStr))"

definition Path_Value :: "uuid_lib \<Rightarrow> path \<Rightarrow> goval" where
  "Path_Value U p = VString (Join (map (ConvertToLtree U) p) SepInDatabase)"

text \<open>The conversion \<^verbatim>\<open>string(m)\<close> of one byte: the UTF-8 encoding of that code point.\<close>

definition string_of_byte :: "char \<Rightarrow> string" where
  "string_of_byte c =
     (let n = (of_char c :: nat) in
      if n < 128 then [c] else [char_of (192 + n div 64), char_of (128 + n mod 64)])"

text \<open>
  \<^verbatim>\<open>driver.String.ConvertValue\<close> keeps strings and bytes and prints anything else, so
  only bytes pass the following type assertion \<^verbatim>\<open>.([]uint8)\<close>. A text that is not a
  list of UUIDs gives the empty path and no error.
\<close>

definition Path_Scan :: "uuid_lib \<Rightarrow> goval \<Rightarrow> path res" where
  "Path_Scan U value =
     (case value of
        VNil \<Rightarrow> Ok []
      | VBytes bs \<Rightarrow>
          (case convertFromLtree U (concat (map string_of_byte bs)) of
             Ok all \<Rightarrow> Ok all
           | Err _ \<Rightarrow> Ok []
           | Panic \<Rightarrow> Panic)
      | _ \<Rightarrow> Panic)"

definition marshal_entry :: "uuid_lib \<Rightarrow> nat \<Rightarrow> uuid \<Rightarrow> string" where
  "marshal_entry U key i =
     [CHR 0x22] @ nat_digits key @ [CHR 0x22] @ '':'' @ [CHR 0x22] @ uString U i @ [CHR 0x22]"

definition Path_MarshalJSON :: "uuid_lib \<Rightarrow> path \<Rightarrow> string" where
  "Path_MarshalJSON U p =
     ''{'' @ Join (map (\<lambda>(key, i). marshal_entry U key i) (enumerate 0 p)) '','' @ ''}''"

text \<open>
  \<^verbatim>\<open>UnmarshalJSON\<close> after the standard decoder has filled \<open>stringMap\<close>; the list
  gives the entries in the order in which the run-time system iterates over the map.
\<close>

definition Path_UnmarshalJSON :: "uuid_lib \<Rightarrow> path \<Rightarrow> (string \<times> string) list \<Rightarrow> path res" where
  "Path_UnmarshalJSON U p stringMap =
     res_bind (parse_uuids U (map snd stringMap)) (\<lambda>ids. Ok (p @ ids))"

definition ToExpression :: "uuid_lib \<Rightarrow> path \<Rightarrow> uuid \<Rightarrow> string" where
  "ToExpression U p this =
     (let converted = replace_char (CHR ''-'') (CHR ''_'') (uString U this);
          existingPath = Convert U p
      in if existingPath = [] then converted else Convert U p @ ''.'' @ converted)"

text \<open>The characters of a stored path.\<close>

definition ltree_alphabet :: string where
  "ltree_alphabet = ''0123456789abcdef_.''"

section \<open>Facts\<close>

lemma uuid_ok_roundtrip [simp]: "uuid_lib_ok U \<Longrightarrow> uFromString U (uString U u) = Some u"
  by (simp add: uuid_lib_ok_def)

lemma uuid_ok_nonempty: "uuid_lib_ok U \<Longrightarrow> uString U u \<noteq> []"
  by (simp add: uuid_lib_ok_def)

lemma uuid_ok_chars: "uuid_lib_ok U \<Longrightarrow> c \<in> set (uString U u) \<Longrightarrow> c \<in> set uuid_alphabet"
  unfolding uuid_lib_ok_def by blast

lemma uuid_string_no_sep:
  assumes "uuid_lib_ok U"
  shows "CHR ''.'' \<notin> set (uString U u)" and "CHR ''_'' \<notin> set (uString U u)"
proof -
  have "CHR ''.'' \<notin> set uuid_alphabet" and "CHR ''_'' \<notin> set uuid_alphabet"
    by (simp_all add: uuid_alphabet_def)
  then show "CHR ''.'' \<notin> set (uString U u)" and "CHR ''_'' \<notin> set (uString U u)"
    using uuid_ok_chars [OF assms] by blast+
qed

lemma parse_uuids_map: "uuid_lib_ok U \<Longrightarrow> parse_uuids U (map (uString U) p) = Ok p"
  by (induction p) auto

lemma parse_uuids_no_panic [simp]: "parse_uuids U xs \<noteq> Panic"
  by (induction xs) (auto simp: res_bind_Panic_iff split: option.splits)

lemma alphabet_to_ltree: "set uuid_alphabet - {CHR ''-''} \<subseteq> set ltree_alphabet"
  by code_simp

lemma ltree_ascii: "c \<in> set ltree_alphabet \<Longrightarrow> (of_char c :: nat) < 128"
  by (auto simp: ltree_alphabet_def)

lemma ltree_seps: "CHR ''_'' \<in> set ltree_alphabet" "CHR ''.'' \<in> set ltree_alphabet"
  by (simp_all add: ltree_alphabet_def)

lemma ConvertToLtree_chars:
  assumes "uuid_lib_ok U"
  shows "set (ConvertToLtree U u) \<subseteq> set ltree_alphabet"
proof -
  have "set (ConvertToLtree U u) \<subseteq> insert (CHR ''_'') (set (uString U u) - {CHR ''-''})"
    unfolding ConvertToLtree_def by (rule set_replace_char)
  moreover have "set (uString U u) \<subseteq> set uuid_alphabet"
    using uuid_ok_chars [OF assms] by blast
  ultimately show ?thesis using alphabet_to_ltree ltree_seps(1) by blast
qed

lemma Convert_as_Join:
  "p \<noteq> [] \<Longrightarrow> Convert U p = Join (map (ConvertToLtree U) p) ''.''"
  by (simp add: Convert_def SepInDatabase_def replace_char_Join ConvertToLtree_def [abs_def]
      replace_char_idle comp_def)

lemma Join_snoc: "xs \<noteq> [] \<Longrightarrow> Join (xs @ [x]) sep = Join xs sep @ sep @ x"
  by (induction xs sep rule: Join.induct) auto

lemma Join_nonempty: "xs \<noteq> [] \<Longrightarrow> (\<And>x. x \<in> set xs \<Longrightarrow> x \<noteq> []) \<Longrightarrow> Join xs sep \<noteq> []"
  by (induction xs sep rule: Join.induct) auto

lemma ConvertToLtree_nonempty: "uuid_lib_ok U \<Longrightarrow> ConvertToLtree U u \<noteq> []"
  by (simp add: ConvertToLtree_def replace_char_def uuid_ok_nonempty)

lemma Convert_nonempty: "uuid_lib_ok U \<Longrightarrow> p \<noteq> [] \<Longrightarrow> Convert U p \<noteq> []"
  unfolding Convert_as_Join by (rule Join_nonempty) (auto dest: ConvertToLtree_nonempty)

lemma concat_string_of_byte:
  "(\<And>c. c \<in> set s \<Longrightarrow> (of_char c :: nat) < 128) \<Longrightarrow> concat (map string_of_byte s) = s"
  by (induction s) (auto simp: string_of_byte_def)

lemma ltree_unescape:
  assumes "uuid_lib_ok U"
  shows "replace_char (CHR ''_'') (CHR ''-'') (Join (map (ConvertToLtree U) p) ''.'') =
         Join (map (uString U) p) ''.''"
proof -
  have "replace_char (CHR ''_'') (CHR ''-'') (ConvertToLtree U u) = uString U u" for u
    using uuid_string_no_sep(2) [OF assms] by (simp add: ConvertToLtree_def replace_char_inverse)
  then show ?thesis
    by (simp add: replace_char_Join replace_char_idle comp_def)
qed

lemma convertFromLtree_Join:
  assumes "uuid_lib_ok U" and "p \<noteq> []"
  shows "convertFromLtree U (Join (map (ConvertToLtree U) p) ''.'') = Ok p"
proof -
  have "split_on (CHR ''.'') (Join (map (uString U) p) ''.'') = map (uString U) p"
    using assms uuid_string_no_sep(1) by (intro split_on_Join) auto
  then show ?thesis
    using assms by (simp add: convertFromLtree_def ltree_unescape parse_uuids_map)
qed

lemma ltree_chars:
  assumes "uuid_lib_ok U"
  shows "set (Join (map (ConvertToLtree U) p) ''.'') \<subseteq> set ltree_alphabet"
proof -
  have "set (Join (map (ConvertToLtree U) p) ''.'') \<subseteq>
      (\<Union>w \<in> set (map (ConvertToLtree U) p). set w) \<union> {CHR ''.''}"
    using set_Join [of "map (ConvertToLtree U) p" "''.''"] by simp
  also have "\<dots> \<subseteq> set ltree_alphabet"
    using ConvertToLtree_chars [OF assms] ltree_seps(2) by auto
  finally show ?thesis .
qed

lemma path_scan_value:
  assumes "uuid_lib_ok U"
  shows "Path_Scan U (wire (Path_Value U p)) = Ok p"
proof (cases "p = []")
  case True
  have "convertFromLtree U [] = Err (EErrorf ''uuid'')"
    using assms by (simp add: convertFromLtree_def replace_char_def uuid_lib_ok_def)
  with True show ?thesis
    by (simp add: Path_Scan_def Path_Value_def)
next
  case False
  let ?s = "Join (map (ConvertToLtree U) p) ''.''"
  have "concat (map string_of_byte ?s) = ?s"
    using ltree_chars [OF assms] ltree_ascii by (intro concat_string_of_byte) blast
  then show ?thesis
    using convertFromLtree_Join [OF assms False]
    by (simp add: Path_Scan_def Path_Value_def SepInDatabase_def)
qed

interpretation path_codec: db_codec "\<lambda>p :: path. True" "Path_Value canonical_uuid" "Path_Scan canonical_uuid"
  by unfold_locales (auto simp: path_scan_value canonical_uuid_ok)

section \<open>Properties\<close>

text \<open>
  A path survives the database: what \<^verbatim>\<open>Value\<close> writes and the driver returns as
  bytes is scanned to the same path, the empty path included, and two different paths are
  stored differently.
\<close>

theorem path_db_roundtrip:
  assumes "uuid_lib_ok U"
  shows "Path_Scan U (wire (Path_Value U p)) = Ok p \<and>
         (Path_Value U p = Path_Value U q \<longrightarrow> p = q)"
proof (intro conjI impI)
  show rt: "Path_Scan U (wire (Path_Value U p)) = Ok p" for p
    by (rule path_scan_value [OF assms])
  assume "Path_Value U p = Path_Value U q"
  then have "Ok p = Path_Scan U (wire (Path_Value U q))" by (simp flip: rt [of p])
  then show "p = q" by (simp add: rt)
qed

theorem path_db_roundtrip_witness:
  "Path_Scan canonical_uuid (wire (Path_Value canonical_uuid [7, 0])) = Ok [7, 0] \<and>
   Path_Scan canonical_uuid (wire (Path_Value canonical_uuid [])) = Ok []"
  by (intro conjI path_db_roundtrip [OF canonical_uuid_ok, THEN conjunct1])

text \<open>
  The ltree expression of a child is the ltree form of the extended path, contains only
  hexadecimal digits, underscores and dots, and is what the database stores for that path.
\<close>

theorem ToExpression_is_child_path:
  assumes "uuid_lib_ok U"
  shows "ToExpression U p this = Convert U (p @ [this]) \<and>
         Path_Value U (p @ [this]) = VString (ToExpression U p this) \<and>
         set (ToExpression U p this) \<subseteq> set ltree_alphabet"
proof -
  have eq: "Convert U (p @ [this]) = Join (map (ConvertToLtree U) (p @ [this])) ''.''"
    by (simp add: Convert_as_Join)
  have expr: "ToExpression U p this = Convert U (p @ [this])"
  proof (cases "p = []")
    case True
    then show ?thesis by (simp add: ToExpression_def eq Convert_def ConvertToLtree_def)
  next
    case False
    then show ?thesis
      using Convert_nonempty [OF assms False]
      by (simp add: ToExpression_def eq Join_snoc Convert_as_Join ConvertToLtree_def [of _ this])
  qed
  moreover have "Path_Value U (p @ [this]) = VString (ToExpression U p this)"
    by (simp add: expr eq Path_Value_def SepInDatabase_def)
  moreover have "set (ToExpression U p this) \<subseteq> set ltree_alphabet"
    unfolding expr eq by (rule ltree_chars [OF assms])
  ultimately show ?thesis by blast
qed

theorem ToExpression_is_child_path_witness:
  "ToExpression canonical_uuid [1] 2 = Convert canonical_uuid [1, 2]"
  using ToExpression_is_child_path [OF canonical_uuid_ok, of "[1]" 2] by simp

text \<open>
  The accessors take a non-empty path apart: the parent path and the last element give
  the path back, the parent's last element is the parent ID, and climbing
  from a path of two or more elements reaches the same root.
\<close>

theorem path_decomposition:
  assumes "\<not> IsEmpty p"
  shows "ParentPath p @ [This p] = p \<and> ParentID p = This (ParentPath p) \<and>
         (length p > 1 \<longrightarrow> Root (ParentPath p) = Root p)"
proof -
  from assms have "p \<noteq> []" by (simp add: IsEmpty_def)
  then obtain q x where p: "p = q @ [x]" by (metis rev_exhaust)
  have "ParentPath p @ [This p] = p"
    by (auto simp: p ParentPath_def This_def IsEmpty_def nth_append)
  moreover have "ParentID p = This (ParentPath p)"
    by (auto simp: p ParentID_def This_def ParentPath_def IsEmpty_def nth_append)
  moreover have "Root (ParentPath p) = Root p" if "length p > 1"
    using that by (auto simp: p Root_def ParentPath_def nth_append)
  ultimately show ?thesis by blast
qed

theorem path_decomposition_witness:
  "\<not> IsEmpty [1, 2, 3] \<and> ParentPath [1, 2, 3] @ [This [1, 2, 3]] = [1, 2, 3 :: uuid]"
  using path_decomposition [of "[1, 2, 3]"] by (simp add: IsEmpty_def)

text \<open>The entries that \<^verbatim>\<open>MarshalJSON\<close> writes, in the order of the path.\<close>

definition path_entries :: "uuid_lib \<Rightarrow> path \<Rightarrow> (string \<times> string) list" where
  "path_entries U p = map (\<lambda>(k, i). (nat_digits k, uString U i)) (enumerate 0 p)"

lemma path_entries_values: "map snd (path_entries U p) = map (uString U) p"
proof -
  have "map snd (path_entries U p) = map (uString U) (map snd (enumerate 0 p))"
    unfolding path_entries_def map_map by (rule map_cong) auto
  then show ?thesis by (simp only: map_snd_enumerate)
qed

text \<open>
  Decoding the JSON form of a path yields its elements in the order in which the run-time
  system happens to iterate over the decoded map: every order gives the same elements, one of
  them gives the path back and another one the reversed path. The keys that
  \<^verbatim>\<open>MarshalJSON\<close> writes are not used.
\<close>

theorem path_json_order_lost:
  assumes "uuid_lib_ok U"
  shows "(\<forall>entries. mset entries = mset (path_entries U p) \<longrightarrow>
            (\<exists>ids. Path_UnmarshalJSON U [] entries = Ok ids \<and> mset ids = mset p)) \<and>
         Path_UnmarshalJSON U [] (path_entries U p) = Ok p \<and>
         Path_UnmarshalJSON U [] (rev (path_entries U p)) = Ok (rev p)"
proof -
  have decode: "Path_UnmarshalJSON U [] es = Ok ids" if "map snd es = map (uString U) ids" for es ids
    using that parse_uuids_map [OF assms] by (simp add: Path_UnmarshalJSON_def)
  have "\<exists>ids. map snd entries = map (uString U) ids \<and> mset ids = mset p"
    if "mset entries = mset (path_entries U p)" for entries
  proof -
    let ?parse = "\<lambda>s. the (uFromString U s)"
    have eq: "mset (map snd entries) = mset (map (uString U) p)"
      using that path_entries_values [of U p] by (metis mset_map)
    then have "set (map snd entries) = uString U ` set p"
      by (metis list.set_map mset_eq_setD)
    then have "map (uString U \<circ> ?parse) (map snd entries) = map snd entries"
      using assms by (intro map_idI) (auto simp del: set_map)
    moreover have "mset (map ?parse (map snd entries)) = mset p"
      using arg_cong [OF eq, of "image_mset ?parse"] assms by (simp add: comp_def multiset.map_comp)
    ultimately show ?thesis by (metis map_map)
  qed
  with decode have "\<forall>entries. mset entries = mset (path_entries U p) \<longrightarrow>
      (\<exists>ids. Path_UnmarshalJSON U [] entries = Ok ids \<and> mset ids = mset p)" by blast
  moreover have "map snd (rev (path_entries U p)) = map (uString U) (rev p)"
    using path_entries_values [of U p] by (metis rev_map)
  ultimately show ?thesis using decode path_entries_values by blast
qed

theorem path_json_order_lost_witness:
  "Path_UnmarshalJSON canonical_uuid [] (rev (path_entries canonical_uuid [1, 2])) = Ok [2, 1]"
  using path_json_order_lost [OF canonical_uuid_ok, of "[1, 2]"] by simp

end
