(* ===== verification/Paging.thy ===== *)
theory Paging
  imports Errors
begin

text \<open>
  \<^verbatim>\<open>controller/paging.go\<close>: the limits of a list request and the links of its
  answer. Offsets and limits are Go \<^verbatim>\<open>int\<close>s; they are modelled as integers: the
  operands of the divisions and the final values lie within 64 bits (lemma
  \<open>paging_in_range\<close>), and sums and products in between agree modulo \<open>2 ^ 64\<close>.
  Division and remainder truncate towards zero, as Go's do.
\<close>

definition pageSizeDefault :: int where "pageSizeDefault = 20"

definition PageSizeMax :: int where "PageSizeMax = 500"

definition go_div :: "int \<Rightarrow> int \<Rightarrow> int" where
  "go_div a b = sgn a * sgn b * (\<bar>a\<bar> div \<bar>b\<bar>)"

definition go_mod :: "int \<Rightarrow> int \<Rightarrow> int" where
  "go_mod a b = a - b * go_div a b"

definition computePagingLimits :: "string option \<Rightarrow> int option \<Rightarrow> int \<times> int" where
  "computePagingLimits offsetParam limitParam =
     (let offset = (case offsetParam of None \<Rightarrow> 0
                    | Some s \<Rightarrow> (case atoi s of None \<Rightarrow> 0 | Some v \<Rightarrow> v));
          offset = (if offset < 0 then 0 else offset);
          limit = (case limitParam of None \<Rightarrow> pageSizeDefault | Some l \<Rightarrow> l);
          limit = (if limit \<le> 0 then pageSizeDefault
                   else if limit > PageSizeMax then PageSizeMax else limit)
      in (offset, limit))"

text \<open>
  The \<^verbatim>\<open>page[offset]\<close> and \<^verbatim>\<open>page[limit]\<close> of each link, for a limit other
  than 0.
\<close>

record page_links =
  pl_prev :: "(int \<times> int) option"
  pl_next :: "(int \<times> int) option"
  pl_first :: "int \<times> int"
  pl_last :: "int \<times> int"

definition page_positions :: "int \<Rightarrow> int \<Rightarrow> int \<Rightarrow> int \<Rightarrow> page_links" where
  "page_positions currentCount offset limit totalCount =
     (let prev =
            (if offset > 0 \<and> totalCount > 0 then
               (let prevStart = (if offset \<le> totalCount then offset - limit
                                 else offset - (go_div (offset - totalCount) limit + 1) * limit)
                in if prevStart < 0 then Some (0, limit + prevStart) else Some (prevStart, limit))
             else None);
          nextStart = offset + currentCount;
          nxt = (if nextStart < totalCount then Some (nextStart, limit) else None);
          firstEnd = (if offset > 0 then go_mod offset limit else limit);
          lastStart = (if offset < totalCount
                       then offset + go_div (totalCount - offset - 1) limit * limit
                       else offset - (go_div (offset - totalCount) limit + 1) * limit);
          lst = (if lastStart < 0 then (0, limit + lastStart) else (lastStart, limit))
      in \<lparr>pl_prev = prev, pl_next = nxt, pl_first = (0, firstEnd), pl_last = lst\<rparr>)"

text \<open>The text of a link: \<^verbatim>\<open>path?page[offset]=o&page[limit]=l\<close> and the extra query.\<close>

definition format_additional :: "string list \<Rightarrow> string" where
  "format_additional additional =
     (if length additional > 0 then ''&'' @ Join additional ''&'' else [])"

definition link_text :: "string \<Rightarrow> int \<times> int \<Rightarrow> string list \<Rightarrow> string" where
  "link_text path ol additionalQuery =
     path @ ''?page[offset]='' @ itoa (fst ol) @ ''&page[limit]='' @ itoa (snd ol) @
     format_additional additionalQuery"

record paging_links =
  Prev :: "string option"
  Next :: "string option"
  First :: string
  Last :: string

text \<open>The links as texts; the divisions panic for a limit of 0.\<close>

definition setPagingLinks ::
  "string \<Rightarrow> int \<Rightarrow> int \<Rightarrow> int \<Rightarrow> int \<Rightarrow> string list \<Rightarrow> paging_links res" where
  "setPagingLinks path currentCount offset limit totalCount additionalQuery =
     (if limit = 0 then Panic
      else let p = page_positions currentCount offset limit totalCount;
               text = (\<lambda>ol. link_text path ol additionalQuery)
           in Ok \<lparr>Prev = map_option text (pl_prev p), Next = map_option text (pl_next p),
                  First = text (pl_first p), Last = text (pl_last p)\<rparr>)"

fun atoi_all :: "string list \<Rightarrow> int list res" where
  "atoi_all [] = Ok []"
| "atoi_all (x # xs) =
     (case atoi x of
        None \<Rightarrow> Err (EWrap [] (EErrorf ''strconv.Atoi''))
      | Some i \<Rightarrow> res_bind (atoi_all xs) (\<lambda>is. Ok (i # is)))"

definition parseInts :: "string option \<Rightarrow> int list res" where
  "parseInts s =
     (case s of
        None \<Rightarrow> Ok []
      | Some t \<Rightarrow> if length t = 0 then Ok [] else atoi_all (split_on (CHR '','') t))"

definition parseLimit :: "string option \<Rightarrow> (int option \<times> int) res" where
  "parseLimit pageParameter =
     (case parseInts pageParameter of
        Err e \<Rightarrow> Err (EWrap [] e)
      | Panic \<Rightarrow> Panic
      | Ok params \<Rightarrow>
          if length params > 1 then Ok (Some (params ! 0), params ! 1)
          else if length params > 0 then Ok (None, params ! 0)
          else Ok (None, 100))"

section \<open>Facts\<close>

lemma go_div_nonneg: "0 \<le> a \<Longrightarrow> 0 < b \<Longrightarrow> go_div a b = a div b"
  by (cases "a = 0") (auto simp: go_div_def sgn_if)

lemma go_mod_nonneg: "0 \<le> a \<Longrightarrow> 0 < b \<Longrightarrow> go_mod a b = a mod b"
  by (simp add: go_mod_def go_div_nonneg minus_mult_div_eq_mod)

lemma atoi_all_itoa:
  "(\<And>i. i \<in> set is \<Longrightarrow> - (2 ^ 63) \<le> i \<and> i < 2 ^ 63) \<Longrightarrow> atoi_all (map itoa is) = Ok is"
  by (induction "is") (auto simp: atoi_itoa)

lemma itoa_no_comma: "CHR '','' \<notin> set (itoa i)"
proof -
  have "CHR '','' \<notin> digit_char ` {..<10}"
    by (auto simp: digit_char_def dest: arg_cong [of _ _ "of_char :: char \<Rightarrow> nat"])
  then show ?thesis
    using nat_digits_set [of "nat i"] nat_digits_set [of "nat (- i)"] by (auto simp: itoa_def)
qed

text \<open>The two directions in which the last page is reached.\<close>

lemma last_page_forward:
  fixes offset limit totalCount :: int
  assumes "0 < limit" "0 \<le> offset" "offset < totalCount"
  shows "offset + go_div (totalCount - offset - 1) limit * limit < totalCount"
    and "totalCount \<le> offset + go_div (totalCount - offset - 1) limit * limit + limit"
    and "offset \<le> offset + go_div (totalCount - offset - 1) limit * limit"
proof -
  let ?d = "totalCount - offset - 1"
  have q: "go_div ?d limit = ?d div limit" using assms by (simp add: go_div_nonneg)
  have "?d div limit * limit + ?d mod limit = ?d" by (rule div_mult_mod_eq)
  moreover have "0 \<le> ?d mod limit" "?d mod limit < limit" using assms by simp_all
  moreover have "0 \<le> ?d div limit * limit" using assms by (simp add: pos_imp_zdiv_nonneg_iff)
  ultimately show "offset + go_div ?d limit * limit < totalCount"
    and "totalCount \<le> offset + go_div ?d limit * limit + limit"
    and "offset \<le> offset + go_div ?d limit * limit" unfolding q by linarith+
qed

lemma last_page_backward:
  fixes offset limit totalCount :: int
  assumes "0 < limit" "totalCount \<le> offset"
  shows "offset - (go_div (offset - totalCount) limit + 1) * limit < totalCount"
    and "totalCount \<le> offset - (go_div (offset - totalCount) limit + 1) * limit + limit"
proof -
  let ?d = "offset - totalCount"
  have q: "go_div ?d limit = ?d div limit" using assms by (simp add: go_div_nonneg)
  have "?d div limit * limit + ?d mod limit = ?d" by (rule div_mult_mod_eq)
  moreover have "0 \<le> ?d mod limit" "?d mod limit < limit" using assms by simp_all
  moreover have "(?d div limit + 1) * limit = ?d div limit * limit + limit"
    by (simp add: distrib_right)
  ultimately show "offset - (go_div ?d limit + 1) * limit < totalCount"
    and "totalCount \<le> offset - (go_div ?d limit + 1) * limit + limit" unfolding q by linarith+
qed

lemma paging_in_range:
  fixes offset limit totalCount :: int
  assumes "0 < limit" "limit \<le> PageSizeMax" "0 \<le> offset" "offset < 2 ^ 63"
    and "0 \<le> totalCount" "totalCount < 2 ^ 63"
  shows "offset < totalCount \<Longrightarrow>
           offset + go_div (totalCount - offset - 1) limit * limit \<in> {- (2 ^ 63) ..< 2 ^ 63}"
    and "totalCount \<le> offset \<Longrightarrow>
           offset - (go_div (offset - totalCount) limit + 1) * limit \<in> {- (2 ^ 63) ..< 2 ^ 63}"
  using last_page_forward [OF assms(1,3), of totalCount]
    last_page_backward [OF assms(1), of totalCount offset] assms
  by (auto simp: PageSizeMax_def)

section \<open>Properties\<close>

text \<open>
  C35. Whatever a client sends, the computed offset is never negative and the limit lies
  between 1 and 500; a legal offset and a legal limit are used unchanged.
\<close>

theorem computePagingLimits_bounds:
  "computePagingLimits off lim = (offset, limit) \<Longrightarrow>
     0 \<le> offset \<and> 0 < limit \<and> limit \<le> 500 \<and>
     (\<forall>i. off = Some (itoa i) \<and> 0 \<le> i \<and> i < 2 ^ 63 \<longrightarrow> offset = i) \<and>
     (\<forall>l. lim = Some l \<and> 0 < l \<and> l \<le> 500 \<longrightarrow> limit = l)"
  by (auto simp: computePagingLimits_def Let_def pageSizeDefault_def PageSizeMax_def atoi_itoa
      split: option.splits if_splits)

theorem computePagingLimits_bounds_witness:
  "computePagingLimits (Some ''-7'') (Some 9000) = (0, 500)"
proof -
  have "computePagingLimits (Some ''-7'') (Some 9000) = (0, 500)"
    by code_simp
  moreover from computePagingLimits_bounds [OF this] have "(500 :: int) \<le> 500" by simp
  ultimately show ?thesis by simp
qed

text \<open>
  The \<^verbatim>\<open>last\<close> link covers the end of the result: for any offset and positive
  limit over a non-empty result it starts inside the result, and the page of its
  limit reaches exactly up to or past the last item; it keeps the alignment of the
  current offset unless it had to be cut at 0.
\<close>

theorem last_link_covers_end:
  assumes "0 < limit" "0 \<le> offset" "0 < totalCount"
  shows "let (s, l) = pl_last (page_positions count offset limit totalCount)
         in 0 \<le> s \<and> s < totalCount \<and> totalCount \<le> s + l \<and> 0 < l \<and> l \<le> limit \<and>
            (0 < s \<longrightarrow> (s - offset) mod limit = 0)"
proof (cases "offset < totalCount")
  case True
  then show ?thesis
    using last_page_forward [OF assms(1,2) True] assms
    by (auto simp: page_positions_def Let_def)
next
  case False
  let ?s = "offset - (go_div (offset - totalCount) limit + 1) * limit"
  have b: "?s < totalCount" "totalCount \<le> ?s + limit"
    using last_page_backward [OF assms(1)] False by simp_all
  have "pl_last (page_positions count offset limit totalCount) =
      (if ?s < 0 then (0, limit + ?s) else (?s, limit))"
    using False by (simp add: page_positions_def Let_def)
  moreover have "(?s - offset) mod limit = 0"
    by (metis (no_types, opaque_lifting) diff_diff_eq2 diff_self dvd_triv_right minus_diff_eq
        mod_0_imp_dvd dvd_imp_mod_0 dvd_minus_iff add.commute add_diff_cancel_left')
  ultimately show ?thesis using b assms by auto
qed

theorem last_link_covers_end_witness:
  "pl_last (page_positions 10 13 10 38) = (33, 10) \<and> (33 :: int) < 38"
proof -
  have "pl_last (page_positions 10 13 10 38) = (33, 10)" by code_simp
  then show ?thesis using last_link_covers_end [of 10 13 38 10] by simp
qed

text \<open>
  The \<^verbatim>\<open>prev\<close> link is contiguous with the current page: when the current offset is
  inside the result it ends exactly where the current page starts, and it is never empty nor longer
  than the limit; \<^verbatim>\<open>next\<close> starts right behind the items shown and exists
  exactly when items remain.
\<close>

theorem prev_next_links:
  assumes "0 < limit" "0 \<le> offset" "0 \<le> count"
  shows "(pl_prev (page_positions count offset limit totalCount) = None \<longleftrightarrow> offset = 0 \<or> totalCount \<le> 0) \<and>
         (\<forall>s l. pl_prev (page_positions count offset limit totalCount) = Some (s, l) \<longrightarrow>
            0 \<le> s \<and> 0 < l \<and> l \<le> limit \<and> s < totalCount \<and> (offset \<le> totalCount \<longrightarrow> s + l = offset) \<and>
            (totalCount < offset \<longrightarrow> totalCount \<le> s + l)) \<and>
         pl_next (page_positions count offset limit totalCount) =
           (if offset + count < totalCount then Some (offset + count, limit) else None) \<and>
         (\<exists>links. setPagingLinks path count offset limit totalCount qs = Ok links \<and>
            Next links = (if offset + count < totalCount
                          then Some (link_text path (offset + count, limit) qs) else None) \<and>
            (Prev links = None \<longleftrightarrow> offset = 0 \<or> totalCount \<le> 0))"
proof -
  define p where "p = (if offset \<le> totalCount then offset - limit
      else offset - (go_div (offset - totalCount) limit + 1) * limit)"
  have behind: "totalCount < offset \<Longrightarrow> p < totalCount \<and> totalCount \<le> p + limit"
    using last_page_backward [OF assms(1), of totalCount offset] by (simp add: p_def)
  have inside: "offset \<le> totalCount \<Longrightarrow> p = offset - limit" by (simp add: p_def)
  have pr: "pl_prev (page_positions count offset limit totalCount) =
      (if 0 < offset \<and> 0 < totalCount
       then (if p < 0 then Some (0, limit + p) else Some (p, limit)) else None)"
    by (simp add: page_positions_def Let_def p_def)
  have "0 \<le> s \<and> 0 < l \<and> l \<le> limit \<and> s < totalCount \<and> (offset \<le> totalCount \<longrightarrow> s + l = offset) \<and>
        (totalCount < offset \<longrightarrow> totalCount \<le> s + l)"
    if "pl_prev (page_positions count offset limit totalCount) = Some (s, l)" for s l
    using that behind inside assms unfolding pr
    by (cases "offset \<le> totalCount"; cases "p < 0") (auto split: if_splits)
  moreover have "pl_prev (page_positions count offset limit totalCount) = None \<longleftrightarrow>
      offset = 0 \<or> totalCount \<le> 0"
    using assms by (auto simp: pr)
  moreover have "pl_next (page_positions count offset limit totalCount) =
      (if offset + count < totalCount then Some (offset + count, limit) else None)"
    by (simp add: page_positions_def Let_def)
  moreover from calculation have "\<exists>links. setPagingLinks path count offset limit totalCount qs = Ok links \<and>
            Next links = (if offset + count < totalCount
                          then Some (link_text path (offset + count, limit) qs) else None) \<and>
            (Prev links = None \<longleftrightarrow> offset = 0 \<or> totalCount \<le> 0)"
    using assms(1) by (simp add: setPagingLinks_def Let_def)
  ultimately show ?thesis by blast
qed

theorem prev_next_links_witness:
  "pl_prev (page_positions 10 13 10 38) = Some (3, 10) \<and>
   pl_next (page_positions 10 13 10 38) = Some (23, 10)"
proof -
  have "pl_prev (page_positions 10 13 10 38) = Some (3, 10)" by code_simp
  then show ?thesis using prev_next_links [of 10 13 10 38 "[]" "[]"] by simp
qed

text \<open>
  For an offset that is a positive multiple of the limit the \<^verbatim>\<open>first\<close> link asks for
  a page of size 0, which the server replaces by its default page size: the link
  does not describe the first page of the client's paging.
\<close>

theorem first_link_of_aligned_offset:
  assumes "0 < limit" "0 < k"
  shows "pl_first (page_positions count (k * limit) limit totalCount) = (0, 0) \<and>
         snd (computePagingLimits (Some (itoa 0))
           (Some (snd (pl_first (page_positions count (k * limit) limit totalCount))))) = 20"
proof -
  have "pl_first (page_positions count (k * limit) limit totalCount) = (0, 0)"
    using assms by (simp add: page_positions_def Let_def go_mod_nonneg)
  then show ?thesis
    by (simp add: computePagingLimits_def pageSizeDefault_def PageSizeMax_def Let_def)
qed

theorem first_link_of_aligned_offset_witness:
  "pl_first (page_positions 50 100 50 300) = (0, 0)"
  using first_link_of_aligned_offset [of 50 2 50 300] by simp

text \<open>
  The page parameter printed as a comma-separated list of integers is parsed back to those
  integers, and the limit and start are read off its first two entries.
\<close>

theorem parseInts_roundtrip:
  assumes "is \<noteq> []" and "\<And>i. i \<in> set is \<Longrightarrow> - (2 ^ 63) \<le> i \<and> i < 2 ^ 63"
  shows "parseInts (Some (Join (map itoa is) '','')) = Ok is \<and>
         parseLimit (Some (Join (map itoa is) '','')) =
           Ok (if length is > 1 then (Some (is ! 0), is ! 1) else (None, is ! 0))"
proof -
  let ?s = "Join (map itoa is) '',''"
  have "split_on (CHR '','') ?s = map itoa is"
    using assms(1) itoa_no_comma by (intro split_on_Join) auto
  moreover have "?s \<noteq> []"
    using assms(1) by (cases "is" rule: remdups_adj.cases) (auto simp: itoa_def)
  ultimately have "parseInts (Some ?s) = Ok is"
    using atoi_all_itoa [OF assms(2)] by (simp add: parseInts_def)
  then show ?thesis using assms(1) by (auto simp: parseLimit_def)
qed

theorem parseInts_roundtrip_witness:
  "parseInts (Some ''3,-14'') = Ok [3, -14]"
proof -
  have "Join (map itoa [3, -14]) '','' = ''3,-14''" by code_simp
  moreover have "- (2 ^ 63) \<le> i \<and> i < 2 ^ 63" if "i \<in> set [3, -14]" for i :: int
    using that by auto
  ultimately show ?thesis using parseInts_roundtrip [of "[3, -14]"] by simp
qed

end
