(* ===== verification/Criteria.thy ===== *)
theory Criteria
  imports Go_Values
begin

text \<open>
  The search expressions of the package \<^verbatim>\<open>criteria\<close>: their constructors, annotations,
  the iteration over parents and the post-order iteration.

  The Go types that embed \<^verbatim>\<open>binaryExpression\<close> are one constructor with the operator as
  its first argument. The parent pointer that \<^verbatim>\<open>reparent\<close> sets is not stored: every
  function that looks at parents takes the list of ancestors, nearest first, which is the
  chain of parent pointers of an expression without shared nodes. Annotations are the
  association list of the Go map.
\<close>

section \<open>Expressions\<close>

type_synonym annotations = "(string \<times> goval) list"

datatype binary_op =
    AndExpression | OrExpression | EqualsExpression | SubstringExpression | NotExpression
  | ChildExpression

datatype expr =
    FieldExpression annotations string
  | LiteralExpression annotations goval
  | ParameterExpression annotations
  | IsNullExpression annotations string
  | BinaryExpression binary_op annotations expr expr

definition criteria_Field :: "string \<Rightarrow> expr" where
  "criteria_Field name = FieldExpression [] name"

definition criteria_Literal :: "goval \<Rightarrow> expr" where
  "criteria_Literal v = LiteralExpression [] v"

definition criteria_Parameter :: expr where
  "criteria_Parameter = ParameterExpression []"

definition criteria_IsNull :: "string \<Rightarrow> expr" where
  "criteria_IsNull name = IsNullExpression [] name"

definition criteria_And :: "expr \<Rightarrow> expr \<Rightarrow> expr" where
  "criteria_And left right = BinaryExpression AndExpression [] left right"

definition criteria_Or :: "expr \<Rightarrow> expr \<Rightarrow> expr" where
  "criteria_Or left right = BinaryExpression OrExpression [] left right"

definition criteria_Equals :: "expr \<Rightarrow> expr \<Rightarrow> expr" where
  "criteria_Equals left right = BinaryExpression EqualsExpression [] left right"

definition criteria_Substring :: "expr \<Rightarrow> expr \<Rightarrow> expr" where
  "criteria_Substring left right = BinaryExpression SubstringExpression [] left right"

definition criteria_Not :: "expr \<Rightarrow> expr \<Rightarrow> expr" where
  "criteria_Not left right = BinaryExpression NotExpression [] left right"

definition criteria_Child :: "expr \<Rightarrow> expr \<Rightarrow> expr" where
  "criteria_Child left right = BinaryExpression ChildExpression [] left right"

lemmas criteria_defs =
  criteria_Field_def criteria_Literal_def criteria_Parameter_def criteria_IsNull_def
  criteria_And_def criteria_Or_def criteria_Equals_def criteria_Substring_def criteria_Not_def
  criteria_Child_def

section \<open>Annotations\<close>

fun annotations_of :: "expr \<Rightarrow> annotations" where
  "annotations_of (FieldExpression a _) = a"
| "annotations_of (LiteralExpression a _) = a"
| "annotations_of (ParameterExpression a) = a"
| "annotations_of (IsNullExpression a _) = a"
| "annotations_of (BinaryExpression _ a _ _) = a"

definition put_annotation :: "string \<Rightarrow> goval \<Rightarrow> annotations \<Rightarrow> annotations" where
  "put_annotation key value a = (key, value) # filter (\<lambda>(k, v). k \<noteq> key) a"

fun SetAnnotation :: "string \<Rightarrow> goval \<Rightarrow> expr \<Rightarrow> expr" where
  "SetAnnotation key value (FieldExpression a n) = FieldExpression (put_annotation key value a) n"
| "SetAnnotation key value (LiteralExpression a v) = LiteralExpression (put_annotation key value a) v"
| "SetAnnotation key value (ParameterExpression a) = ParameterExpression (put_annotation key value a)"
| "SetAnnotation key value (IsNullExpression a n) = IsNullExpression (put_annotation key value a) n"
| "SetAnnotation key value (BinaryExpression b a l r) =
     BinaryExpression b (put_annotation key value a) l r"

definition Annotation :: "expr \<Rightarrow> string \<Rightarrow> goval" where
  "Annotation e key = (case map_of (annotations_of e) key of None \<Rightarrow> VNil | Some v \<Rightarrow> v)"

section \<open>Iteration\<close>

text \<open>
  \<^verbatim>\<open>IterateParents\<close> calls a function on each parent until it answers false; the result is the
  list of the parents visited.
\<close>

fun IterateParents :: "expr list \<Rightarrow> (expr \<Rightarrow> bool) \<Rightarrow> expr list" where
  "IterateParents [] f = []"
| "IterateParents (p # ps) f = p # (if f p then IterateParents ps f else [])"

text \<open>
  \<^verbatim>\<open>IteratePostOrder\<close> visits left, right and the node itself, and stops as soon as the
  visitor answers false. The visitor is a closure: it may change a state of its own and
  the annotations of the node, so it takes and returns both.
\<close>

fun IteratePostOrder :: "('s \<Rightarrow> expr \<Rightarrow> 's \<times> expr \<times> bool) \<Rightarrow> 's \<Rightarrow> expr \<Rightarrow> 's \<times> expr \<times> bool" where
  "IteratePostOrder visit s (BinaryExpression b a l r) =
     (let (s1, l', goOn) = IteratePostOrder visit s l in
      if \<not> goOn then (s1, BinaryExpression b a l' r, False)
      else let (s2, r', goOn) = IteratePostOrder visit s1 r in
        if \<not> goOn then (s2, BinaryExpression b a l' r', False)
        else visit s2 (BinaryExpression b a l' r'))"
| "IteratePostOrder visit s e = visit s e"

section \<open>Facts\<close>

text \<open>The expression without its annotations.\<close>

fun erase :: "expr \<Rightarrow> expr" where
  "erase (FieldExpression a n) = FieldExpression [] n"
| "erase (LiteralExpression a v) = LiteralExpression [] v"
| "erase (ParameterExpression a) = ParameterExpression []"
| "erase (IsNullExpression a n) = IsNullExpression [] n"
| "erase (BinaryExpression b a l r) = BinaryExpression b [] (erase l) (erase r)"

lemma map_of_filter_other:
  "map_of (filter (\<lambda>(k, v). k \<noteq> key) a) key' = (if key' = key then None else map_of a key')"
  by (induction a) auto

lemma Annotation_SetAnnotation [simp]:
  "Annotation (SetAnnotation key v e) key' = (if key' = key then v else Annotation e key')"
  by (cases e) (simp_all add: Annotation_def put_annotation_def map_of_filter_other)

lemma erase_SetAnnotation [simp]: "erase (SetAnnotation key v e) = erase e"
  by (cases e) simp_all

lemma Annotation_Nil [simp]: "annotations_of e = [] \<Longrightarrow> Annotation e key = VNil"
  by (simp add: Annotation_def)

lemma erase_IteratePostOrder:
  assumes "\<And>s e s' e' g. visit s e = (s', e', g) \<Longrightarrow> erase e' = erase e"
    and "IteratePostOrder visit s e = (s', e', g)"
  shows "erase e' = erase e"
  using assms(2)
proof (induction e arbitrary: s s' e' g)
  case (BinaryExpression b a l r)
  obtain s1 l' g1 where l: "IteratePostOrder visit s l = (s1, l', g1)" by (metis prod_cases3)
  obtain s2 r' g2 where r: "IteratePostOrder visit s1 r = (s2, r', g2)" by (metis prod_cases3)
  have "erase l' = erase l" "erase r' = erase r"
    using BinaryExpression.IH(1) [OF l] BinaryExpression.IH(2) [OF r] by simp_all
  with BinaryExpression.prems assms(1) [of s2 "BinaryExpression b a l' r'"] show ?case
    by (auto simp: l r split: if_splits)
qed (metis IteratePostOrder.simps(2-5) assms(1))+

text \<open>The reference order of the traversal, and a list cut behind the first refusal.\<close>

fun post_order :: "expr \<Rightarrow> expr list" where
  "post_order (BinaryExpression b a l r) = post_order l @ post_order r @ [BinaryExpression b a l r]"
| "post_order e = [e]"

fun up_to_first_failure :: "('a \<Rightarrow> bool) \<Rightarrow> 'a list \<Rightarrow> 'a list" where
  "up_to_first_failure P [] = []"
| "up_to_first_failure P (x # xs) = x # (if P x then up_to_first_failure P xs else [])"

lemma up_to_first_failure_append:
  "up_to_first_failure P (xs @ ys) =
     (if list_all P xs then xs @ up_to_first_failure P ys else up_to_first_failure P xs)"
  by (induction xs) auto

lemma up_to_first_failure_all: "list_all P xs \<Longrightarrow> up_to_first_failure P xs = xs"
  by (induction xs) auto

definition recording_visit :: "(expr \<Rightarrow> bool) \<Rightarrow> expr list \<Rightarrow> expr \<Rightarrow> expr list \<times> expr \<times> bool" where
  "recording_visit P seen e = (seen @ [e], e, P e)"

section \<open>Properties\<close>

text \<open>
  Post-order iteration visits the nodes of an expression from left to right with every
  node after its operands, visits each node before the first refusal exactly once and none
  behind it, and reports whether all visits were accepted.
\<close>

theorem IteratePostOrder_order:
  "IteratePostOrder (recording_visit P) seen e =
     (seen @ up_to_first_failure P (post_order e), e, list_all P (post_order e))"
  by (induction e arbitrary: seen)
    (auto simp: recording_visit_def up_to_first_failure_append up_to_first_failure_all)

end
