(* ===== verification/Table_Joins.thy ===== *)
theory Table_Joins
  imports Errors "HOL-Library.Multiset"
begin

text \<open>
  The table joins of the search (\<^verbatim>\<open>workitem/table_join.go\<close>): which field names a join
  handles, the translation of a field name to a column, the activation of required joins and
  the order in which the activated joins are put into the query.

  A \<^verbatim>\<open>TableJoinMap\<close> is an association list in the order in which the Go map happens to
  be iterated; its keys stand for the pointers to the joins, and a delegate is named by its
  key. The two recursions of the Go code that update the joins on the way are
  defined with fuel; \<open>None\<close> means that the fuel ran out, which does not happen for the fuel
  they are called with (lemmas \<open>activate_required_enough\<close> and \<open>visit_enough\<close>).
\<close>

section \<open>Joins\<close>

record table_join =
  tj_Active :: bool
  tj_TableName :: string
  tj_TableAlias :: string
  tj_On :: string
  tj_Where :: string
  tj_PrefixActivators :: "string list"
  tj_AllowedColumns :: "string list"
  tj_DisallowedColumns :: "string list"
  tj_HandledFields :: "string list"
  tj_ActivateOtherJoins :: "string list"
  tj_DelegateTo :: "(string \<times> string option) list"

type_synonym join_map = "(string \<times> table_join) list"

definition workitemTableName :: string where "workitemTableName = ''work_items''"

definition quoted :: "string \<Rightarrow> string" where
  "quoted s = CHR 0x22 # s @ [CHR 0x22]"

definition Column :: "string \<Rightarrow> string \<Rightarrow> string" where
  "Column table column = quoted table @ ''.'' @ quoted column"

definition TableJoin_Validate :: "(string \<Rightarrow> string \<Rightarrow> bool) \<Rightarrow> table_join \<Rightarrow> go_error option" where
  "TableJoin_Validate hasColumn j =
     (if tj_Active j \<and>
         list_ex (\<lambda>f. f \<notin> set (tj_AllowedColumns j) \<and> \<not> hasColumn (tj_TableName j) f) (tj_HandledFields j)
      then Some (EErrorf ''table %s has no column %s'') else None)"

definition JoinOnJSONField :: "string \<Rightarrow> string \<Rightarrow> string" where
  "JoinOnJSONField jsonField foreignCol =
     Column workitemTableName ''fields'' @ '' @> concat('' @ [CHR 0x27] @ ''{'' @ quoted jsonField @ '': '' @
     [CHR 0x22, CHR 0x27] @ '', '' @ foreignCol @ '', '' @ [CHR 0x27, CHR 0x22] @ ''}'' @ [CHR 0x27] @
     '')::jsonb''"

definition GetJoinExpression :: "table_join \<Rightarrow> string" where
  "GetJoinExpression j =
     ''LEFT JOIN '' @ tj_TableName j @ '' '' @ quoted (tj_TableAlias j) @ '' ON '' @ tj_On j"

definition HandlesFieldName :: "table_join \<Rightarrow> string \<Rightarrow> bool" where
  "HandlesFieldName j fieldName \<longleftrightarrow> list_ex (HasPrefix fieldName) (tj_PrefixActivators j)"

definition update_join :: "string \<Rightarrow> (table_join \<Rightarrow> table_join) \<Rightarrow> join_map \<Rightarrow> join_map" where
  "update_join key g joins = map (\<lambda>(k, j). (k, if k = key then g j else j)) joins"

definition set_active :: "string \<Rightarrow> join_map \<Rightarrow> join_map" where
  "set_active key joins = update_join key (\<lambda>j. j\<lparr>tj_Active := True\<rparr>) joins"

text \<open>
  The column name: the field name without the first prefix that fits, trimmed. The join that answers for
  it: the delegate of the first delegation prefix that fits, or the join itself.
\<close>

definition join_column :: "table_join \<Rightarrow> string \<Rightarrow> string" where
  "join_column j fieldName =
     TrimSpace (TrimPrefix fieldName
       (case find (HasPrefix fieldName) (tj_PrefixActivators j) of Some t \<Rightarrow> t | None \<Rightarrow> []))"

definition join_delegate :: "join_map \<Rightarrow> string \<Rightarrow> table_join \<Rightarrow> string \<Rightarrow> (string \<times> table_join) option" where
  "join_delegate joins key j fieldName =
     (case (case find (\<lambda>(p, dele). HasPrefix fieldName p) (tj_DelegateTo j) of
              None \<Rightarrow> Some key | Some (p, dele) \<Rightarrow> dele) of
        None \<Rightarrow> None
      | Some k \<Rightarrow> map_option (Pair k) (map_of joins k))"

definition column_allowed :: "table_join \<Rightarrow> string \<Rightarrow> bool" where
  "column_allowed j col \<longleftrightarrow>
     (tj_AllowedColumns j = [] \<or> col \<in> set (tj_AllowedColumns j)) \<and> col \<notin> set (tj_DisallowedColumns j)"

definition TranslateFieldName :: "join_map \<Rightarrow> string \<Rightarrow> string \<Rightarrow> join_map \<times> string res" where
  "TranslateFieldName joins key fieldName =
     (case map_of joins key of
        None \<Rightarrow> (joins, Panic)
      | Some j \<Rightarrow>
          if \<not> HandlesFieldName j fieldName then
            (joins, Err (EErrorf ''field name %s not handled by this table join''))
          else
            let joins = set_active key joins;
                col = join_column j fieldName
            in if col = [] then
                 (joins, Err (EErrorf ''field name %s contains an empty column name after prefix %s''))
               else if Contains col [CHR 0x27] then
                 (joins, Err (EErrorf ''single quote not allowed in field name: %s''))
               else
                 (case join_delegate joins key j fieldName of
                    None \<Rightarrow> (joins, Err (EErrorf ''delegated join %s for field %s must not point to nil''))
                  | Some (dkey, delegator) \<Rightarrow>
                      let joins = set_active dkey joins
                      in if \<not> column_allowed delegator col then
                           (joins, Err (EErrorf ''column is not allowed: %s''))
                         else (update_join dkey (\<lambda>d. d\<lparr>tj_HandledFields := tj_HandledFields d @ [col]\<rparr>) joins,
                               Ok (Column (tj_TableAlias delegator) col))))"

section \<open>Activation\<close>

text \<open>The loop over the required joins of one join; \<open>again\<close> is the recursive call.\<close>

fun activate_others ::
  "(join_map \<Rightarrow> join_map res option) \<Rightarrow> string list \<Rightarrow> join_map \<Rightarrow> join_map res option" where
  "activate_others again [] joins = Some (Ok joins)"
| "activate_others again (name # names) joins =
     (case map_of joins name of
        None \<Rightarrow> Some (Err (EErrorf ''join %s not found for %s join''))
      | Some other \<Rightarrow>
          if tj_Active other then activate_others again names joins
          else (case again (set_active name joins) of
                  None \<Rightarrow> None
                | Some (Err e) \<Rightarrow> Some (Err (EWrap ''failed to activate required joins for %s join'' e))
                | Some Panic \<Rightarrow> Some Panic
                | Some (Ok joins') \<Rightarrow> activate_others again names joins'))"

text \<open>The loop over the map.\<close>

fun activate_each ::
  "(join_map \<Rightarrow> join_map res option) \<Rightarrow> string list \<Rightarrow> join_map \<Rightarrow> join_map res option" where
  "activate_each again [] joins = Some (Ok joins)"
| "activate_each again (k # ks) joins =
     (case map_of joins k of
        None \<Rightarrow> activate_each again ks joins
      | Some join \<Rightarrow>
          if \<not> tj_Active join then activate_each again ks joins
          else (case activate_others again (tj_ActivateOtherJoins join) joins of
                  Some (Ok joins') \<Rightarrow> activate_each again ks joins'
                | r \<Rightarrow> r))"

fun activate_required :: "nat \<Rightarrow> join_map \<Rightarrow> join_map res option" where
  "activate_required 0 joins = None"
| "activate_required (Suc n) joins = activate_each (activate_required n) (map fst joins) joins"

definition ActivateRequiredJoins :: "join_map \<Rightarrow> join_map res" where
  "ActivateRequiredJoins joins =
     (case activate_required (Suc (length joins)) joins of None \<Rightarrow> Panic | Some r \<Rightarrow> r)"

section \<open>Order\<close>

text \<open>The state of \<^verbatim>\<open>activationOrderer\<close>: the visited joins and the ordered joins.\<close>

type_synonym orderer = "string list \<times> string list"

fun visit_all :: "(string \<Rightarrow> orderer \<Rightarrow> orderer res option) \<Rightarrow> string list \<Rightarrow> orderer \<Rightarrow> orderer res option" where
  "visit_all visit [] o1 = Some (Ok o1)"
| "visit_all visit (name # names) o1 =
     (case visit name o1 of
        Some (Ok o2) \<Rightarrow> visit_all visit names o2
      | Some (Err e) \<Rightarrow> Some (Err e)
      | Some Panic \<Rightarrow> Some Panic
      | None \<Rightarrow> None)"

fun visitDepthFirst :: "nat \<Rightarrow> join_map \<Rightarrow> string \<Rightarrow> orderer \<Rightarrow> orderer res option" where
  "visitDepthFirst 0 m name o1 = None"
| "visitDepthFirst (Suc n) m name (alreadyVisited, ordered) =
     (case map_of m name of
        None \<Rightarrow> Some (Err (EErrorf ''join %s not found''))
      | Some j \<Rightarrow>
          if name \<in> set alreadyVisited then Some (Ok (alreadyVisited, ordered))
          else if \<not> tj_Active j then Some (Ok (name # alreadyVisited, ordered))
          else (case visit_all (visitDepthFirst n m) (tj_ActivateOtherJoins j)
                       (name # alreadyVisited, ordered) of
                  Some (Ok (visited, ordered')) \<Rightarrow> Some (Ok (visited, ordered' @ [name]))
                | Some (Err e) \<Rightarrow> Some (Err (EErrorf ''failed to visit %s join''))
                | Some Panic \<Rightarrow> Some Panic
                | None \<Rightarrow> None))"

definition GetOrderdActivatedJoins :: "join_map \<Rightarrow> (join_map \<times> string list) res" where
  "GetOrderdActivatedJoins joins0 =
     res_bind (map_err (EWrap ''failed to get activate required joins'') (ActivateRequiredJoins joins0)) (\<lambda>joins.
       case visit_all (visitDepthFirst (Suc (length joins)) joins) (map fst joins) ([], []) of
         None \<Rightarrow> Panic
       | Some r \<Rightarrow> res_bind (map_err (EWrap ''failed to visit %s join'') r)
                     (\<lambda>(visited, ordered). Ok (joins, ordered)))"

section \<open>Facts on the map\<close>

lemma map_fst_update_join [simp]: "map fst (update_join key g joins) = map fst joins"
  by (auto simp: update_join_def)

lemma map_of_update_join [simp]:
  "map_of (update_join key g joins) k = (if k = key then map_option g (map_of joins k) else map_of joins k)"
  by (induction joins) (auto simp: update_join_def)

lemma length_update_join [simp]: "length (update_join key g joins) = length joins"
  by (simp add: update_join_def)

lemma set_active_simps [simp]:
  "map fst (set_active key joins) = map fst joins"
  "length (set_active key joins) = length joins"
  "map_of (set_active key joins) k =
     (if k = key then map_option (\<lambda>j. j\<lparr>tj_Active := True\<rparr>) (map_of joins k) else map_of joins k)"
  by (simp_all add: set_active_def)

definition active :: "join_map \<Rightarrow> string set" where
  "active joins = {k. \<exists>j. map_of joins k = Some j \<and> tj_Active j}"

definition requires :: "join_map \<Rightarrow> (string \<times> string) set" where
  "requires joins = {(k, d). \<exists>j. map_of joins k = Some j \<and> d \<in> set (tj_ActivateOtherJoins j)}"

definition closed_joins :: "join_map \<Rightarrow> bool" where
  "closed_joins joins \<longleftrightarrow> requires joins `` active joins \<subseteq> active joins"

text \<open>Two maps that differ at most in the joins that are active.\<close>

definition same_joins :: "join_map \<Rightarrow> join_map \<Rightarrow> bool" where
  "same_joins joins joins' \<longleftrightarrow>
     map fst joins = map fst joins' \<and>
     (\<forall>k. map_option (\<lambda>j. j\<lparr>tj_Active := True\<rparr>) (map_of joins k) =
          map_option (\<lambda>j. j\<lparr>tj_Active := True\<rparr>) (map_of joins' k))"

definition extends :: "join_map \<Rightarrow> join_map \<Rightarrow> bool" where
  "extends joins joins' \<longleftrightarrow> same_joins joins joins' \<and> active joins \<subseteq> active joins'"

lemma extends_refl [simp]: "extends joins joins"
  by (simp add: extends_def same_joins_def)

lemma extends_trans: "extends a b \<Longrightarrow> extends b c \<Longrightarrow> extends a c"
  by (auto simp: extends_def same_joins_def)

lemma active_set_active:
  "active (set_active key joins) = (if map_of joins key = None then active joins else insert key (active joins))"
  by (auto simp: active_def split: if_splits)

lemma extends_set_active: "extends joins (set_active key joins)"
  by (auto simp: extends_def same_joins_def active_set_active option.map_comp comp_def)

lemma same_joins_lookup:
  assumes "same_joins a b" "map_of a k = Some j"
  obtains j' where "map_of b k = Some j'" "tj_ActivateOtherJoins j' = tj_ActivateOtherJoins j"
proof -
  have "map_option (\<lambda>j. j\<lparr>tj_Active := True\<rparr>) (map_of b k) = Some (j\<lparr>tj_Active := True\<rparr>)"
    using assms unfolding same_joins_def by (metis option.simps(9))
  then obtain j' where j': "map_of b k = Some j'" "j'\<lparr>tj_Active := True\<rparr> = j\<lparr>tj_Active := True\<rparr>"
    by auto
  from arg_cong [OF j'(2), of tj_ActivateOtherJoins] j'(1) show thesis by (auto intro: that)
qed

lemma same_joins_sym: "same_joins a b \<Longrightarrow> same_joins b a"
  by (auto simp: same_joins_def)

lemma requires_same: "same_joins a b \<Longrightarrow> requires a = requires b"
  by (auto simp: requires_def) (metis same_joins_lookup same_joins_sym)+

lemma requires_extends: "extends a b \<Longrightarrow> requires b = requires a"
  unfolding extends_def by (metis requires_same)

section \<open>Facts on the activation\<close>

text \<open>
  The contract of a recursive activation: it only activates joins that the active ones
  require, and leaves a closed set.
\<close>

definition activates :: "(join_map \<Rightarrow> join_map res option) \<Rightarrow> bool" where
  "activates again \<longleftrightarrow>
     (\<forall>joins joins'. again joins = Some (Ok joins') \<longrightarrow>
        extends joins joins' \<and> closed_joins joins' \<and>
        active joins' \<subseteq> (requires joins)\<^sup>* `` active joins)"

lemma reach_trans:
  assumes "A \<subseteq> R\<^sup>* `` B" "B \<subseteq> R\<^sup>* `` C"
  shows "A \<subseteq> R\<^sup>* `` C"
proof
  fix a
  assume "a \<in> A"
  with assms(1) obtain b where "b \<in> B" "(b, a) \<in> R\<^sup>*" by auto
  moreover from this assms(2) obtain c where "c \<in> C" "(c, b) \<in> R\<^sup>*" by auto
  ultimately show "a \<in> R\<^sup>* `` C" by (meson Image_iff rtrancl_trans)
qed

lemma activate_others_sound:
  assumes "activates again" "activate_others again names joins = Some (Ok joins')"
    and "k \<in> active joins" "set names \<subseteq> requires joins `` {k}"
  shows "extends joins joins' \<and> set names \<subseteq> active joins' \<and> (joins' = joins \<or> closed_joins joins') \<and>
    active joins' \<subseteq> (requires joins)\<^sup>* `` active joins"
  using assms(2-)
proof (induction names arbitrary: joins)
  case (Cons name names)
  then obtain other where other: "map_of joins name = Some other"
    by (auto split: option.splits)
  show ?case
  proof (cases "tj_Active other")
    case True
    with Cons.prems other have "activate_others again names joins = Some (Ok joins')" by simp
    from Cons.IH [OF this Cons.prems(2)] Cons.prems(3) True other show ?thesis
      by (auto simp: active_def extends_def)
  next
    case False
    with Cons.prems(1) other obtain joins1 where j1: "again (set_active name joins) = Some (Ok joins1)"
        "activate_others again names joins1 = Some (Ok joins')"
      by (auto split: option.splits gres.splits)
    let ?R = "requires joins"
    have R: "requires (set_active name joins) = ?R"
      using requires_extends [OF extends_set_active] .
    from assms(1) j1(1) R have sound: "extends (set_active name joins) joins1" "closed_joins joins1"
        "active joins1 \<subseteq> ?R\<^sup>* `` active (set_active name joins)"
      unfolding activates_def by metis+
    have ext: "extends joins joins1" using extends_trans [OF extends_set_active sound(1)] .
    then have R1: "requires joins1 = ?R" by (rule requires_extends)
    have "active (set_active name joins) \<subseteq> ?R\<^sup>* `` active joins"
      using Cons.prems(2,3) by (auto simp: active_set_active)
    with sound(3) have reach1: "active joins1 \<subseteq> ?R\<^sup>* `` active joins"
      by (rule reach_trans)
    have "name \<in> active joins1"
      using sound(1) other by (auto simp: extends_def active_set_active)
    moreover have "k \<in> active joins1" using ext Cons.prems(2) by (auto simp: extends_def)
    with Cons.IH [OF j1(2)] Cons.prems(3) R1 have rest:
      "extends joins1 joins'" "set names \<subseteq> active joins'" "joins' = joins1 \<or> closed_joins joins'"
      "active joins' \<subseteq> ?R\<^sup>* `` active joins1" by simp_all
    moreover have "active joins1 \<subseteq> active joins'" using rest(1) by (simp add: extends_def)
    ultimately have "set (name # names) \<subseteq> active joins'" by auto
    moreover have "extends joins joins'" using extends_trans [OF ext rest(1)] .
    moreover have "closed_joins joins'" using rest(3) sound(2) by blast
    moreover have "active joins' \<subseteq> ?R\<^sup>* `` active joins" using reach_trans [OF rest(4) reach1] .
    ultimately show ?thesis by blast
  qed
qed auto

lemma activate_each_sound:
  assumes "activates again" "activate_each again ks joins = Some (Ok joins')"
    and "\<And>k. k \<in> active joins \<Longrightarrow> k \<notin> set ks \<Longrightarrow> requires joins `` {k} \<subseteq> active joins"
  shows "extends joins joins' \<and> closed_joins joins' \<and> active joins' \<subseteq> (requires joins)\<^sup>* `` active joins"
  using assms(2-)
proof (induction ks arbitrary: joins)
  case Nil
  then show ?case by (auto simp: closed_joins_def)
next
  case (Cons k ks)
  show ?case
  proof (cases "k \<in> active joins")
    case False
    then have "activate_each again ks joins = Some (Ok joins')"
      using Cons.prems(1) by (auto simp: active_def split: option.splits)
    with Cons.IH Cons.prems(2) False show ?thesis by (metis set_ConsD)
  next
    case True
    then obtain join where join: "map_of joins k = Some join" "tj_Active join" by (auto simp: active_def)
    with Cons.prems(1) obtain joins1 where
      j1: "activate_others again (tj_ActivateOtherJoins join) joins = Some (Ok joins1)"
        "activate_each again ks joins1 = Some (Ok joins')"
      by (auto split: option.splits gres.splits)
    have req: "requires joins `` {k} = set (tj_ActivateOtherJoins join)"
      using join by (auto simp: requires_def)
    note s = activate_others_sound [OF assms(1) j1(1) True]
    have sound: "extends joins joins1" "set (tj_ActivateOtherJoins join) \<subseteq> active joins1"
      "joins1 = joins \<or> closed_joins joins1" "active joins1 \<subseteq> (requires joins)\<^sup>* `` active joins"
      using s req by auto
    have R1: "requires joins1 = requires joins" using sound(1) by (rule requires_extends)
    have "requires joins1 `` {x} \<subseteq> active joins1" if "x \<in> active joins1" "x \<notin> set ks" for x
      using sound(3)
    proof
      assume "joins1 = joins"
      with that Cons.prems(2) [of x] req sound(2) show ?thesis by (cases "x = k") auto
    qed (use that(1) in \<open>auto simp: closed_joins_def\<close>)
    from Cons.IH [OF j1(2) this] R1 have rest:
      "extends joins1 joins'" "closed_joins joins'" "active joins' \<subseteq> (requires joins)\<^sup>* `` active joins1"
      by simp_all
    then show ?thesis
      using extends_trans [OF sound(1) rest(1)] reach_trans [OF rest(3) sound(4)] by blast
  qed
qed

lemma activate_required_sound: "activates (activate_required n)"
proof (induction n)
  case 0
  then show ?case by (simp add: activates_def)
next
  case (Suc n)
  have "k \<in> set (map fst joins)" if "k \<in> active joins" for k joins
    using that by (force simp: active_def dest: map_of_SomeD)
  with activate_each_sound [OF Suc] show ?case
    unfolding activates_def activate_required.simps by blast
qed

text \<open>The fuel that the activation needs: one step for every inactive join.\<close>

definition inactive_count :: "join_map \<Rightarrow> nat" where
  "inactive_count joins = card (set (map fst joins) - active joins)"

lemma inactive_count_extends: "extends a b \<Longrightarrow> inactive_count b \<le> inactive_count a"
  unfolding inactive_count_def extends_def same_joins_def by (intro card_mono) auto

lemma inactive_count_set_active:
  assumes "map_of joins name = Some other" "\<not> tj_Active other"
  shows "inactive_count (set_active name joins) < inactive_count joins"
proof -
  have "name \<in> set (map fst joins) - active joins"
    using assms by (force simp: active_def dest: map_of_SomeD)
  then show ?thesis
    using assms unfolding inactive_count_def
    by (intro psubset_card_mono) (auto simp: active_set_active)
qed

lemma activate_others_enough:
  assumes "activates again" and "\<And>j. inactive_count j < n \<Longrightarrow> again j \<noteq> None"
    and "inactive_count joins \<le> n"
  shows "activate_others again names joins \<noteq> None"
  using assms(3)
proof (induction names arbitrary: joins)
  case (Cons name names)
  have "again (set_active name joins) \<noteq> None"
    if "map_of joins name = Some other" "\<not> tj_Active other" for other
    using assms(2) inactive_count_set_active [OF that] Cons.prems by simp
  moreover have "inactive_count j \<le> n" if "again (set_active name joins) = Some (Ok j)" for j
  proof -
    from that assms(1) have "extends (set_active name joins) j" unfolding activates_def by blast
    from extends_trans [OF extends_set_active this] show ?thesis
      using inactive_count_extends Cons.prems by fastforce
  qed
  ultimately show ?case using Cons.IH Cons.prems by (auto split: option.splits gres.splits)
qed simp

lemma activate_each_enough:
  assumes "activates again" and "\<And>j. inactive_count j < n \<Longrightarrow> again j \<noteq> None"
    and "inactive_count joins \<le> n"
  shows "activate_each again ks joins \<noteq> None"
  using assms(3)
proof (induction ks arbitrary: joins)
  case (Cons k ks)
  have "inactive_count j \<le> n"
    if "map_of joins k = Some join" "tj_Active join"
      "activate_others again (tj_ActivateOtherJoins join) joins = Some (Ok j)" for join j
  proof -
    have "extends joins j"
      using activate_others_sound [OF assms(1) that(3), of k] that(1,2)
      by (auto simp: active_def requires_def)
    then show ?thesis using inactive_count_extends Cons.prems by fastforce
  qed
  note step = this
  show ?case
  proof (cases "map_of joins k")
    case None
    with Cons show ?thesis by simp
  next
    case (Some join)
    obtain r where r: "activate_others again (tj_ActivateOtherJoins join) joins = Some r"
      using activate_others_enough [OF assms(1,2) Cons.prems] by blast
    show ?thesis
      using Some r Cons step [OF Some] by (cases "tj_Active join"; cases r) simp_all
  qed
qed simp

lemma activate_required_enough: "inactive_count joins < n \<Longrightarrow> activate_required n joins \<noteq> None"
proof (induction n arbitrary: joins)
  case (Suc n)
  then show ?case using activate_each_enough [OF activate_required_sound, of n n] by simp
qed simp

lemma inactive_count_le: "inactive_count joins \<le> length joins"
proof -
  have "inactive_count joins \<le> card (set (map fst joins))"
    unfolding inactive_count_def by (intro card_mono) auto
  also have "\<dots> \<le> length joins" using card_length [of "map fst joins"] by simp
  finally show ?thesis .
qed

lemma ActivateRequiredJoins_fuel:
  "activate_required (Suc (length joins)) joins = Some (ActivateRequiredJoins joins)"
  using activate_required_enough [of joins "Suc (length joins)"] inactive_count_le [of joins]
  by (auto simp: ActivateRequiredJoins_def split: option.splits)

text \<open>When every required join is declared, the activation succeeds.\<close>

definition declared :: "join_map \<Rightarrow> bool" where
  "declared joins \<longleftrightarrow> snd ` requires joins \<subseteq> set (map fst joins)"

lemma declared_same: "same_joins a b \<Longrightarrow> declared a \<Longrightarrow> declared b"
  using requires_same [of a b] by (simp add: declared_def same_joins_def)

lemma map_of_fst_Some: "k \<in> set (map fst xs) \<Longrightarrow> \<exists>v. map_of xs k = Some v"
  by (metis list.set_map map_of_eq_None_iff not_None_eq)

definition succeeds :: "(join_map \<Rightarrow> join_map res option) \<Rightarrow> bool" where
  "succeeds again \<longleftrightarrow> (\<forall>j r. declared j \<and> again j = Some r \<longrightarrow> (\<exists>j'. r = Ok j'))"

lemma activate_others_Ok:
  assumes "activates again" "succeeds again"
    and "declared joins" "k \<in> active joins" "set names \<subseteq> requires joins `` {k}"
    and "activate_others again names joins = Some r"
  shows "\<exists>j. r = Ok j"
  using assms(3-)
proof (induction names arbitrary: joins)
  case (Cons name names)
  then have "(k, name) \<in> requires joins" by auto
  with Cons.prems(1) have "name \<in> set (map fst joins)" unfolding declared_def by force
  from map_of_fst_Some [OF this] obtain other where other: "map_of joins name = Some other" ..
  show ?case
  proof (cases "tj_Active other")
    case True
    with Cons other show ?thesis by auto
  next
    case False
    have decl: "declared (set_active name joins)"
      using declared_same extends_set_active Cons.prems(1) unfolding extends_def by blast
    from False Cons.prems(4) other obtain r1 where r1: "again (set_active name joins) = Some r1"
      by (cases "again (set_active name joins)") auto
    with assms(2) decl obtain j where "r1 = Ok j" unfolding succeeds_def by blast
    with False Cons.prems(4) other r1 have
      j: "again (set_active name joins) = Some (Ok j)" "activate_others again names j = Some r"
      by simp_all
    then have ext: "extends (set_active name joins) j" using assms(1) unfolding activates_def by blast
    then have "declared j" using declared_same decl unfolding extends_def by blast
    moreover have ext': "extends joins j" using extends_trans [OF extends_set_active ext] .
    moreover have "set names \<subseteq> requires j `` {k}"
      using Cons.prems(3) requires_extends [OF ext'] by simp
    ultimately show ?thesis using Cons.IH [OF _ _ _ j(2)] Cons.prems(2) by (auto simp: extends_def)
  qed
qed auto

lemma activate_each_Ok:
  assumes "activates again" "succeeds again" "declared joins"
    and "activate_each again ks joins = Some r"
  shows "\<exists>j. r = Ok j"
  using assms(3-)
proof (induction ks arbitrary: joins)
  case (Cons k ks)
  show ?case
  proof (cases "k \<in> active joins")
    case False
    with Cons show ?thesis by (auto simp: active_def split: option.splits)
  next
    case True
    then obtain join where join: "map_of joins k = Some join" "tj_Active join" by (auto simp: active_def)
    have req: "set (tj_ActivateOtherJoins join) \<subseteq> requires joins `` {k}"
      using join by (auto simp: requires_def)
    from join Cons.prems(2) obtain r1 where
      r1: "activate_others again (tj_ActivateOtherJoins join) joins = Some r1"
      by (cases "activate_others again (tj_ActivateOtherJoins join) joins") auto
    from activate_others_Ok [OF assms(1,2) Cons.prems(1) True req r1] obtain j where "r1 = Ok j" ..
    with join Cons.prems(2) r1 have
      j: "activate_others again (tj_ActivateOtherJoins join) joins = Some (Ok j)"
        "activate_each again ks j = Some r" by simp_all
    have "extends joins j" using activate_others_sound [OF assms(1) j(1) True req] by blast
    then have "declared j" using declared_same Cons.prems(1) unfolding extends_def by blast
    with Cons.IH j(2) show ?thesis by blast
  qed
qed auto

lemma activate_required_Ok: "succeeds (activate_required n)"
proof (induction n)
  case (Suc n)
  from activate_each_Ok [OF activate_required_sound Suc] show ?case
    unfolding succeeds_def activate_required.simps by blast
qed (simp add: succeeds_def)

lemma ActivateRequiredJoins_sound:
  assumes "ActivateRequiredJoins joins = Ok joins'"
  shows "extends joins joins'" "closed_joins joins'" "active joins' = (requires joins)\<^sup>* `` active joins"
proof -
  have ok: "activate_required (Suc (length joins)) joins = Some (Ok joins')"
    using ActivateRequiredJoins_fuel [of joins] assms by simp
  then have s: "extends joins joins'" "closed_joins joins'"
      "active joins' \<subseteq> (requires joins)\<^sup>* `` active joins"
    using activate_required_sound unfolding activates_def by blast+
  have "requires joins `` active joins' \<subseteq> active joins'"
    using s(2) requires_extends [OF s(1)] by (simp add: closed_joins_def)
  then have "(requires joins)\<^sup>* `` active joins' = active joins'" by (rule Image_closed_trancl)
  moreover have "active joins \<subseteq> active joins'" using s(1) by (simp add: extends_def)
  ultimately have "(requires joins)\<^sup>* `` active joins \<subseteq> active joins'" by blast
  with s show "extends joins joins'" "closed_joins joins'"
      "active joins' = (requires joins)\<^sup>* `` active joins" by blast+
qed

lemma ActivateRequiredJoins_succeeds: "declared joins \<Longrightarrow> \<exists>joins'. ActivateRequiredJoins joins = Ok joins'"
  using activate_required_Ok ActivateRequiredJoins_fuel unfolding succeeds_def by blast

section \<open>Facts on the order\<close>

text \<open>
  A list of joins is in dependency order when everything a join requires stands before it.
\<close>

definition dependency_order :: "join_map \<Rightarrow> string list \<Rightarrow> bool" where
  "dependency_order m ord \<longleftrightarrow> (\<forall>xs x ys. ord = xs @ x # ys \<longrightarrow> requires m `` {x} \<subseteq> set xs)"

lemma dependency_order_snoc:
  "dependency_order m (ord @ [x]) \<longleftrightarrow> dependency_order m ord \<and> requires m `` {x} \<subseteq> set ord"
proof
  assume snoc: "dependency_order m (ord @ [x])"
  then have "requires m `` {x} \<subseteq> set ord" unfolding dependency_order_def by blast
  moreover have "dependency_order m ord"
    using snoc unfolding dependency_order_def by (metis append.assoc append_Cons)
  ultimately show "dependency_order m ord \<and> requires m `` {x} \<subseteq> set ord" by simp
next
  assume old: "dependency_order m ord \<and> requires m `` {x} \<subseteq> set ord"
  show "dependency_order m (ord @ [x])"
    unfolding dependency_order_def
  proof (intro allI impI)
    fix xs y ys
    assume split: "ord @ [x] = xs @ y # ys"
    show "requires m `` {y} \<subseteq> set xs"
    proof (cases ys rule: rev_cases)
      case Nil
      with split old show ?thesis by simp
    next
      case (snoc zs z)
      with split have "ord = xs @ y # zs" by simp
      with old show ?thesis unfolding dependency_order_def by blast
    qed
  qed
qed

definition orderer_inv :: "join_map \<Rightarrow> orderer \<Rightarrow> bool" where
  "orderer_inv m st \<longleftrightarrow>
     set (snd st) \<subseteq> set (fst st) \<inter> active m \<and> distinct (snd st) \<and> dependency_order m (snd st)"

text \<open>The joins on the recursion stack: visited, active and not yet ordered.\<close>

definition pending :: "join_map \<Rightarrow> orderer \<Rightarrow> string set" where
  "pending m st = set (fst st) \<inter> active m - set (snd st)"

definition progress :: "join_map \<Rightarrow> orderer \<Rightarrow> orderer \<Rightarrow> bool" where
  "progress m st st' \<longleftrightarrow>
     set (fst st) \<subseteq> set (fst st') \<and> pending m st' \<subseteq> pending m st \<and>
     set (snd st') \<inter> set (fst st) \<subseteq> set (snd st)"

lemma progress_refl [simp]: "progress m st st"
  by (simp add: progress_def)

lemma progress_trans: "progress m a b \<Longrightarrow> progress m b c \<Longrightarrow> progress m a c"
  unfolding progress_def by blast

text \<open>What a visit of one join promises, for a ranking of the joins.\<close>

definition visits :: "join_map \<Rightarrow> (string \<Rightarrow> nat) \<Rightarrow> (string \<Rightarrow> orderer \<Rightarrow> orderer res option) \<Rightarrow> string \<Rightarrow> bool" where
  "visits m r visit name \<longleftrightarrow>
     (\<forall>st st'. orderer_inv m st \<and> (\<forall>x \<in> pending m st. r name < r x) \<and> visit name st = Some (Ok st') \<longrightarrow>
        orderer_inv m st' \<and> progress m st st' \<and> name \<in> set (fst st'))"

lemma visitsD:
  assumes "visits m r visit name" "orderer_inv m st" "\<forall>x \<in> pending m st. r name < r x"
    and "visit name st = Some (Ok st')"
  shows "orderer_inv m st'" "progress m st st'" "name \<in> set (fst st')"
  using assms unfolding visits_def by blast+

lemma visit_all_spec:
  assumes "\<forall>name \<in> set names. visits m r visit name"
    and "orderer_inv m st" "\<forall>name \<in> set names. \<forall>x \<in> pending m st. r name < r x"
    and "visit_all visit names st = Some (Ok st')"
  shows "orderer_inv m st' \<and> progress m st st' \<and> set names \<subseteq> set (fst st')"
  using assms
proof (induction names arbitrary: st)
  case (Cons name names)
  from Cons.prems(4) obtain st1 where st1: "visit name st = Some (Ok st1)"
      "visit_all visit names st1 = Some (Ok st')"
    by (auto split: option.splits gres.splits)
  have "visits m r visit name" "\<forall>x \<in> pending m st. r name < r x" using Cons.prems(1,3) by simp_all
  note one = visitsD [OF this(1) Cons.prems(2) this(2) st1(1)]
  have "\<forall>n \<in> set names. \<forall>x \<in> pending m st1. r n < r x"
    using Cons.prems(3) one(2) unfolding progress_def by auto
  moreover have "\<forall>n \<in> set names. visits m r visit n" using Cons.prems(1) by simp
  ultimately have rest: "orderer_inv m st'" "progress m st1 st'" "set names \<subseteq> set (fst st')"
    using Cons.IH [OF _ one(1) _ st1(2)] by blast+
  moreover have "name \<in> set (fst st')" using one(3) rest(2) unfolding progress_def by blast
  ultimately show ?case using progress_trans [OF one(2)] by auto
qed simp

text \<open>The visit of an active join that was not visited before.\<close>

lemma visit_active:
  assumes "closed_joins m" and rank: "\<And>k d. (k, d) \<in> requires m \<Longrightarrow> r d < (r k :: nat)"
    and inv: "orderer_inv m (vis, ord)" and pend: "\<forall>x \<in> pending m (vis, ord). r name < r x"
    and j: "map_of m name = Some j" and fresh: "name \<notin> set vis" and act: "tj_Active j"
    and IH: "\<forall>d. visits m r visit d"
    and st2: "visit_all visit (tj_ActivateOtherJoins j) (name # vis, ord) = Some (Ok st2)"
    and st': "st' = (fst st2, snd st2 @ [name])"
  shows "orderer_inv m st' \<and> progress m (vis, ord) st' \<and> name \<in> set (fst st')"
proof -
  let ?st1 = "(name # vis, ord)"
  have act: "name \<in> active m" using act j by (simp add: active_def)
  have req: "set (tj_ActivateOtherJoins j) = requires m `` {name}" using j by (auto simp: requires_def)
  have inv1: "orderer_inv m ?st1" using inv by (auto simp: orderer_inv_def)
  have new: "name \<notin> set ord" using inv fresh by (auto simp: orderer_inv_def)
  have pend1: "pending m ?st1 = insert name (pending m (vis, ord))"
    using act new by (auto simp: pending_def)
  have lower: "r d < r x" if "d \<in> requires m `` {name}" "x \<in> pending m ?st1" for d x
    using that pend1 pend rank [of name d] by (metis Image_singleton_iff insertE less_trans)
  have sub: "orderer_inv m st2" "progress m ?st1 st2" "requires m `` {name} \<subseteq> set (fst st2)"
    using visit_all_spec [OF _ inv1 _ st2, of r] IH lower req by blast+
  have "requires m `` {name} \<subseteq> set (snd st2)"
  proof
    fix d
    assume d: "d \<in> requires m `` {name}"
    then have "d \<in> active m" using assms(1) act unfolding closed_joins_def by blast
    moreover have "d \<notin> pending m st2"
      using lower [OF d] sub(2) unfolding progress_def by blast
    ultimately show "d \<in> set (snd st2)" using d sub(3) by (auto simp: pending_def)
  qed
  moreover have "name \<notin> set (snd st2)" using sub(2) new unfolding progress_def by auto
  moreover have seen: "name \<in> set (fst st2)" using sub(2) unfolding progress_def by auto
  ultimately have "orderer_inv m st'"
    using sub(1) act by (auto simp: orderer_inv_def dependency_order_snoc st')
  moreover have "progress m (vis, ord) st'"
    using sub(2) pend1 fresh unfolding progress_def st' by (auto simp: pending_def)
  ultimately show ?thesis using seen by (simp add: st')
qed

lemma visit_spec:
  assumes "closed_joins m" and rank: "\<And>k d. (k, d) \<in> requires m \<Longrightarrow> r d < (r k :: nat)"
  shows "visits m r (visitDepthFirst n m) name"
proof (induction n arbitrary: name)
  case 0
  then show ?case by (simp add: visits_def)
next
  case (Suc n)
  have "orderer_inv m st' \<and> progress m st st' \<and> name \<in> set (fst st')"
    if pre: "orderer_inv m st" "\<forall>x \<in> pending m st. r name < r x"
      and run: "visitDepthFirst (Suc n) m name st = Some (Ok st')" for st st'
  proof -
    obtain vis ord where st: "st = (vis, ord)" by (cases st)
    from run st obtain j where j: "map_of m name = Some j" by (auto split: option.splits)
    consider "name \<in> set vis" | "name \<notin> set vis" "\<not> tj_Active j" | "name \<notin> set vis" "tj_Active j"
      by blast
    then show ?thesis
    proof cases
      case 1
      with pre run st j show ?thesis by auto
    next
      case 2
      then have "name \<notin> active m" using j by (simp add: active_def)
      with 2 pre run st j show ?thesis by (auto simp: orderer_inv_def progress_def pending_def)
    next
      case 3
      from 3 run st j obtain st2 where st2:
          "visit_all (visitDepthFirst n m) (tj_ActivateOtherJoins j) (name # vis, ord) = Some (Ok st2)"
          "st' = (fst st2, snd st2 @ [name])"
        by (auto split: option.splits gres.splits prod.splits)
      show ?thesis using visit_active [OF assms pre [unfolded st] j 3 _ st2] Suc.IH st by blast
    qed
  qed
  then show ?case unfolding visits_def by blast
qed

text \<open>The traversal ends: each nested visit marks one more join as visited.\<close>

definition unvisited :: "join_map \<Rightarrow> orderer \<Rightarrow> nat" where
  "unvisited m st = card (set (map fst m) - set (fst st))"

lemma unvisited_mono: "set (fst st) \<subseteq> set (fst st') \<Longrightarrow> unvisited m st' \<le> unvisited m st"
  unfolding unvisited_def by (intro card_mono) auto

lemma visit_all_grows:
  assumes "\<And>name st st'. visit name st = Some (Ok st') \<Longrightarrow> set (fst st) \<subseteq> set (fst st')"
    and "visit_all visit names st = Some (Ok st')"
  shows "set (fst st) \<subseteq> set (fst st')"
  using assms(2)
proof (induction names arbitrary: st)
  case (Cons name names)
  then obtain st1 where "visit name st = Some (Ok st1)" "visit_all visit names st1 = Some (Ok st')"
    by (auto split: option.splits gres.splits)
  with Cons.IH assms(1) show ?case by blast
qed simp

lemma visit_grows: "visitDepthFirst n m name st = Some (Ok st') \<Longrightarrow> set (fst st) \<subseteq> set (fst st')"
proof (induction n arbitrary: name st st')
  case (Suc n)
  obtain vis ord where st: "st = (vis, ord)" by (cases st)
  from Suc.prems st obtain j where j: "map_of m name = Some j" by (auto split: option.splits)
  show ?case
  proof (cases "name \<in> set vis \<or> \<not> tj_Active j")
    case True
    with Suc.prems st j show ?thesis by (auto split: if_splits)
  next
    case False
    with Suc.prems st j obtain st2 where st2:
      "visit_all (visitDepthFirst n m) (tj_ActivateOtherJoins j) (name # vis, ord) = Some (Ok st2)"
      "fst st' = fst st2" by (auto split: option.splits gres.splits prod.splits)
    have "set (fst (name # vis, ord)) \<subseteq> set (fst st2)"
      by (rule visit_all_grows [OF _ st2(1)]) (rule Suc.IH)
    with st st2(2) show ?thesis by simp
  qed
qed simp

lemma visit_all_enough:
  assumes "\<And>name st st'. visit name st = Some (Ok st') \<Longrightarrow> set (fst st) \<subseteq> set (fst st')"
    and "\<And>name st. unvisited m st < n \<Longrightarrow> visit name st \<noteq> None" "unvisited m st < n"
  shows "visit_all visit names st \<noteq> None"
  using assms(3)
proof (induction names arbitrary: st)
  case (Cons name names)
  obtain r where r: "visit name st = Some r" using assms(2) Cons.prems by blast
  have "unvisited m st1 < n" if "r = Ok st1" for st1
    using assms(1) r that unvisited_mono Cons.prems by (metis le_less_trans)
  with r Cons.IH show ?case by (cases r) auto
qed simp

lemma visit_enough: "unvisited m st < n \<Longrightarrow> visitDepthFirst n m name st \<noteq> None"
proof (induction n arbitrary: name st)
  case (Suc n)
  obtain vis ord where st: "st = (vis, ord)" by (cases st)
  have "unvisited m (name # vis, ord) < n" if "map_of m name = Some j" "name \<notin> set vis" for j
  proof -
    have "name \<in> set (map fst m)" using that(1) by (force dest: map_of_SomeD)
    then have "unvisited m (name # vis, ord) < unvisited m (vis, ord)"
      using that(2) unfolding unvisited_def by (intro psubset_card_mono) auto
    with Suc.prems st show ?thesis by simp
  qed
  then have "visit_all (visitDepthFirst n m) (tj_ActivateOtherJoins j) (name # vis, ord) \<noteq> None"
    if "map_of m name = Some j" "name \<notin> set vis" for j
    using that by (intro visit_all_enough [of "visitDepthFirst n m" m n] visit_grows Suc.IH) blast+
  then show ?case using st by (auto split: option.splits gres.splits)
qed simp

text \<open>When every required join is declared, no visit fails.\<close>

lemma visit_all_Ok:
  assumes "\<And>name st r. name \<in> set names \<Longrightarrow> visit name st = Some r \<Longrightarrow> \<exists>st'. r = Ok st'"
    and "visit_all visit names st = Some r"
  shows "\<exists>st'. r = Ok st'"
  using assms
proof (induction names arbitrary: st)
  case (Cons name names)
  obtain r1 where r1: "visit name st = Some r1"
    using Cons.prems(2) by (cases "visit name st") auto
  then obtain st1 where st1: "r1 = Ok st1" using Cons.prems(1) [of name st r1] by (meson list.set_intros(1))
  moreover have "visit_all visit names st1 = Some r" using Cons.prems(2) r1 st1 by simp
  ultimately show ?case using Cons.IH Cons.prems(1) by (meson list.set_intros(2))
qed auto

lemma visit_Ok:
  assumes "declared m" "name \<in> set (map fst m)" "visitDepthFirst n m name st = Some r"
  shows "\<exists>st'. r = Ok st'"
  using assms(2,3)
proof (induction n arbitrary: name st r)
  case (Suc n)
  obtain vis ord where st: "st = (vis, ord)" by (cases st)
  obtain j where j: "map_of m name = Some j" using map_of_fst_Some [OF Suc.prems(1)] by blast
  have deps: "d \<in> set (map fst m)" if "d \<in> set (tj_ActivateOtherJoins j)" for d
    using assms(1) j that unfolding declared_def requires_def by force
  have "\<exists>st'. r' = Ok st'"
    if "visit_all (visitDepthFirst n m) (tj_ActivateOtherJoins j) (name # vis, ord) = Some r'" for r'
    using visit_all_Ok [OF _ that] Suc.IH deps by blast
  with Suc.prems(2) st j show ?case
    by (fastforce split: if_splits option.splits gres.splits prod.splits)
qed simp

text \<open>An acyclic requirement relation has a ranking.\<close>

lemma finite_requires: "finite (requires joins)"
proof (rule finite_subset)
  show "requires joins \<subseteq> (\<Union>(k, j) \<in> set joins. {k} \<times> set (tj_ActivateOtherJoins j))"
    by (auto simp: requires_def dest!: map_of_SomeD)
qed auto

lemma acyclic_rank:
  assumes "finite R" "acyclic R" "(k, d) \<in> R"
  shows "card (R\<^sup>+ `` {d}) < card (R\<^sup>+ `` {k})"
proof (rule psubset_card_mono)
  show "finite (R\<^sup>+ `` {k})" using assms(1) by simp
  have "R\<^sup>+ `` {d} \<subseteq> R\<^sup>+ `` {k}" using assms(3) by (auto intro: trancl_into_trancl2)
  moreover have "d \<in> R\<^sup>+ `` {k}" using assms(3) by auto
  moreover have "d \<notin> R\<^sup>+ `` {d}" using assms(2) by (auto simp: acyclic_def)
  ultimately show "R\<^sup>+ `` {d} \<subset> R\<^sup>+ `` {k}" by blast
qed

lemma acyclic_by_rank:
  assumes "\<And>k d. (k, d) \<in> R \<Longrightarrow> r d < (r k :: nat)"
  shows "acyclic R"
proof -
  have "R\<inverse> \<subseteq> measure r" using assms by auto
  then have "wf (R\<inverse>)" by (rule wf_subset [OF wf_measure])
  then show ?thesis by (metis acyclic_converse wf_acyclic)
qed

lemma visited_keys_order:
  assumes "closed_joins m" "acyclic (requires m)"
    and "visit_all (visitDepthFirst n m) (map fst m) ([], []) = Some (Ok (vis, ord))"
  shows "set ord = active m \<and> distinct ord \<and> dependency_order m ord"
proof -
  define r where "r k = card ((requires m)\<^sup>+ `` {k})" for k
  have "visits m r (visitDepthFirst n m) name" for name
    using acyclic_rank [OF finite_requires assms(2)] by (intro visit_spec assms(1)) (simp add: r_def)
  moreover have "orderer_inv m ([], [])" by (simp add: orderer_inv_def dependency_order_def)
  ultimately have fin: "orderer_inv m (vis, ord)" "progress m ([], []) (vis, ord)" "set (map fst m) \<subseteq> set vis"
    using visit_all_spec [where r = r, OF _ _ _ assms(3)] by (auto simp: pending_def)
  have "active m \<subseteq> set (map fst m)" by (force simp: active_def dest: map_of_SomeD)
  moreover have "set vis \<inter> active m \<subseteq> set ord" using fin(2) by (auto simp: progress_def pending_def)
  ultimately have "active m \<subseteq> set ord" using fin(3) by blast
  with fin(1) show ?thesis by (auto simp: orderer_inv_def)
qed

section \<open>Properties\<close>

text \<open>
  C9. Ordering of joins. When every required join is declared and the requirements have no
  cycle, the activation and ordering of joins succeeds; the result contains every
  join that is required directly or indirectly by an active one, exactly once and nothing
  else, and each join stands behind all joins it requires. The result as a set does not
  depend on the iteration order of the Go map.
\<close>

theorem ordered_joins_complete:
  assumes "declared joins" and "acyclic (requires joins)"
  shows "\<exists>joins' ord. GetOrderdActivatedJoins joins = Ok (joins', ord) \<and> extends joins joins' \<and>
           set ord = (requires joins)\<^sup>* `` active joins \<and> distinct ord \<and> dependency_order joins ord"
proof -
  obtain joins' where act: "ActivateRequiredJoins joins = Ok joins'"
    using ActivateRequiredJoins_succeeds [OF assms(1)] ..
  note s = ActivateRequiredJoins_sound [OF act]
  have R: "requires joins' = requires joins" using requires_extends [OF s(1)] .
  have decl: "declared joins'" using declared_same assms(1) s(1) unfolding extends_def by blast
  let ?visit = "visitDepthFirst (Suc (length joins')) joins'"
  have "unvisited joins' ([], []) < Suc (length joins')"
    using card_length [of "map fst joins'"] by (simp add: unvisited_def)
  then have "visit_all ?visit (map fst joins') ([], []) \<noteq> None"
    by (intro visit_all_enough [of ?visit joins' "Suc (length joins')"] visit_grows visit_enough)
  then obtain r where r: "visit_all ?visit (map fst joins') ([], []) = Some r" by blast
  have "\<exists>st'. r = Ok st'"
    by (rule visit_all_Ok [OF _ r]) (rule visit_Ok [OF decl])
  then obtain vis ord where st: "r = Ok (vis, ord)" by auto
  from visited_keys_order [OF s(2)] assms(2) r st R
  have "set ord = active joins' \<and> distinct ord \<and> dependency_order joins' ord" by simp
  then have "set ord = (requires joins)\<^sup>* `` active joins \<and> distinct ord \<and> dependency_order joins ord"
    using s(3) R by (simp add: dependency_order_def)
  moreover have "GetOrderdActivatedJoins joins = Ok (joins', ord)"
    using act r st by (simp add: GetOrderdActivatedJoins_def)
  ultimately show ?thesis using s(1) by blast
qed

definition empty_join :: table_join where
  "empty_join =
     \<lparr>tj_Active = False, tj_TableName = [], tj_TableAlias = [], tj_On = [], tj_Where = [],
      tj_PrefixActivators = [], tj_AllowedColumns = [], tj_DisallowedColumns = [],
      tj_HandledFields = [], tj_ActivateOtherJoins = [], tj_DelegateTo = []\<rparr>"

definition sample_joins :: join_map where
  "sample_joins =
     [(''a'', empty_join\<lparr>tj_Active := True, tj_ActivateOtherJoins := [''b'']\<rparr>),
      (''b'', empty_join\<lparr>tj_ActivateOtherJoins := [''c'']\<rparr>), (''c'', empty_join), (''d'', empty_join)]"

lemma requires_sample_joins: "requires sample_joins = {(''a'', ''b''), (''b'', ''c'')}"
  by (auto simp: requires_def sample_joins_def empty_join_def split: if_splits)

theorem ordered_joins_complete_witness:
  "\<exists>joins' ord. GetOrderdActivatedJoins sample_joins = Ok (joins', ord) \<and>
     dependency_order sample_joins ord"
proof -
  have "declared sample_joins"
    unfolding declared_def requires_sample_joins by (simp add: sample_joins_def)
  moreover have "acyclic (requires sample_joins)"
    unfolding requires_sample_joins
    by (rule acyclic_by_rank [of _ "\<lambda>k. if k = ''a'' then 2 else if k = ''b'' then 1 else 0"]) auto
  ultimately show ?thesis using ordered_joins_complete by blast
qed

section \<open>The static part of the joins\<close>

text \<open>
  A compilation changes only the activation and the handled fields of a join; everything
  else stays as it was declared.
\<close>

definition static_join :: "table_join \<Rightarrow> table_join" where
  "static_join j = j\<lparr>tj_Active := False, tj_HandledFields := []\<rparr>"

definition static :: "join_map \<Rightarrow> join_map" where
  "static m = map (\<lambda>(k, j). (k, static_join j)) m"

lemma static_join_simps [simp]:
  "tj_TableName (static_join j) = tj_TableName j" "tj_TableAlias (static_join j) = tj_TableAlias j"
  "tj_Where (static_join j) = tj_Where j" "tj_PrefixActivators (static_join j) = tj_PrefixActivators j"
  "tj_AllowedColumns (static_join j) = tj_AllowedColumns j"
  "tj_DisallowedColumns (static_join j) = tj_DisallowedColumns j"
  "tj_ActivateOtherJoins (static_join j) = tj_ActivateOtherJoins j"
  "tj_DelegateTo (static_join j) = tj_DelegateTo j"
  "static_join (j\<lparr>tj_Active := b\<rparr>) = static_join j"
  "static_join (j\<lparr>tj_HandledFields := fs\<rparr>) = static_join j"
  by (simp_all add: static_join_def)

lemma static_update_join:
  "(\<And>j. static_join (g j) = static_join j) \<Longrightarrow> static (update_join k g m) = static m"
  by (auto simp: static_def update_join_def)

lemma static_set_active [simp]: "static (set_active k m) = static m"
  by (simp add: set_active_def static_update_join)

lemma map_of_static: "map_of (static m) k = map_option static_join (map_of m k)"
  by (induction m) (auto simp: static_def)

lemma map_fst_static [simp]: "map fst (static m) = map fst m"
  by (simp add: static_def comp_def case_prod_beta)

lemma requires_static: "requires (static m) = requires m"
  by (auto simp: requires_def map_of_static)

lemma declared_static: "declared (static m) = declared m"
  by (simp only: declared_def requires_static map_fst_static)

lemma static_TranslateFieldName: "static (fst (TranslateFieldName m key f)) = static m"
  by (simp add: TranslateFieldName_def Let_def static_update_join
      split: option.splits prod.splits)

lemma dependency_order_static: "dependency_order (static m) ord = dependency_order m ord"
  by (simp add: dependency_order_def requires_static)

text \<open>
  A translated name is a column that the answering join allows; it has no character that the field
  name does not have, besides those of the alias and the quotation marks.
\<close>

lemma join_delegate_Some:
  "join_delegate m key j f = Some (k, d) \<Longrightarrow> map_of m k = Some d"
  by (auto simp: join_delegate_def split: option.splits)

lemma join_column_subset: "set (join_column j f) \<subseteq> set f"
  unfolding join_column_def using TrimSpace_subset TrimPrefix_subset by fast

lemma TranslateFieldName_Ok:
  assumes "TranslateFieldName m key f = (m', Ok col)"
  obtains k j c where "map_of m k = Some j" "col = Column (tj_TableAlias j) c" "column_allowed j c"
    "CHR 0x27 \<notin> set c" "set c \<subseteq> set f" "c \<noteq> []"
proof -
  from assms obtain j where j: "map_of m key = Some j" "HandlesFieldName j f"
    by (auto simp: TranslateFieldName_def split: option.splits if_splits)
  let ?c = "join_column j f"
  from assms j obtain dk dj where dj: "join_delegate (set_active key m) key j f = Some (dk, dj)"
      "?c \<noteq> []" "CHR 0x27 \<notin> set ?c" "column_allowed dj ?c" "col = Column (tj_TableAlias dj) ?c"
    unfolding TranslateFieldName_def Let_def
    by (auto split: if_splits option.splits prod.splits)
  from join_delegate_Some [OF dj(1)] obtain j' where
    j': "map_of m dk = Some j'" "dj = j' \<or> dj = j'\<lparr>tj_Active := True\<rparr>"
    by (auto split: if_splits)
  have "column_allowed j' ?c" "tj_TableAlias dj = tj_TableAlias j'"
    using j'(2) dj(4) by (auto simp: column_allowed_def)
  with dj j' join_column_subset show thesis by (intro that [of dk j' ?c]) auto
qed

end
