(* ===== verification/Expression_Compiler.thy ===== *)
theory Expression_Compiler
  imports Criteria Table_Joins
begin

text \<open>
  The compiler from search expressions to SQL where clauses
  (\<^verbatim>\<open>workitem/expression_compiler.go\<close>). The receiver \<^verbatim>\<open>expressionCompiler\<close> is the
  record \<open>compiler\<close>, threaded through the visits; a visit returns an interface value,
  nil when the expression cannot be compiled. The number formatting of
  \<^verbatim>\<open>strconv.FormatFloat\<close> and the text of a UUID are the parameter \<open>E\<close>.
\<close>

section \<open>The compiler state\<close>

record compiler =
  parameters :: "goval list"
  err :: "go_error list"
  joins :: join_map

record compile_env =
  ce_FormatFloat :: "float64 \<Rightarrow> string"
  ce_uuid :: uuid_lib

definition add_err :: "go_error \<Rightarrow> compiler \<Rightarrow> compiler" where
  "add_err e c = c\<lparr>err := err c @ [e]\<rparr>"

definition add_parameter :: "goval \<Rightarrow> compiler \<Rightarrow> compiler" where
  "add_parameter v c = c\<lparr>parameters := parameters c @ [v]\<rparr>"

section \<open>Field names\<close>

definition fieldMap :: "(string \<times> string) list" where
  "fieldMap = [(''ID'', ''id''), (''Type'', ''type''), (''Version'', ''version''), (''Number'', ''number''),
     (''SpaceID'', ''space_id'')]"

text \<open>The first join, in iteration order, that handles a field name.\<close>

definition handling_join :: "join_map \<Rightarrow> string \<Rightarrow> (string \<times> table_join) option" where
  "handling_join m fieldName = find (\<lambda>(k, j). HandlesFieldName j fieldName) m"

definition getFieldName :: "compiler \<Rightarrow> string \<Rightarrow> string \<times> bool" where
  "getFieldName c fieldName =
     (case handling_join (joins c) fieldName of
        Some _ \<Rightarrow> (fieldName, False)
      | None \<Rightarrow>
          (case map_of fieldMap fieldName of
             Some mappedFieldName \<Rightarrow> (Column workitemTableName mappedFieldName, False)
           | None \<Rightarrow>
               if Contains fieldName ''.'' \<or> Contains fieldName ''_'' then (fieldName, True)
               else (Column workitemTableName fieldName, False)))"

section \<open>JSON context\<close>

definition jsonAnnotation :: string where "jsonAnnotation = ''JSON''"

definition json_annotated :: "expr \<Rightarrow> bool" where
  "json_annotated e \<longleftrightarrow> Annotation e jsonAnnotation = VBool True"

definition bubbleUpJSONContext :: "compiler \<Rightarrow> unit \<Rightarrow> expr \<Rightarrow> unit \<times> expr \<times> bool" where
  "bubbleUpJSONContext c u e =
     (u,
      (case e of
         FieldExpression a name \<Rightarrow>
           if snd (getFieldName c name) then SetAnnotation jsonAnnotation (VBool True) e else e
       | BinaryExpression b a l r \<Rightarrow>
           if b \<in> {EqualsExpression, SubstringExpression, NotExpression} \<and>
              (json_annotated l \<or> json_annotated r)
           then SetAnnotation jsonAnnotation (VBool True) e else e
       | _ \<Rightarrow> e),
      True)"

text \<open>The search through the parents stops at the first annotated one.\<close>

definition isInJSONContext :: "expr list \<Rightarrow> bool" where
  "isInJSONContext ancestors \<longleftrightarrow>
     list_ex json_annotated (IterateParents ancestors (\<lambda>p. \<not> json_annotated p))"

section \<open>Literals\<close>

definition convertToString :: "compile_env \<Rightarrow> goval \<Rightarrow> string res" where
  "convertToString E value =
     (case value of
        VFloat f \<Rightarrow> Ok (ce_FormatFloat E f)
      | VInt i \<Rightarrow> Ok (itoa (sint i))
      | VInt64 i \<Rightarrow> Ok (itoa (sint i))
      | VUint i \<Rightarrow> Ok (itoa (uint i))
      | VUint64 i \<Rightarrow> Ok (itoa (uint i))
      | VString s \<Rightarrow> Ok (quoted s)
      | VBool b \<Rightarrow> Ok (if b then ''true'' else ''false'')
      | VUUID u \<Rightarrow> Ok (uString (ce_uuid E) u)
      | _ \<Rightarrow> Err (EErrorf ''unknown value type %T: %+v''))"

definition wrapStrings :: "string list \<Rightarrow> string" where
  "wrapStrings value = Join (map quoted value) '',''"

definition compile_Literal :: "compile_env \<Rightarrow> expr list \<Rightarrow> goval \<Rightarrow> compiler \<Rightarrow> goval \<times> compiler" where
  "compile_Literal E ancestors value c =
     (if isInJSONContext ancestors then
        (case convertToString E value of
           Ok stringVal \<Rightarrow> (VString (stringVal @ ''}'' @ [CHR 0x27]), c)
         | Panic \<Rightarrow> (VNil, c)
         | Err e \<Rightarrow>
             (case value of
                VStrSlice stringArr \<Rightarrow>
                  (VString (''['' @ wrapStrings stringArr @ '']}'' @ [CHR 0x27]), c)
              | _ \<Rightarrow> (VNil, add_err e c)))
      else (VString ''?'', add_parameter value c))"

section \<open>Fields and comparisons\<close>

text \<open>The translation of a field name by a join of the compiler.\<close>

definition translate_field :: "string \<Rightarrow> string \<Rightarrow> compiler \<Rightarrow> string res \<times> compiler" where
  "translate_field key fieldName c =
     (let (joins', r) = TranslateFieldName (joins c) key fieldName in (r, c\<lparr>joins := joins'\<rparr>))"

text \<open>The prefix of a JSON comparison, and the text access to a JSON field.\<close>

definition fields_contains :: "string \<Rightarrow> string" where
  "fields_contains name = Column workitemTableName ''fields'' @ '' @> '' @ [CHR 0x27] @ ''{'' @ quoted name"

definition fields_text :: "string \<Rightarrow> string" where
  "fields_text name = Column workitemTableName ''fields'' @ ''->>'' @ [CHR 0x27] @ name @ [CHR 0x27]"

definition compile_Field :: "string \<Rightarrow> compiler \<Rightarrow> goval \<times> compiler" where
  "compile_Field fieldName c =
     (if Contains fieldName [CHR 0x22] then
        (VNil, add_err (EErrorf ''field name must not contain double quotes: %s'') c)
      else if Contains fieldName [CHR 0x27] then
        (VNil, add_err (EErrorf ''field name must not contain single quotes: %s'') c)
      else
        (let (mappedFieldName, isJSONField) = getFieldName c fieldName in
         case handling_join (joins c) mappedFieldName of
           Some (key, j) \<Rightarrow>
             (case translate_field key mappedFieldName (c\<lparr>joins := set_active key (joins c)\<rparr>) of
                (Ok col, c1) \<Rightarrow> (VString col, c1)
              | (Err e, c1) \<Rightarrow> (VString [], add_err (EWrap ''failed to translate field %s'' e) c1)
              | (Panic, c1) \<Rightarrow> (VNil, c1))
         | None \<Rightarrow>
             if \<not> isJSONField then (VString mappedFieldName, c)
             else if Contains mappedFieldName [CHR 0x27] then
               (VNil, add_err (EErrorf ''single quote not allowed in field name: %s'') c)
             else (VString (fields_contains mappedFieldName), c)))"

text \<open>The visits of the two operands are arguments of the methods below.\<close>

type_synonym visit = "compiler \<Rightarrow> goval \<times> compiler"

definition compile_binary :: "visit \<Rightarrow> visit \<Rightarrow> string \<Rightarrow> compiler \<Rightarrow> goval \<times> compiler" where
  "compile_binary visitLeft visitRight op c0 =
     (let (left, c1) = visitLeft c0; (right, c2) = visitRight c1 in
      if left \<noteq> VNil \<and> right \<noteq> VNil then
        (case left of
           VString l \<Rightarrow>
             (case right of
                VString r \<Rightarrow> (VString (''('' @ l @ '' '' @ op @ '' '' @ r @ '')''), c2)
              | _ \<Rightarrow> (VNil, add_err (EErrorf ''failed to convert right expression to string: %+v'') c2))
         | _ \<Rightarrow> (VNil, add_err (EErrorf ''failed to convert left expression to string: %+v'') c2))
      else (VNil, c2))"

definition expressionRefersToJoinedData :: "compiler \<Rightarrow> expr \<Rightarrow> string option \<times> compiler" where
  "expressionRefersToJoinedData c e =
     (case e of
        FieldExpression a fieldName \<Rightarrow>
          (case handling_join (joins c) fieldName of
             Some (key, j) \<Rightarrow> (Some key, c\<lparr>joins := set_active key (joins c)\<rparr>)
           | None \<Rightarrow> (None, c))
      | _ \<Rightarrow> (None, c))"

definition compile_Equals :: "expr list \<Rightarrow> expr \<Rightarrow> visit \<Rightarrow> visit \<Rightarrow> compiler \<Rightarrow> goval \<times> compiler" where
  "compile_Equals operandAncestors left visitLeft visitRight c =
     (let op = (if isInJSONContext operandAncestors then '':'' else ''='');
          (join, c1) = expressionRefersToJoinedData c left;
          op = (if join \<noteq> None then ''='' else op)
      in compile_binary visitLeft visitRight op c1)"

definition compile_Substring ::
  "expr list \<Rightarrow> expr \<Rightarrow> expr \<Rightarrow> visit \<Rightarrow> visit \<Rightarrow> compiler \<Rightarrow> goval \<times> compiler" where
  "compile_Substring operandAncestors left right visitLeft visitRight c =
     (let inJSONContext = isInJSONContext operandAncestors;
          (join, c1) = expressionRefersToJoinedData c left
      in if inJSONContext \<or> join \<noteq> None then
           (case left of
              FieldExpression a fieldName \<Rightarrow>
                if Contains fieldName [CHR 0x27] then
                  (VNil, add_err (EErrorf ''single quote not allowed in field name: %s'') c1)
                else
                  (case right of
                     LiteralExpression a' value \<Rightarrow>
                       (case value of
                          VString r \<Rightarrow>
                            if inJSONContext then
                              (VString (fields_text fieldName @ '' ILIKE ?''),
                               add_parameter (VString (''%'' @ r @ ''%'')) c1)
                            else
                              (case join of
                                 None \<Rightarrow> (VNil, c1)
                               | Some key \<Rightarrow>
                                   (case translate_field key fieldName c1 of
                                      (Ok col, c2) \<Rightarrow> (VString col, c2)
                                    | (Err e, c2) \<Rightarrow>
                                        (VNil, add_err (EWrap ''failed to translate field name: %s'' e) c2)
                                    | (Panic, c2) \<Rightarrow> (VNil, c2)))
                        | _ \<Rightarrow> (VNil, add_err (EErrorf ''failed to convert value of right literal expression to string: %+v'') c1))
                   | _ \<Rightarrow> (VNil, add_err (EErrorf ''failed to convert right expression to literal expression: %+v'') c1))
            | _ \<Rightarrow> (VNil, add_err (EErrorf ''invalid left expression (not a field expression): %+v'') c1))
         else compile_binary visitLeft visitRight ''ILIKE'' c1)"

definition compile_IsNull :: "string \<Rightarrow> compiler \<Rightarrow> goval \<times> compiler" where
  "compile_IsNull fieldName c =
     (let (mappedFieldName, isJSONField) = getFieldName c fieldName in
      if isJSONField then (VString (''('' @ fields_text mappedFieldName @ '' IS NULL)''), c)
      else (VString (''('' @ mappedFieldName @ '' IS NULL)''), c))"

definition compile_Not :: "expr list \<Rightarrow> visit \<Rightarrow> visit \<Rightarrow> compiler \<Rightarrow> goval \<times> compiler" where
  "compile_Not operandAncestors visitLeft visitRight c =
     (if isInJSONContext operandAncestors then
        (let (condition, c1) = compile_binary visitLeft visitRight '':'' c in
         case condition of
           VNil \<Rightarrow> (VNil, c1)
         | VString cond \<Rightarrow> (VString (''NOT '' @ cond), c1)
         | _ \<Rightarrow> (VNil, add_err (EErrorf ''failed to convert condition to string: %+v'') c1))
      else compile_binary visitLeft visitRight ''!='' c)"

definition nl :: "nat \<Rightarrow> string" where
  "nl tabs = CHR 0x0A # replicate tabs (CHR 0x09)"

definition child_clause :: "string \<Rightarrow> string \<Rightarrow> string \<Rightarrow> string" where
  "child_clause fieldName tblAlias tblName =
     ''(uuid('' @ quoted workitemTableName @ ''.fields->>'' @ [CHR 0x27] @ fieldName @ [CHR 0x27] @ '') IN ('' @
     nl 4 @ ''SELECT '' @ tblAlias @ ''.id'' @ nl 5 @ ''WHERE'' @ nl 6 @ ''(SELECT j.path'' @
     nl 7 @ ''FROM '' @ tblName @ '' j'' @
     nl 7 @ ''WHERE j.space_id = '' @ Column workitemTableName ''space_id'' @ '' AND j.id = ? '' @
     nl 6 @ '') @> '' @ tblAlias @ ''.path'' @ nl 7 @ ''  ))''"

definition compile_Child :: "expr \<Rightarrow> expr \<Rightarrow> compiler \<Rightarrow> goval \<times> compiler" where
  "compile_Child left right c =
     (case left of
        FieldExpression a fieldName \<Rightarrow>
          if Contains fieldName [CHR 0x27] then
            (VNil, add_err (EErrorf ''single quote not allowed in field name: %s'') c)
          else
            (case right of
               LiteralExpression a' value \<Rightarrow>
                 (case value of
                    VString r \<Rightarrow>
                      if Contains r [CHR 0x27] then
                        (VNil, add_err (EErrorf ''single quote not allowed in field value: %s'') c)
                      else if fieldName = ''system.iteration'' then
                        (VString (child_clause fieldName ''iter'' ''iterations''),
                         add_parameter (VString r) (c\<lparr>joins := set_active ''iteration'' (joins c)\<rparr>))
                      else if fieldName = ''system.area'' then
                        (VString (child_clause fieldName ''ar'' ''areas''),
                         add_parameter (VString r) (c\<lparr>joins := set_active ''area'' (joins c)\<rparr>))
                      else (VNil, add_err (EErrorf ''invalid field name for child expression: %+v'') c)
                  | _ \<Rightarrow> (VNil, add_err (EErrorf ''failed to convert value of right literal expression to string: %+v'') c))
             | _ \<Rightarrow> (VNil, add_err (EErrorf ''failed to convert right expression to literal expression: %+v'') c))
      | _ \<Rightarrow> (VNil, add_err (EErrorf ''invalid left expression (not a field expression): %+v'') c))"

definition compile_Parameter :: "compiler \<Rightarrow> goval \<times> compiler" where
  "compile_Parameter c = (VNil, add_err (EErrorf ''parameter expression not supported'') c)"

text \<open>The dispatch \<^verbatim>\<open>Accept\<close>, with the ancestors of the expression.\<close>

fun Accept :: "compile_env \<Rightarrow> expr list \<Rightarrow> expr \<Rightarrow> compiler \<Rightarrow> goval \<times> compiler" where
  "Accept E anc (FieldExpression a name) c = compile_Field name c"
| "Accept E anc (LiteralExpression a v) c = compile_Literal E anc v c"
| "Accept E anc (ParameterExpression a) c = compile_Parameter c"
| "Accept E anc (IsNullExpression a name) c = compile_IsNull name c"
| "Accept E anc (BinaryExpression b a l r) c =
     (let anc' = BinaryExpression b a l r # anc;
          visitLeft = Accept E anc' l;
          visitRight = Accept E anc' r
      in case b of
           AndExpression \<Rightarrow> compile_binary visitLeft visitRight ''AND'' c
         | OrExpression \<Rightarrow> compile_binary visitLeft visitRight ''OR'' c
         | EqualsExpression \<Rightarrow> compile_Equals anc' l visitLeft visitRight c
         | SubstringExpression \<Rightarrow> compile_Substring anc' l r visitLeft visitRight c
         | NotExpression \<Rightarrow> compile_Not anc' visitLeft visitRight c
         | ChildExpression \<Rightarrow> compile_Child l r c)"

section \<open>The default joins\<close>

definition same_space :: "string \<Rightarrow> string" where
  "same_space alias = Column alias ''space_id'' @ ''='' @ Column workitemTableName ''space_id''"

definition mk_join ::
  "string \<Rightarrow> string \<Rightarrow> string \<Rightarrow> string list \<Rightarrow> string list \<Rightarrow> table_join" where
  "mk_join tableName alias onClause activators allowed =
     empty_join\<lparr>tj_TableName := tableName, tj_TableAlias := alias, tj_On := onClause,
       tj_PrefixActivators := activators, tj_AllowedColumns := allowed\<rparr>"

definition DefaultTableJoins :: join_map where
  "DefaultTableJoins =
   [(''iteration'', mk_join ''iterations'' ''iter''
       (JoinOnJSONField ''system.iteration'' ''iter.id'' @ '' AND '' @ same_space ''iter'')
       [''iteration.''] [''name'', ''created_at'', ''number'']),
    (''area'', mk_join ''areas'' ''ar''
       (JoinOnJSONField ''system.area'' ''ar.id'' @ '' AND '' @ same_space ''ar'')
       [''area.''] [''name'', ''number'']),
    (''codebase'', mk_join ''codebases'' ''cb''
       (JoinOnJSONField ''system.codebase'' ''cb.id'' @ '' AND '' @ same_space ''cb'')
       [''codebase.''] [''url'']),
    (''work_item_type'', mk_join ''work_item_types'' ''wit''
       (''wit.id = '' @ workitemTableName @ ''.type'')
       [''wit.'', ''workitemtype.'', ''work_item_type.'', ''type.''] [''name'']),
    (''creator'', mk_join ''users'' ''creator'' (JoinOnJSONField ''system.creator'' ''creator.id'')
       [''creator.'', ''author.''] [''full_name'']),
    (''space'', mk_join ''spaces'' ''space''
       (Column ''space'' ''id'' @ ''='' @ Column workitemTableName ''space_id'')
       [''space.''] [''name'']),
    (''boardcolumns'', mk_join
       ''(SELECT id colid, board_id id, jsonb_agg(id::text) AS colids FROM work_item_board_columns GROUP BY 1,2)''
       ''boardcolumns''
       (Column ''boardcolumns'' ''colid'' @ ''::text IN ('' @ nl 4 @
        ''SELECT jsonb_array_elements_text(jsonb_strip_nulls('' @ Column workitemTableName ''fields'' @
        '')->'' @ [CHR 0x27] @ ''system.boardcolumns'' @ [CHR 0x27] @ '')'' @ nl 3 @ '')'')
       [''board.''] [''id'']),
    (''typegroup'', (mk_join ''work_item_type_groups'' ''witg''
       (Column ''witg'' ''space_template_id'' @ ''='' @ Column ''space'' ''space_template_id'') [] [''name''])
       \<lparr>tj_Where := Column ''witg_members'' ''type_group_id'' @ ''='' @ Column ''witg'' ''id'' @ '' AND '' @
          Column workitemTableName ''type'' @ ''='' @ Column ''witg_members'' ''work_item_type_id'',
        tj_ActivateOtherJoins := [''space'']\<rparr>),
    (''label'', mk_join ''labels'' ''lbl''
       (same_space ''lbl'' @ nl 2 @ replicate 20 (CHR '' '') @ ''AND lbl.id::text IN ('' @
        nl 2 @ replicate 24 (CHR '' '') @ ''SELECT'' @ nl 6 @ ''jsonb_array_elements_text('' @
        Column workitemTableName ''fields'' @ ''->'' @ [CHR 0x27] @ ''system.labels'' @ [CHR 0x27] @ '')'' @
        nl 5 @ ''FROM labels)'')
       [''label.''] [''name'']),
    (''trackerquery'', mk_join ''tracker_queries'' ''tq''
       (JoinOnJSONField ''system_remote_tracker_id'' ''tq.id'' @ '' AND '' @ same_space ''tq'')
       [''trackerquery.''] [''id'']),
    (''typegroup_members'', (mk_join ''work_item_type_group_members'' ''witg_members''
       (Column ''witg_members'' ''type_group_id'' @ ''='' @ Column ''witg'' ''id'')
       [''typegroup_members.'', ''typegroup.''] [''work_item_type_id''])
       \<lparr>tj_ActivateOtherJoins := [''typegroup''],
        tj_DelegateTo := [(''typegroup.'', Some ''typegroup'')]\<rparr>),
    (''parent_link'', mk_join ''work_item_links'' ''parent_link''
       (Column ''parent_link'' ''link_type_id'' @ ''= '' @ [CHR 0x27] @ ''25C326A7-6D03-4F5A-B23B-86A9EE4171E9'' @
        [CHR 0x27] @ '' AND '' @ Column ''parent_link'' ''target_id'' @ ''='' @ Column workitemTableName ''id'')
       [] []),
    (''parent'', (mk_join workitemTableName ''parent''
       (Column ''parent_link'' ''source_id'' @ ''='' @ Column ''parent'' ''id'')
       [''parent.''] [''id'', ''number''])
       \<lparr>tj_ActivateOtherJoins := [''parent_link'']\<rparr>)]"

definition newExpressionCompiler :: "join_map \<Rightarrow> compiler" where
  "newExpressionCompiler defaultJoins = \<lparr>parameters = [], err = [], joins = defaultJoins\<rparr>"

section \<open>Compile\<close>

text \<open>The where clauses of the activated joins, added to the compiled clause.\<close>

fun add_join_wheres :: "string list \<Rightarrow> string \<Rightarrow> string" where
  "add_join_wheres [] c = c"
| "add_join_wheres (w # ws) c =
     (if w = [] then add_join_wheres ws c
      else add_join_wheres ws ((if c \<noteq> [] then c @ '' AND '' else c) @ w))"

record compiled =
  whereClause :: string
  whereParameters :: "goval list"
  orderedJoins :: "table_join list"
  compileErrors :: "go_error list"

definition Compile :: "compile_env \<Rightarrow> join_map \<Rightarrow> expr \<Rightarrow> compiled" where
  "Compile E defaultJoins where0 =
     (let c0 = newExpressionCompiler defaultJoins;
          (u, whr, b) = IteratePostOrder (bubbleUpJSONContext c0) () where0;
          (result, c1) = Accept E [] whr c0;
          c = (case result of VString s \<Rightarrow> s | _ \<Rightarrow> []);
          (js, c2) = (case GetOrderdActivatedJoins (joins c1) of
                        Ok (m, keys) \<Rightarrow> (List.map_filter (map_of m) keys, c1)
                      | Err e \<Rightarrow> ([], add_err e c1)
                      | Panic \<Rightarrow> ([], c1))
      in \<lparr>whereClause = add_join_wheres (map tj_Where js) c, whereParameters = parameters c2,
          orderedJoins = js, compileErrors = err c2\<rparr>)"

section \<open>Facts on the visits\<close>

lemma handling_join_Some:
  assumes "handling_join m f = Some (k, j)"
  shows "(k, j) \<in> set m" "HandlesFieldName j f" "map_of m k \<noteq> None"
proof -
  show mem: "(k, j) \<in> set m" and "HandlesFieldName j f"
    using assms by (auto simp: handling_join_def find_Some_iff) (metis nth_mem)
  from mem show "map_of m k \<noteq> None" by (metis fst_conv image_eqI map_of_eq_None_iff)
qed

lemma TranslateFieldName_not_Panic: "map_of m key \<noteq> None \<Longrightarrow> snd (TranslateFieldName m key f) \<noteq> Panic"
  by (auto simp: TranslateFieldName_def Let_def split: option.splits)

lemma convertToString_not_Panic [simp]: "convertToString E v \<noteq> Panic"
  by (auto simp: convertToString_def split: goval.splits)

text \<open>
  What every visit promises: the declared joins stay as they are, errors and parameters are only added,
  and the result is a string, or nil with at least one new error.
\<close>

definition lawful :: "visit \<Rightarrow> bool" where
  "lawful v \<longleftrightarrow>
     (\<forall>c. static (joins (snd (v c))) = static (joins c) \<and>
          (\<exists>es ps. err (snd (v c)) = err c @ es \<and> parameters (snd (v c)) = parameters c @ ps \<and>
             (fst (v c) = VNil \<and> es \<noteq> [] \<or> (\<exists>s. fst (v c) = VString s))))"

lemma lawfulD:
  assumes "lawful v" "v c = (r, c')"
  obtains es ps where "static (joins c') = static (joins c)" "err c' = err c @ es"
    "parameters c' = parameters c @ ps" "r = VNil \<and> es \<noteq> [] \<or> (\<exists>s. r = VString s)"
  using assms unfolding lawful_def by (metis fst_conv snd_conv)

lemma lawfulI:
  assumes "\<And>c. static (joins (snd (v c))) = static (joins c)"
    and "\<And>c. \<exists>es ps. err (snd (v c)) = err c @ es \<and> parameters (snd (v c)) = parameters c @ ps \<and>
             (fst (v c) = VNil \<and> es \<noteq> [] \<or> (\<exists>s. fst (v c) = VString s))"
  shows "lawful v"
  using assms unfolding lawful_def by blast

lemmas add_simps [simp] = add_err_def add_parameter_def

lemma translate_field_spec:
  assumes "translate_field key f c = (r, c')"
  shows "static (joins c') = static (joins c)" "err c' = err c" "parameters c' = parameters c"
    "map_of (joins c) key \<noteq> None \<Longrightarrow> r \<noteq> Panic"
proof -
  obtain m' where t: "TranslateFieldName (joins c) key f = (m', r)" "c' = c\<lparr>joins := m'\<rparr>"
    using assms by (auto simp: translate_field_def split: prod.splits)
  then show "static (joins c') = static (joins c)" "err c' = err c" "parameters c' = parameters c"
    using static_TranslateFieldName [of "joins c" key f] by simp_all
  show "map_of (joins c) key \<noteq> None \<Longrightarrow> r \<noteq> Panic"
    using TranslateFieldName_not_Panic [of "joins c" key f] t(1) by simp
qed

lemma lawful_Field: "lawful (compile_Field f)"
proof (rule lawfulI)
  fix c
  have *: "static (joins (snd (compile_Field f c))) = static (joins c) \<and>
     (\<exists>es ps. err (snd (compile_Field f c)) = err c @ es \<and>
      parameters (snd (compile_Field f c)) = parameters c @ ps \<and>
      (fst (compile_Field f c) = VNil \<and> es \<noteq> [] \<or> (\<exists>s. fst (compile_Field f c) = VString s)))"
  proof (cases "handling_join (joins c) (fst (getFieldName c f))")
    case None
    then show ?thesis by (auto simp: compile_Field_def split: prod.splits)
  next
    case (Some kj)
    obtain k j where kj: "kj = (k, j)" by (cases kj)
    obtain r c1 where t: "translate_field k (fst (getFieldName c f)) (c\<lparr>joins := set_active k (joins c)\<rparr>) = (r, c1)"
      by (cases "translate_field k (fst (getFieldName c f)) (c\<lparr>joins := set_active k (joins c)\<rparr>)")
    have "r \<noteq> Panic"
      using translate_field_spec(4) [OF t] handling_join_Some(3) [of "joins c" _ k j] Some kj by auto
    with translate_field_spec(1-3) [OF t] Some kj t show ?thesis
      by (cases r) (auto simp: compile_Field_def split: prod.splits)
  qed
  from * show "static (joins (snd (compile_Field f c))) = static (joins c)" ..
  from * show "\<exists>es ps. err (snd (compile_Field f c)) = err c @ es \<and>
      parameters (snd (compile_Field f c)) = parameters c @ ps \<and>
      (fst (compile_Field f c) = VNil \<and> es \<noteq> [] \<or> (\<exists>s. fst (compile_Field f c) = VString s))" ..
qed

lemma lawful_Literal: "lawful (compile_Literal E anc v)"
  by (rule lawfulI) (auto simp: compile_Literal_def split: gres.splits goval.splits)

lemma lawful_IsNull: "lawful (compile_IsNull f)"
  by (rule lawfulI) (auto simp: compile_IsNull_def split: prod.splits)

lemma lawful_Child: "lawful (compile_Child l r)"
  by (rule lawfulI; cases l; cases r) (auto simp: compile_Child_def split: goval.splits)

lemma lawful_Parameter: "lawful compile_Parameter"
  by (rule lawfulI) (auto simp: compile_Parameter_def)

lemma lawful_binary:
  assumes "lawful v" "lawful w"
  shows "lawful (compile_binary v w op)"
proof (rule lawfulI)
  fix c
  obtain l c1 where l: "v c = (l, c1)" by (cases "v c")
  obtain r c2 where r: "w c1 = (r, c2)" by (cases "w c1")
  from lawfulD [OF assms(1) l] obtain es ps where
    1: "static (joins c1) = static (joins c)" "err c1 = err c @ es" "parameters c1 = parameters c @ ps"
      "l = VNil \<and> es \<noteq> [] \<or> (\<exists>s. l = VString s)" .
  from lawfulD [OF assms(2) r] obtain es' ps' where
    2: "static (joins c2) = static (joins c1)" "err c2 = err c1 @ es'" "parameters c2 = parameters c1 @ ps'"
      "r = VNil \<and> es' \<noteq> [] \<or> (\<exists>s. r = VString s)" .
  show "static (joins (snd (compile_binary v w op c))) = static (joins c)"
    using 1 2 by (auto simp: compile_binary_def l r)
  show "\<exists>es ps. err (snd (compile_binary v w op c)) = err c @ es \<and>
      parameters (snd (compile_binary v w op c)) = parameters c @ ps \<and>
      (fst (compile_binary v w op c) = VNil \<and> es \<noteq> [] \<or> (\<exists>s. fst (compile_binary v w op c) = VString s))"
    using 1 2 by (auto simp: compile_binary_def l r)
qed

lemma refers_spec:
  assumes "expressionRefersToJoinedData c e = (join, c')"
  shows "static (joins c') = static (joins c)" "err c' = err c" "parameters c' = parameters c"
    "join = Some k \<Longrightarrow> map_of (joins c') k \<noteq> None"
    "join = Some k \<Longrightarrow> \<exists>a f j. e = FieldExpression a f \<and> handling_join (joins c) f = Some (k, j)"
  using assms
  by (auto simp: expressionRefersToJoinedData_def split: expr.splits option.splits
      dest!: handling_join_Some(3))

text \<open>A visit after a step that changes nothing but the activation of joins.\<close>

lemma lawful_after:
  assumes "lawful v" and "static (joins c1) = static (joins c)" "err c1 = err c" "parameters c1 = parameters c"
  shows "static (joins (snd (v c1))) = static (joins c) \<and>
     (\<exists>es ps. err (snd (v c1)) = err c @ es \<and> parameters (snd (v c1)) = parameters c @ ps \<and>
        (fst (v c1) = VNil \<and> es \<noteq> [] \<or> (\<exists>s. fst (v c1) = VString s)))"
  using assms unfolding lawful_def by metis

lemma lawful_Equals:
  assumes "lawful v" "lawful w"
  shows "lawful (compile_Equals anc l v w)"
  unfolding lawful_def
proof
  fix c
  obtain join c1 where j: "expressionRefersToJoinedData c l = (join, c1)"
    by (cases "expressionRefersToJoinedData c l")
  show "static (joins (snd (compile_Equals anc l v w c))) = static (joins c) \<and>
     (\<exists>es ps. err (snd (compile_Equals anc l v w c)) = err c @ es \<and>
        parameters (snd (compile_Equals anc l v w c)) = parameters c @ ps \<and>
        (fst (compile_Equals anc l v w c) = VNil \<and> es \<noteq> [] \<or>
         (\<exists>s. fst (compile_Equals anc l v w c) = VString s)))"
    using lawful_after [OF lawful_binary [OF assms] refers_spec(1-3) [OF j]]
    by (simp add: compile_Equals_def j)
qed

lemma lawful_Not:
  assumes "lawful v" "lawful w"
  shows "lawful (compile_Not anc v w)"
proof (rule lawfulI)
  fix c
  obtain r c1 where b: "compile_binary v w '':'' c = (r, c1)" by (cases "compile_binary v w '':'' c")
  note bin = lawful_binary [OF assms]
  from lawfulD [OF bin b] obtain es ps where
    1: "static (joins c1) = static (joins c)" "err c1 = err c @ es" "parameters c1 = parameters c @ ps"
      "r = VNil \<and> es \<noteq> [] \<or> (\<exists>s. r = VString s)" .
  show "static (joins (snd (compile_Not anc v w c))) = static (joins c)"
    using 1 bin [of "''!=''"] by (auto simp: compile_Not_def b lawful_def)
  show "\<exists>es ps. err (snd (compile_Not anc v w c)) = err c @ es \<and>
      parameters (snd (compile_Not anc v w c)) = parameters c @ ps \<and>
      (fst (compile_Not anc v w c) = VNil \<and> es \<noteq> [] \<or> (\<exists>s. fst (compile_Not anc v w c) = VString s))"
    using 1 bin [of "''!=''"] by (auto simp: compile_Not_def b lawful_def)
qed

lemma compile_Substring_cases:
  assumes "expressionRefersToJoinedData c l = (join, c1)" "isInJSONContext anc \<or> join \<noteq> None"
  obtains (error) e where "compile_Substring anc l r v w c = (VNil, add_err e c1)"
  | (json) a f b s where "l = FieldExpression a f" "r = LiteralExpression b (VString s)"
      "CHR 0x27 \<notin> set f" "isInJSONContext anc"
      "compile_Substring anc l r v w c =
         (VString (fields_text f @ '' ILIKE ?''), add_parameter (VString (''%'' @ s @ ''%'')) c1)"
  | (joined) a f b s k where "l = FieldExpression a f" "r = LiteralExpression b (VString s)"
      "CHR 0x27 \<notin> set f" "join = Some k"
      "compile_Substring anc l r v w c =
         (case translate_field k f c1 of
            (Ok col, c2) \<Rightarrow> (VString col, c2)
          | (Err e, c2) \<Rightarrow> (VNil, add_err (EWrap ''failed to translate field name: %s'' e) c2)
          | (Panic, c2) \<Rightarrow> (VNil, c2))"
proof (cases "\<exists>a f. l = FieldExpression a f \<and> CHR 0x27 \<notin> set f")
  case False
  then have "\<exists>e. compile_Substring anc l r v w c = (VNil, add_err e c1)"
    using assms by (cases l) (auto simp: compile_Substring_def)
  then show thesis using error by blast
next
  case l: True
  then obtain a f where f: "l = FieldExpression a f" "CHR 0x27 \<notin> set f" by blast
  show thesis
  proof (cases "\<exists>b s. r = LiteralExpression b (VString s)")
    case False
    then have "\<exists>e. compile_Substring anc l r v w c = (VNil, add_err e c1)"
      using assms f by (cases r) (auto simp: compile_Substring_def split: goval.splits)
    then show thesis using error by blast
  next
    case True
    then obtain b s where s: "r = LiteralExpression b (VString s)" by blast
    show thesis
    proof (cases "isInJSONContext anc")
      case True
      with assms(1) f s show thesis by (intro json) (simp_all add: compile_Substring_def)
    next
      case False
      with assms(2) obtain k where k: "join = Some k" by auto
      have "compile_Substring anc l r v w c =
         (case translate_field k f c1 of
            (Ok col, c2) \<Rightarrow> (VString col, c2)
          | (Err e, c2) \<Rightarrow> (VNil, add_err (EWrap ''failed to translate field name: %s'' e) c2)
          | (Panic, c2) \<Rightarrow> (VNil, c2))"
        using False assms(1) f s k by (simp add: compile_Substring_def)
      with f s k show thesis by (intro joined)
    qed
  qed
qed

lemma lawful_Substring:
  assumes "lawful v" "lawful w"
  shows "lawful (compile_Substring anc l r v w)"
  unfolding lawful_def
proof
  fix c
  obtain join c1 where j: "expressionRefersToJoinedData c l = (join, c1)"
    by (cases "expressionRefersToJoinedData c l")
  note ref = refers_spec [OF j]
  let ?s = "compile_Substring anc l r v w c"
  show "static (joins (snd ?s)) = static (joins c) \<and>
     (\<exists>es ps. err (snd ?s) = err c @ es \<and> parameters (snd ?s) = parameters c @ ps \<and>
        (fst ?s = VNil \<and> es \<noteq> [] \<or> (\<exists>s. fst ?s = VString s)))"
  proof (cases "isInJSONContext anc \<or> join \<noteq> None")
    case False
    then show ?thesis
      using lawful_after [OF lawful_binary [OF assms] ref(1-3)] by (simp add: compile_Substring_def j)
  next
    case True
    from j True show ?thesis
    proof (cases rule: compile_Substring_cases [where r = r and v = v and w = w])
      case (joined a f b s k)
      obtain t c2 where t: "translate_field k f c1 = (t, c2)" by (cases "translate_field k f c1")
      have "t \<noteq> Panic" using translate_field_spec(4) [OF t] ref(4) joined(4) by blast
      with translate_field_spec(1-3) [OF t] ref(1-3) joined(5) t show ?thesis by (cases t) auto
    qed (use ref in auto)
  qed
qed

lemma Accept_BinaryExpression:
  "Accept E anc (BinaryExpression b a l r) =
     (let anc' = BinaryExpression b a l r # anc; v = Accept E anc' l; w = Accept E anc' r in
      case b of
        AndExpression \<Rightarrow> compile_binary v w ''AND''
      | OrExpression \<Rightarrow> compile_binary v w ''OR''
      | EqualsExpression \<Rightarrow> compile_Equals anc' l v w
      | SubstringExpression \<Rightarrow> compile_Substring anc' l r v w
      | NotExpression \<Rightarrow> compile_Not anc' v w
      | ChildExpression \<Rightarrow> compile_Child l r)"
  by (cases b; rule ext) (simp_all add: Let_def)

lemma Accept_leaf:
  "Accept E anc (FieldExpression a name) = compile_Field name"
  "Accept E anc (LiteralExpression a v) = compile_Literal E anc v"
  "Accept E anc (ParameterExpression a) = compile_Parameter"
  "Accept E anc (IsNullExpression a name) = compile_IsNull name"
  by (rule ext, simp)+

lemma lawful_Accept: "lawful (Accept E anc e)"
proof (induction e arbitrary: anc)
  case (BinaryExpression b a l r)
  let ?anc = "BinaryExpression b a l r # anc"
  have ops: "lawful (Accept E ?anc l)" "lawful (Accept E ?anc r)" using BinaryExpression by blast+
  show ?case
    unfolding Accept_BinaryExpression Let_def
    using lawful_binary [OF ops] lawful_Equals [OF ops] lawful_Substring [OF ops] lawful_Not [OF ops]
      lawful_Child [of l r]
    by (cases b) simp_all
qed (simp_all add: Accept_leaf lawful_Field lawful_Literal lawful_Parameter lawful_IsNull)

section \<open>Placeholders and parameters\<close>

abbreviation marks :: "string \<Rightarrow> nat" where
  "marks s \<equiv> count_list s (CHR ''?'')"

text \<open>
  Expressions whose names, and whose literals that may be written into the clause, contain no
  question mark. The text of a substring or child comparison is always passed as a parameter.
\<close>

definition literal_text :: "compile_env \<Rightarrow> goval \<Rightarrow> string" where
  "literal_text E v =
     (case convertToString E v of Ok s \<Rightarrow> s | _ \<Rightarrow> (case v of VStrSlice ss \<Rightarrow> concat ss | _ \<Rightarrow> []))"

fun no_marks :: "compile_env \<Rightarrow> expr \<Rightarrow> bool" where
  "no_marks E (FieldExpression a f) \<longleftrightarrow> CHR ''?'' \<notin> set f"
| "no_marks E (LiteralExpression a v) \<longleftrightarrow> CHR ''?'' \<notin> set (literal_text E v)"
| "no_marks E (ParameterExpression a) \<longleftrightarrow> True"
| "no_marks E (IsNullExpression a f) \<longleftrightarrow> CHR ''?'' \<notin> set f"
| "no_marks E (BinaryExpression b a l r) \<longleftrightarrow>
     no_marks E l \<and> (b = SubstringExpression \<and> (\<exists>a' v. r = LiteralExpression a' v) \<or> b = ChildExpression \<or> no_marks E r)"

lemma marks_0_iff: "marks s = 0 \<longleftrightarrow> CHR ''?'' \<notin> set s"
  by (simp add: count_list_0_iff)

lemma marks_quoted [simp]: "marks (quoted s) = marks s"
  by (simp add: quoted_def)

lemma marks_Column [simp]: "marks (Column t c) = marks t + marks c"
  by (simp add: Column_def)

lemma marks_table [simp]: "marks workitemTableName = 0"
  by (simp add: workitemTableName_def)

lemma marks_Join: "marks (Join ss '','') = sum_list (map marks ss)"
  by (induction ss "'',''" rule: Join.induct) simp_all

lemma marks_concat: "marks (concat ss) = sum_list (map marks ss)"
  by (induction ss) simp_all

lemma marks_fields [simp]: "marks (fields_text f) = marks f" "marks (fields_contains f) = marks f"
  by (simp_all add: fields_text_def fields_contains_def)

lemma marks_nl [simp]: "marks (nl n) = 0"
  by (induction n) (simp_all add: nl_def)

lemma marks_child [simp]:
  "marks (child_clause f a t) = 1 + marks f + marks a + marks t + marks a"
  by (simp add: child_clause_def)

lemma wrapStrings_marks: "marks (wrapStrings ss) = marks (concat ss)"
  by (simp add: wrapStrings_def marks_Join marks_concat comp_def)

lemma mark_in_texts [simp]:
  "CHR ''?'' \<in> set (fields_text f) \<longleftrightarrow> CHR ''?'' \<in> set f"
  "CHR ''?'' \<in> set (fields_contains f) \<longleftrightarrow> CHR ''?'' \<in> set f"
  "CHR ''?'' \<in> set (wrapStrings ss) \<longleftrightarrow> CHR ''?'' \<in> set (concat ss)"
  using marks_fields [of f] wrapStrings_marks [of ss] marks_0_iff by metis+

definition alias_free :: "join_map \<Rightarrow> bool" where
  "alias_free m \<longleftrightarrow> (\<forall>(k, j) \<in> set m. marks (tj_TableAlias j) = 0)"

lemma alias_free_static: "alias_free (static m) = alias_free m"
  by (auto simp: alias_free_def static_def)

lemma alias_free_same: "static m = static m' \<Longrightarrow> alias_free m = alias_free m'"
  by (metis alias_free_static)

definition counts :: "visit \<Rightarrow> bool" where
  "counts v \<longleftrightarrow>
     (\<forall>c s c'. alias_free (joins c) \<and> v c = (VString s, c') \<longrightarrow>
        length (parameters c') = length (parameters c) + marks s)"

lemma countsI:
  "(\<And>c s c'. alias_free (joins c) \<Longrightarrow> v c = (VString s, c') \<Longrightarrow>
      length (parameters c') = length (parameters c) + marks s) \<Longrightarrow> counts v"
  unfolding counts_def by blast

lemma countsD:
  "counts v \<Longrightarrow> alias_free (joins c) \<Longrightarrow> v c = (VString s, c') \<Longrightarrow>
     length (parameters c') = length (parameters c) + marks s"
  unfolding counts_def by blast

lemma getFieldName_marks: "CHR ''?'' \<notin> set f \<Longrightarrow> CHR ''?'' \<notin> set (fst (getFieldName c f))"
  by (auto simp: getFieldName_def fieldMap_def Column_def quoted_def workitemTableName_def
      split: option.splits if_splits)

lemma translate_marks:
  assumes "translate_field k f c = (Ok col, c')" "alias_free (joins c)" "CHR ''?'' \<notin> set f"
  shows "marks col = 0"
proof -
  from assms(1) obtain m' where "TranslateFieldName (joins c) k f = (m', Ok col)"
    by (auto simp: translate_field_def split: prod.splits)
  from TranslateFieldName_Ok [OF this] obtain k' j cn where
    "map_of (joins c) k' = Some j" "col = Column (tj_TableAlias j) cn" "set cn \<subseteq> set f" by metis
  with assms(2,3) show ?thesis
    by (auto simp: alias_free_def marks_0_iff dest!: map_of_SomeD)
qed

lemma counts_Field:
  assumes "CHR ''?'' \<notin> set f"
  shows "counts (compile_Field f)"
proof (rule countsI)
  fix c s c'
  assume af: "alias_free (joins c)" and run: "compile_Field f c = (VString s, c')"
  let ?m = "fst (getFieldName c f)"
  have mf: "CHR ''?'' \<notin> set ?m" using getFieldName_marks [OF assms] .
  show "length (parameters c') = length (parameters c) + marks s"
  proof (cases "handling_join (joins c) ?m")
    case None
    with run mf show ?thesis by (auto simp: compile_Field_def marks_0_iff split: prod.splits if_splits)
  next
    case (Some kj)
    obtain k j where kj: "kj = (k, j)" by (cases kj)
    let ?c = "c\<lparr>joins := set_active k (joins c)\<rparr>"
    obtain r c1 where t: "translate_field k ?m ?c = (r, c1)" by (cases "translate_field k ?m ?c")
    have "alias_free (joins ?c)" using af alias_free_same [of "joins ?c" "joins c"] by simp
    with translate_marks [of k ?m ?c _ c1] t mf have "r = Ok col \<Longrightarrow> marks col = 0" for col by blast
    with translate_field_spec(3) [OF t] run Some kj t show ?thesis
      by (cases r) (auto simp: compile_Field_def split: prod.splits if_splits)
  qed
qed

lemma counts_Literal:
  "\<not> isInJSONContext anc \<or> CHR ''?'' \<notin> set (literal_text E v) \<Longrightarrow> counts (compile_Literal E anc v)"
  by (rule countsI)
    (auto simp: compile_Literal_def literal_text_def wrapStrings_marks marks_0_iff
      split: if_splits gres.splits goval.splits)

lemma counts_IsNull:
  assumes "CHR ''?'' \<notin> set f"
  shows "counts (compile_IsNull f)"
proof (rule countsI)
  fix c s c'
  assume "compile_IsNull f c = (VString s, c')"
  with getFieldName_marks [OF assms, of c] show "length (parameters c') = length (parameters c) + marks s"
    by (auto simp: compile_IsNull_def marks_0_iff split: prod.splits if_splits)
qed

lemma counts_Child: "no_marks E l \<Longrightarrow> counts (compile_Child l r)"
  by (rule countsI; cases l; cases r)
    (auto simp: compile_Child_def marks_0_iff split: goval.splits if_splits)

lemma counts_binary:
  assumes "lawful v" "counts v" "counts w" "marks op = 0"
  shows "counts (compile_binary v w op)"
proof (rule countsI)
  fix c s c'
  assume af: "alias_free (joins c)" and run: "compile_binary v w op c = (VString s, c')"
  obtain l c1 where l: "v c = (l, c1)" by (cases "v c")
  obtain r c2 where r: "w c1 = (r, c2)" by (cases "w c1")
  from run l r obtain ls rs where
    *: "l = VString ls" "r = VString rs" "c' = c2" "s = ''('' @ ls @ '' '' @ op @ '' '' @ rs @ '')''"
    by (cases l; cases r) (auto simp: compile_binary_def)
  have "alias_free (joins c1)"
    using lawfulD [OF assms(1) l] alias_free_same af by metis
  with countsD [OF assms(2) af] countsD [OF assms(3)] l r * assms(4) show
    "length (parameters c') = length (parameters c) + marks s" by auto
qed

lemma counts_after:
  assumes "counts v" "static (joins c1) = static (joins c)" "parameters c1 = parameters c"
    and "alias_free (joins c)" "v c1 = (VString s, c')"
  shows "length (parameters c') = length (parameters c) + marks s"
  using countsD [OF assms(1) _ assms(5)] alias_free_same assms(2-4) by metis

lemma counts_Equals:
  assumes "lawful v" "counts v" "counts w"
  shows "counts (compile_Equals anc l v w)"
proof (rule countsI)
  fix c s c'
  assume af: "alias_free (joins c)" and run: "compile_Equals anc l v w c = (VString s, c')"
  obtain join c1 where j: "expressionRefersToJoinedData c l = (join, c1)"
    by (cases "expressionRefersToJoinedData c l")
  have "counts (compile_binary v w op)" if "op \<in> {''='', '':''}" for op
    using that by (intro counts_binary assms) auto
  from counts_after [OF this refers_spec(1,3) [OF j] af] run j show
    "length (parameters c') = length (parameters c) + marks s"
    by (auto simp: compile_Equals_def split: if_splits)
qed

lemma counts_Not:
  assumes "lawful v" "counts v" "counts w"
  shows "counts (compile_Not anc v w)"
proof (rule countsI)
  fix c s c'
  assume af: "alias_free (joins c)" and run: "compile_Not anc v w c = (VString s, c')"
  obtain r c1 where b: "compile_binary v w '':'' c = (r, c1)" by (cases "compile_binary v w '':'' c")
  have bin: "counts (compile_binary v w '':'')" "counts (compile_binary v w ''!='')"
    by (intro counts_binary assms, simp)+
  show "length (parameters c') = length (parameters c) + marks s"
    using run b countsD [OF bin(1) af] countsD [OF bin(2) af]
    by (cases r) (auto simp: compile_Not_def split: if_splits)
qed

lemma counts_Substring:
  assumes "lawful v" "counts v" "\<not> isInJSONContext anc \<Longrightarrow> counts w"
    and "\<And>a f. l = FieldExpression a f \<Longrightarrow> CHR ''?'' \<notin> set f"
  shows "counts (compile_Substring anc l r v w)"
proof (rule countsI)
  fix c s c'
  assume af: "alias_free (joins c)" and run: "compile_Substring anc l r v w c = (VString s, c')"
  obtain join c1 where j: "expressionRefersToJoinedData c l = (join, c1)"
    by (cases "expressionRefersToJoinedData c l")
  note ref = refers_spec [OF j]
  show "length (parameters c') = length (parameters c) + marks s"
  proof (cases "isInJSONContext anc \<or> join \<noteq> None")
    case False
    then have "counts (compile_binary v w ''ILIKE'')" using assms by (intro counts_binary) simp_all
    from counts_after [OF this ref(1,3) af] False run j show ?thesis by (simp add: compile_Substring_def)
  next
    case True
    from j True show ?thesis
    proof (cases rule: compile_Substring_cases [where r = r and v = v and w = w])
      case (json a f b t)
      with run ref(3) assms(4) show ?thesis by (auto simp: marks_0_iff)
    next
      case (joined a f b t k)
      obtain res c2 where t: "translate_field k f c1 = (res, c2)" by (cases "translate_field k f c1")
      have "alias_free (joins c1)" using af alias_free_same [OF ref(1)] by simp
      with translate_marks [of k f c1] t assms(4) joined(1) have "res = Ok col \<Longrightarrow> marks col = 0" for col
        by blast
      with translate_field_spec(3) [OF t] ref(3) joined(5) run t show ?thesis by (cases res) auto
    qed (use run in auto)
  qed
qed

lemma counts_Accept: "no_marks E e \<Longrightarrow> counts (Accept E anc e)"
proof (induction e arbitrary: anc)
  case (BinaryExpression b a l r)
  let ?anc = "BinaryExpression b a l r # anc"
  have l: "counts (Accept E ?anc l)" and r: "no_marks E r \<Longrightarrow> counts (Accept E ?anc r)"
    using BinaryExpression by simp_all
  note law = lawful_Accept [of E ?anc]
  have lit: "counts (Accept E ?anc r)"
    if "\<not> isInJSONContext ?anc" "\<exists>a' v. r = LiteralExpression a' v \<or> no_marks E r"
    using that r counts_Literal [of ?anc] by (auto simp: Accept_leaf)
  show ?case
  proof (cases b)
    case SubstringExpression
    moreover have "CHR ''?'' \<notin> set f" if "l = FieldExpression a' f" for a' f
      using BinaryExpression.prems that by simp
    ultimately show ?thesis
      using BinaryExpression.prems counts_Substring [OF law l] lit
      by (auto simp: Accept_BinaryExpression Let_def)
  next
    case ChildExpression
    with counts_Child BinaryExpression.prems show ?thesis by (simp add: Accept_BinaryExpression)
  qed (use BinaryExpression.prems counts_binary [OF law l] counts_Equals [OF law l] counts_Not [OF law l] r
      in \<open>simp_all add: Accept_BinaryExpression Let_def\<close>)
qed (simp_all add: Accept_leaf counts_Field counts_Literal counts_IsNull,
     simp add: counts_def compile_Parameter_def)

section \<open>The default joins in a compilation\<close>

lemma default_texts:
  "list_all (\<lambda>(k, j). marks (tj_TableAlias j) = 0 \<and> marks (tj_Where j) = 0) DefaultTableJoins"
  by code_simp

lemma default_keys_distinct: "distinct (map fst DefaultTableJoins)"
  by code_simp

lemma default_static: "static DefaultTableJoins = DefaultTableJoins"
  by code_simp

lemma requires_list:
  assumes "distinct (map fst m)"
  shows "requires m = set (concat (map (\<lambda>(k, j). map (Pair k) (tj_ActivateOtherJoins j)) m))"
  using assms by (force simp: requires_def dest: map_of_SomeD intro: map_of_is_SomeI)

lemma default_requires_list:
  "concat (map (\<lambda>(k, j). map (Pair k) (tj_ActivateOtherJoins j)) DefaultTableJoins) =
     [(''typegroup'', ''space''), (''typegroup_members'', ''typegroup''), (''parent'', ''parent_link'')]"
  by code_simp

lemma default_requires:
  "requires DefaultTableJoins =
     {(''typegroup'', ''space''), (''typegroup_members'', ''typegroup''), (''parent'', ''parent_link'')}"
  unfolding requires_list [OF default_keys_distinct] default_requires_list by simp

lemma default_keys: "{''space'', ''typegroup'', ''parent_link''} \<subseteq> set (map fst DefaultTableJoins)"
  by code_simp

lemma default_declared: "declared DefaultTableJoins"
  using default_keys unfolding declared_def default_requires by simp

lemma default_acyclic: "acyclic (requires DefaultTableJoins)"
  unfolding default_requires
  by (rule acyclic_by_rank [of _ "\<lambda>k. if k = ''typegroup_members'' then 2
        else if k \<in> {''typegroup'', ''parent''} then 1 else 0"]) auto

lemma extends_static_join:
  assumes "extends a b" "map_of b k = Some j'"
  shows "\<exists>j. map_of a k = Some j \<and> static_join j' = static_join j"
proof -
  from assms obtain j where j: "map_of a k = Some j" "j\<lparr>tj_Active := True\<rparr> = j'\<lparr>tj_Active := True\<rparr>"
    unfolding extends_def same_joins_def by (metis (no_types, lifting) map_option_eq_Some option.simps(9))
  from arg_cong [OF j(2), of static_join] j(1) show ?thesis by simp
qed

text \<open>The joins of a state reached by a compilation, in the order in which they are returned.\<close>

lemma compiled_joins:
  assumes "static m = static DefaultTableJoins"
  obtains m' keys where "GetOrderdActivatedJoins m = Ok (m', keys)" "distinct keys"
    "dependency_order DefaultTableJoins keys"
    "\<And>k. k \<in> set keys \<Longrightarrow> \<exists>j. map_of m' k = Some j \<and> tj_Active j \<and>
        map_of DefaultTableJoins k = Some (static_join j)"
proof -
  have req: "requires m = requires DefaultTableJoins" using assms requires_static by metis
  have "declared m" using assms default_declared declared_static by metis
  moreover have "acyclic (requires m)" using default_acyclic req by simp
  ultimately obtain m' keys where k: "GetOrderdActivatedJoins m = Ok (m', keys)" "extends m m'"
      "set keys = (requires m)\<^sup>* `` active m" "distinct keys" "dependency_order m keys"
    using ordered_joins_complete by blast
  have act: "k \<in> active m'" if "k \<in> set keys" for k
  proof -
    from k(1) have "ActivateRequiredJoins m = Ok m'"
      by (auto simp: GetOrderdActivatedJoins_def split: option.splits)
    from ActivateRequiredJoins_sound(3) [OF this] that k(3) show ?thesis by simp
  qed
  show thesis
  proof (rule that [OF k(1,4)])
    show "dependency_order DefaultTableJoins keys"
      using k(5) assms dependency_order_static by metis
  next
    fix x
    assume "x \<in> set keys"
    then obtain j where j: "map_of m' x = Some j" "tj_Active j" using act by (auto simp: active_def)
    with extends_static_join [OF k(2)] obtain j0 where "map_of m x = Some j0" "static_join j = static_join j0"
      by blast
    then have "map_of (static m) x = Some (static_join j)" by (simp add: map_of_static)
    with j assms default_static show "\<exists>j. map_of m' x = Some j \<and> tj_Active j \<and>
        map_of DefaultTableJoins x = Some (static_join j)" by metis
  qed
qed

text \<open>The annotation of the expression changes nothing else.\<close>

lemma erase_bubble: "erase (fst (snd (bubbleUpJSONContext c u e))) = erase e"
  by (simp add: bubbleUpJSONContext_def split: expr.splits)

lemma bubble_True: "snd (snd (bubbleUpJSONContext c u e)) = True"
  by (simp add: bubbleUpJSONContext_def)

lemma erase_annotated:
  "IteratePostOrder (bubbleUpJSONContext c) u e = (u', e', g) \<Longrightarrow> erase e' = erase e"
  using erase_IteratePostOrder [of "bubbleUpJSONContext c"] erase_bubble by (metis fst_conv snd_conv)

lemma literal_erase: "(\<exists>a v. erase r = LiteralExpression a v) \<longleftrightarrow> (\<exists>a v. r = LiteralExpression a v)"
  by (cases r) auto

lemma no_marks_erase: "no_marks E (erase e) = no_marks E e"
  by (induction e) (simp_all add: literal_erase)

lemma marks_add_join_wheres:
  "list_all (\<lambda>w. marks w = 0) ws \<Longrightarrow> marks (add_join_wheres ws c) = marks c"
  by (induction ws arbitrary: c) auto

lemma Compile_unfold:
  obtains whr result c1 m keys where
    "erase whr = erase e" "Accept E [] whr (newExpressionCompiler DefaultTableJoins) = (result, c1)"
    "distinct keys" "dependency_order DefaultTableJoins keys"
    "\<And>k. k \<in> set keys \<Longrightarrow> \<exists>j. map_of m k = Some j \<and> tj_Active j \<and>
        map_of DefaultTableJoins k = Some (static_join j)"
    "Compile E DefaultTableJoins e =
       \<lparr>whereClause = add_join_wheres (map (tj_Where \<circ> the \<circ> map_of m) keys)
                       (case result of VString s \<Rightarrow> s | _ \<Rightarrow> []),
        whereParameters = parameters c1, orderedJoins = map (the \<circ> map_of m) keys,
        compileErrors = err c1\<rparr>"
proof -
  let ?c0 = "newExpressionCompiler DefaultTableJoins"
  obtain u whr b where w: "IteratePostOrder (bubbleUpJSONContext ?c0) () e = (u, whr, b)"
    by (metis prod_cases3)
  obtain result c1 where a: "Accept E [] whr ?c0 = (result, c1)" by (cases "Accept E [] whr ?c0")
  have "static (joins c1) = static DefaultTableJoins"
    using lawfulD [OF lawful_Accept a] by (metis compiler.select_convs(3) newExpressionCompiler_def)
  from compiled_joins [OF this] obtain m keys where k: "GetOrderdActivatedJoins (joins c1) = Ok (m, keys)"
      "distinct keys" "dependency_order DefaultTableJoins keys"
      "\<And>k. k \<in> set keys \<Longrightarrow> \<exists>j. map_of m k = Some j \<and> tj_Active j \<and>
        map_of DefaultTableJoins k = Some (static_join j)" by blast
  have "List.map_filter (map_of m) keys = map (the \<circ> map_of m) keys"
    using k(4) by (induction keys) (fastforce simp: List.map_filter_simps)+
  then have "Compile E DefaultTableJoins e =
       \<lparr>whereClause = add_join_wheres (map (tj_Where \<circ> the \<circ> map_of m) keys)
                       (case result of VString s \<Rightarrow> s | _ \<Rightarrow> []),
        whereParameters = parameters c1, orderedJoins = map (the \<circ> map_of m) keys,
        compileErrors = err c1\<rparr>"
    by (simp add: Compile_def w a k(1) Let_def comp_assoc)
  with a k erase_annotated [OF w] show thesis by (intro that)
qed

section \<open>Properties\<close>


definition sample_compile_env :: compile_env where
  "sample_compile_env = \<lparr>ce_FormatFloat = (\<lambda>f. ''0''), ce_uuid = canonical_uuid\<rparr>"

text \<open>The parts of the result that the examples below look at.\<close>

definition outcome :: "compiled \<Rightarrow> string \<times> goval list \<times> go_error list" where
  "outcome r = (whereClause r, whereParameters r, compileErrors r)"

definition sample_search :: expr where
  "sample_search = criteria_Equals (criteria_Field ''Number'') (criteria_Literal (VInt 5))"

lemma sample_search_compiled:
  "outcome (Compile E DefaultTableJoins sample_search) =
     (''('' @ Column workitemTableName ''number'' @ '' = ?)'', [VInt 5], [])"
  by code_simp


text \<open>
  C30. The joins that a compilation returns are active joins of the default table, each at most
  once, and every join stands behind the joins whose columns its condition uses, for every search
  expression.
\<close>

theorem compile_joins_in_order:
  "\<exists>keys. distinct keys \<and> dependency_order DefaultTableJoins keys \<and>
     map static_join (orderedJoins (Compile E DefaultTableJoins e)) =
       map (the \<circ> map_of DefaultTableJoins) keys \<and>
     list_all tj_Active (orderedJoins (Compile E DefaultTableJoins e))"
proof -
  obtain m keys where k: "distinct keys" "dependency_order DefaultTableJoins keys"
      "\<And>k. k \<in> set keys \<Longrightarrow> \<exists>j. map_of m k = Some j \<and> tj_Active j \<and>
        map_of DefaultTableJoins k = Some (static_join j)"
      "orderedJoins (Compile E DefaultTableJoins e) = map (the \<circ> map_of m) keys"
    using Compile_unfold [of e E] by (metis compiled.select_convs(3))
  have "map static_join (orderedJoins (Compile E DefaultTableJoins e)) =
      map (the \<circ> map_of DefaultTableJoins) keys"
    unfolding k(4) using k(3) by fastforce
  moreover have "list_all tj_Active (orderedJoins (Compile E DefaultTableJoins e))"
    unfolding k(4) using k(3) by (fastforce simp: list_all_iff)
  ultimately show ?thesis using k(1,2) by blast
qed

lemma default_prefixes_exclusive:
  "list_all (\<lambda>(k, j). list_all (\<lambda>(k', j'). k = k' \<or>
      list_all (\<lambda>p. list_all (\<lambda>p'. \<not> prefix p p' \<and> \<not> prefix p' p) (tj_PrefixActivators j'))
        (tj_PrefixActivators j)) DefaultTableJoins) DefaultTableJoins"
  by code_simp

lemma default_handler_unique:
  assumes "(k, j) \<in> set DefaultTableJoins" "(k', j') \<in> set DefaultTableJoins"
    and "HandlesFieldName j f" "HandlesFieldName j' f"
  shows "(k, j) = (k', j')"
proof -
  obtain p p' where p: "p \<in> set (tj_PrefixActivators j)" "p' \<in> set (tj_PrefixActivators j')"
      "prefix p f" "prefix p' f"
    using assms(3,4) by (auto simp: HandlesFieldName_def HasPrefix_def list_ex_iff)
  from p(3,4) have "prefix p p' \<or> prefix p' p" using prefix_same_cases by blast
  with default_prefixes_exclusive assms(1,2) p(1,2) have "k = k'"
    by (fastforce simp: list_all_iff)
  with assms(1,2) default_keys_distinct show ?thesis by (metis eq_key_imp_eq_value)
qed

text \<open>
  At most one default join handles a field name, so the iteration order of the Go map does not
  matter: any order of the joins finds the same join.
\<close>

theorem join_lookup_order_independent:
  assumes "mset m = mset DefaultTableJoins"
  shows "handling_join m f = handling_join DefaultTableJoins f"
proof -
  have same: "set m = set DefaultTableJoins" using assms by (metis set_mset_mset)
  have found: "handling_join xs f = Some x"
    if "x \<in> set xs" "HandlesFieldName (snd x) f" "set xs = set DefaultTableJoins" for xs x
  proof (cases "handling_join xs f")
    case None
    then have "\<forall>y \<in> set xs. \<not> HandlesFieldName (snd y) f"
      by (auto simp: handling_join_def find_None_iff)
    with that(1,2) show ?thesis by blast
  next
    case (Some y)
    obtain k j where y: "y = (k, j)" by (cases y)
    obtain k' j' where x: "x = (k', j')" by (cases x)
    from handling_join_Some [OF Some [unfolded y]] that default_handler_unique [of k j k' j' f] x
    have "(k, j) = (k', j')" by auto
    with Some y x show ?thesis by simp
  qed
  show ?thesis
  proof (cases "handling_join DefaultTableJoins f")
    case None
    then have "\<not> (\<exists>x \<in> set m. HandlesFieldName (snd x) f)"
      unfolding same by (auto simp: handling_join_def find_None_iff)
    then have "handling_join m f = None" by (auto simp: handling_join_def find_None_iff)
    with None show ?thesis by simp
  next
    case (Some x)
    obtain k j where x: "x = (k, j)" by (cases x)
    from handling_join_Some [OF Some [unfolded x]] found [of x m] same Some x show ?thesis by auto
  qed
qed

theorem join_lookup_order_independent_witness:
  "handling_join (rev DefaultTableJoins) ''typegroup.name'' = handling_join DefaultTableJoins ''typegroup.name''"
  using join_lookup_order_independent [of "rev DefaultTableJoins"] by simp

lemma title_comparison:
  "outcome (Compile E DefaultTableJoins
      (criteria_Equals (criteria_Field ''system.title'') (criteria_Literal (VString s)))) =
     (''('' @ fields_contains ''system.title'' @ '' : '' @ quoted s @ ''}'' @ [CHR 0x27] @ '')'', [], [])"
  by (code_simp, simp)

lemma iteration_name_substring:
  "outcome (Compile E DefaultTableJoins
      (criteria_Substring (criteria_Field ''iteration.name'') (criteria_Literal (VString s)))) =
     (Column ''iter'' ''name'', [], [])"
  by code_simp

text \<open>
  A string literal compared with a JSON field is written into the SQL text as it is: a single quote in
  it ends the SQL string early, and neither an error is reported nor a parameter used.
\<close>

theorem json_literal_embedded_verbatim:
  "whereClause (Compile E DefaultTableJoins
      (criteria_Equals (criteria_Field ''system.title'') (criteria_Literal (VString s)))) =
     ''('' @ fields_contains ''system.title'' @ '' : '' @ quoted s @ ''}'' @ [CHR 0x27] @ '')'' \<and>
   whereParameters (Compile E DefaultTableJoins
      (criteria_Equals (criteria_Field ''system.title'') (criteria_Literal (VString s)))) = [] \<and>
   compileErrors (Compile E DefaultTableJoins
      (criteria_Equals (criteria_Field ''system.title'') (criteria_Literal (VString s)))) = []"
  using title_comparison [of E s] by (simp add: outcome_def)

text \<open>
  A substring search on a joined column ignores the text: the clause is the bare column,
  and the text is neither in the clause nor in the parameters.
\<close>

theorem joined_substring_drops_text:
  "whereClause (Compile E DefaultTableJoins
      (criteria_Substring (criteria_Field ''iteration.name'') (criteria_Literal (VString s)))) =
     Column ''iter'' ''name'' \<and>
   whereParameters (Compile E DefaultTableJoins
      (criteria_Substring (criteria_Field ''iteration.name'') (criteria_Literal (VString s)))) = [] \<and>
   compileErrors (Compile E DefaultTableJoins
      (criteria_Substring (criteria_Field ''iteration.name'') (criteria_Literal (VString s)))) = []"
  using iteration_name_substring [of E s] by (simp add: outcome_def)

end
