(* ===== verification/Content.thy ===== *)
theory Content
  imports Errors
begin

text \<open>
  The two structured contents of work item fields: markup
  (\<^verbatim>\<open>rendering/markup_content.go\<close>, \<^verbatim>\<open>markup_types.go\<close>,
  \<^verbatim>\<open>markup_render.go\<close>) and codebase references
  (\<^verbatim>\<open>codebase/codebase.go\<close>, type \<^verbatim>\<open>Content\<close>), with their conversions to
  and from the maps that are stored as JSON. The Markdown renderer and the HTML sanitizer are
  third-party code and a parameter.
\<close>

section \<open>Markup\<close>

definition SystemMarkupPlainText :: string where "SystemMarkupPlainText = ''PlainText''"

definition SystemMarkupMarkdown :: string where "SystemMarkupMarkdown = ''Markdown''"

definition SystemMarkupJiraWiki :: string where "SystemMarkupJiraWiki = ''JiraWiki''"

definition SystemMarkupDefault :: string where "SystemMarkupDefault = SystemMarkupPlainText"

definition IsMarkupSupported :: "string \<Rightarrow> bool" where
  "IsMarkupSupported markup \<longleftrightarrow> markup = SystemMarkupDefault \<or> markup = SystemMarkupMarkdown"

definition MarkupContent_ToMap :: "markup_content \<Rightarrow> (string \<times> goval) list" where
  "MarkupContent_ToMap mc =
     [(''content'', VString (mc_Content mc)),
      (''markup'', VString (if mc_Markup mc = [] then SystemMarkupDefault else mc_Markup mc))]"

text \<open>The type assertion \<^verbatim>\<open>v.(string)\<close>, and its form on a map entry.\<close>

fun assert_string :: "goval \<Rightarrow> string res" where
  "assert_string (VString s) = Ok s"
| "assert_string _ = Panic"

definition map_get :: "(string \<times> goval) list \<Rightarrow> string \<Rightarrow> goval" where
  "map_get m k = (case map_of m k of None \<Rightarrow> VNil | Some v \<Rightarrow> v)"

definition NewMarkupContentFromMap :: "(string \<times> goval) list \<Rightarrow> markup_content res" where
  "NewMarkupContentFromMap value =
     res_bind (assert_string (map_get value ''content'')) (\<lambda>content.
     res_bind
       (case map_of value ''markup'' of
          None \<Rightarrow> Ok SystemMarkupDefault
        | Some m \<Rightarrow> res_bind (assert_string m) (\<lambda>markup.
            Ok (if \<not> IsMarkupSupported markup then SystemMarkupDefault else markup)))
       (\<lambda>markup. Ok \<lparr>mc_Content = content, mc_Markup = markup\<rparr>))"

definition NewMarkupContentFromLegacy :: "string \<Rightarrow> markup_content" where
  "NewMarkupContentFromLegacy content = \<lparr>mc_Content = content, mc_Markup = SystemMarkupDefault\<rparr>"

definition NewMarkupContent :: "string \<Rightarrow> string \<Rightarrow> markup_content" where
  "NewMarkupContent content markup = \<lparr>mc_Content = content, mc_Markup = markup\<rparr>"

fun NewMarkupContentFromValue :: "goval \<Rightarrow> markup_content option res" where
  "NewMarkupContentFromValue (VString s) = Ok (Some (NewMarkupContentFromLegacy s))"
| "NewMarkupContentFromValue (VMarkup mc) = Ok (Some mc)"
| "NewMarkupContentFromValue (VMap m) = res_bind (NewMarkupContentFromMap m) (\<lambda>mc. Ok (Some mc))"
| "NewMarkupContentFromValue _ = Ok None"

definition NilSafeGetMarkup :: "string option \<Rightarrow> string" where
  "NilSafeGetMarkup markup =
     (case markup of Some m \<Rightarrow> if m \<noteq> [] then m else SystemMarkupDefault
      | None \<Rightarrow> SystemMarkupDefault)"

text \<open>\<^verbatim>\<open>html.EscapeString\<close> replaces five characters by entities.\<close>

definition escape_char :: "char \<Rightarrow> string" where
  "escape_char c =
     (if c = CHR ''&'' then ''&amp;'' else if c = CHR 0x27 then ''&#39;''
      else if c = CHR ''<'' then ''&lt;'' else if c = CHR ''>'' then ''&gt;''
      else if c = CHR 0x22 then ''&#34;'' else [c])"

definition EscapeString :: "string \<Rightarrow> string" where
  "EscapeString s = concat (map escape_char s)"

definition RenderMarkupToHTML :: "(string \<Rightarrow> string) \<Rightarrow> string \<Rightarrow> string \<Rightarrow> string" where
  "RenderMarkupToHTML markdown content markup =
     (if markup = SystemMarkupPlainText then EscapeString content
      else if markup = SystemMarkupMarkdown then markdown content
      else [])"

section \<open>Codebase references\<close>

definition Content_ToMap :: "codebase_content \<Rightarrow> (string \<times> goval) list" where
  "Content_ToMap c =
     [(''repository'', VString (cb_Repository c)), (''branch'', VString (cb_Branch c)),
      (''filename'', VString (cb_FileName c)), (''linenumber'', VInt (cb_LineNumber c)),
      (''codebaseid'', VString (cb_CodebaseID c))]"

text \<open>
  The regular expression of \<^verbatim>\<open>IsRepoValidURL\<close>: it is searched anywhere in the text and
  anchored at the end. A match is a scheme (\<^verbatim>\<open>git\<close>, \<^verbatim>\<open>ssh\<close>,
  \<^verbatim>\<open>http\<close>, \<^verbatim>\<open>https\<close> or \<^verbatim>\<open>git@\<close> and a host) that ends right before a
  colon; then anything without a newline (the optional \<^verbatim>\<open>//\<close> is included); then
  \<^verbatim>\<open>.git\<close>; and at the end nothing, a slash, or a hash sign with a name.
\<close>

definition host_char :: "char \<Rightarrow> bool" where
  "host_char c \<longleftrightarrow> member_char c \<or> c = CHR ''-'' \<or> c = CHR ''.''"

definition ends_in_scheme :: "string \<Rightarrow> bool" where
  "ends_in_scheme s \<longleftrightarrow>
     suffix ''git'' s \<or> suffix ''ssh'' s \<or> suffix ''http'' s \<or> suffix ''https'' s \<or>
     list_ex (\<lambda>k. let t = drop k s in
       prefix ''git@'' t \<and> length t > 4 \<and> list_all host_char (drop 4 t)) [0..<length s]"

definition repo_tail :: "string \<Rightarrow> bool" where
  "repo_tail t \<longleftrightarrow>
     t = [] \<or> t = ''/'' \<or> hd t = CHR ''#'' \<and> tl t \<noteq> [] \<and> list_all host_char (tl t)"

definition repo_rest :: "string \<Rightarrow> bool" where
  "repo_rest s \<longleftrightarrow>
     list_ex (\<lambda>k. CHR 0x0A \<notin> set (take k s) \<and> prefix ''.git'' (drop k s) \<and> repo_tail (drop (k + 4) s))
       [0..<length s]"

definition IsRepoValidURL :: "codebase_content \<Rightarrow> bool" where
  "IsRepoValidURL c \<longleftrightarrow>
     (let s = cb_Repository c in
      list_ex (\<lambda>k. s ! k = CHR '':'' \<and> ends_in_scheme (take k s) \<and> repo_rest (drop (k + 1) s))
        [0..<length s])"

definition IsValid :: "codebase_content \<Rightarrow> go_error option" where
  "IsValid c =
     (if cb_Repository c = [] then
        Some (NewBadParameterError ''system.codebase'' (VString ''repository is mandatory''))
      else if \<not> IsRepoValidURL c then
        Some (NewBadParameterError ''system.codebase'' (VString ''repository is not valid git url''))
      else None)"

text \<open>One turn of the loop over the valid keys.\<close>

definition set_codebase_key :: "string \<Rightarrow> goval \<Rightarrow> codebase_content \<Rightarrow> codebase_content res" where
  "set_codebase_key key v cb =
     (if key = ''repository'' then res_bind (assert_string v) (\<lambda>s. Ok (cb\<lparr>cb_Repository := s\<rparr>))
      else if key = ''branch'' then res_bind (assert_string v) (\<lambda>s. Ok (cb\<lparr>cb_Branch := s\<rparr>))
      else if key = ''filename'' then res_bind (assert_string v) (\<lambda>s. Ok (cb\<lparr>cb_FileName := s\<rparr>))
      else if key = ''codebaseid'' then res_bind (assert_string v) (\<lambda>s. Ok (cb\<lparr>cb_CodebaseID := s\<rparr>))
      else if key = ''linenumber'' then
        (case v of VInt i \<Rightarrow> Ok (cb\<lparr>cb_LineNumber := i\<rparr>)
         | VFloat f \<Rightarrow> Ok (cb\<lparr>cb_LineNumber := f_to_int f\<rparr>)
         | _ \<Rightarrow> Ok cb)
      else Ok cb)"

fun codebase_keys :: "string list \<Rightarrow> (string \<times> goval) list \<Rightarrow> codebase_content \<Rightarrow> codebase_content res" where
  "codebase_keys [] value cb = Ok cb"
| "codebase_keys (key # keys) value cb =
     (case map_of value key of
        None \<Rightarrow> codebase_keys keys value cb
      | Some v \<Rightarrow> res_bind (set_codebase_key key v cb) (codebase_keys keys value))"

definition empty_codebase :: codebase_content where
  "empty_codebase = \<lparr>cb_Repository = [], cb_Branch = [], cb_FileName = [], cb_LineNumber = 0,
     cb_CodebaseID = []\<rparr>"

definition NewCodebaseContent ::
  "(string \<times> goval) list \<Rightarrow> (codebase_content \<times> go_error option) res" where
  "NewCodebaseContent value =
     res_bind (codebase_keys [''repository'', ''branch'', ''filename'', ''linenumber'', ''codebaseid'']
                 value empty_codebase)
       (\<lambda>cb. Ok (cb, IsValid cb))"

fun NewCodebaseContentFromValue :: "goval \<Rightarrow> codebase_content option res" where
  "NewCodebaseContentFromValue (VCodebase c) = Ok (Some c)"
| "NewCodebaseContentFromValue (VMap m) =
     res_bind (NewCodebaseContent m) (\<lambda>(cb, err).
       case err of Some e \<Rightarrow> Err e | None \<Rightarrow> Ok (Some cb))"
| "NewCodebaseContentFromValue _ = Ok None"

section \<open>Facts\<close>

lemmas markup_consts =
  SystemMarkupPlainText_def SystemMarkupMarkdown_def SystemMarkupDefault_def SystemMarkupJiraWiki_def

lemma NewMarkupContentFromMap_ToMap:
  "NewMarkupContentFromMap (MarkupContent_ToMap mc) =
     Ok (mc\<lparr>mc_Markup := if IsMarkupSupported (mc_Markup mc) then mc_Markup mc else SystemMarkupDefault\<rparr>)"
  by (auto simp: NewMarkupContentFromMap_def MarkupContent_ToMap_def map_get_def
      IsMarkupSupported_def markup_consts)

lemma NewCodebaseContent_ToMap: "NewCodebaseContent (Content_ToMap c) = Ok (c, IsValid c)"
  by (cases c) (simp add: NewCodebaseContent_def Content_ToMap_def set_codebase_key_def empty_codebase_def)

lemma EscapeString_Nil [simp]: "EscapeString [] = []"
  and EscapeString_Cons: "EscapeString (c # s) = escape_char c @ EscapeString s"
  by (simp_all add: EscapeString_def)

lemma set_escape_char:
  "set (escape_char c) \<inter> {CHR ''<'', CHR ''>'', CHR 0x22, CHR 0x27} = {}"
  by (simp add: escape_char_def)

lemma escape_char_prefix_free:
  "escape_char c @ xs = escape_char d @ ys \<Longrightarrow> c = d \<and> xs = ys"
  by (auto simp: escape_char_def split: if_splits)

lemma EscapeString_inject: "EscapeString s = EscapeString t \<Longrightarrow> s = t"
proof (induction s arbitrary: t)
  case Nil
  then show ?case by (cases t) (auto simp: EscapeString_Cons escape_char_def split: if_splits)
next
  case (Cons c s)
  from Cons.prems obtain d t' where t: "t = d # t'"
    by (cases t) (auto simp: EscapeString_Cons escape_char_def split: if_splits)
  with Cons.prems have "c = d \<and> EscapeString s = EscapeString t'"
    by (intro escape_char_prefix_free) (simp add: EscapeString_Cons)
  with Cons.IH t show ?case by simp
qed

section \<open>Properties\<close>

text \<open>
  Plain text is rendered without any character that could open a tag or close an
  attribute, and no two different contents are rendered to the same HTML.
\<close>

theorem plain_text_rendering_safe:
  "set (RenderMarkupToHTML md s SystemMarkupPlainText) \<inter> {CHR ''<'', CHR ''>'', CHR 0x22, CHR 0x27} = {} \<and>
   (RenderMarkupToHTML md s SystemMarkupPlainText = RenderMarkupToHTML md t SystemMarkupPlainText \<longleftrightarrow> s = t)"
  using set_escape_char EscapeString_inject
  by (auto simp: RenderMarkupToHTML_def EscapeString_def)

text \<open>
  Only a supported markup survives a conversion from a stored map: whatever the map
  holds, a conversion that returns yields a content whose markup is supported, and a content
  with a supported markup is recovered from its own map.
\<close>

theorem markup_from_map_supported:
  "(\<forall>m mc. NewMarkupContentFromMap m = Ok mc \<longrightarrow> IsMarkupSupported (mc_Markup mc)) \<and>
   (\<forall>mc. IsMarkupSupported (mc_Markup mc) \<longrightarrow>
      NewMarkupContentFromValue (VMap (MarkupContent_ToMap mc)) = Ok (Some mc))"
proof -
  have "IsMarkupSupported (mc_Markup mc)" if "NewMarkupContentFromMap m = Ok mc" for m mc
    using that by (auto simp: NewMarkupContentFromMap_def IsMarkupSupported_def
        split: option.splits if_splits)
  then show ?thesis by (simp add: NewMarkupContentFromMap_ToMap)
qed

theorem markup_from_map_supported_witness:
  "NewMarkupContentFromValue (VMap (MarkupContent_ToMap (NewMarkupContent ''hi'' ''Markdown''))) =
     Ok (Some (NewMarkupContent ''hi'' ''Markdown''))"
proof -
  have "IsMarkupSupported (mc_Markup (NewMarkupContent ''hi'' ''Markdown''))"
    by (simp add: NewMarkupContent_def IsMarkupSupported_def markup_consts)
  then show ?thesis using markup_from_map_supported by blast
qed

text \<open>
  A codebase reference is recovered from its map exactly when its repository is a git
  URL that the code accepts, and rejected with a bad parameter error otherwise.
\<close>

theorem codebase_map_roundtrip:
  "NewCodebaseContentFromValue (VMap (Content_ToMap c)) =
     (if cb_Repository c \<noteq> [] \<and> IsRepoValidURL c then Ok (Some c)
      else Err (NewBadParameterError ''system.codebase''
        (VString (''repository is '' @ (if cb_Repository c = [] then ''mandatory'' else ''not valid git url'')))))"
  by (simp add: NewCodebaseContent_ToMap IsValid_def)

end
