(* ===== verification/Search_Filter.thy ===== *)
theory Search_Filter
  imports Expression_Compiler Content
begin

text \<open>
  The two search languages of \<^verbatim>\<open>search/search_repository.go\<close>: the JSON filter, which is parsed
  into a tree of queries and then into a criteria expression, and the full-text
  search string, which is split into keywords for \<^verbatim>\<open>to_tsquery\<close>.

  The filter is modelled on the decoded JSON document; the objects of the document are
  association lists in the order in which the Go map is iterated.
\<close>

section \<open>Filter queries\<close>

record query_options =
  TreeView :: bool
  ParentExists :: bool

datatype query = Query
  (q_Name: string) (q_Value: "string option") (q_Negate: bool) (q_Substring: bool)
  (q_Children: "query list") (q_Options: "query_options option") (q_Child: bool)

definition empty_query :: query where
  "empty_query = Query [] None False False [] None False"

definition set_name :: "string \<Rightarrow> query \<Rightarrow> query" where
  "set_name n q = Query n (q_Value q) (q_Negate q) (q_Substring q) (q_Children q) (q_Options q) (q_Child q)"

definition set_value :: "string option \<Rightarrow> query \<Rightarrow> query" where
  "set_value v q = Query (q_Name q) v (q_Negate q) (q_Substring q) (q_Children q) (q_Options q) (q_Child q)"

definition set_negate :: "bool \<Rightarrow> query \<Rightarrow> query" where
  "set_negate b q = Query (q_Name q) (q_Value q) b (q_Substring q) (q_Children q) (q_Options q) (q_Child q)"

definition set_substring :: "bool \<Rightarrow> query \<Rightarrow> query" where
  "set_substring b q = Query (q_Name q) (q_Value q) (q_Negate q) b (q_Children q) (q_Options q) (q_Child q)"

definition add_children :: "query list \<Rightarrow> query \<Rightarrow> query" where
  "add_children qs q =
     Query (q_Name q) (q_Value q) (q_Negate q) (q_Substring q) (q_Children q @ qs) (q_Options q) (q_Child q)"

definition set_child :: "bool \<Rightarrow> query \<Rightarrow> query" where
  "set_child b q = Query (q_Name q) (q_Value q) (q_Negate q) (q_Substring q) (q_Children q) (q_Options q) b"

lemmas query_updates =
  set_name_def set_value_def set_negate_def set_substring_def add_children_def set_child_def

text \<open>The object of a comparison operator, e.g. \<^verbatim>\<open>{"$IN": ["a", "b"]}\<close>.\<close>

definition parse_operator :: "string \<Rightarrow> (string \<times> goval) list \<Rightarrow> query \<Rightarrow> query res" where
  "parse_operator key concreteVal q0 =
     (let q = set_name key q0 in
      case map_of concreteVal ''$IN'' of
        Some v \<Rightarrow>
          (case v of
             VSlice vls \<Rightarrow>
               res_bind (map_res assert_string vls) (\<lambda>ts.
                 Ok (add_children (map (\<lambda>t. set_value (Some t) (set_name key empty_query)) ts)
                       (set_name ''$OR'' q)))
           | _ \<Rightarrow> Panic)
      | None \<Rightarrow>
      (case map_of concreteVal ''$EQ'' of
        Some v \<Rightarrow>
          (case v of VString s \<Rightarrow> Ok (set_value (Some s) q)
           | VNil \<Rightarrow> Ok (set_value None q)
           | _ \<Rightarrow> Ok q)
      | None \<Rightarrow>
      (case map_of concreteVal ''$NE'' of
        Some v \<Rightarrow> res_bind (assert_string v) (\<lambda>s. Ok (set_negate True (set_value (Some s) q)))
      | None \<Rightarrow>
      (case map_of concreteVal ''$SUBSTR'' of
        Some v \<Rightarrow> res_bind (assert_string v) (\<lambda>s. Ok (set_substring True (set_value (Some s) q)))
      | None \<Rightarrow> Ok q))))"

text \<open>\<^verbatim>\<open>parseMap\<close> with its flag \<^verbatim>\<open>childSet\<close>, and \<^verbatim>\<open>parseArray\<close>.\<close>

function (sequential) parseMap :: "(string \<times> goval) list \<Rightarrow> bool \<Rightarrow> query \<Rightarrow> query res"
  and parseArray :: "goval list \<Rightarrow> query list res" where
  "parseMap [] childSet q = Ok q"
| "parseMap ((key, VSlice xs) # rest) childSet q =
     res_bind (parseArray xs) (\<lambda>qs. parseMap rest childSet (add_children qs (set_name key q)))"
| "parseMap ((key, VString s) # rest) childSet q =
     parseMap rest childSet
       (let q = set_value (Some s) (set_name key q) in
        if (key = ''iteration'' \<or> key = ''area'') \<and> \<not> childSet then set_child True q else q)"
| "parseMap ((key, VBool b) # rest) childSet q =
     (if key = ''negate'' then parseMap rest childSet (set_negate b q)
      else if key = ''child'' then parseMap rest True (set_child b q)
      else parseMap rest childSet q)"
| "parseMap ((key, VNil) # rest) childSet q = parseMap rest childSet (set_value None (set_name key q))"
| "parseMap ((key, VMap m) # rest) childSet q =
     (if key = ''$OPTS'' then parseMap rest childSet q
      else res_bind (parse_operator key m q) (parseMap rest childSet))"
| "parseMap ((key, v) # rest) childSet q = parseMap rest childSet q"
| "parseArray [] = Ok []"
| "parseArray (VMap o1 # rest) =
     res_bind (parseMap o1 False empty_query) (\<lambda>q. res_bind (parseArray rest) (\<lambda>qs. Ok (q # qs)))"
| "parseArray (v # rest) = parseArray rest"
  by pat_completeness auto
termination
  by (relation "measure (case_sum (\<lambda>(es, b, q). size_list (\<lambda>x. size (snd x) + 1) es)
        (\<lambda>xs. size_list size xs))")
    (auto simp: size_prod_simp case_prod_beta)

fun parse_option_entries :: "(string \<times> goval) list \<Rightarrow> query_options \<Rightarrow> query_options res" where
  "parse_option_entries [] options = Ok options"
| "parse_option_entries ((k, v) # rest) options =
     (if k = ''parent-exists'' then
        (case v of VBool b \<Rightarrow> parse_option_entries rest (options\<lparr>ParentExists := b\<rparr>) | _ \<Rightarrow> Panic)
      else if k = ''tree-view'' then
        (case v of VBool b \<Rightarrow> parse_option_entries rest (options\<lparr>TreeView := b\<rparr>) | _ \<Rightarrow> Panic)
      else parse_option_entries rest options)"

definition parseOptions :: "(string \<times> goval) list \<Rightarrow> query_options option res" where
  "parseOptions queryMap =
     (case map_of queryMap ''$OPTS'' of
        Some (VMap m) \<Rightarrow>
          res_bind (parse_option_entries m \<lparr>TreeView = False, ParentExists = False\<rparr>) (\<lambda>o1. Ok (Some o1))
      | _ \<Rightarrow> Ok None)"

section \<open>From queries to expressions\<close>

definition isOperator :: "string \<Rightarrow> bool" where
  "isOperator str \<longleftrightarrow> str = ''$AND'' \<or> str = ''$OR''"

definition searchKeyMap :: "(string \<times> string) list" where
  "searchKeyMap =
     [(''area'', ''system.area''), (''iteration'', ''system.iteration''), (''assignee'', ''system.assignees''),
      (''title'', ''system.title''), (''creator'', ''system.creator''), (''label'', ''system.labels''),
      (''state'', ''system.state''), (''boardcolumn'', ''system.boardcolumns''), (''type'', ''Type''),
      (''workitemtype'', ''Type''), (''space'', ''SpaceID''), (''number'', ''Number'')]"

definition determineLiteralType :: "string \<Rightarrow> string \<Rightarrow> expr" where
  "determineLiteralType key val =
     (if key \<in> {''system.assignees'', ''system.labels'', ''system.boardcolumns'', ''Board''}
      then criteria_Literal (VStrSlice [val]) else criteria_Literal (VString val))"

text \<open>
  The key of a query name: the name itself when a default join handles it, else its entry in
  the key map. The comparison of a query that is not an operator.
\<close>

definition search_key :: "string \<Rightarrow> string res" where
  "search_key name =
     (if handling_join DefaultTableJoins name \<noteq> None then Ok name
      else case map_of searchKeyMap name of
             Some key \<Rightarrow> Ok key
           | None \<Rightarrow> Err (NewBadParameterError ''key not found'' (VString name)))"

definition leaf_expression :: "query \<Rightarrow> expr res" where
  "leaf_expression q =
     res_bind (search_key (q_Name q)) (\<lambda>key.
       let left = criteria_Field key in
       case q_Value q of
         Some v \<Rightarrow>
           (let right = determineLiteralType key v in
            Ok (if q_Negate q then criteria_Not left right
                else if q_Substring q then criteria_Substring left right
                else if q_Child q then criteria_Child left right
                else criteria_Equals left right))
       | None \<Rightarrow>
           if q_Negate q then
             Err (NewBadParameterError ''negate for null not supported'' (VString (q_Name q)))
           else Ok (criteria_IsNull key))"

text \<open>
  The operator combines the expressions from the left; a nil expression (of an operator without
  children) as the right operand makes \<^verbatim>\<open>reparent\<close> call a method of nil.
\<close>

fun combine :: "(expr \<Rightarrow> expr \<Rightarrow> expr) \<Rightarrow> expr option \<Rightarrow> expr option list \<Rightarrow> expr option res" where
  "combine op res [] = Ok res"
| "combine op None (e # es) = combine op e es"
| "combine op (Some r) (None # es) = Panic"
| "combine op (Some r) (Some e # es) = combine op (Some (op r e)) es"

fun generateExpression :: "query \<Rightarrow> expr option res" where
  "generateExpression (Query name val neg sub children opts chld) =
     res_bind (if \<not> isOperator name
               then res_bind (leaf_expression (Query name val neg sub children opts chld)) (\<lambda>e. Ok [Some e])
               else Ok []) (\<lambda>own.
     res_bind (map_res (\<lambda>c. if isOperator (q_Name c) \<or> name = ''$OPTS'' then generateExpression c
                            else res_bind (leaf_expression c) (\<lambda>e. Ok (Some e))) children) (\<lambda>es.
       let myexpr = own @ es in
       if name = ''$AND'' then combine criteria_And None myexpr
       else if name = ''$OR'' then combine criteria_Or None myexpr
       else (case dropWhile (\<lambda>e. e = None) myexpr of [] \<Rightarrow> Ok None | e # _ \<Rightarrow> Ok e)))"

text \<open>The JSON decoder is a parameter: it yields the document or the text of an error.\<close>

definition json_kind :: "goval \<Rightarrow> string" where
  "json_kind v =
     (case v of VSlice _ \<Rightarrow> ''array'' | VString _ \<Rightarrow> ''string'' | VBool _ \<Rightarrow> ''bool'' | _ \<Rightarrow> ''number'')"

definition ParseFilterString ::
  "(string \<Rightarrow> string + goval) \<Rightarrow> string \<Rightarrow> (expr option \<times> query_options option) res" where
  "ParseFilterString unmarshal rawSearchString =
     (let bad = (\<lambda>e. Err (NewBadParameterError ''expression'' (VString (rawSearchString @ '': '' @ e)))) in
      case unmarshal rawSearchString of
        Inl e \<Rightarrow> bad e
      | Inr doc \<Rightarrow>
          (case (case doc of VMap fm \<Rightarrow> Some fm | VNil \<Rightarrow> Some [] | _ \<Rightarrow> None) of
             None \<Rightarrow> bad (''json: cannot unmarshal '' @ json_kind doc
                          @ '' into Go value of type map[string]interface {}'')
           | Some fm \<Rightarrow>
               res_bind (parseMap fm False empty_query) (\<lambda>q.
               res_bind (parseOptions fm) (\<lambda>opts.
               res_bind (generateExpression q) (\<lambda>exp. Ok (exp, opts))))))"

section \<open>Full-text search\<close>

definition trimProtocolFromURLString :: "string \<Rightarrow> string" where
  "trimProtocolFromURLString urlString = TrimPrefix (TrimPrefix urlString ''http://'') ''https://''"

definition escapeCharFromURLString :: "string \<Rightarrow> string" where
  "escapeCharFromURLString urlString =
     concat (map (\<lambda>c. if c \<in> {CHR '':'', CHR ''('', CHR '')''} then [CHR 0x5C, c]
                      else if c = CHR 0x27 then [] else [c]) urlString)"

definition sanitizeURL :: "string \<Rightarrow> string" where
  "sanitizeURL urlString = escapeCharFromURLString (trimProtocolFromURLString urlString)"

record search_keyword =
  sk_workItemTypes :: "uuid list"
  sk_number :: "string list"
  sk_words :: "string list"

definition generateSQLSearchInfo :: "search_keyword \<Rightarrow> string" where
  "generateSQLSearchInfo keywords =
     (let numberStr = Join (sk_number keywords) '' & '';
          wordStr = Join (sk_words keywords) '' & ''
      in Join (filter (\<lambda>v. v \<noteq> []) [numberStr, wordStr]) '' & '')"

text \<open>
  A registered URL: its name, the submatches of its regular expression (none when it does not match; the
  first is the whole match), and the names of the groups.
\<close>

record known_url =
  ku_name :: string
  ku_match :: "string \<Rightarrow> string list option"
  ku_groups :: "string list"

text \<open>
  Registering a URL; the compilation of the regular expression, which panics on an invalid one, is a
  parameter.
\<close>

definition RegisterAsKnownURL ::
  "(string \<Rightarrow> ((string \<Rightarrow> string list option) \<times> string list) option) \<Rightarrow> string \<Rightarrow> string
     \<Rightarrow> known_url list \<Rightarrow> known_url list res" where
  "RegisterAsKnownURL compile name urlRegex known =
     (case compile urlRegex of
        None \<Rightarrow> Panic
      | Some (m, groups) \<Rightarrow>
          Ok (filter (\<lambda>u. ku_name u \<noteq> name) known @ [\<lparr>ku_name = name, ku_match = m, ku_groups = groups\<rparr>]))"

definition submatches :: "known_url \<Rightarrow> string \<Rightarrow> string list" where
  "submatches u s = (case ku_match u s of None \<Rightarrow> [] | Some m \<Rightarrow> m)"

text \<open>The most relevant match is the first one with the largest number of submatches.\<close>

fun most_relevant :: "known_url list \<Rightarrow> string \<Rightarrow> nat \<Rightarrow> known_url option \<Rightarrow> known_url option" where
  "most_relevant [] url n best = best"
| "most_relevant (u # us) url n best =
     (if length (submatches u url) > n then most_relevant us url (length (submatches u url)) (Some u)
      else most_relevant us url n best)"

definition isKnownURL :: "known_url list \<Rightarrow> string \<Rightarrow> known_url option" where
  "isKnownURL known url =
     (case most_relevant known url 0 None of
        Some u \<Rightarrow> if ku_name u = [] then None else Some u
      | None \<Rightarrow> None)"

definition group_value :: "known_url \<Rightarrow> string list \<Rightarrow> string \<Rightarrow> string" where
  "group_value u match name =
     (case filter (\<lambda>i. 0 < i \<and> ku_groups u ! i = name) [0..<length (ku_groups u)] of
        [] \<Rightarrow> []
      | is \<Rightarrow> (let i = last is in if i > length match - 1 then [] else match ! i))"

definition getSearchQueryFromURLPattern :: "known_url \<Rightarrow> string \<Rightarrow> string res" where
  "getSearchQueryFromURLPattern u stringToMatch =
     (let match = submatches u stringToMatch in
      if length match > 1 then
        (let q = concat (map (\<lambda>c. if c = CHR '':'' then [CHR 0x5C, c] else [c]) (concat (tl match))) @ '':*'';
             id1 = group_value u match ''id''
         in Ok (if id1 \<noteq> [] then ''('' @ id1 @ '':*A | '' @ q @ '')'' else q))
      else case match of [] \<Rightarrow> Panic | m # _ \<Rightarrow> Ok (m @ '':*''))"

definition getSearchQueryFromURLString :: "known_url list \<Rightarrow> string \<Rightarrow> string res" where
  "getSearchQueryFromURLString known url =
     (case isKnownURL known url of
        Some u \<Rightarrow> getSearchQueryFromURLPattern u url
      | None \<Rightarrow> Ok (sanitizeURL url @ '':*''))"

text \<open>\<^verbatim>\<open>strings.Fields\<close>: the maximal runs of bytes that are not white space.\<close>

function fields_from :: "string \<Rightarrow> string \<Rightarrow> string list" where
  "fields_from cur [] = (if cur = [] then [] else [rev cur])"
| "fields_from cur (c # cs) =
     (case strip_one utf8_spaces (c # cs) of
        Some t \<Rightarrow> (if cur = [] then [] else [rev cur]) @ fields_from [] t
      | None \<Rightarrow> fields_from (c # cur) cs)"
  by pat_completeness auto
termination
  by (relation "measure (\<lambda>(cur, s). length s)") (auto dest: strip_one_shorter)

definition strings_Fields :: "string \<Rightarrow> string list" where
  "strings_Fields s = fields_from [] s"

text \<open>
  \<^verbatim>\<open>url.QueryUnescape\<close>: a plus sign is a space and a percent sign takes two hexadecimal digits. The
  code goes on with the empty string when that fails.
\<close>

definition hex_value :: "char \<Rightarrow> nat option" where
  "hex_value c =
     (let n = (of_char c :: nat) in
      if 48 \<le> n \<and> n \<le> 57 then Some (n - 48)
      else if 65 \<le> n \<and> n \<le> 70 then Some (n - 55)
      else if 97 \<le> n \<and> n \<le> 102 then Some (n - 87) else None)"

fun unescape :: "string \<Rightarrow> string option" where
  "unescape [] = Some []"
| "unescape (c # cs) =
     (if c = CHR ''%'' then
        (case cs of
           h # l # rest \<Rightarrow>
             (case (hex_value h, hex_value l) of
                (Some a, Some b) \<Rightarrow> map_option (Cons (char_of (16 * a + b))) (unescape rest)
              | _ \<Rightarrow> None)
         | _ \<Rightarrow> None)
      else map_option (Cons (if c = CHR ''+'' then CHR '' '' else c)) (unescape cs))"

definition query_unescape :: "string \<Rightarrow> string" where
  "query_unescape s = (case unescape s of Some t \<Rightarrow> t | None \<Rightarrow> [])"

text \<open>Functions of other packages and the Unicode tables of lower-casing; the registered URLs.\<close>

record search_env =
  se_uuid :: uuid_lib
  se_IsURL :: "string \<Rightarrow> bool"
  se_ToLower :: "string \<Rightarrow> string"
  se_known :: "known_url list"

definition trim_char :: "char \<Rightarrow> string \<Rightarrow> string" where
  "trim_char c s = rev (dropWhile (\<lambda>x. x = c) (rev (dropWhile (\<lambda>x. x = c) s)))"

fun parse_parts :: "search_env \<Rightarrow> string list \<Rightarrow> search_keyword \<Rightarrow> search_keyword res" where
  "parse_parts S [] res = Ok res"
| "parse_parts S (raw # parts) res =
     (let part = query_unescape raw in
      if HasPrefix part ''number:'' then
        parse_parts S parts
          (res\<lparr>sk_number := sk_number res @ [TrimPrefix part ''number:'' @ '':*A'']\<rparr>)
      else if HasPrefix part ''type:'' then
        (let typeIDStr = TrimPrefix part ''type:'' in
         if length typeIDStr = 0 then Err (NewBadParameterError ''Type ID must not be empty'' (VString part))
         else case uFromString (se_uuid S) typeIDStr of
                None \<Rightarrow> Err (NewBadParameterError ''failed to parse type ID string as UUID'' (VString typeIDStr))
              | Some typeID \<Rightarrow>
                  parse_parts S parts (res\<lparr>sk_workItemTypes := sk_workItemTypes res @ [typeID]\<rparr>))
      else if se_IsURL S part then
        res_bind (getSearchQueryFromURLString (se_known S) (trimProtocolFromURLString (se_ToLower S part))) (\<lambda>q.
          parse_parts S parts (res\<lparr>sk_words := sk_words res @ [q]\<rparr>))
      else
        parse_parts S parts (res\<lparr>sk_words := sk_words res @ [sanitizeURL (se_ToLower S part) @ '':*'']\<rparr>))"

definition search_parts :: "string \<Rightarrow> string list" where
  "search_parts rawSearchString =
     strings_Fields (trim_char (CHR 0x22) (trim_char (CHR ''/'') rawSearchString))"

definition parseSearchString :: "search_env \<Rightarrow> string \<Rightarrow> search_keyword res" where
  "parseSearchString S rawSearchString =
     parse_parts S (search_parts rawSearchString)
       \<lparr>sk_workItemTypes = [], sk_number = [], sk_words = []\<rparr>"

section \<open>Facts\<close>

text \<open>
  How \<^verbatim>\<open>to_tsquery\<close> reads a lexeme: a backslash takes the next character literally, and a bare
  colon or parenthesis ends the lexeme.
\<close>

fun read_lexeme :: "string \<Rightarrow> string option" where
  "read_lexeme [] = Some []"
| "read_lexeme (c # cs) =
     (if c = CHR 0x5C then (case cs of [] \<Rightarrow> None | d # ds \<Rightarrow> map_option (Cons d) (read_lexeme ds))
      else if c \<in> {CHR '':'', CHR ''('', CHR '')''} then None
      else map_option (Cons c) (read_lexeme cs))"

lemma escapeChar_Nil [simp]: "escapeCharFromURLString [] = []"
  by (simp add: escapeCharFromURLString_def)

lemma escapeChar_Cons [simp]:
  "escapeCharFromURLString (c # s) =
     (if c \<in> {CHR '':'', CHR ''('', CHR '')''} then [CHR 0x5C, c]
      else if c = CHR 0x27 then [] else [c]) @ escapeCharFromURLString s"
  by (simp add: escapeCharFromURLString_def)

lemma escapeChar_append:
  "escapeCharFromURLString (s @ t) = escapeCharFromURLString s @ escapeCharFromURLString t"
  by (simp add: escapeCharFromURLString_def)

lemma read_escaped:
  "CHR 0x5C \<notin> set s
     \<Longrightarrow> read_lexeme (escapeCharFromURLString s @ t)
           = map_option (\<lambda>x. filter (\<lambda>c. c \<noteq> CHR 0x27) s @ x) (read_lexeme t)"
proof (induction s)
  case (Cons c s)
  then show ?case
    by (cases "c \<in> {CHR '':'', CHR ''('', CHR '')''}") (auto simp: option.map_comp comp_def)
qed (cases "read_lexeme t"; simp)

lemma trimProtocol_subset: "set (trimProtocolFromURLString s) \<subseteq> set s"
  unfolding trimProtocolFromURLString_def using TrimPrefix_subset by blast

text \<open>The field names an expression mentions.\<close>

fun field_names :: "expr \<Rightarrow> string set" where
  "field_names (FieldExpression a f) = {f}"
| "field_names (IsNullExpression a f) = {f}"
| "field_names (BinaryExpression b a l r) = field_names l \<union> field_names r"
| "field_names _ = {}"

definition known_field :: "string \<Rightarrow> bool" where
  "known_field f \<longleftrightarrow> f \<in> snd ` set searchKeyMap \<or> handling_join DefaultTableJoins f \<noteq> None"

lemma search_key_known: "search_key name = Ok key \<Longrightarrow> known_field key"
  by (force simp: search_key_def known_field_def split: if_splits option.splits dest: map_of_SomeD)

lemma leaf_known:
  assumes "leaf_expression q = Ok e" "f \<in> field_names e"
  shows "known_field f"
proof -
  from assms(1) obtain key where key: "search_key (q_Name q) = Ok key" by (auto simp: leaf_expression_def)
  with assms have "f = key"
    by (auto simp: leaf_expression_def Let_def determineLiteralType_def criteria_defs
        split: option.splits if_splits)
  with search_key_known [OF key] show ?thesis by simp
qed

definition opt_fields :: "expr option \<Rightarrow> string set" where
  "opt_fields e = (case e of None \<Rightarrow> {} | Some x \<Rightarrow> field_names x)"

lemma opt_fields_simps [simp]: "opt_fields None = {}" "opt_fields (Some e) = field_names e"
  by (simp_all add: opt_fields_def)

lemma combine_fields:
  assumes op: "\<And>l r. field_names (op l r) = field_names l \<union> field_names r"
  shows "combine op res es = Ok e \<Longrightarrow> opt_fields e \<subseteq> opt_fields res \<union> (\<Union>x \<in> set es. opt_fields x)"
proof (induction es arbitrary: res)
  case (Cons x es)
  show ?case
  proof (cases res)
    case None
    with Cons.prems Cons.IH [of x] show ?thesis by auto
  next
    case (Some r)
    with Cons.prems obtain y where x: "x = Some y" by (cases x) auto
    with Some Cons.prems Cons.IH [of "Some (op r y)"] op show ?thesis by auto
  qed
qed auto

lemma map_res_Ok_mem: "map_res f xs = Ok ys \<Longrightarrow> y \<in> set ys \<Longrightarrow> \<exists>x \<in> set xs. f x = Ok y"
  by (induction xs arbitrary: ys) auto

lemma generated_known:
  "generateExpression q = Ok e \<Longrightarrow> f \<in> opt_fields e \<Longrightarrow> known_field f"
proof (induction q arbitrary: e f rule: generateExpression.induct)
  case (1 name val neg sub children opts chld)
  let ?q = "Query name val neg sub children opts chld"
  let ?g = "\<lambda>c. if isOperator (q_Name c) \<or> name = ''$OPTS'' then generateExpression c
                 else res_bind (leaf_expression c) (\<lambda>e. Ok (Some e))"
  from 1(2) obtain own es where own: "(if \<not> isOperator name
      then res_bind (leaf_expression ?q) (\<lambda>e. Ok [Some e]) else Ok []) = Ok own"
    and es: "map_res ?g children = Ok es"
    and e: "(if name = ''$AND'' then combine criteria_And None (own @ es)
       else if name = ''$OR'' then combine criteria_Or None (own @ es)
       else (case dropWhile (\<lambda>e. e = None) (own @ es) of [] \<Rightarrow> Ok None | e # _ \<Rightarrow> Ok e)) = Ok e"
    by (auto simp: Let_def)
  have "opt_fields e \<subseteq> (\<Union>x \<in> set (own @ es). opt_fields x)"
  proof (cases "isOperator name")
    case True
    with e combine_fields [of criteria_And None] combine_fields [of criteria_Or None] show ?thesis
      by (auto simp: isOperator_def criteria_defs split: if_splits) fastforce+
  next
    case False
    have "e = None \<or> e \<in> set (own @ es)"
    proof (cases "dropWhile (\<lambda>e. e = None) (own @ es)")
      case (Cons y ys)
      then have "y \<in> set (own @ es)" by (metis list.set_intros(1) set_dropWhileD)
      with Cons e False show ?thesis by (auto simp: isOperator_def)
    next
      case Nil
      with e False show ?thesis unfolding isOperator_def by (simp only: Nil) auto
    qed
    then show ?thesis by auto
  qed
  with 1(3) obtain x where x: "x \<in> set own \<union> set es" "f \<in> opt_fields x" by auto
  show ?case
  proof (cases "x \<in> set own")
    case True
    with own x(2) leaf_known show ?thesis by (auto split: if_splits)
  next
    case False
    with x(1) map_res_Ok_mem [OF es, of x] obtain c where c: "c \<in> set children" "?g c = Ok x" by auto
    show ?thesis
    proof (cases "isOperator (q_Name c) \<or> name = ''$OPTS''")
      case True
      with 1(1) c x(2) own show ?thesis by auto
    next
      case False
      with c(2) x(2) leaf_known show ?thesis by auto
    qed
  qed
qed

text \<open>A query in which every operator has operands.\<close>

fun inhabited :: "query \<Rightarrow> bool" where
  "inhabited (Query name val neg sub children opts chld) \<longleftrightarrow>
     (isOperator name \<longrightarrow> children \<noteq> []) \<and> (\<forall>c \<in> set children. inhabited c)"

lemma search_key_operator:
  "search_key ''$AND'' \<noteq> Ok key" "search_key ''$OR'' \<noteq> Ok key" "search_key ''$OPTS'' \<noteq> Ok key"
  by code_simp+

lemma search_key_no_panic: "search_key name \<noteq> Panic"
  by (auto simp: search_key_def split: option.splits)

lemma leaf_no_panic: "leaf_expression q \<noteq> Panic"
  by (auto simp: leaf_expression_def res_bind_Panic_iff search_key_no_panic Let_def split: option.splits)

lemma combine_Some: "combine op (Some r) (map Some xs) = Ok (Some (foldl op r xs))"
  by (induction xs arbitrary: r) auto

lemma combine_map:
  "xs \<noteq> [] \<Longrightarrow> combine op None (map Some xs) = Ok (Some (foldl op (hd xs) (tl xs)))"
  by (cases xs) (auto simp: combine_Some)

lemma no_None_map: "None \<notin> set es \<Longrightarrow> \<exists>xs. es = map Some xs"
  by (rule exI [of _ "map the es"], induction es) auto

lemma generated_total:
  "inhabited q \<Longrightarrow> generateExpression q \<noteq> Panic \<and> generateExpression q \<noteq> Ok None"
proof (induction q rule: generateExpression.induct)
  case (1 name val neg sub children opts chld)
  let ?q = "Query name val neg sub children opts chld"
  let ?own = "if \<not> isOperator name then res_bind (leaf_expression ?q) (\<lambda>e. Ok [Some e]) else Ok []"
  let ?g = "\<lambda>c. if isOperator (q_Name c) \<or> name = ''$OPTS'' then generateExpression c
                 else res_bind (leaf_expression c) (\<lambda>e. Ok (Some e))"
  have own: "?own \<noteq> Panic" by (simp add: res_bind_Panic_iff leaf_no_panic)
  show ?case
  proof (cases ?own)
    case (Ok ow)
    have g: "?g c \<noteq> Panic \<and> ?g c \<noteq> Ok None" if "c \<in> set children" for c
      using 1(1) [OF Ok that] 1(2) that by (simp add: res_bind_Panic_iff leaf_no_panic)
    show ?thesis
    proof (cases "map_res ?g children")
      case es: (Ok es)
      have "None \<notin> set es" using map_res_Ok_mem [OF es, of None] g by auto
      moreover have "None \<notin> set ow" using Ok by (auto split: if_splits)
      ultimately obtain xs where xs: "ow @ es = map Some xs" using no_None_map [of "ow @ es"] by auto
      have "ow @ es \<noteq> []" using Ok 1(2) map_res_length [OF es] by (auto split: if_splits)
      with xs obtain y ys where "xs = y # ys" by (cases xs) auto
      with xs show ?thesis by (simp only: generateExpression.simps Ok es res_bind.simps Let_def) (simp add: combine_Some)
    next
      case Panic
      then show ?thesis using g map_res_no_panic [of children ?g] by blast
    next
      case (Err e)
      then show ?thesis by (simp only: generateExpression.simps Ok res_bind.simps) simp
    qed
  qed (use own in auto)
qed

section \<open>Properties\<close>

text \<open>The last Boolean stored under a key, for entries processed one after the other.\<close>

fun flag :: "string \<Rightarrow> (string \<times> goval) list \<Rightarrow> bool \<Rightarrow> bool" where
  "flag key [] d = d"
| "flag key ((k, v) # es) d = flag key es (if k = key then v = VBool True else d)"

lemma flag_notin: "key \<notin> fst ` set es \<Longrightarrow> flag key es d = d"
  by (induction es) auto

lemma flag_in: "(key, v) \<in> set es \<Longrightarrow> distinct (map fst es) \<Longrightarrow> flag key es d = (v = VBool True)"
proof (induction es arbitrary: d)
  case (Cons e es)
  then show ?case by (cases e) (auto simp: flag_notin rev_image_eqI)
qed simp

lemma flag_append: "flag key (xs @ ys) d = flag key ys (flag key xs d)"
  by (induction xs arbitrary: d) auto

lemma parseMap_flags:
  "\<forall>e \<in> set es. \<exists>b. snd e = VBool b \<Longrightarrow>
     parseMap (es @ ys) cs (Query n v ng s ch opt c)
       = parseMap ys (cs \<or> ''child'' \<in> fst ` set es)
           (Query n v (flag ''negate'' es ng) s ch opt (flag ''child'' es c))"
proof (induction es arbitrary: cs ng c)
  case (Cons e es)
  then obtain k b where e: "e = (k, VBool b)" by (cases e) auto
  from Cons have IH: "parseMap (es @ ys) cs' (Query n v ng' s ch opt c')
      = parseMap ys (cs' \<or> ''child'' \<in> fst ` set es)
          (Query n v (flag ''negate'' es ng') s ch opt (flag ''child'' es c'))" for cs' ng' c'
    by simp
  show ?case by (cases "k = ''negate''"; cases "k = ''child''")
      (simp_all add: e IH set_negate_def set_child_def)
qed simp

lemma flag_member:
  assumes "distinct (map fst es)"
  shows "flag key es d = (if key \<in> fst ` set es then (key, VBool True) \<in> set es else d)"
proof (cases "key \<in> fst ` set es")
  case True
  then obtain v where v: "(key, v) \<in> set es" by auto
  with assms have "(key, VBool True) \<in> set es \<longleftrightarrow> v = VBool True" by (metis eq_key_imp_eq_value)
  with v flag_in [OF v assms] True show ?thesis by simp
qed (simp add: flag_notin)

text \<open>
  A leaf of a filter with one name and any flags is read the same way in every iteration order of
  the Go map: the name and its text are kept, the flag \<^verbatim>\<open>negate\<close> is off unless set, and the flag
  \<^verbatim>\<open>child\<close> is the given one or, by default, on exactly for iterations and areas.
\<close>
theorem filter_leaf_flags:
  assumes "distinct (map fst es)" "(k, VString v) \<in> set es"
    and "\<forall>e \<in> set es. fst e = k \<or> (\<exists>b. snd e = VBool b)"
  shows "parseMap es False empty_query =
    Ok (Query k (Some v) ((''negate'', VBool True) \<in> set es) False [] None
      (if ''child'' \<in> fst ` set es - {k} then (''child'', VBool True) \<in> set es
       else k = ''iteration'' \<or> k = ''area''))"
proof -
  from assms(2) obtain pre post where es: "es = pre @ (k, VString v) # post"
    by (meson split_list)
  with assms have bools: "\<forall>e \<in> set pre. \<exists>b. snd e = VBool b" "\<forall>e \<in> set post. \<exists>b. snd e = VBool b"
    and k: "k \<notin> fst ` set pre" "k \<notin> fst ` set post"
    by (auto simp: image_iff)
  have tail: "parseMap post cs (Query k (Some v) ng False [] None c)
      = Ok (Query k (Some v) (flag ''negate'' post ng) False [] None (flag ''child'' post c))" for cs ng c
    using parseMap_flags [OF bools(2), of "[]"] by simp
  let ?d = "k = ''iteration'' \<or> k = ''area''"
  have "parseMap es False empty_query =
      Ok (Query k (Some v) (flag ''negate'' post (flag ''negate'' pre False)) False [] None
        (flag ''child'' post (if ?d \<and> ''child'' \<notin> fst ` set pre then True else flag ''child'' pre False)))"
    unfolding es empty_query_def parseMap_flags [OF bools(1)]
    by (simp add: tail Let_def set_value_def set_name_def set_child_def)
  moreover have d: "distinct (map fst pre)" "distinct (map fst post)" "fst ` set pre \<inter> fst ` set post = {}"
    using assms(1) by (auto simp: es)
  have out: "(key, VBool True) \<notin> set xs" if "key \<notin> fst ` set xs" for key xs
    using that by (metis fst_conv image_eqI)
  have sep: "key \<notin> fst ` set pre \<or> key \<notin> fst ` set post" for key using d(3) by blast
  have in_es: "(key, VBool True) \<in> set es \<longleftrightarrow> (key, VBool True) \<in> set pre \<or> (key, VBool True) \<in> set post" for key
    by (auto simp: es)
  have "flag ''negate'' post (flag ''negate'' pre False) = ((''negate'', VBool True) \<in> set es)"
    using sep [of "''negate''"] out [of "''negate''"]
    by (simp only: flag_member [OF d(1)] flag_member [OF d(2)] in_es) metis
  moreover have "fst ` set es - {k} = fst ` set pre \<union> fst ` set post"
    using k by (auto simp: es)
  then have "flag ''child'' post (if ?d \<and> ''child'' \<notin> fst ` set pre then True else flag ''child'' pre False)
      = (if ''child'' \<in> fst ` set es - {k} then (''child'', VBool True) \<in> set es else ?d)"
    using sep [of "''child''"] out [of "''child''"]
    by (simp only: flag_member [OF d(1)] flag_member [OF d(2)] in_es) auto
  ultimately show ?thesis by simp
qed

theorem filter_leaf_flags_witness:
  "parseMap [(''child'', VBool False), (''area'', VString ''x'')] False empty_query
     = Ok (Query ''area'' (Some ''x'') False False [] None False)"
  using filter_leaf_flags [of "[(''child'', VBool False), (''area'', VString ''x'')]" "''area''" "''x''"]
  by (simp del: parseMap.simps) fast

text \<open>
  C19. The membership operator \<^verbatim>\<open>$IN\<close> means what it says: a filter on one key with a list of values is the
  disjunction of the comparisons of that key with each value, in the order of the list; the empty list
  gives no expression at all.
\<close>
theorem filter_in_is_disjunction:
  assumes "search_key k = Ok key"
    and "unmarshal raw = Inr (VMap [(k, VMap [(''$IN'', VSlice (map VString vs))])])"
  shows "ParseFilterString unmarshal raw =
    Ok (let eqs = map (\<lambda>v. criteria_Equals (criteria_Field key) (determineLiteralType key v)) vs in
        (if vs = [] then None else Some (foldl criteria_Or (hd eqs) (tl eqs)), None))"
proof -
  let ?leaf = "\<lambda>v. set_value (Some v) (set_name k empty_query)"
  let ?eq = "\<lambda>v. criteria_Equals (criteria_Field key) (determineLiteralType key v)"
  have k: "\<not> isOperator k" "k \<noteq> ''$OPTS''"
    using assms(1) search_key_operator by (auto simp: isOperator_def)
  have "map_res assert_string (map VString vs) = Ok vs" by (induction vs) auto
  then have parse: "parseMap [(k, VMap [(''$IN'', VSlice (map VString vs))])] False empty_query
      = Ok (Query ''$OR'' None False False (map ?leaf vs) None False)"
    by (simp add: k parse_operator_def query_updates empty_query_def)
  have leaf: "leaf_expression (?leaf v) = Ok (?eq v)" for v
    by (simp add: leaf_expression_def assms(1) query_updates empty_query_def)
  have "map_res (\<lambda>c. if isOperator (q_Name c) \<or> ''$OR'' = ''$OPTS'' then generateExpression c
          else res_bind (leaf_expression c) (\<lambda>e. Ok (Some e))) (map ?leaf vs) = Ok (map (Some \<circ> ?eq) vs)"
    by (induction vs) (simp_all add: leaf k, simp_all add: query_updates k empty_query_def)
  then have "generateExpression (Query ''$OR'' None False False (map ?leaf vs) None False)
      = combine criteria_Or None (map Some (map ?eq vs))"
    by (simp add: isOperator_def comp_def)
  moreover have "parseOptions [(k, VMap [(''$IN'', VSlice (map VString vs))])] = Ok None"
    using k(2) by (simp add: parseOptions_def)
  ultimately show ?thesis
    unfolding ParseFilterString_def assms(2) Let_def
    using combine_map [of "map ?eq vs" criteria_Or]
    by (simp add: parse del: generateExpression.simps parseMap.simps)
qed

theorem filter_in_witness:
  "ParseFilterString (\<lambda>_. Inr (VMap [(''state'', VMap [(''$IN'', VSlice [VString ''new'', VString ''open''])])])) []
     = Ok (Some (criteria_Or
         (criteria_Equals (criteria_Field ''system.state'') (criteria_Literal (VString ''new'')))
         (criteria_Equals (criteria_Field ''system.state'') (criteria_Literal (VString ''open'')))), None)"
proof -
  have "search_key ''state'' = Ok ''system.state''" by code_simp
  from filter_in_is_disjunction [OF this, of
      "\<lambda>_. Inr (VMap [(''state'', VMap [(''$IN'', VSlice [VString ''new'', VString ''open''])])])" "[]"
      "[''new'', ''open'']"]
  show ?thesis by (simp add: determineLiteralType_def)
qed

text \<open>
  Every field an accepted filter compares is known: it is a field of work items that the key map names
  or a column that one of the default joins handles, however deeply the filter is nested.
\<close>
theorem filter_fields_known:
  assumes "ParseFilterString unmarshal raw = Ok (Some e, opts)" "f \<in> field_names e"
  shows "known_field f"
proof -
  from assms(1) obtain q where "generateExpression q = Ok (Some e)"
    by (auto simp: ParseFilterString_def Let_def split: sum.splits option.splits)
  from generated_known [OF this] assms(2) show ?thesis by simp
qed

theorem filter_fields_known_witness: "known_field ''system.state''"
proof -
  have "ParseFilterString (\<lambda>_. Inr (VMap [(''state'', VNil)])) []
      = Ok (Some (criteria_IsNull ''system.state''), None)" by code_simp
  from filter_fields_known [OF this] show ?thesis by (simp add: criteria_defs)
qed

text \<open>
  A query in which every operator has operands is turned into an expression or refused with an
  error: the generation neither panics nor returns an empty expression.
\<close>
theorem filter_generation_total:
  assumes "inhabited q"
  shows "(\<exists>e. generateExpression q = Ok (Some e)) \<or> (\<exists>err. generateExpression q = Err err)"
  using generated_total [OF assms] by (cases "generateExpression q") auto

theorem filter_generation_total_witness:
  "\<exists>e. generateExpression (Query ''$AND'' None False False
     [Query ''state'' (Some ''new'') False False [] None False,
      Query ''title'' (Some ''x'') False True [] None False] None False) = Ok (Some e)"
proof -
  let ?q = "Query ''$AND'' None False False
     [Query ''state'' (Some ''new'') False False [] None False,
      Query ''title'' (Some ''x'') False True [] None False] None False"
  have "is_ok (generateExpression ?q)" by code_simp
  moreover have "inhabited ?q" by (simp add: isOperator_def)
  from filter_generation_total [OF this] have "(\<exists>e. generateExpression ?q = Ok (Some e)) \<or> (\<exists>err. generateExpression ?q = Err err)" .
  ultimately show ?thesis by (auto simp del: generateExpression.simps simp: is_ok_iff)
qed

text \<open>
  Three malformed filters make the parser panic instead of reporting a bad parameter: an operator
  without operands behind another operand, a membership test that is not a list of texts, and an option
  that is not Boolean.
\<close>
theorem malformed_filters_panic:
  assumes "s \<in> {[(''$AND'', VSlice [VMap [(''state'', VString v)], VMap [(''$OR'', VSlice [])]])],
                [(''state'', VMap [(''$IN'', VString v)])],
                [(''state'', VString v), (''$OPTS'', VMap [(''tree-view'', VString v)])]}"
  shows "ParseFilterString (\<lambda>_. Inr (VMap s)) raw = Panic"
proof -
  have key: "search_key ''state'' = Ok ''system.state''" by code_simp
  have "leaf_expression (Query ''state'' (Some v) False False [] None False)
      = Ok (criteria_Equals (criteria_Field ''system.state'') (determineLiteralType ''system.state'' v))"
    by (simp add: leaf_expression_def key)
  with assms show ?thesis
    by (auto simp: ParseFilterString_def parseOptions_def parse_operator_def empty_query_def query_updates
        isOperator_def Let_def)
qed

theorem malformed_filters_panic_witness:
  "ParseFilterString (\<lambda>_. Inr (VMap [(''state'', VMap [(''$IN'', VString ''new'')])])) [] = Panic"
  by (rule malformed_filters_panic) simp

text \<open>
  A search word without backslashes survives the escaping: the full-text parser reads the sanitised
  text as one lexeme, the text without its protocol and without quotes.
\<close>
theorem sanitized_word_is_lexeme:
  assumes "CHR 0x5C \<notin> set s"
  shows "read_lexeme (sanitizeURL s) = Some (filter (\<lambda>c. c \<noteq> CHR 0x27) (trimProtocolFromURLString s))"
proof -
  from assms trimProtocol_subset have "CHR 0x5C \<notin> set (trimProtocolFromURLString s)" by blast
  from read_escaped [OF this, of "[]"] show ?thesis by (simp add: sanitizeURL_def)
qed

theorem sanitized_word_is_lexeme_witness:
  "read_lexeme (sanitizeURL ''http://a:(b)'') = Some ''a:(b)''"
  using sanitized_word_is_lexeme [of "''http://a:(b)''"]
  by (simp add: trimProtocolFromURLString_def TrimPrefix_def HasPrefix_def)

text \<open>
  A backslash is not escaped, so that one in front of a colon or a parenthesis takes the escape of that
  character for itself: the sanitised text is then no lexeme, whatever surrounds it.
\<close>
theorem backslash_defeats_escaping:
  assumes "CHR 0x5C \<notin> set a" "c \<in> {CHR '':'', CHR ''('', CHR '')''}"
  shows "read_lexeme (escapeCharFromURLString (a @ [CHR 0x5C, c] @ b)) = None"
  using assms(2) by (auto simp: escapeChar_append read_escaped [OF assms(1)])

theorem backslash_defeats_escaping_witness:
  "read_lexeme (escapeCharFromURLString (''ab'' @ [CHR 0x5C, CHR '':''] @ ''c'')) = None"
  by (rule backslash_defeats_escaping) simp_all

text \<open>Reading a search string never panics, because a known URL has been matched before it is taken apart.\<close>

lemma most_relevant_matches:
  "most_relevant us url n best = Some u \<Longrightarrow>
     (\<And>v. best = Some v \<Longrightarrow> submatches v url \<noteq> []) \<Longrightarrow> submatches u url \<noteq> []"
proof (induction us url n best rule: most_relevant.induct)
  case (2 w us url n best)
  show ?case
  proof (cases "n < length (submatches w url)")
    case True
    with 2(3) have "most_relevant us url (length (submatches w url)) (Some w) = Some u" by simp
    moreover have "submatches v url \<noteq> []" if "Some w = Some v" for v using that True by auto
    ultimately show ?thesis using 2(1) [OF True] by blast
  qed (use 2 in simp)
qed simp

lemma known_URL_matches: "isKnownURL known url = Some u \<Longrightarrow> submatches u url \<noteq> []"
  by (rule most_relevant_matches [of known url 0 None]) (auto simp: isKnownURL_def split: option.splits if_splits)

lemma URL_query_Ok: "\<exists>q. getSearchQueryFromURLString known url = Ok q"
  using known_URL_matches [of known url]
  by (auto simp: getSearchQueryFromURLString_def getSearchQueryFromURLPattern_def Let_def split: option.splits list.splits)

definition keyword_count :: "search_keyword \<Rightarrow> nat" where
  "keyword_count k = length (sk_workItemTypes k) + length (sk_number k) + length (sk_words k)"

lemma parse_part_step:
  "(\<exists>acc'. parse_parts S (raw # parts) acc = parse_parts S parts acc' \<and> keyword_count acc' = Suc (keyword_count acc))
     \<or> (\<exists>m v. parse_parts S (raw # parts) acc = Err (NewBadParameterError m v) \<and>
              HasPrefix (query_unescape raw) ''type:'')"
proof -
  obtain q where q: "getSearchQueryFromURLString (se_known S)
      (trimProtocolFromURLString (se_ToLower S (query_unescape raw))) = Ok q"
    using URL_query_Ok by blast
  have count: "keyword_count (acc\<lparr>sk_number := sk_number acc @ [x]\<rparr>) = Suc (keyword_count acc)"
    "keyword_count (acc\<lparr>sk_words := sk_words acc @ [x]\<rparr>) = Suc (keyword_count acc)"
    "keyword_count (acc\<lparr>sk_workItemTypes := sk_workItemTypes acc @ [t]\<rparr>) = Suc (keyword_count acc)" for x t
    by (simp_all add: keyword_count_def)
  show ?thesis
    unfolding parse_parts.simps Let_def q res_bind.simps
    using count by (simp split: option.split) blast
qed

lemma parse_parts_outcome:
  "(\<exists>k. parse_parts S parts acc = Ok k \<and> keyword_count k = keyword_count acc + length parts)
     \<or> (\<exists>m v. parse_parts S parts acc = Err (NewBadParameterError m v) \<and>
              (\<exists>part \<in> set parts. HasPrefix (query_unescape part) ''type:''))"
proof (induction parts arbitrary: acc)
  case (Cons raw parts)
  from parse_part_step [of S raw parts acc] show ?case
  proof (elim disjE exE conjE)
    fix acc'
    assume "parse_parts S (raw # parts) acc = parse_parts S parts acc'" "keyword_count acc' = Suc (keyword_count acc)"
    with Cons.IH [of acc'] show ?thesis by (simp del: parse_parts.simps) blast
  qed (auto simp del: parse_parts.simps)
qed simp

text \<open>
  A full-text search string is read without panic: every white-space separated part becomes exactly
  one type, number or word of the query, or the whole string is refused with a bad parameter error, which
  happens only for a part that starts with \<^verbatim>\<open>type:\<close>.
\<close>
theorem search_string_outcome:
  "(\<exists>k. parseSearchString S raw = Ok k \<and> keyword_count k = length (search_parts raw))
     \<or> (\<exists>m v. parseSearchString S raw = Err (NewBadParameterError m v) \<and>
              list_ex (\<lambda>part. HasPrefix (query_unescape part) ''type:'') (search_parts raw))"
  using parse_parts_outcome [of S "search_parts raw" "\<lparr>sk_workItemTypes = [], sk_number = [], sk_words = []\<rparr>"]
  by (simp add: parseSearchString_def keyword_count_def list_ex_iff)

end
