(* ===== verification/Field_Types.thy ===== *)
theory Field_Types
  imports Content
begin

text \<open>
  The field types of work items: \<^verbatim>\<open>workitem/simple_type.go\<close>,
  \<^verbatim>\<open>list_type.go\<close>, \<^verbatim>\<open>enum_type.go\<close> and
  \<^verbatim>\<open>field_definition.go\<close>. A field type converts between the values of the REST layer and the
  values stored in the JSON column of a work item. The methods of the three Go types are one
  definition each; the interface \<^verbatim>\<open>FieldType\<close> is the datatype \<open>field_type\<close> and its
  methods dispatch on it.

  The functions of other packages that the conversions call (UUID parsing, URL validation,
  formatting of floats and times) are the fields of \<open>field_env\<close>.
\<close>

section \<open>Kinds\<close>

datatype kind =
    KindString | KindInteger | KindFloat | KindBoolean | KindInstant | KindURL | KindMarkup
  | KindIteration | KindUser | KindLabel | KindBoardColumn | KindArea | KindCodebase
  | KindRemoteTracker | KindEnum | KindList
  | KindOther string

definition IsSimpleType :: "kind \<Rightarrow> bool" where
  "IsSimpleType k \<longleftrightarrow> k \<noteq> KindEnum \<and> k \<noteq> KindList"

fun IsRelational :: "kind \<Rightarrow> bool" where
  "IsRelational KindIteration = True"
| "IsRelational KindUser = True"
| "IsRelational KindLabel = True"
| "IsRelational KindBoardColumn = True"
| "IsRelational KindArea = True"
| "IsRelational KindRemoteTracker = True"
| "IsRelational KindCodebase = True"
| "IsRelational _ = False"

fun Kind_String :: "kind \<Rightarrow> string" where
  "Kind_String KindString = ''string''"
| "Kind_String KindInteger = ''integer''"
| "Kind_String KindFloat = ''float''"
| "Kind_String KindBoolean = ''bool''"
| "Kind_String KindInstant = ''instant''"
| "Kind_String KindURL = ''url''"
| "Kind_String KindMarkup = ''markup''"
| "Kind_String KindIteration = ''iteration''"
| "Kind_String KindUser = ''user''"
| "Kind_String KindLabel = ''label''"
| "Kind_String KindBoardColumn = ''boardcolumn''"
| "Kind_String KindArea = ''area''"
| "Kind_String KindCodebase = ''codebase''"
| "Kind_String KindRemoteTracker = ''remotetracker''"
| "Kind_String KindEnum = ''enum''"
| "Kind_String KindList = ''list''"
| "Kind_String (KindOther s) = s"

definition named_kinds :: "kind list" where
  "named_kinds =
     [KindString, KindInteger, KindFloat, KindBoolean, KindInstant, KindURL, KindMarkup,
      KindIteration, KindUser, KindLabel, KindBoardColumn, KindArea, KindCodebase,
      KindRemoteTracker, KindEnum, KindList]"

text \<open>The Go conversion \<^verbatim>\<open>Kind(s)\<close> of any string.\<close>

definition kind_of_string :: "string \<Rightarrow> kind" where
  "kind_of_string s =
     (case find (\<lambda>k. Kind_String k = s) named_kinds of Some k \<Rightarrow> k | None \<Rightarrow> KindOther s)"

definition ConvertStringToKind :: "string \<Rightarrow> kind res" where
  "ConvertStringToKind s =
     (let k = kind_of_string s in
      if k \<in> set named_kinds then Ok k else Err (EErrorf ''kind '%s' is not a simple type''))"

definition ConvertAnyToKind :: "goval \<Rightarrow> kind res" where
  "ConvertAnyToKind any =
     (case any of VString s \<Rightarrow> ConvertStringToKind s
      | _ \<Rightarrow> Err (EErrorf ''kind is not a string value %v''))"

section \<open>Simple types\<close>

record field_env =
  fe_uuid :: uuid_lib
  fe_IsURL :: "string \<Rightarrow> bool"
  fe_FormatFloat :: "float64 \<Rightarrow> nat \<Rightarrow> string"
  fe_RFC3339 :: "int \<Rightarrow> string \<Rightarrow> string"

record simple_type =
  st_Kind :: kind
  st_DefaultValue :: goval

text \<open>The format texts of the conversion errors.\<close>

definition should_be :: "'a res" where
  "should_be = Err (EErrorf ''value %v (%[1]T) should be %s, but is %s'')"

definition AnyToUUID :: "field_env \<Rightarrow> goval \<Rightarrow> uuid res" where
  "AnyToUUID E value =
     (case value of
        VUUID u \<Rightarrow> Ok u
      | VString s \<Rightarrow> (case uFromString (fe_uuid E) s of Some u \<Rightarrow> Ok u
                      | None \<Rightarrow> Err (EErrorf ''uuid: incorrect UUID''))
      | _ \<Rightarrow> Err (EErrorf ''value %+v (%[1]T) should be string or uuid''))"

definition string_kind :: "kind \<Rightarrow> bool" where
  "string_kind k \<longleftrightarrow>
     k \<in> {KindString, KindUser, KindIteration, KindArea, KindLabel, KindBoardColumn}"

text \<open>
  The markup of a value, with the check of the markup type, and the codebase reference of a
  value: the common parts of \<^verbatim>\<open>ConvertToModel\<close> and \<^verbatim>\<open>ConvertToStringSlice\<close>.
\<close>

definition value_markup :: "goval \<Rightarrow> markup_content res" where
  "value_markup value =
     (case value of
        VMarkup mc \<Rightarrow>
          if IsMarkupSupported (mc_Markup mc) then Ok mc
          else Err (EErrorf ''value %v (%[1]T) has no valid markup type %s'')
      | VMap m \<Rightarrow> res_bind (NewMarkupContentFromMap m) (\<lambda>mc.
          if IsMarkupSupported (mc_Markup mc) then Ok mc
          else Err (EErrorf ''value %v (%[1]T) has no valid markup type %s''))
      | _ \<Rightarrow> should_be)"

definition value_codebase :: "goval \<Rightarrow> codebase_content res" where
  "value_codebase value =
     (case value of
        VCodebase cb \<Rightarrow> (case IsValid cb of
            Some e \<Rightarrow> Err (EWrap ''value %v (%[1]T) is invalid %s'' e)
          | None \<Rightarrow> Ok cb)
      | _ \<Rightarrow> should_be)"

text \<open>\<^verbatim>\<open>valueType.Kind() == reflect.String && govalidator.IsURL(value.(string))\<close>\<close>

definition value_url :: "field_env \<Rightarrow> goval \<Rightarrow> string res" where
  "value_url E value =
     (case value of
        VString s \<Rightarrow> if fe_IsURL E s then Ok s else should_be
      | VNamedString _ _ \<Rightarrow> Panic
      | _ \<Rightarrow> should_be)"

definition SimpleType_ConvertToModel :: "field_env \<Rightarrow> simple_type \<Rightarrow> goval \<Rightarrow> goval res" where
  "SimpleType_ConvertToModel E t value =
     (if value = VNil then Ok VNil
      else if string_kind (st_Kind t) then
        (if reflect_Kind value \<noteq> RString then should_be else Ok value)
      else case st_Kind t of
        KindRemoteTracker \<Rightarrow> res_bind (AnyToUUID E value) (\<lambda>u. Ok (VUUID u))
      | KindURL \<Rightarrow> res_bind (value_url E value) (\<lambda>s. Ok (VString s))
      | KindFloat \<Rightarrow> if reflect_Kind value \<noteq> RFloat64 then should_be else Ok value
      | KindInteger \<Rightarrow>
          (case value of
             VInt _ \<Rightarrow> Ok value
           | VInt64 _ \<Rightarrow> Ok value
           | VFloat f \<Rightarrow>
               if \<not> f_whole f then
                 Err (EErrorf ''float64 value %+v (%[1]T) has digits after the decimal point and therefore cannot be represented by an integer'')
               else Ok (VInt (f_to_int f))
           | _ \<Rightarrow> should_be)
      | KindInstant \<Rightarrow>
          if reflect_Kind value \<noteq> RStruct then should_be
          else (case value of VTime n loc \<Rightarrow> Ok (VInt64 (UnixNano n)) | _ \<Rightarrow> Panic)
      | KindList \<Rightarrow>
          if reflect_Kind value \<noteq> RArray \<and> reflect_Kind value \<noteq> RSlice then should_be else Ok value
      | KindEnum \<Rightarrow> Ok value
      | KindMarkup \<Rightarrow> res_bind (value_markup value) (\<lambda>mc. Ok (VMap (MarkupContent_ToMap mc)))
      | KindCodebase \<Rightarrow> res_bind (value_codebase value) (\<lambda>cb. Ok (VMap (Content_ToMap cb)))
      | KindBoolean \<Rightarrow> if reflect_Kind value \<noteq> RBool then should_be else Ok value
      | _ \<Rightarrow> Err (EErrorf ''unexpected type constant: '%s' ''))"

definition SimpleType_ConvertToStringSlice :: "field_env \<Rightarrow> simple_type \<Rightarrow> goval \<Rightarrow> string list res" where
  "SimpleType_ConvertToStringSlice E t value =
     (if value = VNil then Ok [[]]
      else if string_kind (st_Kind t) then
        (if reflect_Kind value \<noteq> RString then should_be
         else res_bind (assert_string value) (\<lambda>s. Ok [s]))
      else case st_Kind t of
        KindRemoteTracker \<Rightarrow> res_bind (AnyToUUID E value) (\<lambda>u. Ok [uString (fe_uuid E) u])
      | KindURL \<Rightarrow> res_bind (value_url E value) (\<lambda>s. Ok [s])
      | KindFloat \<Rightarrow> (case value of VFloat f \<Rightarrow> Ok [fe_FormatFloat E f 6] | _ \<Rightarrow> should_be)
      | KindInteger \<Rightarrow>
          (case value of
             VInt i \<Rightarrow> Ok [itoa (sint i)]
           | VInt64 i \<Rightarrow> Ok [itoa (sint i)]
           | VFloat f \<Rightarrow>
               if \<not> f_whole f then
                 Err (EErrorf ''float64 value %+v (%[1]T) has digits after the decimal point and therefore cannot be represented by an integer'')
               else Ok [fe_FormatFloat E f 0]
           | _ \<Rightarrow> should_be)
      | KindInstant \<Rightarrow>
          if reflect_Kind value \<noteq> RStruct then should_be
          else (case value of VTime n loc \<Rightarrow> Ok [fe_RFC3339 E n loc]
                | _ \<Rightarrow> Err (EErrorf ''value should be of type time.Time but is of type %[1]T: %[1]+v''))
      | KindBoolean \<Rightarrow>
          (case value of VBool b \<Rightarrow> Ok [if b then ''true'' else ''false''] | _ \<Rightarrow> should_be)
      | KindMarkup \<Rightarrow> res_bind (value_markup value) (\<lambda>mc. Ok [mc_Content mc])
      | KindCodebase \<Rightarrow> res_bind (value_codebase value) (\<lambda>cb.
          Ok [cb_Repository cb @ ''#'' @ cb_Branch cb @ ''#'' @ cb_FileName cb @ '':'' @
              itoa (sint (cb_LineNumber cb))])
      | _ \<Rightarrow> Err (EErrorf ''unexpected type constant: '%s' ''))"

definition SimpleType_ConvertFromModel :: "field_env \<Rightarrow> simple_type \<Rightarrow> goval \<Rightarrow> goval res" where
  "SimpleType_ConvertFromModel E t value =
     (if value = VNil then Ok VNil
      else if string_kind (st_Kind t) \<or> st_Kind t \<in> {KindURL, KindInteger, KindFloat, KindBoolean} then Ok value
      else case st_Kind t of
        KindRemoteTracker \<Rightarrow> res_bind (AnyToUUID E value) (\<lambda>u. Ok (VUUID u))
      | KindInstant \<Rightarrow>
          (case value of
             VFloat f \<Rightarrow>
               if \<not> f_whole f then Err (EErrorf ''value %v is not a whole number'')
               else Ok (time_Unix0 (f_to_int f))
           | VInt64 n \<Rightarrow> Ok (time_Unix0 n)
           | _ \<Rightarrow> Err (EErrorf ''value %v must be either %s or %s but has an unknown type %s''))
      | KindMarkup \<Rightarrow>
          (case value of
             VMap m \<Rightarrow> res_bind (NewMarkupContentFromMap m) (\<lambda>mc. Ok (VMarkup mc))
           | _ \<Rightarrow> should_be)
      | KindCodebase \<Rightarrow>
          (case value of
             VMap m \<Rightarrow> res_bind (NewCodebaseContent m) (\<lambda>(cb, err).
               case err of Some e \<Rightarrow> Err e | None \<Rightarrow> Ok (VCodebase cb))
           | _ \<Rightarrow> should_be)
      | _ \<Rightarrow> Err (EErrorf ''unexpected field type: %s''))"

definition SimpleType_SetDefaultValue :: "field_env \<Rightarrow> simple_type \<Rightarrow> goval \<Rightarrow> simple_type res" where
  "SimpleType_SetDefaultValue E t v =
     (if v = VNil then Ok (t\<lparr>st_DefaultValue := VNil\<rparr>)
      else res_bind (map_err (EWrap ''failed to set default value of simple type to %+v (%[1]T)'')
                       (SimpleType_ConvertToModel E t v))
             (\<lambda>defVal. Ok (t\<lparr>st_DefaultValue := defVal\<rparr>)))"

definition SimpleType_Validate :: "field_env \<Rightarrow> simple_type \<Rightarrow> unit res" where
  "SimpleType_Validate E t =
     (if \<not> IsSimpleType (st_Kind t) then
        Err (EErrorf ''a simple type can only have a simple type (e.g. no list or enum)'')
      else res_bind (map_err (EWrap ''failed to validate default value for kind %s: %+v (%[1]T)'')
                       (SimpleType_SetDefaultValue E t (st_DefaultValue t)))
             (\<lambda>_. Ok ()))"

definition SimpleType_Equal :: "simple_type \<Rightarrow> simple_type \<Rightarrow> bool res" where
  "SimpleType_Equal t other =
     res_bind (go_eq (st_DefaultValue t) (st_DefaultValue other)) (\<lambda>same.
       Ok (same \<and> st_Kind t = st_Kind other))"

definition SimpleType_EqualValue :: "simple_type \<Rightarrow> simple_type \<Rightarrow> bool res" where
  "SimpleType_EqualValue t u = SimpleType_Equal t u"

section \<open>List types\<close>

text \<open>
  \<^verbatim>\<open>convert.CascadeEqual\<close> looks at the call stack: when the comparison that calls it was
  itself called from an \<^verbatim>\<open>EqualValue\<close> method, the parts are compared with
  \<^verbatim>\<open>EqualValue\<close>, and with \<^verbatim>\<open>Equal\<close> otherwise. The caller is the flag
  \<open>fromEqualValue\<close> of the model.
\<close>

definition CascadeEqual ::
  "bool \<Rightarrow> ('a \<Rightarrow> 'a \<Rightarrow> bool res) \<Rightarrow> ('a \<Rightarrow> 'a \<Rightarrow> bool res) \<Rightarrow> 'a \<Rightarrow> 'a \<Rightarrow> bool res" where
  "CascadeEqual fromEqualValue equal equalValue obj other =
     (if fromEqualValue then equalValue obj other else equal obj other)"

text \<open>A comparison that goes on only while the parts are equal.\<close>

definition and_then :: "bool res \<Rightarrow> bool res \<Rightarrow> bool res" where
  "and_then a b = res_bind a (\<lambda>same. if same then b else Ok False)"

record list_type =
  lt_SimpleType :: simple_type
  lt_ComponentType :: simple_type
  lt_DefaultValue :: goval

text \<open>The result \<^verbatim>\<open>[]interface{}\<close> is \<open>None\<close> for the nil slice.\<close>

definition ConvertList ::
  "(simple_type \<Rightarrow> goval \<Rightarrow> goval res) \<Rightarrow> simple_type \<Rightarrow> goval \<Rightarrow> goval list option res" where
  "ConvertList converter componentType value =
     (if value = VNil then Ok None
      else if reflect_Kind value \<noteq> RArray \<and> reflect_Kind value \<noteq> RSlice then
        Err (EErrorf ''value %v should be array/slice, but is %s'')
      else res_bind
        (map_err (\<lambda>e. EErrorf ''error converting list value: %s'')
           (map_res (converter componentType) (reflect_elems value)))
        (\<lambda>converted. Ok (Some converted)))"

definition ListType_ConvertToModel :: "field_env \<Rightarrow> list_type \<Rightarrow> goval \<Rightarrow> goval res" where
  "ListType_ConvertToModel E t value =
     res_bind (ConvertList (SimpleType_ConvertToModel E) (lt_ComponentType t) value)
       (\<lambda>s. Ok (slice_val s))"

definition ListType_ConvertFromModel :: "field_env \<Rightarrow> list_type \<Rightarrow> goval \<Rightarrow> goval res" where
  "ListType_ConvertFromModel E t value =
     res_bind (ConvertList (SimpleType_ConvertFromModel E) (lt_ComponentType t) value)
       (\<lambda>s. Ok (slice_val s))"

fun single_strings :: "goval list \<Rightarrow> string list res" where
  "single_strings [] = Ok []"
| "single_strings (v # vs) =
     (case v of
        VStrSlice [s] \<Rightarrow> res_bind (single_strings vs) (\<lambda>ss. Ok (s # ss))
      | VStrSlice _ \<Rightarrow> Err (EErrorf ''string conversion of base type did not return exactly one value'')
      | _ \<Rightarrow> Panic)"

definition ListType_ConvertToStringSlice :: "field_env \<Rightarrow> list_type \<Rightarrow> goval \<Rightarrow> string list res" where
  "ListType_ConvertToStringSlice E t value =
     (if value = VNil then Ok []
      else res_bind
        (map_err (EWrap ''failed to convert list type to string slice'')
          (ConvertList (\<lambda>ct v. res_bind (SimpleType_ConvertToStringSlice E ct v) (\<lambda>ss. Ok (VStrSlice ss)))
             (lt_ComponentType t) value))
        (\<lambda>valueList. single_strings (slice_elems valueList)))"

definition ListType_SetDefaultValue :: "field_env \<Rightarrow> list_type \<Rightarrow> goval \<Rightarrow> list_type res" where
  "ListType_SetDefaultValue E t v =
     (if v = VNil then Ok (t\<lparr>lt_DefaultValue := VNil\<rparr>)
      else res_bind (map_err (EWrap ''failed to set default value of list type to %+v (%[1]T)'')
                       (SimpleType_ConvertToModel E (lt_ComponentType t) v))
             (\<lambda>defVal. Ok (t\<lparr>lt_DefaultValue := defVal\<rparr>)))"

definition ListType_Validate :: "field_env \<Rightarrow> list_type \<Rightarrow> unit res" where
  "ListType_Validate E t =
     (if st_Kind (lt_SimpleType t) \<noteq> KindList then
        Err (EErrorf ''list type cannot have a base type %s but needs %s'')
      else if \<not> IsSimpleType (st_Kind (lt_ComponentType t)) then
        Err (EErrorf ''list type must have a simple component type and not %s'')
      else res_bind (map_err (EWrap ''failed to validate default value for kind %s: %+v (%[1]T)'')
                       (ListType_SetDefaultValue E t (lt_DefaultValue t)))
             (\<lambda>_. Ok ()))"

definition ListType_Equal :: "bool \<Rightarrow> list_type \<Rightarrow> list_type \<Rightarrow> bool res" where
  "ListType_Equal fromEqualValue t other =
     and_then (CascadeEqual fromEqualValue SimpleType_Equal SimpleType_EqualValue
                 (lt_SimpleType t) (lt_SimpleType other))
     (and_then (Ok (deep_equal (lt_DefaultValue t) (lt_DefaultValue other)))
       (CascadeEqual fromEqualValue SimpleType_Equal SimpleType_EqualValue
          (lt_ComponentType t) (lt_ComponentType other)))"

section \<open>Enumeration types\<close>

record enum_type =
  et_SimpleType :: simple_type
  et_BaseType :: simple_type
  et_Values :: "goval list option"
  et_RewritableValues :: bool
  et_DefaultValue :: goval

fun contains :: "goval list \<Rightarrow> goval \<Rightarrow> bool res" where
  "contains [] v = Ok False"
| "contains (element # a) v =
     res_bind (go_eq element v) (\<lambda>same. if same then Ok True else contains a v)"

fun containsAll :: "goval list \<Rightarrow> goval list \<Rightarrow> bool res" where
  "containsAll a [] = Ok True"
| "containsAll a (element # v) = and_then (contains a element) (containsAll a v)"

definition EnumType_ConvertToModel :: "field_env \<Rightarrow> enum_type \<Rightarrow> goval \<Rightarrow> goval res" where
  "EnumType_ConvertToModel E t value =
     res_bind (map_err (\<lambda>e. EErrorf ''error converting enum value: %s'')
                 (SimpleType_ConvertToModel E (et_BaseType t) value)) (\<lambda>converted.
     res_bind (contains (slice_elems (et_Values t)) converted) (\<lambda>found.
       if \<not> found then Err (EErrorf ''value: %+v (%[1]T) is not part of allowed enum values: %+v'')
       else Ok converted))"

definition EnumType_ConvertFromModel :: "field_env \<Rightarrow> enum_type \<Rightarrow> goval \<Rightarrow> goval res" where
  "EnumType_ConvertFromModel E t value =
     (if value = VNil then Ok VNil
      else
        res_bind (map_err (\<lambda>e. EErrorf ''error converting enum value: %s'')
                    (SimpleType_ConvertFromModel E (et_BaseType t) value)) (\<lambda>converted.
        res_bind (contains (slice_elems (et_Values t)) converted) (\<lambda>found.
          if \<not> found then Err (EErrorf ''value: %+v (%[1]T) is not part of allowed enum values: %+v'')
          else Ok converted)))"

definition EnumType_ConvertToStringSlice :: "field_env \<Rightarrow> enum_type \<Rightarrow> goval \<Rightarrow> string list res" where
  "EnumType_ConvertToStringSlice E t value =
     res_bind (if value = VNil then Ok True else contains (slice_elems (et_Values t)) value) (\<lambda>found.
       if \<not> found then Err (EErrorf ''value: %+v (%[1]T) is not part of allowed enum values: %+v'')
       else map_err (EWrap ''failed to convert enum value to string slice: %+v'')
              (SimpleType_ConvertToStringSlice E (et_BaseType t) value))"

definition EnumType_SetDefaultValue :: "field_env \<Rightarrow> enum_type \<Rightarrow> goval \<Rightarrow> enum_type res" where
  "EnumType_SetDefaultValue E t v =
     (if v = VNil then Ok (t\<lparr>et_DefaultValue := VNil\<rparr>)
      else res_bind (map_err (EWrap ''failed to set default value of enum type to %+v (%[1]T)'')
                       (EnumType_ConvertToModel E t v))
             (\<lambda>defVal. Ok (t\<lparr>et_DefaultValue := defVal\<rparr>)))"

definition EnumType_GetDefaultValue :: "enum_type \<Rightarrow> goval" where
  "EnumType_GetDefaultValue t =
     (if et_DefaultValue t \<noteq> VNil then et_DefaultValue t
      else case slice_elems (et_Values t) of v # _ \<Rightarrow> v | [] \<Rightarrow> VNil)"

definition EnumType_Validate :: "field_env \<Rightarrow> enum_type \<Rightarrow> unit res" where
  "EnumType_Validate E t =
     (if st_Kind (et_SimpleType t) \<noteq> KindEnum then
        Err (EErrorf ''enum has a base type %s but needs %s'')
      else if \<not> IsSimpleType (st_Kind (et_BaseType t)) then
        Err (EErrorf ''enum type must have a simple component type and not %s'')
      else res_bind (map_err (EWrap ''failed to validate default value for kind %s: %+v (%[1]T)'')
                       (EnumType_SetDefaultValue E t (et_DefaultValue t))) (\<lambda>_.
        if slice_elems (et_Values t) = [] then Err (EErrorf ''enum type has no values: %+v'')
        else res_bind
          (map_err (EWrap ''failed to convert value at position %d to kind %s: %+v'')
             (map_res (EnumType_ConvertToModel E t) (slice_elems (et_Values t))))
          (\<lambda>_. Ok ())))"

definition EnumType_Equal :: "bool \<Rightarrow> enum_type \<Rightarrow> enum_type \<Rightarrow> bool res" where
  "EnumType_Equal fromEqualValue t other =
     and_then (CascadeEqual fromEqualValue SimpleType_Equal SimpleType_EqualValue
                 (et_SimpleType t) (et_SimpleType other))
     (and_then (CascadeEqual fromEqualValue SimpleType_Equal SimpleType_EqualValue
                 (et_BaseType t) (et_BaseType other))
     (and_then (Ok (et_RewritableValues t \<or> deep_equal (slice_val (et_Values t)) (slice_val (et_Values other))))
       (Ok (deep_equal (et_DefaultValue t) (et_DefaultValue other)))))"

definition EnumType_EqualEnclosing :: "enum_type \<Rightarrow> enum_type \<Rightarrow> bool res" where
  "EnumType_EqualEnclosing t other =
     and_then (SimpleType_Equal (et_SimpleType t) (et_SimpleType other))
     (and_then (SimpleType_Equal (et_BaseType t) (et_BaseType other))
       (if \<not> et_RewritableValues t
        then containsAll (slice_elems (et_Values t)) (slice_elems (et_Values other))
        else Ok True))"

section \<open>The FieldType interface\<close>

datatype field_type = FSimple simple_type | FList list_type | FEnum enum_type

text \<open>The embedded \<^verbatim>\<open>SimpleType\<close>, which carries the promoted methods.\<close>

fun base_simple :: "field_type \<Rightarrow> simple_type" where
  "base_simple (FSimple t) = t"
| "base_simple (FList t) = lt_SimpleType t"
| "base_simple (FEnum t) = et_SimpleType t"

definition GetKind :: "field_type \<Rightarrow> kind" where
  "GetKind t = st_Kind (base_simple t)"

fun ConvertToModel :: "field_env \<Rightarrow> field_type \<Rightarrow> goval \<Rightarrow> goval res" where
  "ConvertToModel E (FSimple t) = SimpleType_ConvertToModel E t"
| "ConvertToModel E (FList t) = ListType_ConvertToModel E t"
| "ConvertToModel E (FEnum t) = EnumType_ConvertToModel E t"

fun ConvertFromModel :: "field_env \<Rightarrow> field_type \<Rightarrow> goval \<Rightarrow> goval res" where
  "ConvertFromModel E (FSimple t) = SimpleType_ConvertFromModel E t"
| "ConvertFromModel E (FList t) = ListType_ConvertFromModel E t"
| "ConvertFromModel E (FEnum t) = EnumType_ConvertFromModel E t"

fun ConvertToStringSlice :: "field_env \<Rightarrow> field_type \<Rightarrow> goval \<Rightarrow> string list res" where
  "ConvertToStringSlice E (FSimple t) = SimpleType_ConvertToStringSlice E t"
| "ConvertToStringSlice E (FList t) = ListType_ConvertToStringSlice E t"
| "ConvertToStringSlice E (FEnum t) = EnumType_ConvertToStringSlice E t"

fun GetDefaultValue :: "field_type \<Rightarrow> goval" where
  "GetDefaultValue (FSimple t) = st_DefaultValue t"
| "GetDefaultValue (FList t) = lt_DefaultValue t"
| "GetDefaultValue (FEnum t) = EnumType_GetDefaultValue t"

fun SetDefaultValue :: "field_env \<Rightarrow> field_type \<Rightarrow> goval \<Rightarrow> field_type res" where
  "SetDefaultValue E (FSimple t) v = res_bind (SimpleType_SetDefaultValue E t v) (\<lambda>u. Ok (FSimple u))"
| "SetDefaultValue E (FList t) v = res_bind (ListType_SetDefaultValue E t v) (\<lambda>u. Ok (FList u))"
| "SetDefaultValue E (FEnum t) v = res_bind (EnumType_SetDefaultValue E t v) (\<lambda>u. Ok (FEnum u))"

fun FieldType_Validate :: "field_env \<Rightarrow> field_type \<Rightarrow> unit res" where
  "FieldType_Validate E (FSimple t) = SimpleType_Validate E t"
| "FieldType_Validate E (FList t) = ListType_Validate E t"
| "FieldType_Validate E (FEnum t) = EnumType_Validate E t"

fun FieldType_Equal :: "bool \<Rightarrow> field_type \<Rightarrow> field_type \<Rightarrow> bool res" where
  "FieldType_Equal b (FSimple t) (FSimple u) = SimpleType_Equal t u"
| "FieldType_Equal b (FList t) (FList u) = ListType_Equal b t u"
| "FieldType_Equal b (FEnum t) (FEnum u) = EnumType_Equal b t u"
| "FieldType_Equal b _ _ = Ok False"

definition FieldType_EqualValue :: "field_type \<Rightarrow> field_type \<Rightarrow> bool res" where
  "FieldType_EqualValue t u = FieldType_Equal True t u"

text \<open>
  \<^verbatim>\<open>ConvertToModelWithType\<close> is a method of \<^verbatim>\<open>SimpleType\<close>, promoted to the
  other two types: \<open>t\<close> is the embedded simple type of the old field type.
\<close>

definition ConvertToModelWithType ::
  "field_env \<Rightarrow> simple_type \<Rightarrow> field_type \<Rightarrow> goval \<Rightarrow> goval res" where
  "ConvertToModelWithType E t newFieldType v =
     (let failed = Err (EErrorf ''failed to convert value %+v (%[1]T) to field type %+v (%[2]T)'');
          third = (if st_Kind t = KindList \<and> GetKind newFieldType \<noteq> KindList then
                     (let single = (\<lambda>ifArr. if length ifArr = 1 then
                            (case ConvertToModel E newFieldType (ifArr ! 0) of
                               Ok newVal \<Rightarrow> Ok newVal | Err _ \<Rightarrow> failed | Panic \<Rightarrow> Panic)
                          else failed) in
                      case v of
                        VSlice ifArr \<Rightarrow> single ifArr
                      | VNilSlice \<Rightarrow> single []
                      | _ \<Rightarrow> Err (EErrorf ''failed to convert value to interface array: %+v''))
                   else failed)
      in case ConvertToModel E newFieldType v of
           Ok newVal \<Rightarrow> Ok newVal
         | Panic \<Rightarrow> Panic
         | Err _ \<Rightarrow>
             if GetKind newFieldType = KindList then
               (case ConvertToModel E newFieldType (VSlice [v]) of
                  Ok newVal \<Rightarrow> Ok newVal | Panic \<Rightarrow> Panic | Err _ \<Rightarrow> third)
             else third)"

section \<open>Field definitions\<close>

record field_definition =
  fd_Required :: bool
  fd_ReadOnly :: bool
  fd_Label :: string
  fd_Description :: string
  fd_Type :: field_type

definition FieldDefinition_Validate :: "field_env \<Rightarrow> field_definition \<Rightarrow> unit res" where
  "FieldDefinition_Validate E f =
     (if TrimSpace (fd_Label f) = [] then Err (EErrorf ''field label is empty %s when trimmed'')
      else FieldType_Validate E (fd_Type f))"

definition FieldDefinition_Equal :: "bool \<Rightarrow> field_definition \<Rightarrow> field_definition \<Rightarrow> bool res" where
  "FieldDefinition_Equal fromEqualValue f other =
     (if fd_Required f \<noteq> fd_Required other then Ok False
      else if fd_ReadOnly f \<noteq> fd_ReadOnly other then Ok False
      else if fd_Label f \<noteq> fd_Label other then Ok False
      else if fd_Description f \<noteq> fd_Description other then Ok False
      else CascadeEqual fromEqualValue (FieldType_Equal False) FieldType_EqualValue
             (fd_Type f) (fd_Type other))"

definition FieldDefinition_EqualValue :: "field_definition \<Rightarrow> field_definition \<Rightarrow> bool res" where
  "FieldDefinition_EqualValue f u = FieldDefinition_Equal True f u"

definition FieldDefinition_ConvertToModel ::
  "field_env \<Rightarrow> field_definition \<Rightarrow> string \<Rightarrow> goval \<Rightarrow> goval res" where
  "FieldDefinition_ConvertToModel E f name value0 =
     (let value = (if value0 = VNil then GetDefaultValue (fd_Type f) else value0) in
      if fd_Required f \<and> value = VNil then Err (EErrorf ''value for field %q must not be nil'')
      else if fd_Required f \<and> GetKind (fd_Type f) = KindString then
        (case value of
           VString sVal \<Rightarrow>
             if TrimSpace sVal = [] then Err (EErrorf ''value for field %q must not be empty: %+v'')
             else ConvertToModel E (fd_Type f) value
         | _ \<Rightarrow> Err (EErrorf ''failed to convert '%+v' to string''))
      else ConvertToModel E (fd_Type f) value)"

definition FieldDefinition_ConvertFromModel ::
  "field_env \<Rightarrow> field_definition \<Rightarrow> string \<Rightarrow> goval \<Rightarrow> goval res" where
  "FieldDefinition_ConvertFromModel E f name value =
     (if fd_Required f \<and> value = VNil then Err (EErrorf ''Value %s is required'')
      else ConvertFromModel E (fd_Type f) value)"

definition compatibleFields :: "field_definition \<Rightarrow> field_definition \<Rightarrow> bool res" where
  "compatibleFields existing new =
     (if fd_Required existing \<noteq> fd_Required new then Ok False
      else FieldType_Equal False (fd_Type existing) (fd_Type new))"

subsection \<open>JSON\<close>

text \<open>
  The decoding of a field definition. The argument is the decoded JSON document;
  \<^verbatim>\<open>json.Unmarshal\<close> into a struct reads the members named by the tags, leaves the zero value
  for an absent or null member and fails on a member of another type.
\<close>

definition json_mismatch :: "'a res" where
  "json_mismatch = Err (EErrorf ''json: cannot unmarshal value into Go struct field'')"

definition json_bool :: "(string \<times> goval) list \<Rightarrow> string \<Rightarrow> bool res" where
  "json_bool m k =
     (case map_get m k of VNil \<Rightarrow> Ok False | VBool b \<Rightarrow> Ok b | _ \<Rightarrow> json_mismatch)"

definition json_string :: "(string \<times> goval) list \<Rightarrow> string \<Rightarrow> string res" where
  "json_string m k =
     (case map_get m k of VNil \<Rightarrow> Ok [] | VString s \<Rightarrow> Ok s | _ \<Rightarrow> json_mismatch)"

definition json_slice :: "(string \<times> goval) list \<Rightarrow> string \<Rightarrow> goval list option res" where
  "json_slice m k =
     (case map_get m k of VNil \<Rightarrow> Ok None | VSlice xs \<Rightarrow> Ok (Some xs) | _ \<Rightarrow> json_mismatch)"

fun json_object :: "goval \<Rightarrow> (string \<times> goval) list res" where
  "json_object VNil = Ok []"
| "json_object (VMap m) = Ok m"
| "json_object _ = json_mismatch"

definition SimpleType_of_json :: "goval \<Rightarrow> simple_type res" where
  "SimpleType_of_json v =
     res_bind (json_object v) (\<lambda>m.
     res_bind (json_string m ''kind'') (\<lambda>k.
       Ok \<lparr>st_Kind = kind_of_string k, st_DefaultValue = map_get m ''default_value''\<rparr>))"

definition ListType_of_json :: "goval \<Rightarrow> list_type res" where
  "ListType_of_json v =
     res_bind (json_object v) (\<lambda>m.
     res_bind (SimpleType_of_json (map_get m ''simple_type'')) (\<lambda>st.
     res_bind (SimpleType_of_json (map_get m ''component_type'')) (\<lambda>ct.
       Ok \<lparr>lt_SimpleType = st, lt_ComponentType = ct, lt_DefaultValue = map_get m ''default_value''\<rparr>)))"

definition EnumType_of_json :: "goval \<Rightarrow> enum_type res" where
  "EnumType_of_json v =
     res_bind (json_object v) (\<lambda>m.
     res_bind (SimpleType_of_json (map_get m ''simple_type'')) (\<lambda>st.
     res_bind (SimpleType_of_json (map_get m ''base_type'')) (\<lambda>bt.
     res_bind (json_slice m ''values'') (\<lambda>vs.
     res_bind (json_bool m ''rewritable_values'') (\<lambda>rw.
       Ok \<lparr>et_SimpleType = st, et_BaseType = bt, et_Values = vs, et_RewritableValues = rw,
           et_DefaultValue = map_get m ''default_value''\<rparr>)))))"

definition raw_kind :: "(string \<times> goval) list \<Rightarrow> goval" where
  "raw_kind rawType =
     (case map_of rawType ''kind'' of
        Some k \<Rightarrow> k
      | None \<Rightarrow> (case map_of rawType ''simple_type'' of
            Some (VMap simpleTypeMap) \<Rightarrow> map_get simpleTypeMap ''kind''
          | _ \<Rightarrow> VNil))"

definition FieldDefinition_UnmarshalJSON :: "goval \<Rightarrow> field_definition res" where
  "FieldDefinition_UnmarshalJSON doc =
     res_bind (map_err (EWrap ''failed to unmarshall field definition into rawFieldDef'') (json_object doc)) (\<lambda>temp.
     res_bind (map_err (EWrap ''failed to unmarshall field definition into rawFieldDef'')
       (res_bind (json_bool temp ''required'') (\<lambda>required.
        res_bind (json_bool temp ''read_only'') (\<lambda>readOnly.
        res_bind (json_string temp ''label'') (\<lambda>label.
        res_bind (json_string temp ''description'') (\<lambda>description.
          Ok (\<lambda>t. \<lparr>fd_Required = required, fd_ReadOnly = readOnly, fd_Label = label,
                    fd_Description = description, fd_Type = t\<rparr>))))))) (\<lambda>mk.
     let rawMessage = map_get temp ''type'' in
     if rawMessage = VNil then Panic
     else
       res_bind (map_err (EWrap ''failed to unmarshall from json.RawMessage to a map: %+v'')
                   (json_object rawMessage)) (\<lambda>rawType.
       res_bind (map_err (EWrap ''failed to convert any '%+v' to kind'')
                   (ConvertAnyToKind (raw_kind rawType))) (\<lambda>kind.
       case kind of
         KindList \<Rightarrow> res_bind (map_err (EWrap []) (ListType_of_json rawMessage)) (\<lambda>t. Ok (mk (FList t)))
       | KindEnum \<Rightarrow> res_bind (map_err (EWrap []) (EnumType_of_json rawMessage)) (\<lambda>t. Ok (mk (FEnum t)))
       | _ \<Rightarrow> res_bind (map_err (EWrap []) (SimpleType_of_json rawMessage)) (\<lambda>t. Ok (mk (FSimple t)))))))"

text \<open>
  \<^verbatim>\<open>json.Marshal\<close> by the struct tags, for values that JSON can represent as they are
  (\<open>default_value\<close> is omitted when it is nil).
\<close>

definition default_json :: "goval \<Rightarrow> (string \<times> goval) list" where
  "default_json d = (if d = VNil then [] else [(''default_value'', d)])"

definition SimpleType_json :: "simple_type \<Rightarrow> goval" where
  "SimpleType_json t =
     VMap ((''kind'', VString (Kind_String (st_Kind t))) # default_json (st_DefaultValue t))"

fun FieldType_json :: "field_type \<Rightarrow> goval" where
  "FieldType_json (FSimple t) = SimpleType_json t"
| "FieldType_json (FList t) =
     VMap ([(''simple_type'', SimpleType_json (lt_SimpleType t)),
            (''component_type'', SimpleType_json (lt_ComponentType t))] @ default_json (lt_DefaultValue t))"
| "FieldType_json (FEnum t) =
     VMap ([(''simple_type'', SimpleType_json (et_SimpleType t)),
            (''base_type'', SimpleType_json (et_BaseType t)),
            (''values'', case et_Values t of None \<Rightarrow> VNil | Some vs \<Rightarrow> VSlice vs),
            (''rewritable_values'', VBool (et_RewritableValues t))] @ default_json (et_DefaultValue t))"

definition FieldDefinition_json :: "field_definition \<Rightarrow> goval" where
  "FieldDefinition_json f =
     VMap [(''required'', VBool (fd_Required f)), (''read_only'', VBool (fd_ReadOnly f)),
           (''label'', VString (fd_Label f)), (''description'', VString (fd_Description f)),
           (''type'', FieldType_json (fd_Type f))]"

section \<open>Facts\<close>

lemma should_be_simps [simp]:
  "should_be \<noteq> Ok x" "should_be \<noteq> Panic"
  "Ok x \<noteq> should_be" "Panic \<noteq> should_be" "res_bind should_be f = should_be"
  by (simp_all add: should_be_def)

lemma find_inj_on: "x \<in> set xs \<Longrightarrow> inj_on f (set xs) \<Longrightarrow> find (\<lambda>k. f k = f x) xs = Some x"
  by (induction xs) (auto dest: inj_onD)

lemma named_kinds_distinct: "distinct (map Kind_String named_kinds)"
  by code_simp

lemma kind_of_string_Kind_String: "k \<in> set named_kinds \<Longrightarrow> kind_of_string (Kind_String k) = k"
  using find_inj_on [of k named_kinds Kind_String] named_kinds_distinct
  by (simp add: kind_of_string_def distinct_map)

lemma named_kinds_iff: "k \<in> set named_kinds \<longleftrightarrow> (\<nexists>s. k = KindOther s)"
  by (cases k) (auto simp: named_kinds_def)

lemma Kind_String_kind_of_string: "Kind_String (kind_of_string s) = s"
proof (cases "find (\<lambda>k. Kind_String k = s) named_kinds")
  case (Some k)
  then have "Kind_String k = s" by (auto simp: find_Some_iff)
  with Some show ?thesis by (simp add: kind_of_string_def)
qed (simp add: kind_of_string_def)

lemma and_then_Ok_True_iff [simp]: "and_then a b = Ok True \<longleftrightarrow> a = Ok True \<and> b = Ok True"
  by (auto simp: and_then_def split: if_splits)

lemma contains_Ok_True: "contains a v = Ok True \<Longrightarrow> \<exists>x \<in> set a. (go_eq x v :: bool res) = Ok True"
  by (induction a) (auto split: if_splits)

lemma string_kind_IsSimple: "string_kind k \<Longrightarrow> IsSimpleType k"
  by (auto simp: string_kind_def IsSimpleType_def)

text \<open>The kinds whose stored value is the value of the REST layer.\<close>

definition transparent_kind :: "kind \<Rightarrow> bool" where
  "transparent_kind k \<longleftrightarrow> string_kind k \<or> k \<in> {KindURL, KindInteger, KindFloat, KindBoolean}"

lemma transparent_FromModel:
  "transparent_kind (st_Kind t) \<Longrightarrow> SimpleType_ConvertFromModel E t v = Ok v"
  by (auto simp: SimpleType_ConvertFromModel_def transparent_kind_def)

lemma value_markup_supported: "value_markup v = Ok mc \<Longrightarrow> IsMarkupSupported (mc_Markup mc)"
  by (auto simp: value_markup_def should_be_def split: goval.splits if_splits)

lemma value_codebase_valid: "value_codebase v = Ok cb \<Longrightarrow> v = VCodebase cb \<and> IsValid cb = None"
  by (auto simp: value_codebase_def should_be_def split: goval.splits option.splits)

lemma value_url_Ok: "value_url E v = Ok s \<Longrightarrow> v = VString s \<and> fe_IsURL E s"
  by (auto simp: value_url_def should_be_def split: goval.splits if_splits)

text \<open>
  A stored value by its kind: what the JSON column of a work item may hold for a field of that kind.
\<close>

fun model_value :: "field_env \<Rightarrow> kind \<Rightarrow> goval \<Rightarrow> bool" where
  "model_value E KindURL m = (\<exists>s. m = VString s \<and> fe_IsURL E s)"
| "model_value E KindInteger m = (\<exists>i. m = VInt i \<or> m = VInt64 i)"
| "model_value E KindFloat m = (\<exists>f. m = VFloat f)"
| "model_value E KindBoolean m = (\<exists>b. m = VBool b)"
| "model_value E KindInstant m = (\<exists>n. m = VInt64 n)"
| "model_value E KindRemoteTracker m = (\<exists>u. m = VUUID u)"
| "model_value E KindMarkup m = (\<exists>mc. IsMarkupSupported (mc_Markup mc) \<and> m = VMap (MarkupContent_ToMap mc))"
| "model_value E KindCodebase m = (\<exists>cb. IsValid cb = None \<and> m = VMap (Content_ToMap cb))"
| "model_value E KindEnum m = True"
| "model_value E KindList m = (reflect_Kind m \<in> {RArray, RSlice})"
| "model_value E (KindOther s) m = False"
| "model_value E k m = (reflect_Kind m = RString)"

lemmas to_model_simps = SimpleType_ConvertToModel_def string_kind_def should_be_def

lemma SimpleType_ConvertToModel_value:
  assumes "SimpleType_ConvertToModel E t v = Ok m" and "v \<noteq> VNil"
  shows "model_value E (st_Kind t) m \<and> m \<noteq> VNil"
  using assms
  by (cases "st_Kind t"; simp add: to_model_simps)
    (auto dest: value_markup_supported value_codebase_valid value_url_Ok
      split: if_splits goval.splits)

lemma SimpleType_ConvertToModel_VNil [simp]:
  "SimpleType_ConvertToModel E t VNil = Ok VNil" "SimpleType_ConvertFromModel E t VNil = Ok VNil"
  by (simp_all add: SimpleType_ConvertToModel_def SimpleType_ConvertFromModel_def)

lemma transparent_reads_back:
  assumes "transparent_kind (st_Kind t)" and "model_value E (st_Kind t) m"
  shows "SimpleType_ConvertToModel E t m = Ok m"
  using assms by (cases "st_Kind t") (auto simp: to_model_simps transparent_kind_def value_url_def)

lemma model_value_reads_back:
  assumes "IsSimpleType (st_Kind t)" and "model_value E (st_Kind t) m"
  shows "\<exists>v. SimpleType_ConvertFromModel E t m = Ok v \<and> SimpleType_ConvertToModel E t v = Ok m"
proof (cases "transparent_kind (st_Kind t)")
  case True
  then show ?thesis using transparent_reads_back [OF True assms(2)] transparent_FromModel by blast
next
  case False
  then consider "st_Kind t = KindInstant" | "st_Kind t = KindRemoteTracker"
    | "st_Kind t = KindMarkup" | "st_Kind t = KindCodebase"
    using assms by (cases "st_Kind t") (auto simp: transparent_kind_def string_kind_def IsSimpleType_def)
  then show ?thesis
  proof cases
    case 1
    with assms(2) obtain n where m: "m = VInt64 n" by auto
    then have "SimpleType_ConvertFromModel E t m = Ok (VTime (sint n) ''Local'')"
      using 1 by (simp add: SimpleType_ConvertFromModel_def string_kind_def time_Unix0_def)
    moreover have "SimpleType_ConvertToModel E t (VTime (sint n) ''Local'') = Ok m"
      using 1 m by (simp add: to_model_simps UnixNano_def)
    ultimately show ?thesis by blast
  next
    case 2
    with assms(2) obtain u where m: "m = VUUID u" by auto
    then have "SimpleType_ConvertFromModel E t m = Ok m" "SimpleType_ConvertToModel E t m = Ok m"
      using 2 by (simp_all add: to_model_simps SimpleType_ConvertFromModel_def AnyToUUID_def)
    then show ?thesis by blast
  next
    case 3
    with assms(2) obtain mc where
      mc: "IsMarkupSupported (mc_Markup mc)" "m = VMap (MarkupContent_ToMap mc)" by auto
    then have "SimpleType_ConvertFromModel E t m = Ok (VMarkup mc)"
      using 3 by (simp add: SimpleType_ConvertFromModel_def string_kind_def NewMarkupContentFromMap_ToMap)
    moreover have "SimpleType_ConvertToModel E t (VMarkup mc) = Ok m"
      using 3 mc by (simp add: to_model_simps value_markup_def)
    ultimately show ?thesis by blast
  next
    case 4
    with assms(2) obtain cb where cb: "IsValid cb = None" "m = VMap (Content_ToMap cb)" by auto
    then have "SimpleType_ConvertFromModel E t m = Ok (VCodebase cb)"
      using 4 by (simp add: SimpleType_ConvertFromModel_def string_kind_def NewCodebaseContent_ToMap)
    moreover have "SimpleType_ConvertToModel E t (VCodebase cb) = Ok m"
      using 4 cb by (simp add: to_model_simps value_codebase_def)
    ultimately show ?thesis by blast
  qed
qed

lemma simple_roundtrip:
  assumes "IsSimpleType (st_Kind t)" and "SimpleType_ConvertToModel E t v = Ok m"
  shows "\<exists>v'. SimpleType_ConvertFromModel E t m = Ok v' \<and> SimpleType_ConvertToModel E t v' = Ok m"
proof (cases "v = VNil")
  case True
  with assms(2) have "m = VNil" by simp
  then show ?thesis by simp
next
  case False
  then show ?thesis
    using SimpleType_ConvertToModel_value [OF assms(2)] model_value_reads_back [OF assms(1)] by blast
qed

section \<open>The conversion contract\<close>

text \<open>
  What the persistence layer relies on, for each field type: a value that was stored can be
  read, and storing what was read stores the same value again; nil is stored as nil. From
  this it follows that reading is stable.
\<close>

locale field_conversion =
  fixes ok :: "'t \<Rightarrow> bool"
    and to_model :: "'t \<Rightarrow> goval \<Rightarrow> goval res"
    and from_model :: "'t \<Rightarrow> goval \<Rightarrow> goval res"
  assumes reads_back:
      "\<lbrakk>ok t; to_model t v = Ok m; m \<notin> {VNil, VNilSlice}\<rbrakk>
       \<Longrightarrow> \<exists>v'. from_model t m = Ok v' \<and> to_model t v' = Ok m"
    and nil_to_nil: "to_model t VNil = Ok m \<Longrightarrow> m \<in> {VNil, VNilSlice}"
begin

lemma read_not_nil:
  assumes "to_model t v = Ok m" "m \<notin> {VNil, VNilSlice}"
  shows "v \<noteq> VNil"
  using assms nil_to_nil by auto

lemma reading_stable:
  assumes "ok t" "to_model t v = Ok m" "m \<notin> {VNil, VNilSlice}" "from_model t m = Ok v'"
  shows "v' \<noteq> VNil \<and> to_model t v' = Ok m"
  using reads_back [OF assms(1-3)] assms(3,4) nil_to_nil by auto

end

text \<open>A loop over a slice inherits the round trip of its element conversion.\<close>

lemma map_res_roundtrip:
  assumes "map_res g vs = Ok ms" and "\<And>v m. g v = Ok m \<Longrightarrow> \<exists>v'. f m = Ok v' \<and> g v' = Ok m"
  shows "\<exists>vs'. map_res f ms = Ok vs' \<and> map_res g vs' = Ok ms"
  using assms(1)
proof (induction vs arbitrary: ms)
  case (Cons v vs)
  then obtain m ms' where "g v = Ok m" "map_res g vs = Ok ms'" "ms = m # ms'" by auto
  with Cons.IH [of ms'] assms(2) [of v m] show ?case by fastforce
qed simp

lemma ConvertList_VSlice:
  "ConvertList c t (VSlice xs) =
     res_bind (map_err (\<lambda>e. EErrorf ''error converting list value: %s'') (map_res (c t) xs)) (\<lambda>ys. Ok (Some ys))"
  by (simp add: ConvertList_def)

lemma list_roundtrip:
  assumes "IsSimpleType (st_Kind (lt_ComponentType t))" and "ListType_ConvertToModel E t v = Ok m"
    and "m \<noteq> VNilSlice"
  shows "\<exists>v'. ListType_ConvertFromModel E t m = Ok v' \<and> ListType_ConvertToModel E t v' = Ok m"
proof -
  from assms(2,3) obtain ms where ms: "m = VSlice ms"
      "map_res (SimpleType_ConvertToModel E (lt_ComponentType t)) (reflect_elems v) = Ok ms"
    by (auto simp: ListType_ConvertToModel_def ConvertList_def slice_val_def split: if_splits)
  with map_res_roundtrip [OF ms(2), of "SimpleType_ConvertFromModel E (lt_ComponentType t)"]
    simple_roundtrip [OF assms(1)]
  obtain vs where "map_res (SimpleType_ConvertFromModel E (lt_ComponentType t)) ms = Ok vs"
      "map_res (SimpleType_ConvertToModel E (lt_ComponentType t)) vs = Ok ms" by blast
  then show ?thesis
    by (auto simp: ms(1) ListType_ConvertFromModel_def ListType_ConvertToModel_def
        ConvertList_VSlice slice_val_def)
qed

lemma enum_roundtrip:
  assumes "transparent_kind (st_Kind (et_BaseType t))" and "EnumType_ConvertToModel E t v = Ok m"
  shows "EnumType_ConvertFromModel E t m = Ok m \<and> EnumType_ConvertToModel E t m = Ok m"
proof -
  from assms(2) have m: "SimpleType_ConvertToModel E (et_BaseType t) v = Ok m"
      "contains (slice_elems (et_Values t)) m = Ok True"
    by (auto simp: EnumType_ConvertToModel_def split: if_splits)
  have "SimpleType_ConvertToModel E (et_BaseType t) m = Ok m"
    using SimpleType_ConvertToModel_value [OF m(1)] transparent_reads_back [OF assms(1)] m(1)
    by (cases "v = VNil") auto
  with m show ?thesis
    using transparent_FromModel [OF assms(1)]
    by (auto simp: EnumType_ConvertFromModel_def EnumType_ConvertToModel_def)
qed

lemma list_nil: "ListType_ConvertToModel E t VNil = Ok VNilSlice"
  by (simp add: ListType_ConvertToModel_def ConvertList_def slice_val_def)

lemma enum_nil: "EnumType_ConvertToModel E t VNil = Ok m \<Longrightarrow> m = VNil"
  by (auto simp: EnumType_ConvertToModel_def split: if_splits)

interpretation simple: field_conversion "\<lambda>t. IsSimpleType (st_Kind t)"
  "SimpleType_ConvertToModel E" "SimpleType_ConvertFromModel E" for E
  by unfold_locales (auto dest: simple_roundtrip)

interpretation list: field_conversion "\<lambda>t. IsSimpleType (st_Kind (lt_ComponentType t))"
  "ListType_ConvertToModel E" "ListType_ConvertFromModel E" for E
  by unfold_locales (auto simp: list_nil intro: list_roundtrip)

interpretation enum: field_conversion "\<lambda>t. transparent_kind (st_Kind (et_BaseType t))"
  "EnumType_ConvertToModel E" "EnumType_ConvertFromModel E" for E
  by unfold_locales (use enum_roundtrip enum_nil in blast)+

text \<open>The contract of the interface, from those of the three types.\<close>

fun convertible :: "field_type \<Rightarrow> bool" where
  "convertible (FSimple t) = IsSimpleType (st_Kind t)"
| "convertible (FList t) = IsSimpleType (st_Kind (lt_ComponentType t))"
| "convertible (FEnum t) = transparent_kind (st_Kind (et_BaseType t))"

interpretation field: field_conversion convertible "ConvertToModel E" "ConvertFromModel E" for E
proof
  fix t v m
  assume "convertible t" "ConvertToModel E t v = Ok m" "m \<notin> {VNil, VNilSlice}"
  then show "\<exists>v'. ConvertFromModel E t m = Ok v' \<and> ConvertToModel E t v' = Ok m"
    using simple.reads_back list.reads_back enum.reads_back by (cases t) auto
next
  fix t m
  assume "ConvertToModel E t VNil = Ok m"
  then show "m \<in> {VNil, VNilSlice}"
    using simple.nil_to_nil list.nil_to_nil enum.nil_to_nil by (cases t) fastforce+
qed

subsection \<open>Consequences for fields\<close>

lemma ConvertToModel_not_nil:
  assumes "ConvertToModel E t v = Ok m" "v \<noteq> VNil"
  shows "m \<notin> {VNil, VNilSlice} \<or> (\<exists>s. t = FSimple s \<and> \<not> IsSimpleType (st_Kind s))
    \<or> (\<exists>e. t = FEnum e \<and> \<not> IsSimpleType (st_Kind (et_BaseType e)))"
proof -
  have simple: "m \<notin> {VNil, VNilSlice}"
    if "SimpleType_ConvertToModel E s v = Ok m" "IsSimpleType (st_Kind s)" for s
    using SimpleType_ConvertToModel_value [OF that(1) assms(2)] that(2)
    by (cases "st_Kind s") (auto simp: IsSimpleType_def)
  show ?thesis
  proof (cases t)
    case (FList l)
    with assms show ?thesis
      by (auto simp: ListType_ConvertToModel_def ConvertList_def slice_val_def split: if_splits)
  next
    case (FEnum e)
    with assms have "SimpleType_ConvertToModel E (et_BaseType e) v = Ok m"
      by (auto simp: EnumType_ConvertToModel_def split: if_splits)
    with simple FEnum show ?thesis by blast
  qed (use simple assms in auto)
qed

lemma FieldDefinition_ConvertToModel_Ok:
  assumes "FieldDefinition_ConvertToModel E f name v = Ok m"
  obtains w where "w = (if v = VNil then GetDefaultValue (fd_Type f) else v)"
    "ConvertToModel E (fd_Type f) w = Ok m" "fd_Required f \<Longrightarrow> w \<noteq> VNil"
    "fd_Required f \<Longrightarrow> GetKind (fd_Type f) = KindString \<Longrightarrow> \<exists>s. w = VString s \<and> TrimSpace s \<noteq> []"
  using assms by (fastforce simp: FieldDefinition_ConvertToModel_def Let_def split: if_splits goval.splits)

lemma string_field_unchanged:
  assumes "convertible t" "GetKind t = KindString" "ConvertToModel E t (VString s) = Ok m"
  shows "m = VString s \<and> ConvertFromModel E t m = Ok m"
proof (cases t)
  case (FSimple u)
  with assms show ?thesis
    by (auto simp: GetKind_def to_model_simps SimpleType_ConvertFromModel_def)
next
  case (FList l)
  with assms show ?thesis by (auto simp: ListType_ConvertToModel_def ConvertList_def)
next
  case (FEnum e)
  with assms have base: "transparent_kind (st_Kind (et_BaseType e))"
      "SimpleType_ConvertToModel E (et_BaseType e) (VString s) = Ok m"
    by (auto simp: EnumType_ConvertToModel_def split: if_splits)
  then have "m = VString s"
    by (cases "st_Kind (et_BaseType e)")
      (auto simp: to_model_simps transparent_kind_def dest: value_url_Ok)
  with FEnum assms enum_roundtrip [OF base(1)] show ?thesis by auto
qed

section \<open>Properties\<close>


definition sample_field_env :: field_env where
  "sample_field_env = \<lparr>fe_uuid = canonical_uuid, fe_IsURL = HasPrefix ''http://'',
     fe_FormatFloat = (\<lambda>f p. ''0''), fe_RFC3339 = (\<lambda>n l. ''t'')\<rparr>"

definition simple_of :: "kind \<Rightarrow> simple_type" where
  "simple_of k = \<lparr>st_Kind = k, st_DefaultValue = VNil\<rparr>"

definition string_list_field :: field_definition where
  "string_list_field = \<lparr>fd_Required = True, fd_ReadOnly = False, fd_Label = ''labels'',
     fd_Description = [],
     fd_Type = FList \<lparr>lt_SimpleType = simple_of KindList, lt_ComponentType = simple_of KindString,
                      lt_DefaultValue = VNil\<rparr>\<rparr>"


text \<open>
  C20. A required field of a valid type never stores nil, and a required string field stores only a string with
  a character that is not white space, whatever the client sends or the default value is.
\<close>

theorem required_field_never_blank:
  assumes "fd_Required f" and "FieldType_Validate E (fd_Type f) = Ok ()"
    and "FieldDefinition_ConvertToModel E f name v = Ok m"
  shows "m \<notin> {VNil, VNilSlice} \<and>
         (\<forall>t. fd_Type f = FSimple t \<and> st_Kind t = KindString \<longrightarrow>
            (\<exists>s. m = VString s \<and> TrimSpace s \<noteq> []))"
proof -
  obtain w where w: "ConvertToModel E (fd_Type f) w = Ok m" "w \<noteq> VNil"
      "GetKind (fd_Type f) = KindString \<Longrightarrow> \<exists>s. w = VString s \<and> TrimSpace s \<noteq> []"
    using FieldDefinition_ConvertToModel_Ok [OF assms(3)] assms(1) by metis
  have "m \<notin> {VNil, VNilSlice}"
    using ConvertToModel_not_nil [OF w(1,2)] assms(2)
    by (auto simp: SimpleType_Validate_def EnumType_Validate_def split: if_splits)
  moreover have "\<exists>s. m = VString s \<and> TrimSpace s \<noteq> []"
    if "fd_Type f = FSimple t" "st_Kind t = KindString" for t
    using w that by (auto simp: GetKind_def to_model_simps)
  ultimately show ?thesis by blast
qed

theorem required_field_never_blank_witness:
  "FieldDefinition_ConvertToModel sample_field_env string_list_field ''x'' (VStrSlice [''a'']) =
     Ok (VSlice [VString ''a'']) \<and> VSlice [VString ''a''] \<noteq> VNil"
proof -
  have "FieldDefinition_ConvertToModel sample_field_env string_list_field ''x''
      (VStrSlice [''a'']) = Ok (VSlice [VString ''a''])"
    by (simp add: string_list_field_def FieldDefinition_ConvertToModel_def GetKind_def simple_of_def
        ListType_ConvertToModel_def ConvertList_def SimpleType_ConvertToModel_def string_kind_def
        slice_val_def)
  moreover have "fd_Required string_list_field"
      "FieldType_Validate sample_field_env (fd_Type string_list_field) = Ok ()"
    by (simp_all add: string_list_field_def simple_of_def IsSimpleType_def ListType_Validate_def
        ListType_SetDefaultValue_def)
  ultimately show ?thesis using required_field_never_blank by blast
qed

lemma map_res_Ok_elem: "map_res f xs = Ok ys \<Longrightarrow> x \<in> set xs \<Longrightarrow> \<exists>y. f x = Ok y"
  by (induction xs arbitrary: ys) auto

text \<open>
  A valid enumeration type always has a usable default: it has permitted values, each of
  them can be stored, and the default value (the configured one, or else the first permitted
  value) can be stored too; what is stored is always one of the permitted values.
\<close>

theorem valid_enum_default_storable:
  assumes "EnumType_Validate E t = Ok ()"
  shows "slice_elems (et_Values t) \<noteq> [] \<and>
         (\<forall>v \<in> set (slice_elems (et_Values t)). \<exists>m. EnumType_ConvertToModel E t v = Ok m) \<and>
         (\<exists>m. EnumType_ConvertToModel E t (EnumType_GetDefaultValue t) = Ok m) \<and>
         (\<forall>v m. EnumType_ConvertToModel E t v = Ok m \<longrightarrow>
            (\<exists>x \<in> set (slice_elems (et_Values t)). (go_eq x m :: bool res) = Ok True))"
proof -
  from assms have vals: "slice_elems (et_Values t) \<noteq> []"
    and each: "\<And>v. v \<in> set (slice_elems (et_Values t)) \<Longrightarrow> \<exists>m. EnumType_ConvertToModel E t v = Ok m"
    and default: "et_DefaultValue t \<noteq> VNil \<Longrightarrow> \<exists>m. EnumType_ConvertToModel E t (et_DefaultValue t) = Ok m"
    by (auto simp: EnumType_Validate_def EnumType_SetDefaultValue_def split: if_splits
        dest: map_res_Ok_elem)
  have "\<exists>m. EnumType_ConvertToModel E t (EnumType_GetDefaultValue t) = Ok m"
    using vals each default
    by (cases "slice_elems (et_Values t)") (auto simp: EnumType_GetDefaultValue_def)
  moreover have "\<exists>x \<in> set (slice_elems (et_Values t)). (go_eq x m :: bool res) = Ok True"
    if "EnumType_ConvertToModel E t v = Ok m" for v m
    using that by (auto simp: EnumType_ConvertToModel_def split: if_splits dest: contains_Ok_True)
  ultimately show ?thesis using vals each by blast
qed

definition state_enum :: enum_type where
  "state_enum = \<lparr>et_SimpleType = simple_of KindEnum, et_BaseType = simple_of KindString,
     et_Values = Some [VString ''new'', VString ''open''], et_RewritableValues = False,
     et_DefaultValue = VNil\<rparr>"

lemmas state_enum_eval =
  state_enum_def simple_of_def IsSimpleType_def EnumType_Validate_def EnumType_SetDefaultValue_def
  EnumType_ConvertToModel_def SimpleType_ConvertToModel_def string_kind_def go_eq_def
  EnumType_GetDefaultValue_def

theorem valid_enum_default_storable_witness:
  "EnumType_GetDefaultValue state_enum = VString ''new'' \<and>
   (\<exists>m. EnumType_ConvertToModel sample_field_env state_enum (EnumType_GetDefaultValue state_enum) = Ok m)"
proof -
  have "EnumType_Validate sample_field_env state_enum = Ok ()" by (simp add: state_enum_eval)
  from valid_enum_default_storable [OF this] show ?thesis by (simp add: state_enum_eval)
qed

lemma instant_codebase_model_rejected:
  assumes "st_Kind t \<in> {KindInstant, KindCodebase}" "model_value E (st_Kind t) m"
  shows "\<exists>e. SimpleType_ConvertToModel E t m = Err e"
  using assms by (auto simp: to_model_simps value_codebase_def)

lemma uuid_elems_rejected:
  "st_Kind t = KindRemoteTracker \<Longrightarrow>
     \<exists>e. map_res (SimpleType_ConvertToModel E t) (reflect_elems (VUUID u)) = Err e"
  by (simp add: uuid_bytes_def upt_rec to_model_simps AnyToUUID_def)

lemma component_not_a_list:
  assumes "IsSimpleType (st_Kind (lt_ComponentType t))" "model_value E (st_Kind (lt_ComponentType t)) m"
  shows "\<exists>e. ListType_ConvertToModel E t m = Err e"
proof (cases "st_Kind (lt_ComponentType t) = KindRemoteTracker")
  case True
  with assms obtain u where "m = VUUID u" by auto
  then show ?thesis
    using uuid_elems_rejected [OF True, of E u]
    by (auto simp: ListType_ConvertToModel_def ConvertList_def simp del: reflect_elems.simps)
next
  case False
  with assms have "m \<noteq> VNil" "reflect_Kind m \<noteq> RArray" "reflect_Kind m \<noteq> RSlice"
    by (cases "st_Kind (lt_ComponentType t)"; auto simp: IsSimpleType_def)+
  then show ?thesis by (simp add: ListType_ConvertToModel_def ConvertList_def)
qed

text \<open>
  Default values of three field types cannot be used: a default set on an instant or a
  codebase field is stored in its model form, which the type does not accept as input, so
  the type no longer validates and a work item without a value for the field is rejected;
  and the default of a list type is a single component, so a work item
  without a value for the list is rejected as well.
\<close>

theorem unusable_default_values:
  assumes "v \<noteq> VNil"
  shows "(\<forall>t t'. st_Kind t \<in> {KindInstant, KindCodebase} \<and> SimpleType_SetDefaultValue E t v = Ok t' \<longrightarrow>
            \<not> is_ok (SimpleType_Validate E t') \<and>
            (\<forall>f name. fd_Type f = FSimple t' \<longrightarrow> \<not> is_ok (FieldDefinition_ConvertToModel E f name VNil))) \<and>
         (\<forall>t t'. IsSimpleType (st_Kind (lt_ComponentType t)) \<and> ListType_SetDefaultValue E t v = Ok t' \<longrightarrow>
            (\<forall>f name. fd_Type f = FList t' \<longrightarrow> \<not> is_ok (FieldDefinition_ConvertToModel E f name VNil)))"
proof -
  have field: "\<not> is_ok (FieldDefinition_ConvertToModel E f name VNil)"
    if "\<exists>e. ConvertToModel E (fd_Type f) (GetDefaultValue (fd_Type f)) = Err e" for f name
    using that by (auto simp: FieldDefinition_ConvertToModel_def Let_def split: goval.splits)
  have simple: "\<not> is_ok (SimpleType_Validate E t') \<and>
      (\<forall>f name. fd_Type f = FSimple t' \<longrightarrow> \<not> is_ok (FieldDefinition_ConvertToModel E f name VNil))"
    if k: "st_Kind t \<in> {KindInstant, KindCodebase}" and set: "SimpleType_SetDefaultValue E t v = Ok t'"
    for t t'
  proof -
    from set assms obtain m where m: "SimpleType_ConvertToModel E t v = Ok m"
        "t' = t\<lparr>st_DefaultValue := m\<rparr>" by (auto simp: SimpleType_SetDefaultValue_def)
    then have mv: "model_value E (st_Kind t') m" "m \<noteq> VNil"
      using SimpleType_ConvertToModel_value [OF m(1) assms] by simp_all
    with instant_codebase_model_rejected [of t' E m] k m(2)
    obtain e where "SimpleType_ConvertToModel E t' m = Err e" by auto
    with mv(2) m(2) show ?thesis
      by (auto intro!: field simp: SimpleType_Validate_def SimpleType_SetDefaultValue_def)
  qed
  have list: "\<not> is_ok (FieldDefinition_ConvertToModel E f name VNil)"
    if k: "IsSimpleType (st_Kind (lt_ComponentType t))" and set: "ListType_SetDefaultValue E t v = Ok t'"
      and f: "fd_Type f = FList t'" for t t' f name
  proof -
    from set assms obtain m where m: "SimpleType_ConvertToModel E (lt_ComponentType t) v = Ok m"
        "t' = t\<lparr>lt_DefaultValue := m\<rparr>" by (auto simp: ListType_SetDefaultValue_def)
    with component_not_a_list [of t' E m] k SimpleType_ConvertToModel_value [OF m(1) assms]
    show ?thesis by (intro field) (auto simp: f)
  qed
  from simple list show ?thesis by blast
qed

theorem unusable_default_values_witness:
  "\<not> is_ok (SimpleType_Validate sample_field_env
       \<lparr>st_Kind = KindInstant, st_DefaultValue = VInt64 0\<rparr>)"
proof -
  have "SimpleType_SetDefaultValue sample_field_env (simple_of KindInstant) (VTime 0 ''UTC'') =
      Ok \<lparr>st_Kind = KindInstant, st_DefaultValue = VInt64 0\<rparr>"
    by (simp add: SimpleType_SetDefaultValue_def simple_of_def to_model_simps UnixNano_def)
  moreover have "st_Kind (simple_of KindInstant) \<in> {KindInstant, KindCodebase}"
    by (simp add: simple_of_def)
  ultimately show ?thesis
    using unusable_default_values [of "VTime 0 ''UTC''" sample_field_env] by blast
qed

lemma simple_rejects_slices:
  assumes "IsSimpleType (st_Kind t)"
  shows "\<exists>e. SimpleType_ConvertToModel E t (VSlice xs) = Err e"
  using assms
  by (cases "st_Kind t")
    (auto simp: to_model_simps IsSimpleType_def AnyToUUID_def value_url_def value_markup_def
      value_codebase_def)

text \<open>
  Changing the type of a field carries its value along. A single value moved to a list
  field becomes the list of that one value; a list moved to a simple field gives its element when
  it has exactly one and is refused otherwise; so a value moved to a list and back to its own
  type is unchanged.
\<close>

theorem type_change_keeps_value:
  assumes "st_Kind (lt_SimpleType l) = KindList" and "IsSimpleType (st_Kind s)"
    and "lt_ComponentType l = s" and "reflect_Kind v \<notin> {RInvalid, RArray, RSlice}"
    and "SimpleType_ConvertToModel E s v = Ok m"
  shows "ConvertToModelWithType E s (FList l) v = Ok (VSlice [m]) \<and>
         ConvertToModelWithType E (lt_SimpleType l) (FSimple s) (VSlice [v]) = Ok m \<and>
         (transparent_kind (st_Kind s) \<longrightarrow>
            ConvertToModelWithType E (lt_SimpleType l) (FSimple s) (VSlice [m]) = Ok m) \<and>
         (\<forall>vs. length vs \<noteq> 1 \<longrightarrow>
            \<not> is_ok (ConvertToModelWithType E (lt_SimpleType l) (FSimple s) (VSlice vs)))"
proof -
  have kinds: "GetKind (FList l) = KindList" "GetKind (FSimple s) \<noteq> KindList"
    using assms(1,2) by (auto simp: GetKind_def IsSimpleType_def)
  have "\<exists>e. ListType_ConvertToModel E l v = Err e"
    using assms(4) by (auto simp: ListType_ConvertToModel_def ConvertList_def)
  moreover have "ListType_ConvertToModel E l (VSlice [v]) = Ok (VSlice [m])"
    using assms(3,5) by (simp add: ListType_ConvertToModel_def ConvertList_VSlice slice_val_def)
  ultimately have wrap: "ConvertToModelWithType E s (FList l) v = Ok (VSlice [m])"
    using kinds by (auto simp: ConvertToModelWithType_def)
  have unwrap: "ConvertToModelWithType E (lt_SimpleType l) (FSimple s) (VSlice [x]) = Ok m"
    if "SimpleType_ConvertToModel E s x = Ok m" for x
    using that simple_rejects_slices [OF assms(2), of E "[x]"] kinds assms(1)
    by (auto simp: ConvertToModelWithType_def)
  have refuse: "\<not> is_ok (ConvertToModelWithType E (lt_SimpleType l) (FSimple s) (VSlice vs))"
    if "length vs \<noteq> 1" for vs
    using that simple_rejects_slices [OF assms(2), of E vs] kinds assms(1)
    by (auto simp: ConvertToModelWithType_def)
  have "v \<noteq> VNil" using assms(4) by auto
  then have "transparent_kind (st_Kind s) \<Longrightarrow> SimpleType_ConvertToModel E s m = Ok m"
    using SimpleType_ConvertToModel_value [OF assms(5)] transparent_reads_back by blast
  with wrap unwrap refuse assms(5) show ?thesis by blast
qed

theorem type_change_keeps_value_witness:
  "ConvertToModelWithType sample_field_env (simple_of KindString)
     (FList \<lparr>lt_SimpleType = simple_of KindList, lt_ComponentType = simple_of KindString,
             lt_DefaultValue = VNil\<rparr>) (VString ''a'') = Ok (VSlice [VString ''a''])"
  using type_change_keeps_value [of
      "\<lparr>lt_SimpleType = simple_of KindList, lt_ComponentType = simple_of KindString,
        lt_DefaultValue = VNil\<rparr>"
      "simple_of KindString" "VString ''a''" sample_field_env "VString ''a''"]
  by (simp add: simple_of_def IsSimpleType_def to_model_simps)

text \<open>Definitions that JSON represents without loss: known kinds in their places, JSON values.\<close>

fun json_native :: "goval \<Rightarrow> bool" where
  "json_native (VSlice xs) = (\<forall>x \<in> set xs. json_native x)"
| "json_native (VMap m) = (\<forall>(k, v) \<in> set m. json_native v)"
| "json_native v = (reflect_Kind v \<in> {RInvalid, RBool, RFloat64} \<or> (\<exists>s. v = VString s))"

definition json_simple :: "simple_type \<Rightarrow> bool" where
  "json_simple t \<longleftrightarrow> st_Kind t \<in> set named_kinds \<and> json_native (st_DefaultValue t)"

fun json_type :: "field_type \<Rightarrow> bool" where
  "json_type (FSimple t) = (json_simple t \<and> IsSimpleType (st_Kind t))"
| "json_type (FList t) =
     (json_simple (lt_SimpleType t) \<and> st_Kind (lt_SimpleType t) = KindList \<and>
      json_simple (lt_ComponentType t) \<and> json_native (lt_DefaultValue t))"
| "json_type (FEnum t) =
     (json_simple (et_SimpleType t) \<and> st_Kind (et_SimpleType t) = KindEnum \<and>
      json_simple (et_BaseType t) \<and> (\<forall>v \<in> set (slice_elems (et_Values t)). json_native v) \<and>
      json_native (et_DefaultValue t))"

lemma map_get_default_json [simp]:
  "map_get (default_json d) ''default_value'' = d"
  by (simp add: map_get_def default_json_def)

lemma map_of_default_json [simp]: "k \<noteq> ''default_value'' \<Longrightarrow> map_of (default_json d) k = None"
  by (simp add: default_json_def)

lemma map_get_Cons [simp]: "map_get ((k, v) # m) k' = (if k = k' then v else map_get m k')"
  by (simp add: map_get_def)

lemma SimpleType_of_json_json:
  "json_simple t \<Longrightarrow> SimpleType_of_json (SimpleType_json t) = Ok t"
  by (simp add: SimpleType_of_json_def SimpleType_json_def json_simple_def json_string_def
      kind_of_string_Kind_String)

lemma ConvertStringToKind_Kind_String:
  "k \<in> set named_kinds \<Longrightarrow> ConvertStringToKind (Kind_String k) = Ok k"
  by (simp add: ConvertStringToKind_def kind_of_string_Kind_String)

lemma UnmarshalJSON_json:
  assumes "FieldType_json (fd_Type f) = VMap m" and "raw_kind m = VString (Kind_String k)"
    and "k \<in> set named_kinds"
  shows "FieldDefinition_UnmarshalJSON (FieldDefinition_json f) =
    (case k of
       KindList \<Rightarrow> res_bind (map_err (EWrap []) (ListType_of_json (VMap m))) (\<lambda>t. Ok (f\<lparr>fd_Type := FList t\<rparr>))
     | KindEnum \<Rightarrow> res_bind (map_err (EWrap []) (EnumType_of_json (VMap m))) (\<lambda>t. Ok (f\<lparr>fd_Type := FEnum t\<rparr>))
     | _ \<Rightarrow> res_bind (map_err (EWrap []) (SimpleType_of_json (VMap m))) (\<lambda>t. Ok (f\<lparr>fd_Type := FSimple t\<rparr>)))"
  using assms ConvertStringToKind_Kind_String [OF assms(3)]
  by (cases f; cases k) (simp_all add: FieldDefinition_UnmarshalJSON_def FieldDefinition_json_def
      json_bool_def json_string_def ConvertAnyToKind_def Let_def)

lemma ListType_of_json_json: "json_type (FList t) \<Longrightarrow> ListType_of_json (FieldType_json (FList t)) = Ok t"
  by (simp add: ListType_of_json_def SimpleType_of_json_json)

lemma EnumType_of_json_json: "json_type (FEnum t) \<Longrightarrow> EnumType_of_json (FieldType_json (FEnum t)) = Ok t"
  by (cases "et_Values t")
    (simp_all add: EnumType_of_json_def SimpleType_of_json_json json_slice_def json_bool_def)

text \<open>
  A field definition that JSON can represent is decoded from its own JSON form, for all
  three field types: the kind is found where the type puts it, and every member is recovered.
\<close>

theorem field_definition_json_roundtrip:
  assumes "json_type (fd_Type f)"
  shows "FieldDefinition_UnmarshalJSON (FieldDefinition_json f) = Ok f"
proof (cases "fd_Type f")
  case (FSimple t)
  with assms have t: "json_simple t" "st_Kind t \<in> set named_kinds" "IsSimpleType (st_Kind t)"
    by (auto simp: json_simple_def)
  let ?m = "(''kind'', VString (Kind_String (st_Kind t))) # default_json (st_DefaultValue t)"
  have "SimpleType_of_json (VMap ?m) = Ok t"
    using SimpleType_of_json_json [OF t(1)] by (simp add: SimpleType_json_def)
  moreover have "FieldDefinition_UnmarshalJSON (FieldDefinition_json f) =
      res_bind (map_err (EWrap []) (SimpleType_of_json (VMap ?m))) (\<lambda>t. Ok (f\<lparr>fd_Type := FSimple t\<rparr>))"
    using t(3) FSimple
    by (subst UnmarshalJSON_json [of f ?m "st_Kind t"])
      (auto simp: SimpleType_json_def raw_kind_def IsSimpleType_def t(2) split: kind.splits)
  ultimately show ?thesis using FSimple by simp
next
  case (FList t)
  then obtain m where m: "FieldType_json (fd_Type f) = VMap m" by simp
  with FList assms have "raw_kind m = VString (Kind_String KindList)" "ListType_of_json (VMap m) = Ok t"
    using ListType_of_json_json [of t] by (auto simp: raw_kind_def SimpleType_json_def)
  with UnmarshalJSON_json [OF m, of KindList] FList show ?thesis by (simp add: named_kinds_def)
next
  case (FEnum t)
  then obtain m where m: "FieldType_json (fd_Type f) = VMap m" by simp
  with FEnum assms have "raw_kind m = VString (Kind_String KindEnum)" "EnumType_of_json (VMap m) = Ok t"
    using EnumType_of_json_json [of t] by (auto simp: raw_kind_def SimpleType_json_def)
  with UnmarshalJSON_json [OF m, of KindEnum] FEnum show ?thesis by (simp add: named_kinds_def)
qed

theorem field_definition_json_roundtrip_witness:
  "FieldDefinition_UnmarshalJSON (FieldDefinition_json string_list_field) = Ok string_list_field"
proof -
  have "json_type (fd_Type string_list_field)"
    by (simp add: string_list_field_def simple_of_def json_simple_def named_kinds_def)
  then show ?thesis by (rule field_definition_json_roundtrip)
qed

end
