(* ===== verification/Store.thy ===== *)
theory Store
  imports Errors
begin

text \<open>
  What the repositories share: actions on the database state, the life cycle columns of
  \<^verbatim>\<open>gormsupport/lifecycle.go\<close>, the existence check of
  \<^verbatim>\<open>application/repository/exister.go\<close> and the transactions of
  \<^verbatim>\<open>application/transaction.go\<close>.

  A repository operation is an action: it takes the tables and returns its result with the
  tables as it leaves them, also when it fails. Statements of the database run against
  association-free tables, which are lists of rows. What the database adds (the clock, new identifiers,
  failures of single statements) is the environment \<open>db_env\<close>; a statement is named by a label.
\<close>

section \<open>Actions\<close>

type_synonym ('s, 'a) action = "'s \<Rightarrow> 'a res \<times> 's"

definition act_return :: "'a \<Rightarrow> ('s, 'a) action" where
  "act_return x = (\<lambda>s. (Ok x, s))"

definition act_fail :: "go_error \<Rightarrow> ('s, 'a) action" where
  "act_fail e = (\<lambda>s. (Err e, s))"

definition act_lift :: "'a res \<Rightarrow> ('s, 'a) action" where
  "act_lift r = (\<lambda>s. (r, s))"

definition act_bind :: "('s, 'a) action \<Rightarrow> ('a \<Rightarrow> ('s, 'b) action) \<Rightarrow> ('s, 'b) action" where
  "act_bind m f =
     (\<lambda>s. case m s of
            (Ok x, s') \<Rightarrow> f x s'
          | (Err e, s') \<Rightarrow> (Err e, s')
          | (Panic, s') \<Rightarrow> (Panic, s'))"

definition act_map_err :: "(go_error \<Rightarrow> go_error) \<Rightarrow> ('s, 'a) action \<Rightarrow> ('s, 'a) action" where
  "act_map_err f m = (\<lambda>s. case m s of (r, s') \<Rightarrow> (map_err f r, s'))"

definition act_gets :: "('s \<Rightarrow> 'a res) \<Rightarrow> ('s, 'a) action" where
  "act_gets f = (\<lambda>s. (f s, s))"

definition act_modify :: "('s \<Rightarrow> 's) \<Rightarrow> ('s, unit) action" where
  "act_modify f = (\<lambda>s. (Ok (), f s))"

text \<open>A call whose error is dropped.\<close>

definition ignore_error :: "('s, unit) action \<Rightarrow> ('s, unit) action" where
  "ignore_error m = (\<lambda>s. case m s of (Err _, t) \<Rightarrow> (Ok (), t) | (r, t) \<Rightarrow> (r, t))"

text \<open>The environment of one operation.\<close>

type_synonym gotime = "int \<times> string"

record db_env =
  env_now :: gotime
  env_newID :: "string \<Rightarrow> uuid"
  env_fault :: "string \<Rightarrow> go_error option"

definition statement :: "db_env \<Rightarrow> string \<Rightarrow> (go_error \<Rightarrow> go_error) \<Rightarrow> ('s, unit) action" where
  "statement E label wrap =
     (case env_fault E label of None \<Rightarrow> act_return () | Some e \<Rightarrow> act_fail (wrap e))"

definition no_faults :: "db_env \<Rightarrow> bool" where
  "no_faults E \<longleftrightarrow> (\<forall>label. env_fault E label = None)"

section \<open>Life cycle\<close>

record lifecycle =
  lc_CreatedAt :: gotime
  lc_UpdatedAt :: gotime
  lc_DeletedAt :: "gotime option"

definition Lifecycle_Equal :: "lifecycle \<Rightarrow> lifecycle \<Rightarrow> bool" where
  "Lifecycle_Equal lc other \<longleftrightarrow>
     fst (lc_CreatedAt lc) = fst (lc_CreatedAt other) \<and>
     fst (lc_UpdatedAt lc) = fst (lc_UpdatedAt other) \<and>
     lc_DeletedAt lc = lc_DeletedAt other"

definition Lifecycle_EqualValue :: "lifecycle \<Rightarrow> lifecycle \<Rightarrow> bool" where
  "Lifecycle_EqualValue lc u = Lifecycle_Equal lc u"

text \<open>
  A row that has been created now, a row updated now, and a soft-deleted row. Gorm adds the
  condition that \<^verbatim>\<open>deleted_at\<close> is null to every statement it builds itself.
\<close>

definition zero_time :: gotime where
  "zero_time = (- 62135596800000000000, ''UTC'')"

text \<open>Rounding down to a multiple of a duration since the zero time, and the seconds since 1970.\<close>

definition time_truncate :: "int \<Rightarrow> gotime \<Rightarrow> gotime" where
  "time_truncate d t = (fst t - (fst t - fst zero_time) mod d, snd t)"

definition time_second :: int where
  "time_second = 1000000000"

definition time_unix :: "gotime \<Rightarrow> int" where
  "time_unix t = fst t div time_second"

definition created :: "db_env \<Rightarrow> lifecycle" where
  "created E = \<lparr>lc_CreatedAt = env_now E, lc_UpdatedAt = env_now E, lc_DeletedAt = None\<rparr>"

definition touched :: "db_env \<Rightarrow> lifecycle \<Rightarrow> lifecycle" where
  "touched E lc = lc\<lparr>lc_UpdatedAt := env_now E\<rparr>"

definition removed :: "db_env \<Rightarrow> lifecycle \<Rightarrow> lifecycle" where
  "removed E lc = lc\<lparr>lc_DeletedAt := Some (env_now E)\<rparr>"

definition alive :: "lifecycle \<Rightarrow> bool" where
  "alive lc \<longleftrightarrow> lc_DeletedAt lc = None"

text \<open>\<^verbatim>\<open>First\<close> of gorm: the row with the smallest primary key.\<close>

fun first_row :: "('r \<Rightarrow> uuid) \<Rightarrow> 'r list \<Rightarrow> 'r option" where
  "first_row key [] = None"
| "first_row key (r # rs) =
     (case first_row key rs of
        None \<Rightarrow> Some r
      | Some x \<Rightarrow> Some (if key x < key r then x else r))"

text \<open>The check that a row exists, on the identifiers of the rows of a table that are not deleted.\<close>

definition Exists :: "uuid_lib \<Rightarrow> db_env \<Rightarrow> string \<Rightarrow> ('s \<Rightarrow> uuid list) \<Rightarrow> uuid \<Rightarrow> ('s, bool) action" where
  "Exists U E tableName liveIDs i =
     act_bind (statement E (''exists '' @ tableName)
                 (\<lambda>e. NewInternalError (EWrap (''unable to verify if '' @ tableName @ '' exists'') e))) (\<lambda>_.
     act_gets (\<lambda>s. if i \<in> set (liveIDs s) then Ok True
                   else Err (NewNotFoundError tableName (uString U i))))"

definition CheckExists :: "uuid_lib \<Rightarrow> db_env \<Rightarrow> string \<Rightarrow> ('s \<Rightarrow> uuid list) \<Rightarrow> uuid \<Rightarrow> ('s, unit) action" where
  "CheckExists U E tableName liveIDs i =
     act_bind (Exists U E tableName liveIDs i) (\<lambda>_. act_return ())"

text \<open>
  An insertion: the statement may fail, a constraint may be violated (\<open>violated\<close> gives the error of the driver),
  or the row is added.
\<close>

definition insert_row :: "db_env \<Rightarrow> string \<Rightarrow> ('s \<Rightarrow> go_error option) \<Rightarrow> ('s \<Rightarrow> 's) \<Rightarrow> ('s, unit) action" where
  "insert_row E label violated add =
     act_bind (statement E label (\<lambda>e. e)) (\<lambda>_.
     act_bind (act_gets (\<lambda>s. case violated s of None \<Rightarrow> Ok () | Some e \<Rightarrow> Err e)) (\<lambda>_. act_modify add))"

text \<open>A page of the result of a statement with an offset and a limit.\<close>

definition page_of :: "int option \<Rightarrow> int option \<Rightarrow> 'a list \<Rightarrow> 'a list" where
  "page_of start limit xs =
     (let ys = (case start of None \<Rightarrow> xs | Some k \<Rightarrow> drop (nat k) xs)
      in case limit of None \<Rightarrow> ys | Some k \<Rightarrow> take (nat k) ys)"

section \<open>Transactions\<close>

text \<open>
  A transaction runs its function in a goroutine that turns a panic into an error (\<open>stack\<close> is the
  text of the panic), and gives up when the timer fires first. The result of the commit is not looked
  at. \<open>rollback\<close> takes the states before and after the function and undoes the changes of the tables; what
  the process keeps in memory stays.
\<close>

definition Transactional ::
  "db_env \<Rightarrow> string \<Rightarrow> bool \<Rightarrow> ('s \<Rightarrow> 's \<Rightarrow> 's) \<Rightarrow> ('s, unit) action \<Rightarrow> ('s, unit) action" where
  "Transactional E stack timeout rollback todo =
     (\<lambda>s. case env_fault E ''begin'' of
            Some e \<Rightarrow> (Err (EWrap [] e), s)
          | None \<Rightarrow>
              if timeout then (Err (EErrorf ''database transaction timeout''), s)
              else case todo s of
                (Ok _, s') \<Rightarrow> (Ok (), if env_fault E ''commit'' = None then s' else rollback s s')
              | (Err e, s') \<Rightarrow> (Err (EWrap [] e), rollback s s')
              | (Panic, s') \<Rightarrow> (Err (EWrap [] (EErrorf (''recovered '' @ stack))), rollback s s'))"

section \<open>Facts\<close>

lemmas act_defs [go_simps] =
  act_return_def act_fail_def act_lift_def act_bind_def act_map_err_def act_gets_def act_modify_def

lemma act_bind_Ok_iff:
  "act_bind m f s = (Ok y, t) \<longleftrightarrow> (\<exists>x s'. m s = (Ok x, s') \<and> f x s' = (Ok y, t))"
  by (auto simp: act_bind_def split: prod.splits gres.splits)

lemma act_bind_Err_iff:
  "act_bind m f s = (Err e, t) \<longleftrightarrow> m s = (Err e, t) \<or> (\<exists>x s'. m s = (Ok x, s') \<and> f x s' = (Err e, t))"
  by (auto simp: act_bind_def split: prod.splits gres.splits)

lemma alive_touched [simp]: "alive (touched E lc) = alive lc"
  by (simp add: alive_def touched_def)

lemma alive_removed [simp]: "\<not> alive (removed E lc)"
  by (simp add: alive_def removed_def)

lemma Lifecycle_Equal_refl [simp]: "Lifecycle_Equal lc lc"
  by (simp add: Lifecycle_Equal_def)

lemma act_gets_iff [simp]: "act_gets f s = (r, t) \<longleftrightarrow> f s = r \<and> t = s"
  by (auto simp: act_gets_def)

lemma act_lift_iff [simp]: "act_lift r s = (r', t) \<longleftrightarrow> r = r' \<and> t = s"
  by (auto simp: act_lift_def)

lemma act_return_iff [simp]: "act_return x s = (r, t) \<longleftrightarrow> r = Ok x \<and> t = s"
  by (auto simp: act_return_def)

lemma act_fail_iff [simp]: "act_fail e s = (r, t) \<longleftrightarrow> r = Err e \<and> t = s"
  by (auto simp: act_fail_def)

lemma act_modify_iff [simp]: "act_modify f s = (r, t) \<longleftrightarrow> r = Ok () \<and> t = f s"
  by (auto simp: act_modify_def)

lemma act_map_err_Ok_iff [simp]: "act_map_err f m s = (Ok x, t) \<longleftrightarrow> m s = (Ok x, t)"
  by (auto simp: act_map_err_def split: prod.splits)

lemma act_bind_return [simp]: "act_bind (act_return x) f = f x"
  by (rule ext) (simp add: act_bind_def act_return_def)

lemma statement_Ok_iff [simp]: "statement E l w s = (Ok u, t) \<longleftrightarrow> env_fault E l = None \<and> t = s"
  by (auto simp: statement_def act_defs split: option.splits)

lemma statement_no_faults [simp]: "no_faults E \<Longrightarrow> statement E l w = act_return ()"
  by (simp add: statement_def no_faults_def)

lemma first_row_None_iff [simp]: "first_row key rs = None \<longleftrightarrow> rs = []"
  by (cases rs) (auto split: option.splits)

lemma first_row_SomeD:
  "first_row key rs = Some r \<Longrightarrow> r \<in> set rs \<and> (\<forall>x \<in> set rs. key r \<le> key x)"
proof (induction rs arbitrary: r)
  case (Cons a rs)
  then show ?case by (fastforce split: option.splits if_splits)
qed simp

lemma first_row_unique:
  assumes "r \<in> set rs" "\<And>x. x \<in> set rs \<Longrightarrow> x = r"
  shows "first_row key rs = Some r"
proof (cases "first_row key rs")
  case None
  with assms(1) show ?thesis by auto
next
  case (Some x)
  with first_row_SomeD [OF Some] assms(2) show ?thesis by auto
qed

lemma CheckExists_Ok_iff:
  "CheckExists U E tbl ids i s = (Ok u, t) \<longleftrightarrow>
     env_fault E (''exists '' @ tbl) = None \<and> i \<in> set (ids s) \<and> t = s"
  by (auto simp: CheckExists_def Exists_def act_bind_Ok_iff split: if_splits)

lemma insert_row_Ok:
  "insert_row E label violated add s = (Ok u, t) \<Longrightarrow> violated s = None \<and> t = add s"
  by (auto simp: insert_row_def act_bind_Ok_iff split: option.splits)

lemma act_bind_not_Ok:
  assumes "act_bind m f s = (r, t)" "\<not> is_ok r"
  shows "\<not> is_ok (fst (m s)) \<and> t = snd (m s) \<or> (\<exists>x s'. m s = (Ok x, s') \<and> f x s' = (r, t))"
  using assms by (auto simp: act_bind_def split: prod.splits gres.splits)

text \<open>What a transaction can do to the tables.\<close>

lemma Transactional_effect:
  assumes "Transactional E stack timeout rollback (act_bind m (\<lambda>_. act_return ())) s = (r, t)"
  shows "t = s \<or> t = rollback s (snd (m s)) \<or> (\<exists>x. m s = (Ok x, t))"
proof (cases "m s")
  case (Pair r' s')
  then show ?thesis using assms
    by (cases r') (auto simp: Transactional_def act_bind_def act_return_def split: option.splits if_splits)
qed

text \<open>
  An operation that keeps an invariant of the tables whenever it succeeds, run in a transaction, keeps
  it whatever happens.
\<close>

locale invariant_operation =
  fixes inv :: "'s \<Rightarrow> bool"
    and guard :: "'p \<Rightarrow> 's \<Rightarrow> bool"
    and operation :: "'p \<Rightarrow> ('s, 'a) action"
    and rollback :: "'s \<Rightarrow> 's \<Rightarrow> 's"
  assumes success_keeps: "inv s \<Longrightarrow> guard p s \<Longrightarrow> operation p s = (Ok x, t) \<Longrightarrow> inv t"
    and rollback_keeps: "inv s \<Longrightarrow> inv (rollback s t)"
begin

lemma transaction_keeps:
  assumes "inv s" "guard p s"
  shows "inv (snd (Transactional E stack timeout rollback (act_bind (operation p) (\<lambda>_. act_return ())) s))"
  using assms(1) success_keeps [OF assms] rollback_keeps [OF assms(1)]
  by (auto simp: Transactional_def act_bind_def act_return_def split: option.splits prod.splits gres.splits)

end

text \<open>
  The contract of \<^verbatim>\<open>convert.Equaler\<close>: \<^verbatim>\<open>EqualValue\<close> is \<^verbatim>\<open>Equal\<close> after the metadata (version,
  time stamps) of the second value has been copied into the first.
\<close>

locale equaler =
  fixes equal :: "'a \<Rightarrow> 'a \<Rightarrow> bool"
    and equalValue :: "'a \<Rightarrow> 'a \<Rightarrow> bool"
    and copy_meta :: "'a \<Rightarrow> 'a \<Rightarrow> 'a"
  assumes value_def: "equalValue x y \<longleftrightarrow> equal (copy_meta x y) y"
    and copy_absorb: "copy_meta (copy_meta x z) y = copy_meta x y"
    and copy_equal: "equal x y \<Longrightarrow> equal (copy_meta x y) y"
begin

lemma equal_imp_equalValue: "equal x y \<Longrightarrow> equalValue x y"
  by (simp add: value_def copy_equal)

lemma equalValue_ignores_meta: "equalValue (copy_meta x z) y \<longleftrightarrow> equalValue x y"
  by (simp add: value_def copy_absorb)

end



end
