(* ===== verification/Work_Items.thy ===== *)
theory Work_Items
  imports Field_Types Paths Store "HOL-Library.AList" "HOL-Library.List_Lexorder" "HOL-Library.Char_ord" "HOL-Library.Multiset"
begin

text \<open>
  Work item types, stored work items and work items of the model:
  \<^verbatim>\<open>workitem/workitemtype.go\<close>, \<^verbatim>\<open>workitem_storage.go\<close>, \<^verbatim>\<open>workitem.go\<close>,
  \<^verbatim>\<open>json_storage.go\<close>, \<^verbatim>\<open>workitemtype_cache.go\<close> and the conversion from stored to
  model work items of \<^verbatim>\<open>workitem_repository.go\<close>.

  A field map is an association list without repeated keys, in the order in which the Go map is
  iterated; a nil map is the empty list. The numbers of Go's type \<^verbatim>\<open>int\<close> are 64-bit words.
\<close>

section \<open>Names of fields\<close>

definition pathSep :: string where "pathSep = ''.''"

definition SystemNumber :: string where "SystemNumber = ''system.number''"

definition SystemTitle :: string where "SystemTitle = ''system.title''"

definition SystemDescription :: string where "SystemDescription = ''system.description''"

definition SystemState :: string where "SystemState = ''system.state''"

definition SystemCreator :: string where "SystemCreator = ''system.creator''"

definition SystemCreatedAt :: string where "SystemCreatedAt = ''system.created_at''"

definition SystemUpdatedAt :: string where "SystemUpdatedAt = ''system.updated_at''"

definition SystemOrder :: string where "SystemOrder = ''system.order''"

definition SystemIteration :: string where "SystemIteration = ''system.iteration''"

definition SystemBoardcolumns :: string where "SystemBoardcolumns = ''system.boardcolumns''"

definition SystemMetaState :: string where "SystemMetaState = ''system.metastate''"

lemmas system_names [go_simps] = SystemNumber_def SystemTitle_def SystemDescription_def SystemState_def
  SystemCreator_def SystemCreatedAt_def SystemUpdatedAt_def SystemOrder_def SystemIteration_def
  SystemBoardcolumns_def SystemMetaState_def

section \<open>Work item types\<close>

type_synonym fields = "(string \<times> goval) list"

type_synonym field_definitions = "(string \<times> field_definition) list"

record work_item_type =
  wt_Lifecycle :: lifecycle
  wt_ID :: uuid
  wt_Name :: string
  wt_Description :: "string option"
  wt_Icon :: string
  wt_Version :: "64 word"
  wt_Path :: string
  wt_Fields :: field_definitions
  wt_SpaceTemplateID :: uuid
  wt_Extends :: uuid
  wt_CanConstruct :: bool
  wt_ChildTypeIDs :: "uuid list"

fun validate_fields :: "field_env \<Rightarrow> field_definitions \<Rightarrow> unit res" where
  "validate_fields E [] = Ok ()"
| "validate_fields E ((name, field) # rest) =
     res_bind (map_err (EWrap (''failed to validate field '' @ name)) (FieldDefinition_Validate E field))
       (\<lambda>_. validate_fields E rest)"

definition FieldDefinitions_Validate :: "field_env \<Rightarrow> field_definitions option \<Rightarrow> unit res" where
  "FieldDefinitions_Validate E j =
     (case j of None \<Rightarrow> Err (EErrorf ''fields not defined'') | Some fs \<Rightarrow> validate_fields E fs)"

definition WorkItemType_Validate :: "field_env \<Rightarrow> work_item_type \<Rightarrow> unit res" where
  "WorkItemType_Validate E wit =
     (if TrimSpace (wt_Name wit) = []
      then Err (EErrorf ''work item type name %s when trimmed has a zero-length'')
      else map_err (EWrap ''failed to validate work item type's fields'')
             (FieldDefinitions_Validate E (Some (wt_Fields wit))))"

definition LtreeSafeID :: "uuid_lib \<Rightarrow> uuid \<Rightarrow> string" where
  "LtreeSafeID U witID = replace_char (CHR ''-'') (CHR ''_'') (uString U witID)"

definition strPtrIsNilOrContentIsEqual :: "string option \<Rightarrow> string option \<Rightarrow> bool" where
  "strPtrIsNilOrContentIsEqual l r \<longleftrightarrow>
     (case (l, r) of (None, None) \<Rightarrow> True | (Some a, Some b) \<Rightarrow> a = b | _ \<Rightarrow> False)"

text \<open>
  The comparison of types. As for field types, the flag says whether \<^verbatim>\<open>Equal\<close> was called from
  \<^verbatim>\<open>EqualValue\<close>.
\<close>

fun equal_definitions :: "bool \<Rightarrow> field_definitions \<Rightarrow> field_definitions \<Rightarrow> bool res" where
  "equal_definitions fromEqualValue [] other = Ok True"
| "equal_definitions fromEqualValue ((k, v) # rest) other =
     (case map_of other k of
        None \<Rightarrow> Ok False
      | Some w \<Rightarrow>
          and_then (CascadeEqual fromEqualValue (FieldDefinition_Equal False) FieldDefinition_EqualValue v w)
            (equal_definitions fromEqualValue rest other))"

definition WorkItemType_Equal :: "bool \<Rightarrow> work_item_type \<Rightarrow> work_item_type \<Rightarrow> bool res" where
  "WorkItemType_Equal fromEqualValue wit other =
     (if wt_ID wit = wt_ID other \<and>
         (if fromEqualValue then Lifecycle_EqualValue (wt_Lifecycle wit) (wt_Lifecycle other)
          else Lifecycle_Equal (wt_Lifecycle wit) (wt_Lifecycle other)) \<and>
         wt_Version wit = wt_Version other \<and> wt_Name wit = wt_Name other \<and>
         wt_Extends wit = wt_Extends other \<and> wt_CanConstruct wit = wt_CanConstruct other \<and>
         wt_Description wit = wt_Description other \<and> wt_Icon wit = wt_Icon other \<and>
         wt_Path wit = wt_Path other \<and> wt_ChildTypeIDs wit = wt_ChildTypeIDs other \<and>
         length (wt_Fields wit) = length (wt_Fields other)
      then and_then (equal_definitions fromEqualValue (wt_Fields wit) (wt_Fields other))
             (Ok (wt_SpaceTemplateID wit = wt_SpaceTemplateID other))
      else Ok False)"

definition WorkItemType_EqualValue :: "work_item_type \<Rightarrow> work_item_type \<Rightarrow> bool res" where
  "WorkItemType_EqualValue wit other =
     WorkItemType_Equal True (wit\<lparr>wt_Version := wt_Version other, wt_Lifecycle := wt_Lifecycle other\<rparr>) other"

definition IsTypeOrSubtypeOf :: "uuid_lib \<Rightarrow> work_item_type \<Rightarrow> uuid \<Rightarrow> bool" where
  "IsTypeOrSubtypeOf U wit typeID \<longleftrightarrow>
     wt_ID wit = typeID \<or> Contains (wt_Path wit) (LtreeSafeID U typeID @ pathSep)"

text \<open>The cache of types; its lock makes each operation atomic.\<close>

type_synonym wit_cache = "uuid \<rightharpoonup> work_item_type"

definition NewWorkItemTypeCache :: wit_cache where
  "NewWorkItemTypeCache = Map.empty"

definition Cache_Get :: "wit_cache \<Rightarrow> uuid \<Rightarrow> work_item_type option" where
  "Cache_Get c i = c i"

definition Cache_Put :: "wit_cache \<Rightarrow> work_item_type \<Rightarrow> wit_cache" where
  "Cache_Put c wit = c(wt_ID wit \<mapsto> wit)"

definition Cache_Clear :: "wit_cache \<Rightarrow> wit_cache" where
  "Cache_Clear c = Map.empty"

section \<open>Stored work items\<close>

record work_item_storage =
  wi_Lifecycle :: lifecycle
  wi_ID :: uuid
  wi_Number :: "64 word"
  wi_Type :: uuid
  wi_Version :: "64 word"
  wi_Fields :: fields
  wi_ExecutionOrder :: float64
  wi_SpaceID :: uuid
  wi_RelationShipsChangedAt :: "gotime option"

definition Fields_Equal :: "fields \<Rightarrow> fields \<Rightarrow> bool" where
  "Fields_Equal f other = deep_equal (VMap f) (VMap other)"

definition Fields_EqualValue :: "fields \<Rightarrow> fields \<Rightarrow> bool" where
  "Fields_EqualValue f u = Fields_Equal f u"

definition WorkItemStorage_Equal :: "bool \<Rightarrow> work_item_storage \<Rightarrow> work_item_storage \<Rightarrow> bool" where
  "WorkItemStorage_Equal fromEqualValue wi other \<longleftrightarrow>
     (if fromEqualValue then Lifecycle_EqualValue (wi_Lifecycle wi) (wi_Lifecycle other)
      else Lifecycle_Equal (wi_Lifecycle wi) (wi_Lifecycle other)) \<and>
     wi_Number wi = wi_Number other \<and> wi_Type wi = wi_Type other \<and> wi_ID wi = wi_ID other \<and>
     wi_Version wi = wi_Version other \<and> f_eq (wi_ExecutionOrder wi) (wi_ExecutionOrder other) \<and>
     wi_SpaceID wi = wi_SpaceID other \<and>
     wi_RelationShipsChangedAt wi = wi_RelationShipsChangedAt other \<and>
     (if fromEqualValue then Fields_EqualValue (wi_Fields wi) (wi_Fields other)
      else Fields_Equal (wi_Fields wi) (wi_Fields other))"

definition WorkItemStorage_EqualValue :: "work_item_storage \<Rightarrow> work_item_storage \<Rightarrow> bool" where
  "WorkItemStorage_EqualValue wi other =
     WorkItemStorage_Equal True
       (wi\<lparr>wi_Version := wi_Version other, wi_Lifecycle := wi_Lifecycle other,
           wi_RelationShipsChangedAt := wi_RelationShipsChangedAt other\<rparr>) other"

definition ParseWorkItemIDToUint64 :: "string \<Rightarrow> 64 word res" where
  "ParseWorkItemIDToUint64 wiIDStr =
     (case (if wiIDStr = [] then None else parse_digits 0 wiIDStr) of
        Some n \<Rightarrow> if n < 2 ^ 64 then Ok (of_nat n) else Err (NewNotFoundError ''work item ID'' wiIDStr)
      | None \<Rightarrow> Err (NewNotFoundError ''work item ID'' wiIDStr))"

section \<open>Work items\<close>

record work_item =
  w_ID :: uuid
  w_Number :: "64 word"
  w_Type :: uuid
  w_Version :: "64 word"
  w_SpaceID :: uuid
  w_Fields :: fields
  w_relationShipsChangedAt :: "gotime option"

definition GetLastModified :: "work_item \<Rightarrow> gotime res" where
  "GetLastModified wi =
     (let updated = (case map_get (w_Fields wi) SystemUpdatedAt of VTime t loc \<Rightarrow> Some (t, loc) | _ \<Rightarrow> None);
          lastModified = (case w_relationShipsChangedAt wi of
             None \<Rightarrow> updated
           | Some r \<Rightarrow> (case updated of None \<Rightarrow> Some r | Some u \<Rightarrow> if fst r > fst u then Some r else updated))
      in case lastModified of None \<Rightarrow> Panic | Some t \<Rightarrow> Ok t)"

text \<open>
  The conversion of a stored work item: the method of the type, which loops over the field
  definitions and sets the order in every turn, and the function that adds the columns.
\<close>

fun convert_fields :: "field_env \<Rightarrow> field_definitions \<Rightarrow> work_item_storage \<Rightarrow> fields \<Rightarrow> fields res" where
  "convert_fields E [] wi acc = Ok acc"
| "convert_fields E ((name, field) # rest) wi acc =
     (if name = SystemCreatedAt then convert_fields E rest wi acc
      else res_bind (map_err (EWrap []) (FieldDefinition_ConvertFromModel E field name (map_get (wi_Fields wi) name)))
        (\<lambda>v. convert_fields E rest wi
               (AList.update SystemOrder (VFloat (wi_ExecutionOrder wi)) (AList.update name v acc))))"

definition WorkItemType_ConvertWorkItemStorageToModel ::
  "field_env \<Rightarrow> work_item_type \<Rightarrow> work_item_storage \<Rightarrow> work_item res" where
  "WorkItemType_ConvertWorkItemStorageToModel E wit wi =
     res_bind (convert_fields E (wt_Fields wit) wi []) (\<lambda>fs.
       Ok \<lparr>w_ID = wi_ID wi, w_Number = wi_Number wi, w_Type = wi_Type wi, w_Version = wi_Version wi,
           w_SpaceID = wi_SpaceID wi, w_Fields = fs,
           w_relationShipsChangedAt = wi_RelationShipsChangedAt wi\<rparr>)"

definition set_if_defined :: "work_item_type \<Rightarrow> string \<Rightarrow> goval \<Rightarrow> fields \<Rightarrow> fields" where
  "set_if_defined wiType name v fs =
     (if map_of (wt_Fields wiType) name \<noteq> None then AList.update name v fs else fs)"

definition ConvertWorkItemStorageToModel ::
  "field_env \<Rightarrow> (go_error \<Rightarrow> string) \<Rightarrow> work_item_type \<Rightarrow> work_item_storage \<Rightarrow> work_item res" where
  "ConvertWorkItemStorageToModel E errText wiType wi =
     (case WorkItemType_ConvertWorkItemStorageToModel E wiType wi of
        Err e \<Rightarrow> Err (NewConversionError (errText e))
      | Panic \<Rightarrow> Panic
      | Ok result \<Rightarrow>
          Ok (result\<lparr>w_Fields :=
            set_if_defined wiType SystemNumber (VInt (wi_Number wi))
            (set_if_defined wiType SystemOrder (VFloat (wi_ExecutionOrder wi))
            (set_if_defined wiType SystemUpdatedAt
               (VTime (fst (lc_UpdatedAt (wi_Lifecycle wi))) (snd (lc_UpdatedAt (wi_Lifecycle wi))))
            (set_if_defined wiType SystemCreatedAt
               (VTime (fst (lc_CreatedAt (wi_Lifecycle wi))) (snd (lc_CreatedAt (wi_Lifecycle wi))))
               (w_Fields result))))\<rparr>))"

section \<open>Change sets\<close>

record change =
  ch_AttributeName :: string
  ch_NewValue :: goval
  ch_OldValue :: goval

datatype detector = DNil | DWorkItem work_item | DOther string

text \<open>The assertion \<^verbatim>\<open>.([]interface{})\<close> on a field value that is not nil.\<close>

fun as_slice :: "goval \<Rightarrow> goval list res" where
  "as_slice (VSlice xs) = Ok xs"
| "as_slice VNilSlice = Ok []"
| "as_slice _ = Panic"

fun as_strings :: "goval list \<Rightarrow> string list res" where
  "as_strings [] = Ok []"
| "as_strings (v # vs) =
     (case v of
        VString s \<Rightarrow> res_bind (as_strings vs) (\<lambda>ss. Ok (s # ss))
      | _ \<Rightarrow> Err (EErrorf ''Boardcolumn slice values are not of type string''))"

definition boardcolumns_changed :: "goval \<Rightarrow> goval \<Rightarrow> bool res" where
  "boardcolumns_changed new old =
     (if new = VNil \<and> old = VNil then Ok False
      else if new = VNil \<or> old = VNil then Ok True
      else res_bind (as_slice new) (\<lambda>bcThis.
           res_bind (as_slice old) (\<lambda>bcOlder.
             if bcThis = [] \<or> bcOlder = [] then Ok (\<not> (bcThis = [] \<and> bcOlder = []))
             else if length bcThis \<noteq> length bcOlder then Ok True
             else res_bind (as_strings bcThis) (\<lambda>a. res_bind (as_strings bcOlder) (\<lambda>b.
                    Ok (sort a \<noteq> sort b))))))"

definition ChangeSet :: "uuid_lib \<Rightarrow> work_item \<Rightarrow> detector \<Rightarrow> change list res" where
  "ChangeSet U wi older =
     (let get = (\<lambda>w k. map_get (w_Fields w) k) in
      case older of
        DNil \<Rightarrow>
          (let st = \<lparr>ch_AttributeName = SystemState, ch_NewValue = get wi SystemState, ch_OldValue = VNil\<rparr>;
               bc = get wi SystemBoardcolumns
           in if bc = VNil then Ok [st]
              else res_bind (as_slice bc) (\<lambda>cols.
                Ok (st # (if cols = [] then []
                          else [\<lparr>ch_AttributeName = SystemBoardcolumns, ch_NewValue = bc, ch_OldValue = VNil\<rparr>]))))
      | DOther ty \<Rightarrow> Err (EErrorf (''Other entity is not a WorkItem: '' @ ty))
      | DWorkItem old \<Rightarrow>
          if w_ID wi \<noteq> w_ID old then Err (EErrorf (''Other entity has not the same ID: '' @ uString U (w_ID old)))
          else res_bind (go_eq (get wi SystemState) (get old SystemState)) (\<lambda>same.
               res_bind (boardcolumns_changed (get wi SystemBoardcolumns) (get old SystemBoardcolumns)) (\<lambda>moved.
                 Ok ((if same then [] else
                        [\<lparr>ch_AttributeName = SystemState, ch_NewValue = get wi SystemState,
                          ch_OldValue = get old SystemState\<rparr>])
                     @ (if moved then
                        [\<lparr>ch_AttributeName = SystemBoardcolumns, ch_NewValue = get wi SystemBoardcolumns,
                          ch_OldValue = get old SystemBoardcolumns\<rparr>] else [])))))"

section \<open>Facts\<close>

lemma map_get_alt: "map_get m k = (case map_of m k of None \<Rightarrow> VNil | Some v \<Rightarrow> v)"
  by (simp add: map_get_def)

lemma map_of_update_field [simp]: "map_of (AList.update k v m) = (map_of m)(k \<mapsto> v)"
  by (rule update_conv')

lemma map_of_set_if_defined:
  "map_of (set_if_defined t k v fs) =
     (if map_of (wt_Fields t) k \<noteq> None then (map_of fs)(k \<mapsto> v) else map_of fs)"
  by (simp add: set_if_defined_def)

lemma convert_fields_spec:
  assumes "distinct (map fst defs)" "convert_fields E defs wi acc = Ok fs"
  shows "map_of fs name =
    (if name = SystemOrder \<and> list_ex (\<lambda>d. fst d \<noteq> SystemCreatedAt) defs then Some (VFloat (wi_ExecutionOrder wi))
     else case map_of defs name of
       None \<Rightarrow> map_of acc name
     | Some d \<Rightarrow> if name = SystemCreatedAt then map_of acc name
         else (case FieldDefinition_ConvertFromModel E d name (map_get (wi_Fields wi) name) of
                 Ok v \<Rightarrow> Some v | _ \<Rightarrow> None))"
  using assms
proof (induction defs arbitrary: acc)
  case (Cons d defs)
  obtain n f where d: "d = (n, f)" by (cases d)
  have ne: "SystemOrder \<noteq> SystemCreatedAt" by (simp add: go_simps)
  show ?case
  proof (cases "n = SystemCreatedAt")
    case True
    with Cons d have "n \<notin> fst ` set defs" by auto
    then have "map_of defs n = None" by (simp add: map_of_eq_None_iff)
    with True Cons d ne show ?thesis by (auto split: option.splits)
  next
    case False
    with Cons.prems d obtain v where
      v: "FieldDefinition_ConvertFromModel E f n (map_get (wi_Fields wi) n) = Ok v"
      and rest: "convert_fields E defs wi
        (AList.update SystemOrder (VFloat (wi_ExecutionOrder wi)) (AList.update n v acc)) = Ok fs"
      by auto
    from Cons.prems d have n: "map_of defs n = None" by (auto simp: map_of_eq_None_iff)
    have "map_of defs SystemOrder \<noteq> None \<Longrightarrow> list_ex (\<lambda>d. fst d \<noteq> SystemCreatedAt) defs"
      using ne by (force simp: list_ex_iff dest: map_of_SomeD)
    with Cons.IH [OF _ rest] Cons.prems(1) d v n False show ?thesis
      by (auto split: option.splits)
  qed
qed simp

text \<open>The reference definition of the fields of a converted work item.\<close>

definition model_field :: "field_env \<Rightarrow> work_item_type \<Rightarrow> work_item_storage \<Rightarrow> string \<Rightarrow> goval option" where
  "model_field E t wi name =
     (case map_of (wt_Fields t) name of
        None \<Rightarrow> if name = SystemOrder \<and> list_ex (\<lambda>d. fst d \<noteq> SystemCreatedAt) (wt_Fields t)
                then Some (VFloat (wi_ExecutionOrder wi)) else None
      | Some d \<Rightarrow>
          if name = SystemNumber then Some (VInt (wi_Number wi))
          else if name = SystemOrder then Some (VFloat (wi_ExecutionOrder wi))
          else if name = SystemUpdatedAt then
            Some (VTime (fst (lc_UpdatedAt (wi_Lifecycle wi))) (snd (lc_UpdatedAt (wi_Lifecycle wi))))
          else if name = SystemCreatedAt then
            Some (VTime (fst (lc_CreatedAt (wi_Lifecycle wi))) (snd (lc_CreatedAt (wi_Lifecycle wi))))
          else (case FieldDefinition_ConvertFromModel E d name (map_get (wi_Fields wi) name) of
                  Ok v \<Rightarrow> Some v | _ \<Rightarrow> None))"

lemma system_names_distinct [simp]:
  "SystemOrder \<noteq> SystemNumber" "SystemUpdatedAt \<noteq> SystemNumber" "SystemCreatedAt \<noteq> SystemNumber"
  "SystemUpdatedAt \<noteq> SystemOrder" "SystemCreatedAt \<noteq> SystemOrder" "SystemCreatedAt \<noteq> SystemUpdatedAt"
  "SystemNumber \<noteq> SystemOrder" "SystemNumber \<noteq> SystemUpdatedAt" "SystemNumber \<noteq> SystemCreatedAt"
  "SystemOrder \<noteq> SystemUpdatedAt" "SystemOrder \<noteq> SystemCreatedAt" "SystemUpdatedAt \<noteq> SystemCreatedAt"
  by (simp_all add: go_simps)


definition sample_storage :: work_item_storage where
  "sample_storage = \<lparr>wi_Lifecycle = \<lparr>lc_CreatedAt = (1, ''UTC''), lc_UpdatedAt = (2, ''UTC''), lc_DeletedAt = None\<rparr>,
     wi_ID = 5, wi_Number = 7, wi_Type = 9, wi_Version = 0, wi_Fields = [(SystemTitle, VString ''a bug'')],
     wi_ExecutionOrder = 0, wi_SpaceID = 3, wi_RelationShipsChangedAt = None\<rparr>"

definition plain_field :: "kind \<Rightarrow> field_definition" where
  "plain_field k = \<lparr>fd_Required = False, fd_ReadOnly = False, fd_Label = ''label'', fd_Description = [],
     fd_Type = FSimple (simple_of k)\<rparr>"

definition sample_type :: work_item_type where
  "sample_type = \<lparr>wt_Lifecycle = wi_Lifecycle sample_storage, wt_ID = 9, wt_Name = ''Bug'', wt_Description = None,
     wt_Icon = [], wt_Version = 0, wt_Path = [],
     wt_Fields = [(SystemTitle, plain_field KindString), (SystemNumber, plain_field KindInteger)],
     wt_SpaceTemplateID = 4, wt_Extends = 0, wt_CanConstruct = True, wt_ChildTypeIDs = []\<rparr>"


subsection \<open>Subtypes\<close>

lemma split_on_append_sep: "split_on c (x @ c # y) = split_on c x @ split_on c y"
proof (induction x)
  case (Cons a x)
  obtain w ws where "split_on c x = w # ws" by (meson neq_Nil_conv split_on_nonempty)
  with Cons show ?case by simp
qed simp

lemma split_on_append_plain:
  "c \<notin> set a \<Longrightarrow> split_on c (u @ a) = butlast (split_on c u) @ [last (split_on c u) @ a]"
proof (induction u)
  case (Cons x u)
  obtain w ws where "split_on c u = w # ws" by (meson neq_Nil_conv split_on_nonempty)
  with Cons show ?case by simp
qed (simp add: split_on_notin)

lemma Contains_segment:
  assumes len: "\<And>w. w \<in> set ws \<Longrightarrow> length w = length a" and sep: "\<And>w. w \<in> set ws \<Longrightarrow> c \<notin> set w"
    and a: "c \<notin> set a" and ws: "ws \<noteq> []"
  shows "Contains (Join ws [c]) (a @ [c]) \<longleftrightarrow> a \<in> set (butlast ws)"
proof
  assume "Contains (Join ws [c]) (a @ [c])"
  then obtain u v where "Join ws [c] = (u @ a) @ c # v" by (auto simp: Contains_def sublist_def)
  then have "ws = (butlast (split_on c u) @ [last (split_on c u) @ a]) @ split_on c v"
    using split_on_Join [of ws c] sep ws split_on_append_sep [of c "u @ a" v] split_on_append_plain [OF a, of u]
    by auto
  moreover have "split_on c v \<noteq> []" by simp
  ultimately have *: "last (split_on c u) @ a \<in> set (butlast ws)" by (simp add: butlast_append)
  with len [of "last (split_on c u) @ a"] have "last (split_on c u) = []" by (auto dest: in_set_butlastD)
  with * show "a \<in> set (butlast ws)" by simp
next
  assume "a \<in> set (butlast ws)"
  then obtain xs ys where "butlast ws = xs @ a # ys" by (meson split_list)
  with ws have "ws = xs @ a # ys @ [last ws]" by (metis append.assoc append_Cons append_butlast_last_id)
  then obtain z zs where z: "ws = xs @ a # z # zs" by (cases ys) auto
  have "\<exists>u v. Join (xs @ a # z # zs) [c] = u @ (a @ [c]) @ v"
  proof (induction xs)
    case Nil
    show ?case by (rule exI [of _ "[]"]) simp
  next
    case (Cons x xs)
    then obtain u v where "Join (xs @ a # z # zs) [c] = u @ (a @ [c]) @ v" by blast
    then show ?case by (cases xs) (auto intro: exI [of _ "x @ [c] @ u"])
  qed
  then show "Contains (Join ws [c]) (a @ [c])" by (auto simp: z Contains_def sublist_def)
qed

text \<open>
  C32. A type whose path lists its ancestors and itself is a subtype of exactly the types on that path:
  the text search in the path agrees with membership in the list of identifiers, for UUIDs printed with
  one length.
\<close>
theorem subtype_iff_on_path:
  assumes "uuid_lib_ok U" "\<And>i j. length (uString U i) = length (uString U j)"
    and "wt_Path wit = Join (map (LtreeSafeID U) (ancestors @ [wt_ID wit])) pathSep"
  shows "IsTypeOrSubtypeOf U wit typeID \<longleftrightarrow> typeID \<in> set (ancestors @ [wt_ID wit])"
proof -
  have unescape: "replace_char (CHR ''_'') (CHR ''-'') (LtreeSafeID U i) = uString U i" for i
    using uuid_string_no_sep(2) [OF assms(1)] by (simp add: LtreeSafeID_def replace_char_inverse)
  have inj: "LtreeSafeID U i = LtreeSafeID U j \<longleftrightarrow> i = j" for i j
    using unescape uuid_ok_roundtrip [OF assms(1)] by (metis option.inject)
  have dot: "CHR ''.'' \<notin> set (LtreeSafeID U i)" for i
    using uuid_string_no_sep(1) [OF assms(1)] by (auto simp: LtreeSafeID_def replace_char_def split: if_splits)
  have len: "length (LtreeSafeID U i) = length (LtreeSafeID U j)" for i j
    using assms(2) by (simp add: LtreeSafeID_def replace_char_def)
  have "Contains (wt_Path wit) (LtreeSafeID U typeID @ pathSep) \<longleftrightarrow>
      LtreeSafeID U typeID \<in> set (butlast (map (LtreeSafeID U) (ancestors @ [wt_ID wit])))"
    unfolding assms(3) pathSep_def by (rule Contains_segment) (use dot len in auto)
  also have "\<dots> \<longleftrightarrow> typeID \<in> set ancestors" by (auto simp: inj butlast_append map_butlast)
  finally show ?thesis by (auto simp: IsTypeOrSubtypeOf_def)
qed

theorem subtype_iff_on_path_witness:
  "IsTypeOrSubtypeOf canonical_uuid
     (sample_type\<lparr>wt_Path := Join (map (LtreeSafeID canonical_uuid) [6, 9]) pathSep\<rparr>) 6"
proof -
  have "length (uString canonical_uuid i) = length (uString canonical_uuid j)" for i j
    by (simp add: canonical_uuid_def Let_def)
  from subtype_iff_on_path [OF canonical_uuid_ok this,
      of "sample_type\<lparr>wt_Path := Join (map (LtreeSafeID canonical_uuid) [6, 9]) pathSep\<rparr>" "[6]" 6]
  show ?thesis by (simp add: sample_type_def)
qed

subsection \<open>Change sets\<close>

lemma as_strings_Ok: "as_strings (map VString ss) = Ok ss"
  by (induction ss) auto

lemma sort_eq_iff_mset: "sort a = sort b \<longleftrightarrow> mset a = mset b" for a :: "string list"
  by (metis mset_sort properties_for_sort sorted_sort)

text \<open>
  Between two versions of one work item, the change set reports the state exactly when it differs and the
  board columns exactly when they differ as multisets: the order of the columns does not matter.
\<close>
theorem change_set_reports_changes:
  assumes "w_ID wi = w_ID old"
    and "map_get (w_Fields wi) SystemState = VString s" "map_get (w_Fields old) SystemState = VString s'"
    and "map_get (w_Fields wi) SystemBoardcolumns = VSlice (map VString cs)"
    and "map_get (w_Fields old) SystemBoardcolumns = VSlice (map VString cs')"
  shows "ChangeSet U wi (DWorkItem old) = Ok
    ((if s = s' then [] else
        [\<lparr>ch_AttributeName = SystemState, ch_NewValue = VString s, ch_OldValue = VString s'\<rparr>]) @
     (if mset cs = mset cs' then [] else
        [\<lparr>ch_AttributeName = SystemBoardcolumns, ch_NewValue = VSlice (map VString cs),
          ch_OldValue = VSlice (map VString cs')\<rparr>]))"
proof -
  have "boardcolumns_changed (VSlice (map VString cs)) (VSlice (map VString cs')) = Ok (mset cs \<noteq> mset cs')"
    by (auto simp: boardcolumns_changed_def as_strings_Ok sort_eq_iff_mset dest: mset_eq_length)
  moreover have "(go_eq (VString s) (VString s') :: bool res) = Ok (s = s')" by (simp add: go_eq_def)
  ultimately show ?thesis unfolding ChangeSet_def Let_def assms detector.case by (simp add: assms(1))
qed

definition sample_item :: "string \<Rightarrow> string list \<Rightarrow> work_item" where
  "sample_item s cs = \<lparr>w_ID = 5, w_Number = 7, w_Type = 9, w_Version = 0, w_SpaceID = 3,
     w_Fields = [(SystemState, VString s), (SystemBoardcolumns, VSlice (map VString cs))],
     w_relationShipsChangedAt = None\<rparr>"

theorem change_set_reports_changes_witness:
  "ChangeSet canonical_uuid (sample_item ''open'' [''a'', ''b'']) (DWorkItem (sample_item ''new'' [''b'', ''a'']))
     = Ok [\<lparr>ch_AttributeName = SystemState, ch_NewValue = VString ''open'', ch_OldValue = VString ''new''\<rparr>]"
  using change_set_reports_changes [of "sample_item ''open'' [''a'', ''b'']" "sample_item ''new'' [''b'', ''a'']"
      "''open''" "''new''" "[''a'', ''b'']" "[''b'', ''a'']"]
  by (simp add: sample_item_def map_get_def go_simps add_mset_commute)

subsection \<open>Comparison\<close>

definition storage_copy_meta :: "work_item_storage \<Rightarrow> work_item_storage \<Rightarrow> work_item_storage" where
  "storage_copy_meta wi other =
     wi\<lparr>wi_Version := wi_Version other, wi_Lifecycle := wi_Lifecycle other,
        wi_RelationShipsChangedAt := wi_RelationShipsChangedAt other\<rparr>"

interpretation storage_equaler: equaler "WorkItemStorage_Equal False" WorkItemStorage_EqualValue storage_copy_meta
  by unfold_locales
    (auto simp: WorkItemStorage_EqualValue_def WorkItemStorage_Equal_def storage_copy_meta_def
      Lifecycle_EqualValue_def Lifecycle_Equal_def Fields_EqualValue_def)

end
