(* ===== verification/Float_Order.thy ===== *)
theory Float_Order
  imports Go_Values "HOL-Library.Log_Nat"
begin

text \<open>
  Arithmetic on the execution order of work items: IEEE 754 doubles as 64 bits, with addition and
  halving rounded to the nearest value, ties to even. The theory shows that the mean of two orders
  lies between them in spite of the rounding.
\<close>

section \<open>Values and rounding\<close>

text \<open>The magnitude with bit pattern \<open>n\<close>, for patterns below that of infinity.\<close>

definition inf_bits :: nat where
  "inf_bits = 2047 * 2 ^ 52"

definition bits_sig :: "nat \<Rightarrow> nat" where
  "bits_sig n = (if n < 2 ^ 52 then n else n mod 2 ^ 52 + 2 ^ 52)"

definition bits_exp :: "nat \<Rightarrow> nat" where
  "bits_exp n = (if n < 2 ^ 52 then 0 else n div 2 ^ 52 - 1)"

text \<open>Values are integers: the multiple of the least positive double, \<open>2 ^ -1074\<close>.\<close>

definition bits_val :: "nat \<Rightarrow> nat" where
  "bits_val n = bits_sig n * 2 ^ bits_exp n"

text \<open>
  Rounding of the quotient of a natural number by \<open>2 ^ k\<close> to the nearest integer, ties to even, and the
  bit pattern of the double nearest to a multiple of half the least positive double.
\<close>

definition round_shift :: "nat \<Rightarrow> nat \<Rightarrow> nat" where
  "round_shift x k =
     (let q = x div 2 ^ k; r = x mod 2 ^ k in
      if 2 * r < 2 ^ k \<or> 2 * r = 2 ^ k \<and> even q then q else q + 1)"

text \<open>\<open>x\<close> counts halves of the least positive double.\<close>

definition round_bits :: "nat \<Rightarrow> nat" where
  "round_bits x =
     (let e = (if x < 2 ^ 54 then 0 else floorlog 2 x - 54)
      in min inf_bits (e * 2 ^ 52 + round_shift x (e + 1)))"

section \<open>Monotonicity and exactness\<close>

lemma round_shift_mono:
  assumes "x \<le> y"
  shows "round_shift x k \<le> round_shift y k"
proof -
  let ?p = "2 ^ k :: nat"
  have "x div ?p \<le> y div ?p" using assms by (rule div_le_mono)
  then consider "x div ?p + 1 \<le> y div ?p" | "x div ?p = y div ?p" by linarith
  then show ?thesis
  proof cases
    case 1
    then show ?thesis by (auto simp: round_shift_def Let_def)
  next
    case 2
    have "x = ?p * (x div ?p) + x mod ?p" "y = ?p * (y div ?p) + y mod ?p" by simp_all
    with 2 assms have "x mod ?p \<le> y mod ?p" by (metis add_le_cancel_left)
    with 2 show ?thesis by (auto simp: round_shift_def Let_def)
  qed
qed

lemma round_shift_exact: "round_shift (m * 2 ^ k) k = m"
  by (simp add: round_shift_def)

lemma round_shift_upper: "x \<le> m * 2 ^ k \<Longrightarrow> round_shift x k \<le> m"
  using round_shift_mono [of x "m * 2 ^ k" k] by (simp add: round_shift_exact)

lemma round_shift_lower: "m * 2 ^ k \<le> x \<Longrightarrow> m \<le> round_shift x k"
  using round_shift_mono [of "m * 2 ^ k" x k] by (simp add: round_shift_exact)

definition shift_of :: "nat \<Rightarrow> nat" where
  "shift_of x = (if x < 2 ^ 54 then 0 else floorlog 2 x - 54)"

lemma round_bits_alt: "round_bits x = min inf_bits (shift_of x * 2 ^ 52 + round_shift x (shift_of x + 1))"
  by (simp add: round_bits_def shift_of_def Let_def)

lemma shift_of_upper: "x < 2 ^ (shift_of x + 54)"
proof (cases "x < 2 ^ 54")
  case False
  then have "floorlog 2 x \<ge> 55" using floorlog_ge_SucI [of 2 54 x] by simp
  moreover have "x < 2 ^ floorlog 2 x" using False floorlog_bounds [of x 2] by simp
  ultimately show ?thesis using False by (simp add: shift_of_def)
qed (simp add: shift_of_def)

lemma shift_of_lower: "0 < shift_of x \<Longrightarrow> 2 ^ (shift_of x + 53) \<le> x"
proof -
  assume pos: "0 < shift_of x"
  then have big: "\<not> x < 2 ^ 54" by (auto simp: shift_of_def split: if_splits)
  then have "floorlog 2 x \<ge> 55" using floorlog_ge_SucI [of 2 54 x] by simp
  moreover have "2 ^ (floorlog 2 x - 1) \<le> x" using big floorlog_bounds [of x 2] by simp
  ultimately show ?thesis using big by (simp add: shift_of_def)
qed

lemma shift_of_mono: "x \<le> y \<Longrightarrow> shift_of x \<le> shift_of y"
proof (rule ccontr)
  assume "x \<le> y" "\<not> shift_of x \<le> shift_of y"
  then have "shift_of y + 54 \<le> shift_of x + 53" "0 < shift_of x" by simp_all
  then have "2 ^ (shift_of y + 54) \<le> (2 ^ (shift_of x + 53) :: nat)" by (intro power_increasing) auto
  with shift_of_lower [OF \<open>0 < shift_of x\<close>] shift_of_upper [of y] \<open>x \<le> y\<close> show False by linarith
qed

lemma round_bits_mono:
  assumes "x \<le> y"
  shows "round_bits x \<le> round_bits y"
proof (cases "shift_of x = shift_of y")
  case True
  with round_shift_mono [OF assms, of "shift_of y + 1"] show ?thesis by (simp add: round_bits_alt)
next
  case False
  let ?e = "shift_of x" and ?f = "shift_of y"
  from False shift_of_mono [OF assms] have e: "?e + 1 \<le> ?f" by simp
  have "x \<le> 2 ^ 53 * 2 ^ (?e + 1)" using shift_of_upper [of x] by (simp add: power_add mult.commute)
  then have "round_shift x (?e + 1) \<le> 2 ^ 53" by (rule round_shift_upper)
  moreover have "2 ^ 52 * 2 ^ (?f + 1) \<le> y"
    using shift_of_lower [of y] e by (simp add: power_add mult.commute)
  then have "2 ^ 52 \<le> round_shift y (?f + 1)" by (rule round_shift_lower)
  moreover have "(?e + 1) * 2 ^ 52 \<le> ?f * (2 ^ 52 :: nat)" using e by (rule mult_le_mono1)
  ultimately have "?e * 2 ^ 52 + round_shift x (?e + 1) \<le> ?f * 2 ^ 52 + round_shift y (?f + 1)" by simp
  then show ?thesis by (simp add: round_bits_alt)
qed

lemma shift_of_eq:
  assumes "0 < e" "2 ^ (e + 53) \<le> x" "x < 2 ^ (e + 54)"
  shows "shift_of x = e"
proof -
  have "Suc (e + 53) \<le> floorlog 2 x" using assms(2) by (rule floorlog_ge_SucI) simp
  moreover have "floorlog 2 x \<le> e + 54" using assms(3) by (simp add: floorlog_le_iff)
  moreover have "(2 ^ 54 :: nat) \<le> 2 ^ (e + 53)" using assms(1) by (intro power_increasing) auto
  with assms(2) have "\<not> x < 2 ^ 54" by linarith
  ultimately show ?thesis by (simp add: shift_of_def)
qed

lemma bits_val_small: "n < 2 ^ 53 \<Longrightarrow> bits_val n = n"
proof -
  assume n: "n < 2 ^ 53"
  show ?thesis
  proof (cases "n < 2 ^ 52")
    case False
    with n have "n div 2 ^ 52 = 1" by (intro div_nat_eqI) simp_all
    moreover from this have "n mod 2 ^ 52 + 2 ^ 52 = n" using div_mult_mod_eq [of n "2 ^ 52"] by simp
    ultimately show ?thesis using False by (simp add: bits_val_def bits_sig_def bits_exp_def)
  qed (simp add: bits_val_def bits_sig_def bits_exp_def)
qed

lemma round_bits_exact:
  assumes "n < inf_bits"
  shows "round_bits (2 * bits_val n) = n"
proof (cases "n < 2 ^ 53")
  case True
  moreover have "round_shift (n * 2) (Suc 0) = n" using round_shift_exact [of n 1] by simp
  ultimately show ?thesis using assms
    by (simp add: bits_val_small round_bits_alt shift_of_def mult.commute)
next
  case False
  define e m where "e = n div 2 ^ 52 - 1" and "m = n mod 2 ^ 52 + 2 ^ 52"
  have d: "2 \<le> n div 2 ^ 52" using False by (simp add: less_eq_div_iff_mult_less_eq)
  then have e: "0 < e" by (simp add: e_def)
  have m: "2 ^ 52 \<le> m" "m < 2 ^ 53" by (simp_all add: m_def)
  have "bits_sig n = m" "bits_exp n = e" using False by (simp_all add: bits_sig_def bits_exp_def e_def m_def)
  then have x: "2 * bits_val n = m * 2 ^ (e + 1)" by (simp add: bits_val_def)
  have "(2 :: nat) ^ (e + 53) = 2 ^ 52 * 2 ^ (e + 1)" "(2 :: nat) ^ (e + 54) = 2 ^ 53 * 2 ^ (e + 1)"
    by (simp_all add: power_add)
  with m have "shift_of (m * 2 ^ (e + 1)) = e"
    using e by (intro shift_of_eq) (simp_all del: power_Suc add: mult_less_cancel2)
  then have "round_bits (2 * bits_val n) = min inf_bits (e * 2 ^ 52 + m)"
    unfolding round_bits_alt x by (simp only: round_shift_exact)
  also have "e * 2 ^ 52 + m = n"
  proof -
    have "(e + 1) * 2 ^ 52 + n mod 2 ^ 52 = n" using d div_mult_mod_eq [of n "2 ^ 52"] by (simp add: e_def)
    then show ?thesis by (simp add: m_def algebra_simps)
  qed
  finally show ?thesis using assms by simp
qed

lemma bits_val_mono:
  assumes "n \<le> n'" "n' < inf_bits"
  shows "bits_val n \<le> bits_val n'"
proof (rule ccontr)
  assume neg: "\<not> bits_val n \<le> bits_val n'"
  then have "round_bits (2 * bits_val n') \<le> round_bits (2 * bits_val n)" by (intro round_bits_mono) simp
  with assms have "n = n'" by (simp add: round_bits_exact)
  with neg show False by simp
qed

definition double_bits :: "nat \<Rightarrow> nat" where
  "double_bits n = (if n < 2 ^ 52 then 2 * n else n + 2 ^ 52)"

lemma bits_val_double: "bits_val (double_bits n) = 2 * bits_val n"
proof (cases "n < 2 ^ 52")
  case True
  then show ?thesis by (simp add: double_bits_def bits_val_small)
next
  case False
  then have "1 \<le> n div 2 ^ 52" by (simp add: less_eq_div_iff_mult_less_eq)
  moreover have "(n + 2 ^ 52) div 2 ^ 52 = n div 2 ^ 52 + 1" "(n + 2 ^ 52) mod 2 ^ 52 = n mod 2 ^ 52"
    by simp_all
  ultimately have "bits_exp (n + 2 ^ 52) = Suc (bits_exp n)" "bits_sig (n + 2 ^ 52) = bits_sig n"
    using False by (simp_all add: bits_exp_def bits_sig_def)
  with False show ?thesis by (simp add: double_bits_def bits_val_def)
qed

text \<open>The rounded mean of two magnitudes whose sum is finite lies between them.\<close>

definition mean_bits :: "nat \<Rightarrow> nat \<Rightarrow> nat" where
  "mean_bits n m = round_bits (bits_val (round_bits (2 * (bits_val n + bits_val m))))"

lemma mean_bits_between:
  assumes "n \<le> m" "m < inf_bits - 2 ^ 52"
  shows "n \<le> mean_bits n m \<and> mean_bits n m \<le> m"
proof -
  have inf: "double_bits n < inf_bits" "double_bits m < inf_bits" "n < inf_bits" "m < inf_bits"
    using assms by (auto simp: double_bits_def inf_bits_def)
  let ?s = "round_bits (2 * (bits_val n + bits_val m))"
  have le: "bits_val n \<le> bits_val m" using assms(1) inf(4) by (rule bits_val_mono)
  have lo: "double_bits n \<le> ?s" and hi: "?s \<le> double_bits m"
    using round_bits_mono [of "2 * bits_val (double_bits n)" "2 * (bits_val n + bits_val m)"]
      round_bits_mono [of "2 * (bits_val n + bits_val m)" "2 * bits_val (double_bits m)"]
      round_bits_exact [OF inf(1)] round_bits_exact [OF inf(2)] le
    by (simp_all add: bits_val_double)
  have "2 * bits_val n \<le> bits_val ?s" "bits_val ?s \<le> 2 * bits_val m"
    using bits_val_mono [OF lo] bits_val_mono [OF hi] hi inf(2) by (simp_all add: bits_val_double)
  then show ?thesis
    using round_bits_mono round_bits_exact [OF inf(3)] round_bits_exact [OF inf(4)]
    unfolding mean_bits_def by metis
qed

section \<open>Operations on doubles\<close>

definition f_mag :: "float64 \<Rightarrow> nat" where
  "f_mag f = unat f mod 2 ^ 63"

definition f_int :: "float64 \<Rightarrow> int" where
  "f_int f = (if f_neg f then - int (bits_val (f_mag f)) else int (bits_val (f_mag f)))"

definition f_pack :: "bool \<Rightarrow> nat \<Rightarrow> float64" where
  "f_pack neg n = of_nat (n + (if neg then 2 ^ 63 else 0))"

definition f_NaN :: float64 where
  "f_NaN = 0x7FF8000000000001"

definition f_add :: "float64 \<Rightarrow> float64 \<Rightarrow> float64" where
  "f_add a b =
     (if f_nan a \<or> f_nan b then f_NaN
      else if f_inf a then (if f_inf b \<and> f_neg a \<noteq> f_neg b then f_NaN else a)
      else if f_inf b then b
      else (let s = f_int a + f_int b in
            if s = 0 then f_pack (f_neg a \<and> f_neg b) 0
            else f_pack (s < 0) (round_bits (2 * nat \<bar>s\<bar>))))"

definition f_half :: "float64 \<Rightarrow> float64" where
  "f_half a = (if f_nan a \<or> f_inf a then a else f_pack (f_neg a) (round_bits (bits_val (f_mag a))))"

text \<open>The comparison of the database on finite values.\<close>

definition f_less :: "float64 \<Rightarrow> float64 \<Rightarrow> bool" where
  "f_less a b \<longleftrightarrow> f_int a < f_int b"

definition f_le :: "float64 \<Rightarrow> float64 \<Rightarrow> bool" where
  "f_le a b \<longleftrightarrow> f_int a \<le> f_int b"

text \<open>Orders: finite doubles that are not negative and whose double is finite.\<close>

definition order_ok :: "float64 \<Rightarrow> bool" where
  "order_ok f \<longleftrightarrow> unat f < inf_bits - 2 ^ 52"

lemma order_ok_mag:
  assumes "order_ok f"
  shows "f_mag f = unat f" "\<not> f_neg f" "\<not> f_nan f" "\<not> f_inf f" "f_int f = int (bits_val (unat f))"
proof -
  from assms have lt: "unat f < 2046 * 2 ^ 52" by (simp add: order_ok_def inf_bits_def)
  then show mag: "f_mag f = unat f" and neg: "\<not> f_neg f" by (simp_all add: f_mag_def f_neg_def)
  from lt have "unat f div 2 ^ 52 < 2046" by (simp add: div_less_iff_less_mult)
  then have "f_exp f \<noteq> 2047" by (simp add: f_exp_def)
  then show "\<not> f_nan f" "\<not> f_inf f" by (simp_all add: f_nan_def f_inf_def)
  from mag neg show "f_int f = int (bits_val (unat f))" by (simp add: f_int_def)
qed

lemma round_bits_le_inf: "round_bits x \<le> inf_bits"
  by (simp add: round_bits_alt)

lemma unat_pack: "n \<le> inf_bits \<Longrightarrow> unat (f_pack False n) = n"
  by (simp add: f_pack_def inf_bits_def unat_of_nat take_bit_eq_mod)

lemma pack_finite:
  assumes "n < inf_bits"
  shows "\<not> f_nan (f_pack False n)" "\<not> f_inf (f_pack False n)" "\<not> f_neg (f_pack False n)" "f_mag (f_pack False n) = n"
proof -
  from assms have u: "unat (f_pack False n) = n" by (simp add: unat_pack)
  from assms have lt: "n < 2047 * 2 ^ 52" by (simp add: inf_bits_def)
  then have "n div 2 ^ 52 < 2047" by (simp add: div_less_iff_less_mult)
  then have "f_exp (f_pack False n) \<noteq> 2047" by (simp add: f_exp_def u)
  then show "\<not> f_nan (f_pack False n)" "\<not> f_inf (f_pack False n)" by (simp_all add: f_nan_def f_inf_def)
  from lt show "\<not> f_neg (f_pack False n)" "f_mag (f_pack False n) = n" by (simp_all add: f_neg_def f_mag_def u)
qed

lemma bits_val_0 [simp]: "bits_val 0 = 0"
  by (simp add: bits_val_small)

lemma round_bits_0 [simp]: "round_bits 0 = 0"
  using round_bits_exact [of 0] by (simp add: inf_bits_def)

lemma f_add_order:
  assumes "order_ok a" "order_ok b"
  shows "f_add a b = f_pack False (round_bits (2 * (bits_val (unat a) + bits_val (unat b))))"
proof (cases "bits_val (unat a) = 0 \<and> bits_val (unat b) = 0")
  case True
  then show ?thesis using order_ok_mag [OF assms(1)] order_ok_mag [OF assms(2)] by (simp add: f_add_def)
next
  case False
  then show ?thesis using order_ok_mag [OF assms(1)] order_ok_mag [OF assms(2)]
    by (auto simp: f_add_def Let_def nat_add_distrib)
qed

lemma f_mean_order:
  assumes "order_ok a" "order_ok b"
  shows "f_half (f_add a b) = f_pack False (mean_bits (unat a) (unat b))"
proof -
  let ?m = "max (unat a) (unat b)" and ?s = "round_bits (2 * (bits_val (unat a) + bits_val (unat b)))"
  from assms have m: "?m < inf_bits - 2 ^ 52" by (simp add: order_ok_def)
  then have fin: "double_bits ?m < inf_bits" "unat a < inf_bits" "unat b < inf_bits" "?m < inf_bits"
    by (auto simp: double_bits_def inf_bits_def)
  have "bits_val (unat a) \<le> bits_val ?m" "bits_val (unat b) \<le> bits_val ?m"
    using bits_val_mono [of "unat a" ?m] bits_val_mono [of "unat b" ?m] fin(4) by auto
  then have "?s \<le> round_bits (2 * bits_val (double_bits ?m))"
    by (intro round_bits_mono) (simp add: bits_val_double)
  with fin(1) have "?s < inf_bits" by (simp add: round_bits_exact)
  from pack_finite [OF this] show ?thesis
    by (simp add: f_add_order [OF assms] f_half_def mean_bits_def)
qed

lemma mean_between:
  assumes "order_ok a" "order_ok b" "f_le a b"
  shows "order_ok (f_half (f_add a b)) \<and> f_le a (f_half (f_add a b)) \<and> f_le (f_half (f_add a b)) b"
proof -
  have fin: "unat a < inf_bits" "unat b < inf_bits" using assms(1,2) by (auto simp: order_ok_def)
  have "unat a \<le> unat b"
  proof (rule ccontr)
    assume "\<not> unat a \<le> unat b"
    moreover from this have "bits_val (unat b) \<le> bits_val (unat a)" using bits_val_mono fin(1) by simp
    with assms(3) have "bits_val (unat a) = bits_val (unat b)"
      using order_ok_mag(5) [OF assms(1)] order_ok_mag(5) [OF assms(2)] by (simp add: f_le_def)
    then have "unat a = unat b" using round_bits_exact fin by metis
    ultimately show False by simp
  qed
  from mean_bits_between [OF this] assms(2)
  have between: "unat a \<le> mean_bits (unat a) (unat b)" "mean_bits (unat a) (unat b) \<le> unat b"
    by (simp_all add: order_ok_def)
  let ?c = "f_half (f_add a b)"
  from between fin have u: "unat ?c = mean_bits (unat a) (unat b)"
    by (simp add: f_mean_order [OF assms(1,2)] unat_pack)
  with between assms(2) have ok: "order_ok ?c" by (simp add: order_ok_def)
  show ?thesis
    using ok between fin bits_val_mono [of "unat a" "unat ?c"] bits_val_mono [of "unat ?c" "unat b"]
    by (simp add: f_le_def order_ok_mag(5) assms(1,2) u)
qed

end
