(* ===== verification/Work_Item_Repo.thy ===== *)
theory Work_Item_Repo
  imports Work_Items Float_Order
begin

text \<open>
  The repositories of work items and work item types: \<^verbatim>\<open>workitem/workitem_repository.go\<close>,
  \<^verbatim>\<open>workitem_revision_repository.go\<close>, \<^verbatim>\<open>workitemtype_repository.go\<close> and
  \<^verbatim>\<open>number_sequence\<close>, as actions on the tables. The statements of the code are spelled out:
  what gorm builds is restricted to rows that are not deleted, raw SQL only where the text says so. Searching
  (\<^verbatim>\<open>List\<close>, \<^verbatim>\<open>Count\<close>, \<^verbatim>\<open>Fetch\<close>) hands the compiled expression to the database and
  is not modelled.
\<close>

section \<open>Tables\<close>

record revision =
  wr_ID :: uuid
  wr_Time :: gotime
  wr_Type :: nat
  wr_ModifierIdentity :: uuid
  wr_WorkItemID :: uuid
  wr_WorkItemTypeID :: uuid
  wr_WorkItemVersion :: "64 word"
  wr_WorkItemFields :: fields

definition RevisionTypeCreate :: nat where "RevisionTypeCreate = 1"

definition RevisionTypeDelete :: nat where "RevisionTypeDelete = 2"

definition RevisionTypeUpdate :: nat where "RevisionTypeUpdate = 4"

record child_type =
  ct_Lifecycle :: lifecycle
  ct_ParentWorkItemTypeID :: uuid
  ct_ChildWorkItemTypeID :: uuid
  ct_Position :: int

text \<open>
  The tables the operations touch: work items, revisions, number sequences, types and child types, the space
  template of each space, and the cache of types, which belongs to the process.
\<close>

record wi_db =
  db_items :: "work_item_storage list"
  db_revisions :: "revision list"
  db_sequences :: "uuid \<rightharpoonup> int"
  db_types :: "work_item_type list"
  db_childTypes :: "child_type list"
  db_spaces :: "(uuid \<times> uuid) list"
  db_cache :: wit_cache

type_synonym 'a repo = "(wi_db, 'a) action"

text \<open>
  The tables of other repositories that a change of type only reads, as lookups by the stored value: the
  user name and the user of an identity, the full name of a user, the names of areas, iterations, board
  columns and labels, and the URL of a codebase.
\<close>

record relations =
  rel_identity :: "goval \<Rightarrow> (string \<times> uuid option) option"
  rel_user :: "uuid option \<Rightarrow> string option"
  rel_area :: "goval \<Rightarrow> (string \<times> path) option"
  rel_iteration :: "goval \<Rightarrow> (string \<times> path) option"
  rel_column :: "goval \<Rightarrow> string option"
  rel_codebase :: "goval \<Rightarrow> string option"
  rel_label :: "goval \<Rightarrow> string option"

text \<open>
  The environment: the database, the field conversions, the text of an error, \<^verbatim>\<open>fmt.Sprint\<close>, what the
  JSON columns make of a field map, and those tables.
\<close>

record repo_env =
  re_db :: db_env
  re_field :: field_env
  re_text :: "go_error \<Rightarrow> string"
  re_sprint :: "goval \<Rightarrow> string"
  re_jsonb :: "fields \<Rightarrow> fields"
  re_rel :: relations

abbreviation re_uuid :: "repo_env \<Rightarrow> uuid_lib" where
  "re_uuid R \<equiv> fe_uuid (re_field R)"

definition rollback_db :: "wi_db \<Rightarrow> wi_db \<Rightarrow> wi_db" where
  "rollback_db s t = s\<lparr>db_cache := db_cache t\<rparr>"

section \<open>Work item types\<close>

definition loadChildTypeList :: "repo_env \<Rightarrow> uuid \<Rightarrow> uuid list repo" where
  "loadChildTypeList R parentTypeID =
     act_bind (statement (re_db R) ''child types'' NewInternalError) (\<lambda>_.
     act_gets (\<lambda>s. Ok (map ct_ChildWorkItemTypeID
       (sort_key ct_Position
         (filter (\<lambda>c. alive (ct_Lifecycle c) \<and> ct_ParentWorkItemTypeID c = parentTypeID) (db_childTypes s))))))"

definition find_type :: "uuid \<Rightarrow> wi_db \<Rightarrow> work_item_type option" where
  "find_type i s = first_row wt_ID (filter (\<lambda>t. alive (wt_Lifecycle t) \<and> wt_ID t = i) (db_types s))"

definition WITR_Load :: "repo_env \<Rightarrow> uuid \<Rightarrow> work_item_type repo" where
  "WITR_Load R i =
     act_bind (act_gets (\<lambda>s. Ok (Cache_Get (db_cache s) i))) (\<lambda>cached.
     case cached of
       Some t \<Rightarrow> act_return t
     | None \<Rightarrow>
         act_bind (statement (re_db R) ''type'' NewInternalError) (\<lambda>_.
         act_bind (act_gets (\<lambda>s. case find_type i s of
             None \<Rightarrow> Err (NewNotFoundError ''work item type'' (uString (re_uuid R) i))
           | Some t \<Rightarrow> Ok t)) (\<lambda>t.
         act_bind (act_map_err (EWrap ''failed to load child types for WIT'') (loadChildTypeList R (wt_ID t))) (\<lambda>childTypes.
         let res = t\<lparr>wt_ChildTypeIDs := childTypes\<rparr> in
         act_bind (act_modify (\<lambda>s. s\<lparr>db_cache := Cache_Put (db_cache s) res\<rparr>)) (\<lambda>_. act_return res)))))"

definition WITR_CheckExists :: "repo_env \<Rightarrow> uuid \<Rightarrow> unit repo" where
  "WITR_CheckExists R i =
     act_bind (act_gets (\<lambda>s. Ok (Cache_Get (db_cache s) i))) (\<lambda>cached.
     if cached \<noteq> None then act_return ()
     else CheckExists (re_uuid R) (re_db R) ''work_item_types''
            (\<lambda>s. map wt_ID (filter (\<lambda>t. alive (wt_Lifecycle t)) (db_types s))) i)"

definition ClearGlobalWorkItemTypeCache :: "unit repo" where
  "ClearGlobalWorkItemTypeCache = act_modify (\<lambda>s. s\<lparr>db_cache := Cache_Clear (db_cache s)\<rparr>)"

text \<open>Adding the definitions of a new type to those it inherits.\<close>

fun merge_fields :: "field_definitions \<Rightarrow> field_definitions \<Rightarrow> field_definitions res" where
  "merge_fields [] allFields = Ok allFields"
| "merge_fields ((field, def) # rest) allFields =
     res_bind (case map_of allFields field of
                 None \<Rightarrow> Ok True | Some existing \<Rightarrow> compatibleFields existing def) (\<lambda>compatible.
       if compatible then merge_fields rest (AList.update field def allFields)
       else Err (EErrorf (''incompatible change for field '' @ field)))"

definition CreateFromModel :: "repo_env \<Rightarrow> work_item_type \<Rightarrow> work_item_type repo" where
  "CreateFromModel R model0 =
     (let model = (if wt_ID model0 = uuid_Nil then model0\<lparr>wt_ID := env_newID (re_db R) ''type''\<rparr> else model0);
          path = LtreeSafeID (re_uuid R) (wt_ID model)
      in act_bind
           (if wt_Extends model \<noteq> uuid_Nil then
              act_bind (statement (re_db R) ''extended type'' NewInternalError) (\<lambda>_.
              act_gets (\<lambda>s. case find_type (wt_Extends model) s of
                  None \<Rightarrow> Err (NewBadParameterError ''extendedTypeID'' (VUUID (wt_Extends model)))
                | Some extended \<Rightarrow> Ok (wt_Fields extended, wt_Path extended @ pathSep @ path)))
            else act_return ([], path)) (\<lambda>(inherited, path).
         act_bind (act_lift (merge_fields (wt_Fields model) inherited)) (\<lambda>allFields.
         let new = model\<lparr>wt_Version := 0, wt_Path := path, wt_Fields := allFields,
                         wt_Lifecycle := created (re_db R)\<rparr> in
         act_bind (statement (re_db R) ''insert type'' NewInternalError) (\<lambda>_.
         act_bind (act_modify (\<lambda>s. s\<lparr>db_types := db_types s @ [new\<lparr>wt_Extends := uuid_Nil, wt_ChildTypeIDs := []\<rparr>]\<rparr>)) (\<lambda>_.
         act_return new)))))"

definition WITR_Create ::
  "repo_env \<Rightarrow> uuid \<Rightarrow> uuid option \<Rightarrow> uuid option \<Rightarrow> string \<Rightarrow> string option \<Rightarrow> string
     \<Rightarrow> field_definitions \<Rightarrow> bool \<Rightarrow> work_item_type repo" where
  "WITR_Create R spaceTemplateID i extendedTypeID name description icon fieldDefs canConstruct =
     CreateFromModel R
       \<lparr>wt_Lifecycle = \<lparr>lc_CreatedAt = zero_time, lc_UpdatedAt = zero_time, lc_DeletedAt = None\<rparr>,
        wt_ID = (case i of Some x \<Rightarrow> x | None \<Rightarrow> env_newID (re_db R) ''type''),
        wt_Name = name, wt_Description = description, wt_Icon = icon, wt_Version = 0, wt_Path = [],
        wt_Fields = fieldDefs, wt_SpaceTemplateID = spaceTemplateID,
        wt_Extends = (case extendedTypeID of Some x \<Rightarrow> x | None \<Rightarrow> uuid_Nil),
        wt_CanConstruct = canConstruct, wt_ChildTypeIDs = []\<rparr>"

fun insert_child_types :: "repo_env \<Rightarrow> uuid \<Rightarrow> int \<Rightarrow> uuid list \<Rightarrow> unit repo" where
  "insert_child_types R parent idx [] = act_return ()"
| "insert_child_types R parent idx (i # is) =
     act_bind (statement (re_db R) ''insert child type'' NewInternalError) (\<lambda>_.
     act_bind (act_modify (\<lambda>s. s\<lparr>db_childTypes := db_childTypes s @
       [\<lparr>ct_Lifecycle = created (re_db R), ct_ParentWorkItemTypeID = parent,
         ct_ChildWorkItemTypeID = i, ct_Position = idx\<rparr>]\<rparr>)) (\<lambda>_.
     insert_child_types R parent (idx + 1) is))"

definition AddChildTypes :: "repo_env \<Rightarrow> uuid \<Rightarrow> uuid list \<Rightarrow> unit repo" where
  "AddChildTypes R parentTypeID childTypeIDs =
     (if childTypeIDs = [] then act_return ()
      else act_bind (insert_child_types R parentTypeID 0 childTypeIDs) (\<lambda>_. ClearGlobalWorkItemTypeCache))"

section \<open>Revisions and numbers\<close>

definition Revision_Create :: "repo_env \<Rightarrow> uuid \<Rightarrow> nat \<Rightarrow> work_item_storage \<Rightarrow> revision repo" where
  "Revision_Create R modifierID revisionType wi =
     (let rev = \<lparr>wr_ID = env_newID (re_db R) ''revision'', wr_Time = env_now (re_db R), wr_Type = revisionType,
                 wr_ModifierIdentity = modifierID, wr_WorkItemID = wi_ID wi, wr_WorkItemTypeID = wi_Type wi,
                 wr_WorkItemVersion = wi_Version wi,
                 wr_WorkItemFields = (if revisionType = RevisionTypeDelete then [] else wi_Fields wi)\<rparr>
      in act_bind (statement (re_db R) ''insert revision''
                     (\<lambda>e. NewInternalError (EWrap ''failed to create new work item revision'' e))) (\<lambda>_.
         act_bind (act_modify (\<lambda>s. s\<lparr>db_revisions := db_revisions s @ [rev]\<rparr>)) (\<lambda>_. act_return rev)))"

text \<open>The fields of a revision are read back from a JSON column.\<close>

definition Revision_List :: "repo_env \<Rightarrow> uuid \<Rightarrow> revision list repo" where
  "Revision_List R workitemID =
     act_bind (statement (re_db R) ''revisions''
                 (\<lambda>e. NewInternalError (EWrap ''failed to retrieve work item revisions'' e))) (\<lambda>_.
     act_gets (\<lambda>s. Ok (map (\<lambda>r. r\<lparr>wr_WorkItemFields := re_jsonb R (wr_WorkItemFields r)\<rparr>)
       (sort_key (\<lambda>r. fst (wr_Time r)) (filter (\<lambda>r. wr_WorkItemID r = workitemID) (db_revisions s))))))"

text \<open>The upsert of the sequence: the first number of a space is 1.\<close>

definition NextVal :: "repo_env \<Rightarrow> uuid \<Rightarrow> int repo" where
  "NextVal R spaceID =
     act_bind (statement (re_db R) ''next number''
                 (EWrap (''failed to obtain next val for space with ID='' @ uString (re_uuid R) spaceID))) (\<lambda>_.
     act_bind (act_modify (\<lambda>s. s\<lparr>db_sequences := (db_sequences s)(spaceID \<mapsto>
         (case db_sequences s spaceID of None \<Rightarrow> 1 | Some n \<Rightarrow> n + 1))\<rparr>)) (\<lambda>_.
     act_gets (\<lambda>s. Ok (the (db_sequences s spaceID)))))"

section \<open>Loading work items\<close>

definition live_items :: "wi_db \<Rightarrow> work_item_storage list" where
  "live_items s = filter (\<lambda>w. alive (wi_Lifecycle w)) (db_items s)"

definition work_item_not_found :: "repo_env \<Rightarrow> uuid \<Rightarrow> go_error" where
  "work_item_not_found R i = NewNotFoundError ''work item'' (uString (re_uuid R) i)"

definition LoadFromDB :: "repo_env \<Rightarrow> uuid \<Rightarrow> work_item_storage repo" where
  "LoadFromDB R i =
     act_bind (statement (re_db R) ''work item'' NewInternalError) (\<lambda>_.
     act_gets (\<lambda>s. case first_row wi_ID (filter (\<lambda>w. wi_ID w = i) (live_items s)) of
         None \<Rightarrow> Err (work_item_not_found R i)
       | Some w \<Rightarrow> Ok w))"

definition LoadBatchFromDB :: "repo_env \<Rightarrow> uuid list \<Rightarrow> work_item_storage list repo" where
  "LoadBatchFromDB R ids =
     act_bind (statement (re_db R) ''work items'' NewInternalError) (\<lambda>_.
     act_gets (\<lambda>s. Ok (filter (\<lambda>w. wi_ID w \<in> set ids) (live_items s))))"

definition to_model :: "repo_env \<Rightarrow> work_item_type \<Rightarrow> work_item_storage \<Rightarrow> work_item res" where
  "to_model R t w = ConvertWorkItemStorageToModel (re_field R) (re_text R) t w"

definition LoadByID :: "repo_env \<Rightarrow> uuid \<Rightarrow> work_item repo" where
  "LoadByID R i =
     act_bind (act_map_err (EWrap []) (LoadFromDB R i)) (\<lambda>res.
     act_bind (act_map_err NewInternalError (WITR_Load R (wi_Type res))) (\<lambda>wiType.
     act_lift (to_model R wiType res)))"

text \<open>A work item that cannot be converted is logged and appended as a nil pointer.\<close>

fun convert_batch :: "repo_env \<Rightarrow> work_item_storage list \<Rightarrow> work_item option list repo" where
  "convert_batch R [] = act_return []"
| "convert_batch R (ele # rest) =
     act_bind (act_map_err NewInternalError (WITR_Load R (wi_Type ele))) (\<lambda>wiType.
     act_bind (act_lift (case to_model R wiType ele of Ok w \<Rightarrow> Ok (Some w) | Err _ \<Rightarrow> Ok None | Panic \<Rightarrow> Panic)) (\<lambda>w.
     act_bind (convert_batch R rest) (\<lambda>ws. act_return (w # ws))))"

definition LoadBatchByID :: "repo_env \<Rightarrow> uuid list \<Rightarrow> work_item option list repo" where
  "LoadBatchByID R ids =
     act_bind (act_map_err (EWrap []) (LoadBatchFromDB R ids)) (convert_batch R)"

definition loadWorkItemStorage :: "repo_env \<Rightarrow> uuid \<Rightarrow> 64 word \<Rightarrow> (work_item_storage \<times> work_item_type) repo" where
  "loadWorkItemStorage R spaceID wiNumber =
     act_bind (statement (re_db R) ''work item by number'' NewInternalError) (\<lambda>_.
     act_bind (act_gets (\<lambda>s.
       case first_row wi_ID (filter (\<lambda>w. wi_Number w = wiNumber \<and> wi_SpaceID w = spaceID) (live_items s)) of
         None \<Rightarrow> Err (NewNotFoundError ''work item'' (itoa (sint wiNumber)))
       | Some w \<Rightarrow> Ok w)) (\<lambda>wiStorage.
     act_bind (act_map_err NewInternalError (WITR_Load R (wi_Type wiStorage))) (\<lambda>wiType.
     act_return (wiStorage, wiType))))"

definition WIR_Load :: "repo_env \<Rightarrow> uuid \<Rightarrow> 64 word \<Rightarrow> work_item repo" where
  "WIR_Load R spaceID wiNumber =
     act_bind (loadWorkItemStorage R spaceID wiNumber) (\<lambda>(wiStorage, wiType). act_lift (to_model R wiType wiStorage))"

definition WIR_CheckExists :: "repo_env \<Rightarrow> uuid \<Rightarrow> unit repo" where
  "WIR_CheckExists R i = CheckExists (re_uuid R) (re_db R) ''work_items'' (\<lambda>s. map wi_ID (live_items s)) i"

text \<open>
  The aggregates of the order queries run over every row of the space, deleted or not; the outer query
  over the rows that are not deleted, of any space.
\<close>

definition zero_storage :: work_item_storage where
  "zero_storage = \<lparr>wi_Lifecycle = \<lparr>lc_CreatedAt = zero_time, lc_UpdatedAt = zero_time, lc_DeletedAt = None\<rparr>,
     wi_ID = uuid_Nil, wi_Number = 0, wi_Type = uuid_Nil, wi_Version = 0, wi_Fields = [],
     wi_ExecutionOrder = 0, wi_SpaceID = uuid_Nil, wi_RelationShipsChangedAt = None\<rparr>"

fun best_order :: "(float64 \<Rightarrow> float64 \<Rightarrow> bool) \<Rightarrow> float64 list \<Rightarrow> float64 option" where
  "best_order better [] = None"
| "best_order better (x # xs) =
     (case best_order better xs of None \<Rightarrow> Some x | Some y \<Rightarrow> Some (if better y x then y else x))"

definition orders_where :: "(work_item_storage \<Rightarrow> bool) \<Rightarrow> wi_db \<Rightarrow> float64 list" where
  "orders_where p s = map wi_ExecutionOrder (filter p (db_items s))"

definition item_with_order :: "float64 option \<Rightarrow> wi_db \<Rightarrow> work_item_storage option" where
  "item_with_order ord s =
     (case ord of
        None \<Rightarrow> None
      | Some x \<Rightarrow> first_row wi_ID (filter (\<lambda>w. f_eq (wi_ExecutionOrder w) x) (live_items s)))"

definition max_order :: "uuid \<Rightarrow> wi_db \<Rightarrow> float64 option" where
  "max_order spaceID s = best_order (\<lambda>a b. f_less b a) (orders_where (\<lambda>w. wi_SpaceID w = spaceID) s)"

definition min_order :: "uuid \<Rightarrow> wi_db \<Rightarrow> float64 option" where
  "min_order spaceID s = best_order f_less (orders_where (\<lambda>w. wi_SpaceID w = spaceID) s)"

definition load_extreme :: "repo_env \<Rightarrow> (wi_db \<Rightarrow> float64 option) \<Rightarrow> work_item_storage repo" where
  "load_extreme R ord =
     act_bind (statement (re_db R) ''extreme order'' NewInternalError) (\<lambda>_.
     act_gets (\<lambda>s. Ok (case item_with_order (ord s) s of None \<Rightarrow> zero_storage | Some w \<Rightarrow> w)))"

definition LoadTopWorkitem :: "repo_env \<Rightarrow> uuid \<Rightarrow> work_item repo" where
  "LoadTopWorkitem R spaceID =
     act_bind (load_extreme R (max_order spaceID)) (\<lambda>res.
     act_bind (act_map_err NewInternalError (WITR_Load R (wi_Type res))) (\<lambda>wiType.
     act_lift (to_model R wiType res)))"

definition LoadBottomWorkitem :: "repo_env \<Rightarrow> uuid \<Rightarrow> work_item repo" where
  "LoadBottomWorkitem R spaceID =
     act_bind (load_extreme R (min_order spaceID)) (\<lambda>res.
     act_bind (act_map_err NewInternalError (WITR_Load R (wi_Type res))) (\<lambda>wiType.
     act_lift (to_model R wiType res)))"

text \<open>Printing a double and parsing it again gives the same double.\<close>

definition LoadHighestOrder :: "repo_env \<Rightarrow> uuid \<Rightarrow> float64 repo" where
  "LoadHighestOrder R spaceID =
     act_bind (load_extreme R (max_order spaceID)) (\<lambda>res. act_return (wi_ExecutionOrder res))"

section \<open>Deleting\<close>

definition delete_item :: "db_env \<Rightarrow> uuid \<Rightarrow> work_item_storage list \<Rightarrow> work_item_storage list" where
  "delete_item E i items =
     map (\<lambda>w. if wi_ID w = i \<and> alive (wi_Lifecycle w)
              then w\<lparr>wi_Lifecycle := removed E (wi_Lifecycle w)\<rparr> else w) items"

text \<open>The error of the first query is not looked at; then type and version are zero.\<close>

definition WIR_Delete :: "repo_env \<Rightarrow> uuid \<Rightarrow> uuid \<Rightarrow> unit repo" where
  "WIR_Delete R workitemID suppressorID =
     act_bind (act_gets (\<lambda>s. Ok (
       case (if env_fault (re_db R) ''version of work item'' = None
             then find (\<lambda>w. wi_ID w = workitemID) (live_items s) else None) of
         None \<Rightarrow> zero_storage\<lparr>wi_ID := workitemID\<rparr>
       | Some w \<Rightarrow> zero_storage\<lparr>wi_ID := workitemID, wi_Version := wi_Version w, wi_Type := wi_Type w\<rparr>))) (\<lambda>workItem.
     act_bind (statement (re_db R) ''delete work item'' NewInternalError) (\<lambda>_.
     act_bind (act_gets (\<lambda>s. if workitemID \<in> set (map wi_ID (live_items s)) then Ok ()
                             else Err (work_item_not_found R workitemID))) (\<lambda>_.
     act_bind (act_modify (\<lambda>s. s\<lparr>db_items := delete_item (re_db R) workitemID (db_items s)\<rparr>)) (\<lambda>_.
     act_bind (act_map_err (EWrap ''error while deleting work item'')
                 (Revision_Create R suppressorID RevisionTypeDelete workItem)) (\<lambda>_. act_return ())))))"

section \<open>Reordering\<close>

definition orderValue :: float64 where
  "orderValue = 0x408F400000000000"

definition DirectionAbove :: string where "DirectionAbove = ''above''"

definition DirectionBelow :: string where "DirectionBelow = ''below''"

definition DirectionTop :: string where "DirectionTop = ''top''"

definition DirectionBottom :: string where "DirectionBottom = ''bottom''"

lemmas direction_defs [go_simps] =
  DirectionAbove_def DirectionBelow_def DirectionTop_def DirectionBottom_def

definition CalculateOrder :: "float64 \<Rightarrow> float64 \<Rightarrow> float64" where
  "CalculateOrder aboveOrder belowOrder = f_half (f_add aboveOrder belowOrder)"

definition order_below :: "uuid \<Rightarrow> float64 \<Rightarrow> wi_db \<Rightarrow> float64 option" where
  "order_below spaceID ord s =
     best_order (\<lambda>a b. f_less b a)
       (orders_where (\<lambda>w. wi_SpaceID w = spaceID \<and> f_less (wi_ExecutionOrder w) ord) s)"

definition order_above :: "uuid \<Rightarrow> float64 \<Rightarrow> wi_db \<Rightarrow> float64 option" where
  "order_above spaceID ord s =
     best_order f_less (orders_where (\<lambda>w. wi_SpaceID w = spaceID \<and> f_less ord (wi_ExecutionOrder w)) s)"

definition FindSecondItem ::
  "repo_env \<Rightarrow> float64 \<Rightarrow> uuid \<Rightarrow> string \<Rightarrow> (uuid option \<times> float64 option) repo" where
  "FindSecondItem R ord spaceID secondItemDirection =
     (if secondItemDirection = DirectionAbove \<or> secondItemDirection = DirectionBelow then
        act_bind (statement (re_db R) ''second item'' NewInternalError) (\<lambda>_.
        act_gets (\<lambda>s.
          case item_with_order (if secondItemDirection = DirectionAbove then order_below spaceID ord s
                                else order_above spaceID ord s) s of
            None \<Rightarrow> Ok (Some uuid_Nil, None)
          | Some w \<Rightarrow> Ok (Some (wi_ID w), Some (wi_ExecutionOrder w))))
      else act_return (None, None))"

definition FindFirstItem :: "repo_env \<Rightarrow> uuid \<Rightarrow> uuid \<Rightarrow> float64 repo" where
  "FindFirstItem R spaceID i =
     act_bind (statement (re_db R) ''first item'' NewInternalError) (\<lambda>_.
     act_gets (\<lambda>s. case first_row wi_ID (filter (\<lambda>w. wi_ID w = i \<and> wi_SpaceID w = spaceID) (live_items s)) of
         None \<Rightarrow> Err (work_item_not_found R i)
       | Some w \<Rightarrow> Ok (wi_ExecutionOrder w)))"

text \<open>The assertion \<^verbatim>\<open>.(float64)\<close> on the order field.\<close>

definition order_field :: "work_item \<Rightarrow> float64 res" where
  "order_field wi = (case map_get (w_Fields wi) SystemOrder of VFloat f \<Rightarrow> Ok f | _ \<Rightarrow> Panic)"

definition beside_target ::
  "repo_env \<Rightarrow> uuid \<Rightarrow> string \<Rightarrow> uuid \<Rightarrow> work_item_storage \<Rightarrow> work_item \<Rightarrow> float64 repo" where
  "beside_target R spaceID direction targetID res wi =
     act_bind (act_map_err (\<lambda>_. work_item_not_found R targetID) (FindFirstItem R spaceID targetID)) (\<lambda>first.
     act_bind (act_map_err (\<lambda>_. work_item_not_found R targetID)
       (FindSecondItem R first spaceID (if direction = DirectionBelow then DirectionAbove else DirectionBelow))) (\<lambda>(i, second).
     case second of
       None \<Rightarrow> act_return (if direction = DirectionBelow then CalculateOrder first 0 else f_add first orderValue)
     | Some x \<Rightarrow>
         if i = Some (wi_ID res) then act_lift (order_field wi)
         else act_return (if direction = DirectionBelow then CalculateOrder first x else CalculateOrder x first)))"

definition at_end :: "repo_env \<Rightarrow> uuid \<Rightarrow> string \<Rightarrow> work_item \<Rightarrow> float64 repo" where
  "at_end R spaceID direction wi =
     act_bind (act_map_err (EWrap ''Failed to reorder'')
       (if direction = DirectionTop then LoadTopWorkitem R spaceID else LoadBottomWorkitem R spaceID)) (\<lambda>res.
     if w_ID wi = w_ID res then act_lift (order_field wi)
     else act_bind (act_lift (order_field res)) (\<lambda>x.
       act_return (if direction = DirectionTop then f_add x orderValue else f_half x)))"

definition target_error :: "string \<Rightarrow> go_error" where
  "target_error expected = Expected (NewBadParameterError ''target ID'' VNil) (VString expected)"

definition new_order ::
  "repo_env \<Rightarrow> uuid \<Rightarrow> string \<Rightarrow> uuid option \<Rightarrow> work_item_storage \<Rightarrow> work_item \<Rightarrow> float64 repo" where
  "new_order R spaceID direction targetID res wi =
     (if direction = DirectionBelow \<or> direction = DirectionAbove then
        (case targetID of
           None \<Rightarrow> act_fail (target_error ''not nil'')
         | Some t \<Rightarrow> beside_target R spaceID direction t res wi)
      else
        (case targetID of
           Some t \<Rightarrow> act_fail (Expected (NewBadParameterError ''target ID'' (VUUID t)) (VString ''nil''))
         | None \<Rightarrow> at_end R spaceID direction wi))"

text \<open>The fields that are stored: every field that is not read-only, converted by its definition.\<close>

fun store_fields :: "repo_env \<Rightarrow> field_definitions \<Rightarrow> fields \<Rightarrow> fields \<Rightarrow> fields res" where
  "store_fields R [] vals acc = Ok acc"
| "store_fields R ((name, def) # rest) vals acc =
     (if fd_ReadOnly def then store_fields R rest vals acc
      else let v = map_get vals name in
        (case FieldDefinition_ConvertToModel (re_field R) def name v of
           Ok m \<Rightarrow> store_fields R rest vals (AList.update name m acc)
         | Err _ \<Rightarrow> Err (NewBadParameterError name v)
         | Panic \<Rightarrow> Panic))"

text \<open>
  The update of a row under the condition that it still has the version the client knows; no
  row is a version conflict.
\<close>

definition save_item :: "repo_env \<Rightarrow> 64 word \<Rightarrow> work_item_storage \<Rightarrow> work_item_storage repo" where
  "save_item R version w =
     (let new = w\<lparr>wi_Lifecycle := touched (re_db R) (wi_Lifecycle w)\<rparr>;
          hit = (\<lambda>x. wi_ID x = wi_ID w \<and> wi_Version x = version \<and> alive (wi_Lifecycle x))
      in act_bind (statement (re_db R) ''update work item'' NewInternalError) (\<lambda>_.
         act_bind (act_gets (\<lambda>s. if list_ex hit (db_items s) then Ok ()
                                 else Err (NewVersionConflictError ''version conflict''))) (\<lambda>_.
         act_bind (act_modify (\<lambda>s. s\<lparr>db_items :=
             map (\<lambda>x. if hit x then new\<lparr>wi_Fields := re_jsonb R (wi_Fields new)\<rparr> else x) (db_items s)\<rparr>)) (\<lambda>_.
         act_return new))))"

definition Reorder ::
  "repo_env \<Rightarrow> uuid \<Rightarrow> string \<Rightarrow> uuid option \<Rightarrow> work_item \<Rightarrow> uuid \<Rightarrow> work_item repo" where
  "Reorder R spaceID direction targetID wi modifierID =
     act_bind (LoadFromDB R (w_ID wi)) (\<lambda>res.
     if wi_Version res \<noteq> w_Version wi then act_fail (NewVersionConflictError ''version conflict'')
     else act_bind (act_map_err (\<lambda>_. NewBadParameterError ''Type'' (VUUID (w_Type wi))) (WITR_Load R (w_Type wi))) (\<lambda>wiType.
     if direction \<notin> {DirectionBelow, DirectionAbove, DirectionTop, DirectionBottom} then act_return wi
     else act_bind (new_order R spaceID direction targetID res wi) (\<lambda>ord.
     act_bind (act_lift (store_fields R (wt_Fields wiType) (w_Fields wi) [])) (\<lambda>fs.
     act_bind (save_item R (w_Version wi)
       (res\<lparr>wi_Version := wi_Version res + 1, wi_Type := w_Type wi, wi_Fields := fs, wi_ExecutionOrder := ord\<rparr>)) (\<lambda>saved.
     act_bind (Revision_Create R modifierID RevisionTypeUpdate saved) (\<lambda>_.
     act_lift (to_model R wiType saved)))))))"

section \<open>Creating\<close>

definition CheckTypeAndSpaceShareTemplate :: "repo_env \<Rightarrow> work_item_type \<Rightarrow> uuid \<Rightarrow> bool repo" where
  "CheckTypeAndSpaceShareTemplate R wit spaceID =
     (if \<not> wt_CanConstruct wit then
        act_fail (NewForbiddenError (''cannot construct work items from '' @ wt_Name wit))
      else act_bind (statement (re_db R) ''template of space''
             (\<lambda>e. NewInternalError (EWrap (''unable to verify if '' @ uString (re_uuid R) (wt_ID wit) @ '' exists'') e))) (\<lambda>_.
        act_gets (\<lambda>s.
          if list_ex (\<lambda>t. wt_ID t = wt_ID wit \<and>
                          map_of (db_spaces s) spaceID = Some (wt_SpaceTemplateID t)) (db_types s)
          then Ok True
          else Err (NewBadParameterErrorFromString
            (''Workitem Type '' @ wt_Name wit @ '' does not belong to the current space template'')))))"

fun create_fields :: "repo_env \<Rightarrow> field_definitions \<Rightarrow> fields \<Rightarrow> fields \<Rightarrow> fields res" where
  "create_fields R [] vals acc = Ok acc"
| "create_fields R ((name, def) # rest) vals acc =
     (if fd_ReadOnly def then create_fields R rest vals acc
      else let v = map_get vals name in
        (case FieldDefinition_ConvertToModel (re_field R) def name v of
           Err _ \<Rightarrow> Err (NewBadParameterError name v)
         | Panic \<Rightarrow> Panic
         | Ok m \<Rightarrow>
             let acc' = (if GetKind (fd_Type def) = KindList \<and> v = VNil then AList.delete name acc
                         else AList.update name m acc);
                 stored = map_get acc' name in
             if name = SystemDescription \<and> stored \<noteq> VNil then
               (case stored of
                  VMap m' \<Rightarrow>
                    res_bind (NewMarkupContentFromMap m') (\<lambda>description.
                      if IsMarkupSupported (mc_Markup description) then create_fields R rest vals acc'
                      else Err (NewBadParameterError name v))
                | _ \<Rightarrow> Panic)
             else create_fields R rest vals acc'))"

definition WIR_Create ::
  "repo_env \<Rightarrow> uuid \<Rightarrow> uuid \<Rightarrow> fields \<Rightarrow> uuid \<Rightarrow> (work_item \<times> revision) repo" where
  "WIR_Create R spaceID typeID vals creatorID =
     act_bind (act_map_err (\<lambda>_. NewBadParameterError ''typeID'' (VUUID typeID)) (WITR_Load R typeID)) (\<lambda>wiType.
     act_bind (CheckTypeAndSpaceShareTemplate R wiType spaceID) (\<lambda>_.
     act_bind (act_map_err NewInternalError (LoadHighestOrder R spaceID)) (\<lambda>highest.
     act_bind (act_map_err NewInternalError (NextVal R spaceID)) (\<lambda>number.
     act_bind (act_lift (create_fields R (wt_Fields wiType)
       (AList.update SystemCreator (VString (uString (re_uuid R) creatorID)) vals) [])) (\<lambda>fs.
     let wi = \<lparr>wi_Lifecycle = created (re_db R), wi_ID = env_newID (re_db R) ''work item'',
               wi_Number = word_of_int number, wi_Type = typeID, wi_Version = 0, wi_Fields = fs,
               wi_ExecutionOrder = f_add highest orderValue, wi_SpaceID = spaceID,
               wi_RelationShipsChangedAt = None\<rparr> in
     act_bind (statement (re_db R) ''insert work item'' (EWrap ''failed to create work item'')) (\<lambda>_.
     act_bind (act_modify (\<lambda>s. s\<lparr>db_items := db_items s @ [wi\<lparr>wi_Fields := re_jsonb R fs\<rparr>]\<rparr>)) (\<lambda>_.
     act_bind (act_lift (to_model R wiType wi)) (\<lambda>witem.
     act_bind (act_map_err (EWrap ''error while creating work item'')
       (Revision_Create R creatorID RevisionTypeCreate wi)) (\<lambda>rev.
     act_return (witem, rev))))))))))"

section \<open>Changing the type\<close>

definition not_found_row :: "string \<Rightarrow> 'a option \<Rightarrow> 'a res" where
  "not_found_row msg r =
     (case r of Some x \<Rightarrow> Ok x | None \<Rightarrow> Err (EWrap msg (EErrorf ''record not found'')))"

definition named_path :: "repo_env \<Rightarrow> string \<times> path \<Rightarrow> string" where
  "named_path R n = fst n @ '' ('' @ Path_String (re_uuid R) (snd n) @ '')''"

definition getValueOfRelationalKind :: "repo_env \<Rightarrow> goval \<Rightarrow> kind \<Rightarrow> string res" where
  "getValueOfRelationalKind R val kind =
     (case kind of
        KindList \<Rightarrow> Err (NewInternalErrorFromString ''cannot resolve relational value for KindList or KindEnum'')
      | KindEnum \<Rightarrow> Err (NewInternalErrorFromString ''cannot resolve relational value for KindList or KindEnum'')
      | KindUser \<Rightarrow>
          res_bind (not_found_row ''failed to find identity'' (rel_identity (re_rel R) val)) (\<lambda>(username, userID).
          res_bind (not_found_row ''failed to find user'' (rel_user (re_rel R) userID)) (\<lambda>fullName.
            Ok (fullName @ '' ('' @ username @ '')'')))
      | KindArea \<Rightarrow>
          res_bind (not_found_row ''failed to find area'' (rel_area (re_rel R) val)) (\<lambda>a. Ok (named_path R a))
      | KindBoardColumn \<Rightarrow> not_found_row ''failed to find boardcolumn'' (rel_column (re_rel R) val)
      | KindIteration \<Rightarrow>
          res_bind (not_found_row ''failed to find iteration'' (rel_iteration (re_rel R) val)) (\<lambda>a. Ok (named_path R a))
      | KindCodebase \<Rightarrow> not_found_row ''failed to find codebase'' (rel_codebase (re_rel R) val)
      | KindLabel \<Rightarrow> not_found_row ''failed to find area'' (rel_label (re_rel R) val)
      | _ \<Rightarrow> Err (NewInternalErrorFromString ''unknown field Kind''))"

text \<open>The fields that the new type keeps, and those it does not with their old values.\<close>

fun diff_fields :: "field_env \<Rightarrow> field_definitions \<Rightarrow> field_definitions \<Rightarrow> fields \<times> fields \<Rightarrow> (fields \<times> fields) res" where
  "diff_fields E newDefs [] acc = Ok acc"
| "diff_fields E newDefs ((name, def) # rest) (fs, diff) =
     (let v = map_get fs name;
          drop_it = diff_fields E newDefs rest (AList.delete name fs, AList.update name v diff) in
      if name = SystemMetaState then diff_fields E newDefs rest (fs, diff)
      else case map_of newDefs name of
        Some new \<Rightarrow>
          (case ConvertToModelWithType E (base_simple (fd_Type def)) (fd_Type new) v of
             Ok v' \<Rightarrow> diff_fields E newDefs rest (AList.update name v' fs, diff)
           | Err _ \<Rightarrow> drop_it
           | Panic \<Rightarrow> Panic)
      | None \<Rightarrow> if v \<noteq> VNil then drop_it else diff_fields E newDefs rest (fs, diff))"

definition value_text :: "repo_env \<Rightarrow> string \<Rightarrow> kind \<Rightarrow> goval \<Rightarrow> string res" where
  "value_text R name k v =
     (if IsRelational k
      then map_err (EWrap (''failed to get relational value for field '' @ name)) (getValueOfRelationalKind R v k)
      else Ok (re_sprint R v))"

definition field_text :: "repo_env \<Rightarrow> string \<Rightarrow> field_definition \<Rightarrow> goval \<Rightarrow> string res" where
  "field_text R name def v =
     res_bind (if GetKind (fd_Type def) = KindEnum
               then (case fd_Type def of
                       FEnum t \<Rightarrow> Ok (st_Kind (et_BaseType t))
                     | _ \<Rightarrow> Err (EErrorf (''failed to convert field '' @ name @ '' to enum type'')))
               else Ok (GetKind (fd_Type def))) (\<lambda>oldKind.
       if oldKind \<noteq> KindList then value_text R name oldKind v
       else case fd_Type def of
         FList l \<Rightarrow>
           (case v of
              VSlice vs \<Rightarrow>
                res_bind (map_res (value_text R name (st_Kind (lt_ComponentType l))) vs) (\<lambda>ts. Ok (Join ts '', ''))
            | VNilSlice \<Rightarrow> Ok []
            | _ \<Rightarrow> Err (EErrorf (''failed to convert list value of field '' @ name)))
       | _ \<Rightarrow> Err (EErrorf (''failed to convert field '' @ name @ '' to list type'')))"

fun describe_fields ::
  "repo_env \<Rightarrow> field_definitions \<Rightarrow> fields \<Rightarrow> string list \<Rightarrow> (string \<times> string) list \<Rightarrow> (string \<times> string) list res" where
  "describe_fields R oldDefs diff [] acc = Ok acc"
| "describe_fields R oldDefs diff (name # names) acc =
     (case map_of oldDefs name of
        None \<Rightarrow> Panic
      | Some def \<Rightarrow>
          res_bind (field_text R name def (map_get diff name)) (\<lambda>t.
            describe_fields R oldDefs diff names (AList.update (fd_Label def) t acc)))"

text \<open>The template ranges over a Go map in the order of its keys.\<close>

definition description_text :: "string \<Rightarrow> (string \<times> string) list \<Rightarrow> string \<Rightarrow> string" where
  "description_text newTypeName fieldNameValues originalDescription =
     ''```'' @ [CHR 0x0A] @ ''Missing fields in workitem type: '' @ newTypeName @ [CHR 0x0A] @
     concat (map (\<lambda>(k, v). [CHR 0x0A] @ k @ '' : '' @ v) (sort_key fst fieldNameValues)) @ [CHR 0x0A] @
     ''```'' @ [CHR 0x0A] @ originalDescription @ [CHR 0x0A]"

fun default_fields :: "field_env \<Rightarrow> field_definitions \<Rightarrow> fields \<Rightarrow> fields res" where
  "default_fields E [] fs = Ok fs"
| "default_fields E ((name, def) # rest) fs =
     (if name = SystemMetaState then default_fields E rest fs
      else res_bind (map_err (EWrap (''failed to convert field '' @ name))
                       (FieldDefinition_ConvertToModel E def name (map_get fs name))) (\<lambda>v.
             default_fields E rest (AList.update name v fs)))"

definition changed_fields :: "repo_env \<Rightarrow> work_item_type \<Rightarrow> work_item_type \<Rightarrow> fields \<Rightarrow> fields res" where
  "changed_fields R oldT newT fs0 =
     res_bind (diff_fields (re_field R) (wt_Fields newT) (wt_Fields oldT) (fs0, [])) (\<lambda>(fs, diff).
     res_bind
       (if diff = [] then Ok fs
        else let old = (if map_get fs SystemDescription = VNil then VString [] else map_get fs SystemDescription) in
          res_bind (NewMarkupContentFromValue old) (\<lambda>original.
            case original of
              None \<Rightarrow> Panic
            | Some original \<Rightarrow>
                res_bind (describe_fields R (wt_Fields oldT) diff (sort (map fst diff)) []) (\<lambda>labels.
                  Ok (AList.update SystemDescription
                        (VMarkup (NewMarkupContent (description_text (wt_Name newT) labels (mc_Content original))
                                   SystemMarkupMarkdown)) fs)))) (\<lambda>fs.
     default_fields (re_field R) (wt_Fields newT) fs))"

definition ChangeWorkItemType ::
  "repo_env \<Rightarrow> work_item_storage \<Rightarrow> work_item_type \<Rightarrow> work_item_type \<Rightarrow> uuid \<Rightarrow> work_item_storage repo" where
  "ChangeWorkItemType R wiStorage oldT newT spaceID =
     act_bind (act_map_err (EWrap ''failed to check workitem type'')
                 (CheckTypeAndSpaceShareTemplate R newT spaceID)) (\<lambda>_.
     act_bind (act_lift (changed_fields R oldT newT (wi_Fields wiStorage))) (\<lambda>fs.
     act_return (wiStorage\<lparr>wi_Fields := fs, wi_Type := wt_ID newT\<rparr>)))"

section \<open>Saving\<close>

definition empty_list :: "goval \<Rightarrow> bool" where
  "empty_list v \<longleftrightarrow> v \<in> {VStrSlice [], VSlice [], VNilSlice}"

fun save_fields :: "repo_env \<Rightarrow> field_definitions \<Rightarrow> fields \<Rightarrow> fields \<Rightarrow> fields res" where
  "save_fields R [] vals acc = Ok acc"
| "save_fields R ((name, def) # rest) vals acc =
     (if fd_ReadOnly def then save_fields R rest vals acc
      else let v = map_get vals name in
        if GetKind (fd_Type def) = KindList \<and> empty_list v then save_fields R rest vals (AList.delete name acc)
        else (case FieldDefinition_ConvertToModel (re_field R) def name v of
           Ok m \<Rightarrow> save_fields R rest vals (AList.update name m acc)
         | Err _ \<Rightarrow> Err (NewBadParameterError name v)
         | Panic \<Rightarrow> Panic))"

definition change_type ::
  "repo_env \<Rightarrow> uuid \<Rightarrow> uuid \<Rightarrow> work_item_storage \<Rightarrow> work_item_type \<Rightarrow> (work_item_storage \<times> work_item_type) repo" where
  "change_type R spaceID newType w wiType =
     (if wi_Type w = newType then act_return (w, wiType)
      else act_bind (act_map_err (EWrap (''failed to load workitemtype: '' @ uString (re_uuid R) newType))
                       (WITR_Load R newType)) (\<lambda>newWiType.
           act_bind (act_map_err (EWrap (''unable to change workitem type from '' @ wt_Name wiType))
                       (ChangeWorkItemType R w wiType newWiType spaceID)) (\<lambda>w'.
           act_return (w', newWiType))))"

definition WIR_Save :: "repo_env \<Rightarrow> uuid \<Rightarrow> work_item \<Rightarrow> uuid \<Rightarrow> (work_item \<times> revision) repo" where
  "WIR_Save R spaceID updated modifierID =
     act_bind (loadWorkItemStorage R spaceID (w_Number updated)) (\<lambda>(wiStorage, wiType).
     if wi_Version wiStorage \<noteq> w_Version updated then act_fail (NewVersionConflictError ''version conflict'')
     else act_bind (act_lift (save_fields R (wt_Fields wiType) (w_Fields updated) [])) (\<lambda>fs.
     act_bind (change_type R spaceID (w_Type updated)
                 (wiStorage\<lparr>wi_Version := wi_Version wiStorage + 1, wi_Fields := fs\<rparr>) wiType) (\<lambda>(w, wiType).
     act_bind (save_item R (w_Version updated) w) (\<lambda>saved.
     act_bind (act_map_err (EWrap ''error while saving work item'')
                 (Revision_Create R modifierID RevisionTypeUpdate saved)) (\<lambda>rev.
     act_bind (act_map_err (EWrap []) (act_lift (to_model R wiType saved))) (\<lambda>m.
     act_return (m, rev)))))))"

end
