(* ===== verification/Work_Item_Invariants.thy ===== *)
theory Work_Item_Invariants
  imports Work_Item_Repo
begin

text \<open>
  What the work item repository keeps: the effect of each operation on the tables, the invariant of
  the tables over every sequence of transactions, optimistic locking, and the order of work items.
\<close>

section \<open>Operations that only read\<close>

text \<open>An action that changes at most the cache of types.\<close>

definition reads :: "'a repo \<Rightarrow> bool" where
  "reads m \<longleftrightarrow> (\<forall>s. \<exists>c. snd (m s) = s\<lparr>db_cache := c\<rparr>)"

named_theorems reads_intro \<open>actions that only read\<close>

lemma cache_update_id: "s\<lparr>db_cache := db_cache s\<rparr> = (s :: wi_db)"
  by simp

lemma reads_simple [reads_intro]:
  "reads (act_return x)" "reads (act_fail e)" "reads (act_lift r)" "reads (act_gets f)" "reads (statement E l w)"
  "reads (act_modify (\<lambda>s. s\<lparr>db_cache := g s\<rparr>))"
proof -
  have "\<exists>c. s = s\<lparr>db_cache := c\<rparr>" for s :: wi_db by (rule exI [of _ "db_cache s"]) simp
  then show "reads (act_return x)" "reads (act_fail e)" "reads (act_lift r)" "reads (act_gets f)"
    "reads (statement E l w)" "reads (act_modify (\<lambda>s. s\<lparr>db_cache := g s\<rparr>))"
    by (auto simp: reads_def act_return_def act_fail_def act_lift_def act_gets_def statement_def act_modify_def
        split: option.splits)
qed

lemma reads_map_err [reads_intro]: "reads m \<Longrightarrow> reads (act_map_err f m)"
  by (simp add: reads_def act_map_err_def split_beta)

lemma reads_bind [reads_intro]:
  assumes "reads m" "\<And>x. reads (f x)"
  shows "reads (act_bind m f)"
  unfolding reads_def
proof
  fix s
  from assms(1) obtain c where c: "snd (m s) = s\<lparr>db_cache := c\<rparr>" unfolding reads_def by blast
  show "\<exists>c. snd (act_bind m f s) = s\<lparr>db_cache := c\<rparr>"
  proof (cases "fst (m s)")
    case (Ok x)
    obtain d where "snd (f x (s\<lparr>db_cache := c\<rparr>)) = (s\<lparr>db_cache := c\<rparr>)\<lparr>db_cache := d\<rparr>"
      using assms(2) unfolding reads_def by blast
    with Ok c show ?thesis by (auto simp: act_bind_def split_beta)
  qed (use c in \<open>auto simp: act_bind_def split_beta\<close>)
qed

lemma reads_if [reads_intro]: "(b \<Longrightarrow> reads m) \<Longrightarrow> (\<not> b \<Longrightarrow> reads m') \<Longrightarrow> reads (if b then m else m')"
  by simp

lemma reads_option [reads_intro]:
  "reads m \<Longrightarrow> (\<And>x. reads (f x)) \<Longrightarrow> reads (case y of None \<Rightarrow> m | Some x \<Rightarrow> f x)"
  by (cases y) auto

lemma reads_prod [reads_intro]: "(\<And>a b. reads (f a b)) \<Longrightarrow> reads (case y of (a, b) \<Rightarrow> f a b)"
  by (cases y) auto

lemma reads_Load [reads_intro]: "reads (WITR_Load R i)"
  unfolding WITR_Load_def loadChildTypeList_def Let_def by (intro reads_intro)

lemma reads_load_storage [reads_intro]:
  "reads (LoadFromDB R i)" "reads (loadWorkItemStorage R sp n)" "reads (load_extreme R ord)"
  unfolding LoadFromDB_def loadWorkItemStorage_def load_extreme_def by (intro reads_intro)+

lemma reads_extremes [reads_intro]:
  "reads (LoadTopWorkitem R sp)" "reads (LoadBottomWorkitem R sp)" "reads (LoadHighestOrder R sp)"
  unfolding LoadTopWorkitem_def LoadBottomWorkitem_def LoadHighestOrder_def by (intro reads_intro)+

lemma reads_order [reads_intro]: "reads (new_order R sp d tgt res wi)"
  unfolding new_order_def beside_target_def at_end_def FindFirstItem_def FindSecondItem_def
  by (intro reads_intro)

lemma reads_template [reads_intro]: "reads (CheckTypeAndSpaceShareTemplate R t sp)"
  unfolding CheckTypeAndSpaceShareTemplate_def by (intro reads_intro)

lemma reads_change [reads_intro]: "reads (ChangeWorkItemType R w t t' sp)"
  unfolding ChangeWorkItemType_def by (intro reads_intro)

lemma readsD: "reads m \<Longrightarrow> m s = (r, t) \<Longrightarrow> \<exists>c. t = s\<lparr>db_cache := c\<rparr>"
  unfolding reads_def by (metis snd_conv)

section \<open>The effect of the operations\<close>

lemma Revision_Create_Ok:
  assumes "Revision_Create R m ty w s = (Ok rv, t)"
  shows "t = s\<lparr>db_revisions := db_revisions s @ [rv]\<rparr> \<and> wr_WorkItemID rv = wi_ID w \<and>
    wr_WorkItemVersion rv = wi_Version w \<and> wr_Type rv = ty \<and> wr_WorkItemTypeID rv = wi_Type w"
  using assms by (auto simp: Revision_Create_def Let_def act_bind_Ok_iff)

lemma save_item_Ok:
  assumes "save_item R v w s = (Ok new, t)"
  shows "new = w\<lparr>wi_Lifecycle := touched (re_db R) (wi_Lifecycle w)\<rparr> \<and>
    t = s\<lparr>db_items := map (\<lambda>x. if wi_ID x = wi_ID w \<and> wi_Version x = v \<and> alive (wi_Lifecycle x)
          then new\<lparr>wi_Fields := re_jsonb R (wi_Fields new)\<rparr> else x) (db_items s)\<rparr>"
  using assms by (auto simp: save_item_def Let_def act_bind_Ok_iff split: if_splits)

text \<open>The common shape of a successful save or reorder of a row.\<close>

definition row_updated :: "repo_env \<Rightarrow> wi_db \<Rightarrow> wi_db \<Rightarrow> work_item_storage \<Rightarrow> work_item_storage \<Rightarrow> revision \<Rightarrow> bool" where
  "row_updated R s t old new rv \<longleftrightarrow>
     old \<in> set (live_items s) \<and>
     wi_ID new = wi_ID old \<and> wi_Number new = wi_Number old \<and> wi_SpaceID new = wi_SpaceID old \<and>
     wi_Version new = wi_Version old + 1 \<and> alive (wi_Lifecycle new) \<and>
     wr_WorkItemID rv = wi_ID old \<and> wr_WorkItemVersion rv = wi_Version new \<and> wr_Type rv = RevisionTypeUpdate \<and>
     wr_WorkItemTypeID rv = wi_Type new \<and>
     (\<exists>c. t = s\<lparr>db_cache := c, db_revisions := db_revisions s @ [rv],
        db_items := map (\<lambda>x. if wi_ID x = wi_ID old \<and> wi_Version x = wi_Version old \<and> alive (wi_Lifecycle x)
                             then new else x) (db_items s)\<rparr>)"

lemma live_items_cache [simp]: "live_items (s\<lparr>db_cache := c\<rparr>) = live_items s"
  by (simp add: live_items_def)

lemma loadWorkItemStorage_Ok:
  assumes "loadWorkItemStorage R sp n s = (Ok (w, ty), t)"
  shows "w \<in> set (live_items s) \<and> wi_Number w = n \<and> wi_SpaceID w = sp"
  using assms by (auto simp: loadWorkItemStorage_def act_bind_Ok_iff split: option.splits dest!: first_row_SomeD)

lemma LoadFromDB_Ok:
  "LoadFromDB R i s = (Ok w, t) \<Longrightarrow> w \<in> set (live_items s) \<and> wi_ID w = i \<and> t = s"
  by (auto simp: LoadFromDB_def act_bind_Ok_iff split: option.splits dest!: first_row_SomeD)

lemma row_updatedI:
  assumes w: "w \<in> set (live_items s)"
    and save: "save_item R (wi_Version w) w' (s\<lparr>db_cache := c\<rparr>) = (Ok saved, s')"
    and w': "wi_ID w' = wi_ID w" "wi_Number w' = wi_Number w" "wi_SpaceID w' = wi_SpaceID w"
      "wi_Version w' = wi_Version w + 1" "wi_Lifecycle w' = wi_Lifecycle w"
    and rv: "Revision_Create R m RevisionTypeUpdate saved s' = (Ok rv, t)"
  shows "row_updated R s t w (saved\<lparr>wi_Fields := re_jsonb R (wi_Fields saved)\<rparr>) rv"
proof -
  from w have "alive (wi_Lifecycle w)" by (simp add: live_items_def)
  with save_item_Ok [OF save] Revision_Create_Ok [OF rv] w w' show ?thesis
    by (auto simp: row_updated_def intro!: exI [of _ c])
qed

lemma change_type_Ok:
  assumes "change_type R sp ty w t s = (Ok (w', t'), s')"
  shows "wi_ID w' = wi_ID w \<and> wi_Number w' = wi_Number w \<and> wi_SpaceID w' = wi_SpaceID w \<and>
    wi_Version w' = wi_Version w \<and> wi_Lifecycle w' = wi_Lifecycle w \<and> (\<exists>c. s' = s\<lparr>db_cache := c\<rparr>)"
proof -
  have "reads (change_type R sp ty w t)" unfolding change_type_def by (intro reads_intro)
  from readsD [OF this assms] show ?thesis using assms
    by (auto simp: change_type_def ChangeWorkItemType_def act_bind_Ok_iff split: if_splits)
qed

lemma WIR_Save_Ok:
  assumes "WIR_Save R sp u m s = (Ok (res, rv), t)"
  shows "\<exists>w new. row_updated R s t w new rv \<and> wi_Number w = w_Number u \<and> wi_SpaceID w = sp \<and>
    wi_Version w = w_Version u"
proof -
  from assms obtain w ty s1 fs w' ty' s2 saved s3 where
    load: "loadWorkItemStorage R sp (w_Number u) s = (Ok (w, ty), s1)" and
    version: "wi_Version w = w_Version u" and
    change: "change_type R sp (w_Type u) (w\<lparr>wi_Version := wi_Version w + 1, wi_Fields := fs\<rparr>) ty s1
      = (Ok (w', ty'), s2)" and
    save: "save_item R (w_Version u) w' s2 = (Ok saved, s3)" and
    rv: "Revision_Create R m RevisionTypeUpdate saved s3 = (Ok rv, t)"
    unfolding WIR_Save_def
    by (auto simp: act_bind_Ok_iff split: prod.splits if_splits)
  from readsD [OF reads_load_storage(2) load] obtain c where c: "s1 = s\<lparr>db_cache := c\<rparr>" by blast
  from change_type_Ok [OF change] c obtain d where d: "s2 = s\<lparr>db_cache := d\<rparr>"
    and w': "wi_ID w' = wi_ID w" "wi_Number w' = wi_Number w" "wi_SpaceID w' = wi_SpaceID w"
      "wi_Version w' = wi_Version w + 1" "wi_Lifecycle w' = wi_Lifecycle w" by auto
  from loadWorkItemStorage_Ok [OF load] have w: "w \<in> set (live_items s)" "wi_Number w = w_Number u" "wi_SpaceID w = sp"
    by auto
  from row_updatedI [where c = d, OF w(1) _ w' rv] save version d w show ?thesis by auto
qed

lemma Reorder_Ok:
  assumes "Reorder R sp dir tgt wi m s = (Ok res, t)"
    and dir: "dir \<in> {DirectionBelow, DirectionAbove, DirectionTop, DirectionBottom}"
  shows "\<exists>w new rv ord s1 s2. row_updated R s t w new rv \<and> wi_ID w = w_ID wi \<and> wi_Version w = w_Version wi \<and>
    new_order R sp dir tgt w wi s1 = (Ok ord, s2) \<and> (\<exists>c. s1 = s\<lparr>db_cache := c\<rparr>) \<and> wi_ExecutionOrder new = ord"
proof -
  from assms obtain w s0 ty s1 ord s2 fs saved s3 rv where
    load: "LoadFromDB R (w_ID wi) s = (Ok w, s0)" and version: "wi_Version w = w_Version wi" and
    ty: "WITR_Load R (w_Type wi) s0 = (Ok ty, s1)" and
    ord: "new_order R sp dir tgt w wi s1 = (Ok ord, s2)" and
    save: "save_item R (w_Version wi) (w\<lparr>wi_Version := wi_Version w + 1, wi_Type := w_Type wi, wi_Fields := fs,
      wi_ExecutionOrder := ord\<rparr>) s2 = (Ok saved, s3)" and
    rv: "Revision_Create R m RevisionTypeUpdate saved s3 = (Ok rv, t)"
    unfolding Reorder_def by (auto simp: act_bind_Ok_iff split: if_splits)
  from LoadFromDB_Ok [OF load] have w: "w \<in> set (live_items s)" "wi_ID w = w_ID wi" "s0 = s" by auto
  from readsD [OF reads_Load ty] w obtain c where c: "s1 = s\<lparr>db_cache := c\<rparr>" by blast
  with readsD [OF reads_order ord] obtain d where d: "s2 = s\<lparr>db_cache := d\<rparr>" by auto
  have "row_updated R s t w (saved\<lparr>wi_Fields := re_jsonb R (wi_Fields saved)\<rparr>) rv"
    using row_updatedI [where c = d, OF w(1) _ _ _ _ _ _ rv] save d version by auto
  moreover have "wi_ExecutionOrder saved = ord" using save_item_Ok [OF save] by simp
  ultimately show ?thesis using ord c w version by fastforce
qed

lemma WIR_Delete_Ok:
  assumes "WIR_Delete R i m s = (Ok u, t)"
  shows "\<exists>rv. i \<in> set (map wi_ID (live_items s)) \<and> wr_Type rv = RevisionTypeDelete \<and> wr_WorkItemID rv = i \<and>
    t = s\<lparr>db_items := delete_item (re_db R) i (db_items s), db_revisions := db_revisions s @ [rv]\<rparr>"
  using assms unfolding WIR_Delete_def
  by (auto simp: act_bind_Ok_iff split: if_splits option.splits dest!: Revision_Create_Ok)

lemma NextVal_Ok:
  "NextVal R sp s = (Ok n, t) \<Longrightarrow>
     n = (case db_sequences s sp of None \<Rightarrow> 1 | Some k \<Rightarrow> k + 1) \<and>
     t = s\<lparr>db_sequences := (db_sequences s)(sp \<mapsto> n)\<rparr>"
  by (auto simp: NextVal_def act_bind_Ok_iff)

definition next_number :: "wi_db \<Rightarrow> uuid \<Rightarrow> int" where
  "next_number s sp = (case db_sequences s sp of None \<Rightarrow> 1 | Some k \<Rightarrow> k + 1)"

lemma WIR_Create_Ok:
  assumes "WIR_Create R sp ty vals cr s = (Ok (res, rv), t)"
  shows "\<exists>w c. t = s\<lparr>db_cache := c, db_sequences := (db_sequences s)(sp \<mapsto> next_number s sp),
        db_items := db_items s @ [w], db_revisions := db_revisions s @ [rv]\<rparr> \<and>
    wi_ID w = env_newID (re_db R) ''work item'' \<and> wi_SpaceID w = sp \<and> wi_Version w = 0 \<and> wi_Type w = ty \<and>
    alive (wi_Lifecycle w) \<and> wi_Number w = word_of_int (next_number s sp) \<and>
    wi_ExecutionOrder w = f_add (case item_with_order (max_order sp s) s of None \<Rightarrow> 0 | Some x \<Rightarrow> wi_ExecutionOrder x) orderValue \<and>
    wr_Type rv = RevisionTypeCreate \<and> wr_WorkItemID rv = wi_ID w"
proof -
  from assms obtain t1 s1 b s2 h s3 n s4 fs where
    load: "WITR_Load R ty s = (Ok t1, s1)" and
    chk: "CheckTypeAndSpaceShareTemplate R t1 sp s1 = (Ok b, s2)" and
    high: "LoadHighestOrder R sp s2 = (Ok h, s3)" and num: "NextVal R sp s3 = (Ok n, s4)" and
    rv: "Revision_Create R cr RevisionTypeCreate
      \<lparr>wi_Lifecycle = created (re_db R), wi_ID = env_newID (re_db R) ''work item'',
       wi_Number = word_of_int n, wi_Type = ty, wi_Version = 0, wi_Fields = fs,
       wi_ExecutionOrder = f_add h orderValue, wi_SpaceID = sp, wi_RelationShipsChangedAt = None\<rparr>
      (s4\<lparr>db_items := db_items s4 @ [\<lparr>wi_Lifecycle = created (re_db R), wi_ID = env_newID (re_db R) ''work item'',
       wi_Number = word_of_int n, wi_Type = ty, wi_Version = 0, wi_Fields = re_jsonb R fs,
       wi_ExecutionOrder = f_add h orderValue, wi_SpaceID = sp, wi_RelationShipsChangedAt = None\<rparr>]\<rparr>) = (Ok rv, t)"
    unfolding WIR_Create_def Let_def by (auto simp: act_bind_Ok_iff)
  from readsD [OF reads_Load load] readsD [OF reads_template chk] obtain c where c: "s2 = s\<lparr>db_cache := c\<rparr>"
    by auto
  have h: "h = (case item_with_order (max_order sp s) s of None \<Rightarrow> 0 | Some x \<Rightarrow> wi_ExecutionOrder x)" "s3 = s2"
    using high c by (auto simp: LoadHighestOrder_def load_extreme_def act_bind_Ok_iff max_order_def orders_where_def
        item_with_order_def zero_storage_def split: option.splits)
  from NextVal_Ok [OF num] h(2) c have n: "n = next_number s sp"
    "s4 = s\<lparr>db_cache := c, db_sequences := (db_sequences s)(sp \<mapsto> n)\<rparr>" by (auto simp: next_number_def)
  from Revision_Create_Ok [OF rv] n h show ?thesis
    by (auto simp: created_def alive_def intro!: exI [of _ c])
qed

section \<open>The invariant of the tables\<close>

definition update_count :: "revision list \<Rightarrow> uuid \<Rightarrow> nat" where
  "update_count rvs i = length (filter (\<lambda>r. wr_WorkItemID r = i \<and> wr_Type r = RevisionTypeUpdate) rvs)"

text \<open>
  Identifiers are unique, numbers are unique within a space and not above the sequence of the space, and
  the version of a work item counts its update revisions.
\<close>

definition wf_db :: "wi_db \<Rightarrow> bool" where
  "wf_db s \<longleftrightarrow>
     distinct (map wi_ID (db_items s)) \<and>
     distinct (map (\<lambda>w. (wi_SpaceID w, wi_Number w)) (db_items s)) \<and>
     (\<forall>w \<in> set (db_items s). \<exists>n. db_sequences s (wi_SpaceID w) = Some n \<and> uint (wi_Number w) \<le> n) \<and>
     (\<forall>w \<in> set (db_items s). wi_Version w = of_nat (update_count (db_revisions s) (wi_ID w)))"

lemma wf_db_other_tables [simp]:
  "wf_db (s\<lparr>db_cache := c\<rparr>) = wf_db s" "wf_db (s\<lparr>db_types := ts\<rparr>) = wf_db s"
  "wf_db (s\<lparr>db_childTypes := cs\<rparr>) = wf_db s"
  by (simp_all add: wf_db_def)

lemma distinct_map_eq: "distinct (map f xs) \<Longrightarrow> x \<in> set xs \<Longrightarrow> y \<in> set xs \<Longrightarrow> f x = f y \<Longrightarrow> x = y"
  by (meson distinct_map inj_onD)

lemma row_updated_items:
  assumes "row_updated R s t old new rv" "wf_db s"
  shows "db_items t = map (\<lambda>x. if wi_ID x = wi_ID old then new else x) (db_items s)"
proof -
  have "x = old" if "x \<in> set (db_items s)" "wi_ID x = wi_ID old" for x
    using assms that distinct_map_eq [of wi_ID "db_items s" x old]
    by (auto simp: wf_db_def row_updated_def live_items_def)
  moreover have "alive (wi_Lifecycle old)" using assms(1) by (simp add: row_updated_def live_items_def)
  ultimately have hit: "(wi_ID x = wi_ID old \<and> wi_Version x = wi_Version old \<and> alive (wi_Lifecycle x)) \<longleftrightarrow> wi_ID x = wi_ID old"
    if "x \<in> set (db_items s)" for x using that by blast
  from assms(1) have "db_items t = map (\<lambda>x. if wi_ID x = wi_ID old \<and> wi_Version x = wi_Version old \<and>
      alive (wi_Lifecycle x) then new else x) (db_items s)" by (auto simp: row_updated_def)
  also have "\<dots> = map (\<lambda>x. if wi_ID x = wi_ID old then new else x) (db_items s)"
    by (rule map_cong) (simp_all only: hit)
  finally show ?thesis .
qed

lemma row_updated_keeps:
  assumes "row_updated R s t old new rv" "wf_db s"
  shows "wf_db t"
proof -
  note items = row_updated_items [OF assms]
  from assms(1) have old: "old \<in> set (db_items s)" by (simp add: row_updated_def live_items_def)
  have uniq: "x = old" if "x \<in> set (db_items s)" "wi_ID x = wi_ID old" for x
    using assms(2) that old distinct_map_eq [of wi_ID "db_items s" x old] by (simp add: wf_db_def)
  have new: "wi_ID new = wi_ID old" "wi_Number new = wi_Number old" "wi_SpaceID new = wi_SpaceID old"
    "wi_Version new = wi_Version old + 1" "wr_WorkItemID rv = wi_ID old" "wr_Type rv = RevisionTypeUpdate"
    and t: "db_revisions t = db_revisions s @ [rv]" "db_sequences t = db_sequences s"
    using assms(1) by (auto simp: row_updated_def)
  have "map wi_ID (db_items t) = map wi_ID (db_items s)"
    "map (\<lambda>w. (wi_SpaceID w, wi_Number w)) (db_items t) = map (\<lambda>w. (wi_SpaceID w, wi_Number w)) (db_items s)"
    using uniq by (auto simp: items new)
  moreover have "\<exists>n. db_sequences t (wi_SpaceID w) = Some n \<and> uint (wi_Number w) \<le> n" if "w \<in> set (db_items t)" for w
    using that assms(2) old new by (auto simp: items t wf_db_def)
  moreover have "wi_Version w = of_nat (update_count (db_revisions t) (wi_ID w))" if "w \<in> set (db_items t)" for w
    using that assms(2) old new by (auto simp: items t wf_db_def update_count_def)
  ultimately show ?thesis using assms(2) by (simp add: wf_db_def)
qed

lemma delete_keeps:
  assumes "wf_db s" "wr_Type rv = RevisionTypeDelete"
  shows "wf_db (s\<lparr>db_items := delete_item E i (db_items s), db_revisions := db_revisions s @ [rv]\<rparr>)"
proof -
  have "map wi_ID (delete_item E i items) = map wi_ID items"
    "map (\<lambda>w. (wi_SpaceID w, wi_Number w)) (delete_item E i items) = map (\<lambda>w. (wi_SpaceID w, wi_Number w)) items"
    for items by (auto simp: delete_item_def)
  moreover have "\<exists>y \<in> set items. wi_ID x = wi_ID y \<and> wi_SpaceID x = wi_SpaceID y \<and> wi_Number x = wi_Number y \<and>
      wi_Version x = wi_Version y" if "x \<in> set (delete_item E i items)" for x items
    using that by (auto simp: delete_item_def)
  moreover have "update_count (db_revisions s @ [rv]) j = update_count (db_revisions s) j" for j
    using assms(2) by (simp add: update_count_def RevisionTypeDelete_def RevisionTypeUpdate_def)
  ultimately show ?thesis using assms(1) unfolding wf_db_def by simp metis
qed

text \<open>
  What the database guarantees for a new row: an identifier that is not in use, and room in the sequence.
\<close>

definition fresh_item :: "repo_env \<Rightarrow> uuid \<Rightarrow> wi_db \<Rightarrow> bool" where
  "fresh_item R sp s \<longleftrightarrow>
     env_newID (re_db R) ''work item'' \<notin> set (map wi_ID (db_items s)) \<union> set (map wr_WorkItemID (db_revisions s)) \<and>
     0 \<le> next_number s sp \<and> next_number s sp < 2 ^ 63"

lemma create_keeps:
  assumes "WIR_Create R sp ty vals cr s = (Ok (res, rv), t)" "wf_db s" "fresh_item R sp s"
  shows "wf_db t"
proof -
  from WIR_Create_Ok [OF assms(1)] obtain w c where
    t: "t = s\<lparr>db_cache := c, db_sequences := (db_sequences s)(sp \<mapsto> next_number s sp),
          db_items := db_items s @ [w], db_revisions := db_revisions s @ [rv]\<rparr>" and
    w: "wi_ID w = env_newID (re_db R) ''work item''" "wi_SpaceID w = sp" "wi_Version w = 0"
      "wi_Number w = word_of_int (next_number s sp)" and
    rv: "wr_Type rv = RevisionTypeCreate" "wr_WorkItemID rv = wi_ID w" by blast
  have n: "uint (wi_Number w) = next_number s sp"
    using assms(3) by (simp add: w fresh_item_def uint_word_of_int_eq take_bit_eq_mod)
  have below: "uint (wi_Number x) < next_number s sp" if "x \<in> set (db_items s)" "wi_SpaceID x = sp" for x
    using assms(2) that by (auto simp: wf_db_def next_number_def split: option.splits)
  then have "(sp, wi_Number w) \<notin> set (map (\<lambda>w. (wi_SpaceID w, wi_Number w)) (db_items s))"
    using n by fastforce
  moreover have "update_count (db_revisions s @ [rv]) (wi_ID w) = 0"
    using assms(3)
    by (auto simp: update_count_def fresh_item_def w rv RevisionTypeCreate_def RevisionTypeUpdate_def
        filter_empty_conv rev_image_eqI)
  moreover have "update_count (db_revisions s @ [rv]) i = update_count (db_revisions s) i" for i
    by (simp add: update_count_def rv RevisionTypeCreate_def RevisionTypeUpdate_def)
  moreover have "\<exists>k. db_sequences t (wi_SpaceID x) = Some k \<and> uint (wi_Number x) \<le> k" if "x \<in> set (db_items s)" for x
    using assms(2) that below [of x] by (cases "wi_SpaceID x = sp") (auto simp: t wf_db_def)
  ultimately show ?thesis using assms(2,3) n w by (auto simp: t wf_db_def fresh_item_def)
qed

section \<open>Sequences of transactions\<close>

datatype wi_request =
    ReqCreate repo_env uuid uuid "fields" uuid
  | ReqSave repo_env uuid work_item uuid
  | ReqReorder repo_env uuid string "uuid option" work_item uuid
  | ReqDelete repo_env uuid uuid
  | ReqCreateType repo_env work_item_type
  | ReqAddChildTypes repo_env uuid "uuid list"

fun wi_operation :: "wi_request \<Rightarrow> unit repo" where
  "wi_operation (ReqCreate R sp ty vals cr) = act_bind (WIR_Create R sp ty vals cr) (\<lambda>_. act_return ())"
| "wi_operation (ReqSave R sp u m) = act_bind (WIR_Save R sp u m) (\<lambda>_. act_return ())"
| "wi_operation (ReqReorder R sp dir tgt wi m) = act_bind (Reorder R sp dir tgt wi m) (\<lambda>_. act_return ())"
| "wi_operation (ReqDelete R i m) = WIR_Delete R i m"
| "wi_operation (ReqCreateType R model) = act_bind (CreateFromModel R model) (\<lambda>_. act_return ())"
| "wi_operation (ReqAddChildTypes R parent children) = AddChildTypes R parent children"

fun wi_guard :: "wi_request \<Rightarrow> wi_db \<Rightarrow> bool" where
  "wi_guard (ReqCreate R sp ty vals cr) s = fresh_item R sp s"
| "wi_guard _ s = True"

text \<open>The versions of the work items that are not deleted: the abstract view of the tables.\<close>

definition item_versions :: "work_item_storage list \<Rightarrow> uuid \<rightharpoonup> 64 word" where
  "item_versions items = map_of (map (\<lambda>w. (wi_ID w, wi_Version w)) (filter (\<lambda>w. alive (wi_Lifecycle w)) items))"

abbreviation versions :: "wi_db \<Rightarrow> uuid \<rightharpoonup> 64 word" where
  "versions s \<equiv> item_versions (db_items s)"

inductive version_step :: "(uuid \<rightharpoonup> 64 word) \<Rightarrow> (uuid \<rightharpoonup> 64 word) \<Rightarrow> bool" where
  idle: "version_step m m"
| new_item: "m i = None \<Longrightarrow> version_step m (m(i \<mapsto> 0))"
| next_version: "m i = Some v \<Longrightarrow> version_step m (m(i \<mapsto> v + 1))"
| drop_item: "m i \<noteq> None \<Longrightarrow> version_step m (m(i := None))"

lemma CreateFromModel_Ok: "CreateFromModel R model s = (Ok x, t) \<Longrightarrow> \<exists>ts. t = s\<lparr>db_types := ts\<rparr>"
  unfolding CreateFromModel_def Let_def by (auto simp: act_bind_Ok_iff split: if_splits option.splits)

lemma insert_child_types_Ok:
  "insert_child_types R parent idx is s = (Ok x, t) \<Longrightarrow> \<exists>cs. t = s\<lparr>db_childTypes := cs\<rparr>"
proof (induction R parent idx "is" arbitrary: s rule: insert_child_types.induct)
  case (1 R parent idx)
  then show ?case by (auto intro: exI [of _ "db_childTypes s"])
next
  case (2 R parent idx i "is")
  then show ?case by (fastforce simp: act_bind_Ok_iff)
qed

lemma AddChildTypes_Ok:
  assumes "AddChildTypes R parent children s = (Ok x, t)"
  shows "\<exists>cs c. t = s\<lparr>db_childTypes := cs, db_cache := c\<rparr>"
proof (cases "children = []")
  case True
  with assms have "t = s\<lparr>db_childTypes := db_childTypes s, db_cache := db_cache s\<rparr>" by (simp add: AddChildTypes_def)
  then show ?thesis by blast
next
  case False
  with assms obtain s1 where "insert_child_types R parent 0 children s = (Ok (), s1)"
    "ClearGlobalWorkItemTypeCache s1 = (Ok x, t)" by (auto simp: AddChildTypes_def act_bind_Ok_iff)
  with insert_child_types_Ok show ?thesis by (fastforce simp: ClearGlobalWorkItemTypeCache_def)
qed

lemma Reorder_other:
  assumes "Reorder R sp dir tgt wi m s = (Ok res, t)"
    "dir \<notin> {DirectionBelow, DirectionAbove, DirectionTop, DirectionBottom}"
  shows "\<exists>c. t = s\<lparr>db_cache := c\<rparr>"
  using assms readsD [OF reads_Load] by (auto simp: Reorder_def act_bind_Ok_iff dest!: LoadFromDB_Ok split: if_splits)

text \<open>Every successful operation has one of four effects.\<close>

lemma operation_effect:
  assumes "wi_operation req s = (Ok x, t)"
  obtains (none) ts cs c where "t = s\<lparr>db_types := ts, db_childTypes := cs, db_cache := c\<rparr>"
  | (creation) R sp ty vals cr res rv where "req = ReqCreate R sp ty vals cr" "WIR_Create R sp ty vals cr s = (Ok (res, rv), t)"
  | (update) R :: repo_env and old new rv where "row_updated R s t old new rv"
  | (deletion) R :: repo_env and i rv where "i \<in> set (map wi_ID (live_items s))" "wr_Type rv = RevisionTypeDelete"
      "t = s\<lparr>db_items := delete_item (re_db R) i (db_items s), db_revisions := db_revisions s @ [rv]\<rparr>"
proof (cases req)
  case (ReqCreate R sp ty vals cr)
  with assms creation show ?thesis by (auto simp: act_bind_Ok_iff)
next
  case (ReqSave R sp u m)
  with assms WIR_Save_Ok update show ?thesis by (auto simp: act_bind_Ok_iff) blast
next
  case (ReqReorder R sp dir tgt wi m)
  with assms obtain res where r: "Reorder R sp dir tgt wi m s = (Ok res, t)" by (auto simp: act_bind_Ok_iff)
  show ?thesis
  proof (cases "dir \<in> {DirectionBelow, DirectionAbove, DirectionTop, DirectionBottom}")
    case True
    with Reorder_Ok [OF r] update show ?thesis by blast
  next
    case False
    from Reorder_other [OF r False] obtain c where "t = s\<lparr>db_types := db_types s, db_childTypes := db_childTypes s, db_cache := c\<rparr>"
      by auto
    with none show ?thesis by blast
  qed
next
  case (ReqDelete R i m)
  with assms WIR_Delete_Ok deletion show ?thesis by fastforce
next
  case (ReqCreateType R model)
  with assms obtain y where "CreateFromModel R model s = (Ok y, t)" by (auto simp: act_bind_Ok_iff)
  from CreateFromModel_Ok [OF this] obtain ts
    where "t = s\<lparr>db_types := ts, db_childTypes := db_childTypes s, db_cache := db_cache s\<rparr>" by auto
  with none show ?thesis by blast
next
  case (ReqAddChildTypes R parent children)
  with assms obtain cs c where "t = s\<lparr>db_types := db_types s, db_childTypes := cs, db_cache := c\<rparr>"
    by (auto dest!: AddChildTypes_Ok)
  with none show ?thesis by blast
qed

lemma operation_keeps_wf:
  assumes "wf_db s" "wi_guard req s" "wi_operation req s = (Ok x, t)"
  shows "wf_db t"
  using assms(3)
proof (cases rule: operation_effect)
  case (creation R sp ty vals cr res rv)
  with create_keeps assms show ?thesis by auto
next
  case (deletion R i rv)
  with delete_keeps [OF assms(1)] show ?thesis by blast
qed (use assms row_updated_keeps in auto)

interpretation wi_ops: invariant_operation wf_db wi_guard wi_operation rollback_db
  by unfold_locales (auto simp: operation_keeps_wf rollback_db_def)


text \<open>One step: a request run in a transaction, whatever becomes of it.\<close>

inductive wi_step :: "wi_db \<Rightarrow> wi_db \<Rightarrow> bool" where
  transaction: "wi_guard req s \<Longrightarrow>
    wi_step s (snd (Transactional E stack timeout rollback_db (act_bind (wi_operation req) (\<lambda>_. act_return ())) s))"

lemma wi_step_effect:
  assumes "wi_step s t"
  obtains (undone) c where "t = s\<lparr>db_cache := c\<rparr>"
  | (succeeded) req x where "wi_guard req s" "wi_operation req s = (Ok x, t)"
  using assms
proof (cases rule: wi_step.cases)
  case (transaction req E stack timeout)
  then have "Transactional E stack timeout rollback_db (act_bind (wi_operation req) (\<lambda>_. act_return ())) s =
      (fst (Transactional E stack timeout rollback_db (act_bind (wi_operation req) (\<lambda>_. act_return ())) s), t)"
    by simp
  from Transactional_effect [OF this]
  have "(\<exists>c. t = s\<lparr>db_cache := c\<rparr>) \<or> (\<exists>x. wi_operation req s = (Ok x, t))"
    by (metis cache_update_id rollback_db_def)
  with transaction undone succeeded show ?thesis by blast
qed

lemma wf_step: "wi_step s t \<Longrightarrow> wf_db s \<Longrightarrow> wf_db t"
  by (erule wi_step.cases) (metis wi_ops.transaction_keeps)

section \<open>A sample\<close>

text \<open>A space with one type without fields, for the witnesses.\<close>

definition repo_sample :: repo_env where
  "repo_sample = \<lparr>re_db = \<lparr>env_now = (9, ''UTC''), env_newID = (\<lambda>_. 77), env_fault = (\<lambda>_. None)\<rparr>,
     re_field = sample_field_env, re_text = (\<lambda>_. []), re_sprint = (\<lambda>_. []), re_jsonb = (\<lambda>f. f),
     re_rel = \<lparr>rel_identity = (\<lambda>_. None), rel_user = (\<lambda>_. None), rel_area = (\<lambda>_. None), rel_iteration = (\<lambda>_. None),
       rel_column = (\<lambda>_. None), rel_codebase = (\<lambda>_. None), rel_label = (\<lambda>_. None)\<rparr>\<rparr>"

definition bare_type :: work_item_type where
  "bare_type = sample_type\<lparr>wt_Fields := []\<rparr>"

definition sample_db :: "work_item_storage list \<Rightarrow> wi_db" where
  "sample_db items = \<lparr>db_items = items, db_revisions = [], db_sequences = [3 \<mapsto> 7], db_types = [bare_type],
     db_childTypes = [], db_spaces = [(3, 4)], db_cache = NewWorkItemTypeCache\<rparr>"

definition sample_row :: "nat \<Rightarrow> float64 \<Rightarrow> work_item_storage" where
  "sample_row k ord = sample_storage\<lparr>wi_ID := of_nat k, wi_Number := of_nat k, wi_ExecutionOrder := ord\<rparr>"

definition sample_update :: "nat \<Rightarrow> float64 \<Rightarrow> work_item" where
  "sample_update k ord = \<lparr>w_ID = of_nat k, w_Number = of_nat k, w_Type = 9, w_Version = 0, w_SpaceID = 3,
     w_Fields = [(SystemOrder, VFloat ord)], w_relationShipsChangedAt = None\<rparr>"

lemma repo_sample_fault [simp]: "env_fault (re_db repo_sample) l = None"
  by (simp add: repo_sample_def)

lemmas sample_defs = sample_db_def sample_row_def sample_update_def sample_storage_def bare_type_def sample_type_def


lemma sample_alive [simp]: "alive (wi_Lifecycle sample_storage)"
  by (simp add: sample_storage_def alive_def)

lemma sample_load:
  assumes "db_types s = [bare_type]" "db_cache s = NewWorkItemTypeCache" "db_childTypes s = []"
  shows "WITR_Load repo_sample 9 s = (Ok bare_type, s\<lparr>db_cache := Cache_Put NewWorkItemTypeCache bare_type\<rparr>)"
  using assms
  by (simp add: WITR_Load_def loadChildTypeList_def find_type_def statement_def act_defs Cache_Get_def Let_def
      NewWorkItemTypeCache_def bare_type_def sample_type_def alive_def sample_storage_def)

lemma sample_save: "is_ok (fst (WIR_Save repo_sample 3 (sample_update 1 0) 8 (sample_db [sample_row 1 0])))"
proof -
  have "loadWorkItemStorage repo_sample 3 1 (sample_db [sample_row 1 0]) = (Ok (sample_row 1 0, bare_type),
     sample_db [sample_row 1 0]\<lparr>db_cache := Cache_Put NewWorkItemTypeCache bare_type\<rparr>)"
    using sample_load [of "sample_db [sample_row 1 0]"]
    by (simp add: loadWorkItemStorage_def statement_def act_defs live_items_def sample_db_def sample_row_def, simp add: sample_storage_def)
  then show ?thesis
    by (simp add: WIR_Save_def act_defs sample_update_def bare_type_def sample_row_def change_type_def save_item_def
       statement_def Let_def Revision_Create_def sample_db_def to_model_def ConvertWorkItemStorageToModel_def
       WorkItemType_ConvertWorkItemStorageToModel_def sample_storage_def alive_def)
qed

lemma sample_create: "is_ok (fst (WIR_Create repo_sample 3 9 [] 8 (sample_db items)))"
  using sample_load [of "sample_db items"]
  by (simp add: WIR_Create_def act_defs CheckTypeAndSpaceShareTemplate_def LoadHighestOrder_def load_extreme_def
      NextVal_def statement_def Let_def Revision_Create_def
      sample_db_def to_model_def ConvertWorkItemStorageToModel_def
      WorkItemType_ConvertWorkItemStorageToModel_def bare_type_def sample_type_def)

lemma sample_step:
  "\<exists>t. wi_step (sample_db []) t \<and> versions t 77 = Some 0"
proof -
  obtain res rv t where c: "WIR_Create repo_sample 3 9 [] 8 (sample_db []) = (Ok (res, rv), t)"
    using sample_create [of "[]"] by (cases "WIR_Create repo_sample 3 9 [] 8 (sample_db [])") (auto simp: is_ok_iff)
  have "wi_guard (ReqCreate repo_sample 3 9 [] 8) (sample_db [])"
    by (simp add: fresh_item_def sample_db_def next_number_def)
  from transaction [OF this, of "re_db repo_sample" "[]" False] c
  have "wi_step (sample_db []) t"
    by (simp add: Transactional_def act_bind_def act_return_def)
  moreover from WIR_Create_Ok [OF c] have "versions t 77 = Some 0"
    by (auto simp: item_versions_def sample_db_def repo_sample_def)
  ultimately show ?thesis by blast
qed

section \<open>Reachable tables\<close>

text \<open>
  C1. Over every sequence of transactions of the repository (creations, saves, reorders, deletions, changes of
  the types), succeeding or failing at any statement, from tables without work items: identifiers stay
  unique, numbers stay unique within a space and are covered by the sequence of the space, and the version of
  every work item is the number of update revisions recorded for it.
\<close>
theorem reachable_tables_well_formed:
  assumes "db_items s0 = []" "wi_step\<^sup>*\<^sup>* s0 s"
  shows "wf_db s"
  using assms(2)
proof (induction rule: rtranclp_induct)
  case base
  from assms(1) show ?case by (simp add: wf_db_def)
next
  case (step s t)
  then show ?case by (simp add: wf_step)
qed

theorem reachable_tables_well_formed_witness: "\<exists>t. wi_step\<^sup>*\<^sup>* (sample_db []) t \<and> versions t 77 = Some 0 \<and> wf_db t"
proof -
  from sample_step obtain t where t: "wi_step (sample_db []) t" "versions t 77 = Some 0" by blast
  with reachable_tables_well_formed [of "sample_db []" t] show ?thesis by (auto simp: sample_db_def)
qed

section \<open>Versions\<close>

lemma item_versions_append:
  "i \<notin> set (map wi_ID items) \<Longrightarrow> alive (wi_Lifecycle w) \<Longrightarrow> wi_ID w = i \<Longrightarrow>
   item_versions (items @ [w]) = (item_versions items)(i \<mapsto> wi_Version w) \<and> item_versions items i = None"
  by (induction items) (auto simp: item_versions_def fun_upd_twist)

lemma item_versions_delete: "item_versions (delete_item E i items) = (item_versions items)(i := None)"
  by (induction items) (auto simp: item_versions_def delete_item_def removed_def alive_def)

lemma item_versions_update:
  assumes "distinct (map wi_ID items)" "old \<in> set items" "wi_ID new = wi_ID old" "alive (wi_Lifecycle new)"
  shows "item_versions (map (\<lambda>x. if wi_ID x = wi_ID old then new else x) items)
    = (item_versions items)(wi_ID old \<mapsto> wi_Version new)"
  using assms(1,2)
proof (induction items)
  case (Cons a items)
  show ?case
  proof (cases "wi_ID a = wi_ID old")
    case True
    with Cons.prems have "map (\<lambda>x. if wi_ID x = wi_ID old then new else x) items = items"
      by (intro map_idI) (metis distinct.simps(2) imageI list.set_map list.simps(9))
    moreover from True Cons.prems have "item_versions items (wi_ID old) = None"
      by (auto simp: item_versions_def map_of_eq_None_iff)
    ultimately show ?thesis using True assms(3,4) by (auto simp: item_versions_def fun_upd_twist)
  next
    case False
    with Cons show ?thesis by (auto simp: item_versions_def fun_upd_twist)
  qed
qed simp

lemma item_versions_Some:
  assumes "distinct (map wi_ID items)" "w \<in> set items" "alive (wi_Lifecycle w)"
  shows "item_versions items (wi_ID w) = Some (wi_Version w)"
proof -
  have "map (fst \<circ> (\<lambda>w. (wi_ID w, wi_Version w))) xs = map wi_ID xs" for xs by simp
  with assms show ?thesis unfolding item_versions_def
    by (intro map_of_is_SomeI) (auto simp: distinct_map_filter comp_def)
qed




section \<open>Concurrent updates\<close>

text \<open>What one step keeps: every row keeps its identity, and revisions are only added.\<close>

definition row_key :: "work_item_storage \<Rightarrow> uuid \<times> uuid \<times> 64 word" where
  "row_key w = (wi_ID w, wi_SpaceID w, wi_Number w)"

definition grows :: "wi_db \<Rightarrow> wi_db \<Rightarrow> bool" where
  "grows s t \<longleftrightarrow> row_key ` set (db_items s) \<subseteq> row_key ` set (db_items t) \<and>
     (\<forall>i. update_count (db_revisions s) i \<le> update_count (db_revisions t) i)"

lemma delete_item_keys: "row_key ` set (delete_item E i items) = row_key ` set items"
  by (induction items) (auto simp: delete_item_def row_key_def)

lemma row_updated_keys:
  assumes "row_updated R s t old new rv" "wf_db s"
  shows "map row_key (db_items t) = map row_key (db_items s)"
proof -
  have "x = old" if "x \<in> set (db_items s)" "wi_ID x = wi_ID old" for x
    using assms that distinct_map_eq [of wi_ID "db_items s" x old]
    by (auto simp: wf_db_def row_updated_def live_items_def)
  moreover have "row_key new = row_key old" using assms(1) by (simp add: row_updated_def row_key_def)
  ultimately show ?thesis by (auto simp: row_updated_items [OF assms])
qed

lemma update_count_append: "update_count rvs i \<le> update_count (rvs @ rvs') i"
  by (simp add: update_count_def)

lemma grows_step:
  assumes "wi_step s t" "wf_db s"
  shows "grows s t"
  using assms(1)
proof (cases rule: wi_step_effect)
  case (succeeded req x)
  from succeeded(2) show ?thesis
  proof (cases rule: operation_effect)
    case (creation R sp ty vals cr res rv)
    from WIR_Create_Ok [OF creation(2)] show ?thesis by (auto simp: grows_def update_count_append)
  next
    case (update R old new rv)
    from row_updated_keys [OF update assms(2)] have "row_key ` set (db_items t) = row_key ` set (db_items s)"
      by (metis list.set_map)
    with update show ?thesis by (auto simp: grows_def row_updated_def update_count_append)
  qed (auto simp: grows_def delete_item_keys update_count_append)
qed (simp add: grows_def)

lemma grows_steps:
  assumes "wi_step\<^sup>*\<^sup>* s t" "wf_db s"
  shows "wf_db t \<and> grows s t"
  using assms
proof (induction rule: rtranclp_induct)
  case (step t u)
  then have "wf_db t" "grows s t" "grows t u" by (simp_all add: grows_step)
  with wf_step [OF step(2)] show ?case unfolding grows_def by (meson le_trans subset_trans)
qed (simp add: grows_def)

lemma Save_undone:
  assumes "\<And>w ty t. loadWorkItemStorage R sp (w_Number u) s = (Ok (w, ty), t) \<Longrightarrow> wi_Version w \<noteq> w_Version u"
  shows "\<not> is_ok (fst (WIR_Save R sp u m s)) \<and> (\<exists>c. snd (WIR_Save R sp u m s) = s\<lparr>db_cache := c\<rparr>)"
proof (cases "loadWorkItemStorage R sp (w_Number u) s")
  case (Pair r t)
  from readsD [OF reads_load_storage(2) Pair] obtain c where "t = s\<lparr>db_cache := c\<rparr>" by blast
  with Pair assms show ?thesis by (cases r) (auto simp: WIR_Save_def act_bind_def act_fail_def)
qed

text \<open>
  C6. No lost updates: once a client has saved a work item, any other client that still holds the version it
  was saved from cannot save it, after any further transactions, as long as less than \<open>2 ^ 64\<close> updates of
  the work item have been recorded. The failing save changes no table.
\<close>
theorem stale_save_rejected:
  assumes "wf_db s" "WIR_Save R sp u m s = (Ok (res, rv), t)" "wi_step\<^sup>*\<^sup>* t t'"
    and "update_count (db_revisions t') (wr_WorkItemID rv) < 2 ^ 64"
    and "w_Number u' = w_Number u" "w_Version u' = w_Version u"
  shows "\<not> is_ok (fst (WIR_Save R' sp u' m' t')) \<and> (\<exists>c. snd (WIR_Save R' sp u' m' t') = t'\<lparr>db_cache := c\<rparr>)"
proof (rule Save_undone)
  fix w' ty t2 assume load: "loadWorkItemStorage R' sp (w_Number u') t' = (Ok (w', ty), t2)"
  from WIR_Save_Ok [OF assms(2)] obtain w new where row: "row_updated R s t w new rv"
    and w: "wi_Number w = w_Number u" "wi_SpaceID w = sp" "wi_Version w = w_Version u" by blast
  let ?n = "\<lambda>s. update_count (db_revisions s) (wi_ID w)"
  have t: "wf_db t" "grows t t'" "wf_db t'"
    using row_updated_keeps [OF row assms(1)] grows_steps [OF assms(3)] by auto
  have old: "w \<in> set (db_items s)" "wr_WorkItemID rv = wi_ID w" using row by (auto simp: row_updated_def live_items_def)
  then have "row_key w \<in> row_key ` set (db_items s)" by blast
  with row_updated_keys [OF row assms(1)] have "row_key w \<in> row_key ` set (db_items t)" by (metis list.set_map)
  with t(2) obtain x where x: "x \<in> set (db_items t')" "row_key x = row_key w" unfolding grows_def by fastforce
  from loadWorkItemStorage_Ok [OF load] w assms(5) have "w' \<in> set (db_items t')"
    "(wi_SpaceID w', wi_Number w') = (wi_SpaceID x, wi_Number x)" using x(2) by (auto simp: row_key_def live_items_def)
  with x t(3) have "w' = x" unfolding wf_db_def by (metis (no_types, lifting) distinct_map_eq)
  with x t(3) have "wi_Version w' = of_nat (?n t')" by (simp add: wf_db_def row_key_def)
  moreover have "wi_Version w = of_nat (?n s)" using assms(1) old by (simp add: wf_db_def)
  moreover have "?n t = ?n s + 1" using row by (auto simp: row_updated_def update_count_def)
  then have "?n s < ?n t'" using t(2) by (simp add: grows_def) (metis Suc_le_lessD)
  moreover have "?n t' < 2 ^ 64" using assms(4) old(2) by simp
  ultimately show "wi_Version w' \<noteq> w_Version u'"
    using assms(6) w(3) by (simp add: word_of_nat_eq_iff take_bit_eq_mod)
qed

theorem stale_save_rejected_witness:
  "\<exists>t. snd (WIR_Save repo_sample 3 (sample_update 1 0) 8 (sample_db [sample_row 1 0])) = t \<and> 
     \<not> is_ok (fst (WIR_Save repo_sample 3 (sample_update 1 5) 8 t))"
proof -
  have wf: "wf_db (sample_db [sample_row 1 0])"
    by (simp add: wf_db_def sample_db_def sample_row_def sample_storage_def update_count_def)
  obtain res rv t where save: "WIR_Save repo_sample 3 (sample_update 1 0) 8 (sample_db [sample_row 1 0]) = (Ok (res, rv), t)"
    using sample_save by (cases "WIR_Save repo_sample 3 (sample_update 1 0) 8 (sample_db [sample_row 1 0])") (auto simp: is_ok_iff)
  from WIR_Save_Ok [OF save] have "db_revisions t = [rv]" by (auto simp: row_updated_def sample_db_def)
  then have "update_count (db_revisions t) (wr_WorkItemID rv) < 2 ^ 64" by (simp add: update_count_def)
  from stale_save_rejected [OF wf save rtranclp.rtrancl_refl this, of "sample_update 1 5"] save show ?thesis
    by (simp add: sample_update_def)
qed

end
