(* ===== verification/Work_Item_Order.thy ===== *)
theory Work_Item_Order
  imports Work_Item_Invariants
begin

text \<open>
  The order of work items: where \<^verbatim>\<open>Reorder\<close> puts a work item next to its target, and what the
  order queries do in a space with deleted work items.
\<close>

section \<open>The order of doubles\<close>

lemma f_le_refl [simp]: "f_le a a"
  by (simp add: f_le_def)

lemma f_le_trans: "f_le a b \<Longrightarrow> f_le b c \<Longrightarrow> f_le a c"
  by (simp add: f_le_def)

lemma f_less_imp_le: "f_less a b \<Longrightarrow> f_le a b"
  by (simp add: f_le_def f_less_def)

lemma f_not_less: "\<not> f_less a b \<longleftrightarrow> f_le b a"
  by (auto simp: f_le_def f_less_def)

lemma order_ok_0 [simp]: "order_ok 0"
  by (simp add: order_ok_def inf_bits_def)

lemma order_ok_not_below_0: "order_ok a \<Longrightarrow> f_le 0 a"
  using order_ok_mag(5) [of a] order_ok_mag(5) [of 0] by (simp add: f_le_def)

lemma order_ok_orderValue: "order_ok orderValue"
  by (simp add: order_ok_def orderValue_def inf_bits_def)

lemma order_ok_zero:
  assumes "order_ok a" "f_zero a"
  shows "unat a = 0"
proof -
  from assms(1) have "unat a div 2 ^ 52 < 2046" by (simp add: order_ok_def inf_bits_def div_less_iff_less_mult)
  then have "unat a div 2 ^ 52 = 0" "unat a mod 2 ^ 52 = 0"
    using assms(2) by (simp_all add: f_zero_def f_exp_def f_man_def)
  then show ?thesis by (metis add.right_neutral div_mult_mod_eq mult_zero_left)
qed

lemma order_ok_f_eq: "order_ok a \<Longrightarrow> f_eq a b \<Longrightarrow> order_ok b \<Longrightarrow> a = b"
proof -
  assume ok: "order_ok a" "order_ok b" and eq: "f_eq a b"
  show "a = b"
  proof (rule ccontr)
    assume "a \<noteq> b"
    with eq have "f_zero a" "f_zero b" by (auto simp: f_eq_def)
    with ok have "unat a = 0" "unat b = 0" by (auto intro!: order_ok_zero)
    with \<open>a \<noteq> b\<close> show False by (simp add: unat_eq_zero)
  qed
qed

lemma order_ok_f_eq_refl: "order_ok a \<Longrightarrow> f_eq a a"
  using order_ok_mag(3) [of a] by (simp add: f_eq_def)

lemma f_add_above:
  assumes "order_ok a" "order_ok b"
  shows "f_le a (f_add a b)"
proof -
  let ?m = "max (unat a) (unat b)" and ?s = "round_bits (2 * (bits_val (unat a) + bits_val (unat b)))"
  from assms have m: "?m < inf_bits - 2 ^ 52" by (simp add: order_ok_def)
  then have fin: "double_bits ?m < inf_bits" "?m < inf_bits" "unat a < inf_bits"
    by (auto simp: double_bits_def inf_bits_def)
  have "bits_val (unat a) \<le> bits_val ?m" "bits_val (unat b) \<le> bits_val ?m"
    using bits_val_mono [of "unat a" ?m] bits_val_mono [of "unat b" ?m] fin(2) by auto
  then have "?s \<le> round_bits (2 * bits_val (double_bits ?m))"
    by (intro round_bits_mono) (simp add: bits_val_double)
  with fin(1) have s: "?s < inf_bits" by (simp add: round_bits_exact)
  have "round_bits (2 * bits_val (unat a)) \<le> ?s" by (rule round_bits_mono) simp
  then have "bits_val (unat a) \<le> bits_val ?s" using s fin(3) bits_val_mono [of "unat a" ?s] by (simp add: round_bits_exact)
  with pack_finite [OF s] order_ok_mag [OF assms(1)] show ?thesis
    by (simp add: f_le_def f_add_order [OF assms] f_int_def)
qed

lemma CalculateOrder_between:
  assumes "order_ok a" "order_ok b" "f_le a b"
  shows "f_le a (CalculateOrder a b)" "f_le (CalculateOrder a b) b" "CalculateOrder b a = CalculateOrder a b"
  using mean_between [OF assms] assms(1,2) by (simp_all add: CalculateOrder_def f_add_order add.commute)

section \<open>The order queries\<close>

lemma best_order_None [simp]: "best_order better xs = None \<longleftrightarrow> xs = []"
  by (cases xs) (auto split: option.splits)

lemma best_order_max:
  "best_order (\<lambda>a b. f_less b a) xs = Some y \<Longrightarrow> y \<in> set xs \<and> (\<forall>x \<in> set xs. f_le x y)"
proof (induction xs arbitrary: y)
  case (Cons a xs)
  then show ?case by (fastforce simp: f_le_def f_less_def split: option.splits if_splits)
qed simp

lemma best_order_min:
  "best_order f_less xs = Some y \<Longrightarrow> y \<in> set xs \<and> (\<forall>x \<in> set xs. f_le y x)"
proof (induction xs arbitrary: y)
  case (Cons a xs)
  show ?case
  proof (cases "best_order f_less xs")
    case None
    with Cons.prems show ?thesis by simp
  next
    case (Some b)
    with Cons.prems have y: "y = (if f_less b a then b else a)" by simp
    with Cons.IH [OF Some] show ?thesis by (auto simp: f_not_less intro: f_less_imp_le f_le_trans)
  qed
qed simp

text \<open>The spaces in which the aggregates and the rows agree: no row is deleted, every order is usable.\<close>

definition clean_orders :: "uuid \<Rightarrow> wi_db \<Rightarrow> bool" where
  "clean_orders sp s \<longleftrightarrow>
     (\<forall>w \<in> set (db_items s). order_ok (wi_ExecutionOrder w) \<and> (wi_SpaceID w = sp \<longrightarrow> alive (wi_Lifecycle w)))"

lemma item_with_order_row:
  assumes "clean_orders sp s" "w \<in> set (db_items s)" "wi_SpaceID w = sp"
  shows "\<exists>z. item_with_order (Some (wi_ExecutionOrder w)) s = Some z \<and>
    z \<in> set (db_items s) \<and> wi_ExecutionOrder z = wi_ExecutionOrder w"
proof -
  let ?v = "wi_ExecutionOrder w" and ?rows = "\<lambda>s. filter (\<lambda>x. f_eq (wi_ExecutionOrder x) (wi_ExecutionOrder w)) (live_items s)"
  from assms have w: "order_ok ?v" "w \<in> set (live_items s)" by (auto simp: clean_orders_def live_items_def)
  then have "w \<in> set (?rows s)" using order_ok_f_eq_refl by auto
  then obtain z where z: "first_row wi_ID (?rows s) = Some z" by (metis empty_iff first_row_None_iff list.set(1) not_None_eq)
  from first_row_SomeD [OF z] have "z \<in> set (live_items s)" "f_eq (wi_ExecutionOrder z) ?v" by auto
  moreover from this assms(1) have "order_ok (wi_ExecutionOrder z)" by (auto simp: clean_orders_def live_items_def)
  ultimately show ?thesis using z w order_ok_f_eq by (auto simp: item_with_order_def live_items_def)
qed

lemma neighbour_below:
  assumes "clean_orders sp s"
  shows "case item_with_order (order_below sp ord s) s of
      None \<Rightarrow> \<forall>y \<in> set (db_items s). wi_SpaceID y = sp \<longrightarrow> \<not> f_less (wi_ExecutionOrder y) ord
    | Some z \<Rightarrow> z \<in> set (db_items s) \<and> f_less (wi_ExecutionOrder z) ord \<and>
        (\<forall>y \<in> set (db_items s). wi_SpaceID y = sp \<and> f_less (wi_ExecutionOrder y) ord
           \<longrightarrow> f_le (wi_ExecutionOrder y) (wi_ExecutionOrder z))"
proof (cases "order_below sp ord s")
  case None
  then show ?thesis by (auto simp: item_with_order_def order_below_def orders_where_def filter_empty_conv)
next
  case (Some v)
  from best_order_max [OF Some [unfolded order_below_def]] obtain w where
    w: "w \<in> set (db_items s)" "wi_SpaceID w = sp" "f_less (wi_ExecutionOrder w) ord" "wi_ExecutionOrder w = v"
    and best: "\<forall>y \<in> set (db_items s). wi_SpaceID y = sp \<and> f_less (wi_ExecutionOrder y) ord \<longrightarrow> f_le (wi_ExecutionOrder y) v"
    by (auto simp: orders_where_def)
  with item_with_order_row [OF assms w(1,2)] Some w best show ?thesis by auto
qed

lemma neighbour_above:
  assumes "clean_orders sp s"
  shows "case item_with_order (order_above sp ord s) s of
      None \<Rightarrow> \<forall>y \<in> set (db_items s). wi_SpaceID y = sp \<longrightarrow> \<not> f_less ord (wi_ExecutionOrder y)
    | Some z \<Rightarrow> z \<in> set (db_items s) \<and> f_less ord (wi_ExecutionOrder z) \<and>
        (\<forall>y \<in> set (db_items s). wi_SpaceID y = sp \<and> f_less ord (wi_ExecutionOrder y)
           \<longrightarrow> f_le (wi_ExecutionOrder z) (wi_ExecutionOrder y))"
proof (cases "order_above sp ord s")
  case None
  then show ?thesis by (auto simp: item_with_order_def order_above_def orders_where_def filter_empty_conv)
next
  case (Some v)
  from best_order_min [OF Some [unfolded order_above_def]] obtain w where
    w: "w \<in> set (db_items s)" "wi_SpaceID w = sp" "f_less ord (wi_ExecutionOrder w)" "wi_ExecutionOrder w = v"
    and best: "\<forall>y \<in> set (db_items s). wi_SpaceID y = sp \<and> f_less ord (wi_ExecutionOrder y) \<longrightarrow> f_le v (wi_ExecutionOrder y)"
    by (auto simp: orders_where_def)
  with item_with_order_row [OF assms w(1,2)] Some w best show ?thesis by auto
qed

section \<open>Reordering beside a target\<close>

lemma FindFirstItem_Ok:
  "FindFirstItem R sp i s = (Ok ord, t) \<Longrightarrow>
   \<exists>x. x \<in> set (live_items s) \<and> wi_ID x = i \<and> wi_SpaceID x = sp \<and> ord = wi_ExecutionOrder x \<and> t = s"
  by (auto simp: FindFirstItem_def act_bind_Ok_iff split: option.splits dest!: first_row_SomeD)

lemma FindSecondItem_Ok:
  assumes "FindSecondItem R ord sp (if b then DirectionAbove else DirectionBelow) s = (Ok r, t)"
  shows "r = (case item_with_order (if b then order_below sp ord s else order_above sp ord s) s of
      None \<Rightarrow> (Some uuid_Nil, None) | Some w \<Rightarrow> (Some (wi_ID w), Some (wi_ExecutionOrder w)))"
  using assms by (cases b) (auto simp: FindSecondItem_def act_bind_Ok_iff direction_defs split: option.splits)

lemma beside_target_Ok:
  assumes "beside_target R sp dir tgt w wi s = (Ok ord, t)"
  obtains x where "x \<in> set (live_items s)" "wi_ID x = tgt" "wi_SpaceID x = sp"
    "case item_with_order (if dir = DirectionBelow then order_below sp (wi_ExecutionOrder x) s
        else order_above sp (wi_ExecutionOrder x) s) s of
       None \<Rightarrow> ord = (if dir = DirectionBelow then CalculateOrder (wi_ExecutionOrder x) 0
                      else f_add (wi_ExecutionOrder x) orderValue)
     | Some z \<Rightarrow> if wi_ID z = wi_ID w then order_field wi = Ok ord
         else ord = (if dir = DirectionBelow then CalculateOrder (wi_ExecutionOrder x) (wi_ExecutionOrder z)
                     else CalculateOrder (wi_ExecutionOrder z) (wi_ExecutionOrder x))"
proof -
  from assms obtain first s1 i second s2 where
    F: "FindFirstItem R sp tgt s = (Ok first, s1)" and
    S: "FindSecondItem R first sp (if dir = DirectionBelow then DirectionAbove else DirectionBelow) s1 = (Ok (i, second), s2)" and
    ord: "(case second of
       None \<Rightarrow> act_return (if dir = DirectionBelow then CalculateOrder first 0 else f_add first orderValue)
     | Some x \<Rightarrow>
         if i = Some (wi_ID w) then act_lift (order_field wi)
         else act_return (if dir = DirectionBelow then CalculateOrder first x else CalculateOrder x first)) s2 = (Ok ord, t)"
    by (auto simp: beside_target_def act_bind_Ok_iff)
  from FindFirstItem_Ok [OF F] obtain x where x: "x \<in> set (live_items s)" "wi_ID x = tgt" "wi_SpaceID x = sp"
    "first = wi_ExecutionOrder x" "s1 = s" by blast
  let ?near = "item_with_order (if dir = DirectionBelow then order_below sp first s else order_above sp first s) s"
  have "(i, second) = (case ?near of None \<Rightarrow> (Some uuid_Nil, None) | Some z \<Rightarrow> (Some (wi_ID z), Some (wi_ExecutionOrder z)))"
    using FindSecondItem_Ok [OF S] x(5) by simp
  with ord x show ?thesis by (intro that [of x]) (auto split: option.splits if_splits)
qed

text \<open>Between the target and its neighbour, in the direction asked for.\<close>

definition placed :: "uuid \<Rightarrow> wi_db \<Rightarrow> string \<Rightarrow> work_item_storage \<Rightarrow> work_item_storage \<Rightarrow> bool" where
  "placed sp s dir x new \<longleftrightarrow>
     (if dir = DirectionBelow
      then f_le (wi_ExecutionOrder new) (wi_ExecutionOrder x) \<and>
        (\<forall>y \<in> set (db_items s). wi_SpaceID y = sp \<and> wi_ID y \<noteq> wi_ID new \<and> f_less (wi_ExecutionOrder y) (wi_ExecutionOrder x)
           \<longrightarrow> f_le (wi_ExecutionOrder y) (wi_ExecutionOrder new))
      else f_le (wi_ExecutionOrder x) (wi_ExecutionOrder new) \<and>
        (\<forall>y \<in> set (db_items s). wi_SpaceID y = sp \<and> wi_ID y \<noteq> wi_ID new \<and> f_less (wi_ExecutionOrder x) (wi_ExecutionOrder y)
           \<longrightarrow> f_le (wi_ExecutionOrder new) (wi_ExecutionOrder y)))"


lemma placed_below:
  assumes "clean_orders sp s" "x \<in> set (db_items s)"
    and "case item_with_order (order_below sp (wi_ExecutionOrder x) s) s of
       None \<Rightarrow> wi_ExecutionOrder new = CalculateOrder (wi_ExecutionOrder x) 0
     | Some z \<Rightarrow> wi_ExecutionOrder new \<in> {wi_ExecutionOrder z, CalculateOrder (wi_ExecutionOrder x) (wi_ExecutionOrder z)}"
  shows "placed sp s DirectionBelow x new"
proof -
  let ?o = wi_ExecutionOrder
  have ok: "order_ok (?o y)" if "y \<in> set (db_items s)" for y using that assms(1) by (simp add: clean_orders_def)
  note x_ok = ok [OF assms(2)]
  show ?thesis
  proof (cases "item_with_order (order_below sp (?o x) s) s")
    case None
    with neighbour_below [OF assms(1), of "?o x"] have "\<not> f_less (?o y) (?o x)" if "y \<in> set (db_items s)" "wi_SpaceID y = sp" for y
      using that by auto
    with assms(3) None CalculateOrder_between [OF order_ok_0 x_ok order_ok_not_below_0 [OF x_ok]] show ?thesis
      by (auto simp: placed_def)
  next
    case (Some z)
    with neighbour_below [OF assms(1), of "?o x"] have z: "z \<in> set (db_items s)" "f_less (?o z) (?o x)"
      "\<And>y. y \<in> set (db_items s) \<Longrightarrow> wi_SpaceID y = sp \<Longrightarrow> f_less (?o y) (?o x) \<Longrightarrow> f_le (?o y) (?o z)" by auto
    have "f_le (?o z) (?o new) \<and> f_le (?o new) (?o x)"
      using CalculateOrder_between [OF ok [OF z(1)] x_ok f_less_imp_le [OF z(2)]] assms(3) Some
        f_less_imp_le [OF z(2)] by auto
    with z(3) show ?thesis by (auto simp: placed_def intro: f_le_trans)
  qed
qed

lemma placed_above:
  assumes "clean_orders sp s" "x \<in> set (db_items s)" "dir \<noteq> DirectionBelow"
    and "case item_with_order (order_above sp (wi_ExecutionOrder x) s) s of
       None \<Rightarrow> wi_ExecutionOrder new = f_add (wi_ExecutionOrder x) orderValue
     | Some z \<Rightarrow> wi_ExecutionOrder new \<in> {wi_ExecutionOrder z, CalculateOrder (wi_ExecutionOrder z) (wi_ExecutionOrder x)}"
  shows "placed sp s dir x new"
proof -
  let ?o = wi_ExecutionOrder
  have ok: "order_ok (?o y)" if "y \<in> set (db_items s)" for y using that assms(1) by (simp add: clean_orders_def)
  note x_ok = ok [OF assms(2)]
  show ?thesis
  proof (cases "item_with_order (order_above sp (?o x) s) s")
    case None
    with neighbour_above [OF assms(1), of "?o x"] have "\<not> f_less (?o x) (?o y)" if "y \<in> set (db_items s)" "wi_SpaceID y = sp" for y
      using that by auto
    with assms(3,4) None f_add_above [OF x_ok order_ok_orderValue] show ?thesis by (auto simp: placed_def)
  next
    case (Some z)
    with neighbour_above [OF assms(1), of "?o x"] have z: "z \<in> set (db_items s)" "f_less (?o x) (?o z)"
      "\<And>y. y \<in> set (db_items s) \<Longrightarrow> wi_SpaceID y = sp \<Longrightarrow> f_less (?o x) (?o y) \<Longrightarrow> f_le (?o z) (?o y)" by auto
    have "f_le (?o x) (?o new) \<and> f_le (?o new) (?o z)"
      using CalculateOrder_between [OF x_ok ok [OF z(1)] f_less_imp_le [OF z(2)]] assms(4) Some
        f_less_imp_le [OF z(2)] by auto
    with z(3) assms(3) show ?thesis by (auto simp: placed_def intro: f_le_trans)
  qed
qed

lemma beside_target_placed:
  assumes "beside_target R sp dir tgt w wi s = (Ok (wi_ExecutionOrder new), t)" "clean_orders sp s"
    and x: "x \<in> set (db_items s)" "wi_ID x = tgt" and uniq: "distinct (map wi_ID (db_items s))"
    and "order_field wi = Ok (wi_ExecutionOrder w)" and w: "w \<in> set (db_items s)"
  shows "placed sp s dir x new"
proof -
  let ?near = "\<lambda>x. item_with_order (if dir = DirectionBelow then order_below sp (wi_ExecutionOrder x) s
    else order_above sp (wi_ExecutionOrder x) s) s"
  from assms(1) obtain x' where x': "x' \<in> set (db_items s)" "wi_ID x' = tgt" and
    ord: "case ?near x' of
       None \<Rightarrow> wi_ExecutionOrder new = (if dir = DirectionBelow then CalculateOrder (wi_ExecutionOrder x') 0
          else f_add (wi_ExecutionOrder x') orderValue)
     | Some z \<Rightarrow> if wi_ID z = wi_ID w then order_field wi = Ok (wi_ExecutionOrder new)
         else wi_ExecutionOrder new = (if dir = DirectionBelow then CalculateOrder (wi_ExecutionOrder x') (wi_ExecutionOrder z)
           else CalculateOrder (wi_ExecutionOrder z) (wi_ExecutionOrder x'))"
    by (auto elim!: beside_target_Ok simp: live_items_def)
  from x' x uniq have "x' = x" by (auto dest: distinct_map_eq)
  note ord = ord [unfolded this]
  have "z = w" if "?near x = Some z" "wi_ID z = wi_ID w" for z
  proof -
    from that(1) have "z \<in> set (db_items s)"
      by (auto simp: item_with_order_def live_items_def split: option.splits if_splits dest!: first_row_SomeD)
    with uniq w that(2) show ?thesis by (auto dest: distinct_map_eq)
  qed
  with ord assms(6) placed_below [OF assms(2) x(1), of new] placed_above [OF assms(2) x(1), of dir new] show ?thesis
    by (cases "dir = DirectionBelow") (auto split: option.splits if_splits)
qed

text \<open>Orders and rows for the witnesses.\<close>

definition order2000 :: float64 where "order2000 = 0x409F400000000000"

definition order1500 :: float64 where "order1500 = 0x4097700000000000"

lemmas float_eval = order_ok_def inf_bits_def f_eq_def orderValue_def order2000_def order1500_def f_zero_def f_exp_def
  f_nan_def f_man_def f_less_def f_int_def f_neg_def f_mag_def bits_val_def bits_sig_def bits_exp_def

definition deleted_row :: "nat \<Rightarrow> float64 \<Rightarrow> work_item_storage" where
  "deleted_row k ord = (sample_row k ord)\<lparr>wi_Lifecycle := removed (re_db repo_sample) (wi_Lifecycle (sample_row k ord))\<rparr>"

lemma sample_reorder:
  "is_ok (fst (Reorder repo_sample 3 DirectionAbove (Some 2) (sample_update 1 orderValue) 8
     (sample_db [sample_row 1 orderValue, sample_row 2 order2000])))"
proof -
  let ?s = "sample_db [sample_row 1 orderValue, sample_row 2 order2000]"
  let ?t = "?s\<lparr>db_cache := Cache_Put NewWorkItemTypeCache bare_type\<rparr>"
  have rows: "LoadFromDB repo_sample 1 ?s = (Ok (sample_row 1 orderValue), ?s)"
    "FindFirstItem repo_sample 3 2 ?t = (Ok order2000, ?t)"
    by (simp_all add: LoadFromDB_def FindFirstItem_def statement_def act_defs live_items_def sample_db_def sample_row_def, simp add: sample_storage_def)
  have "\<exists>i second. FindSecondItem repo_sample order2000 3 DirectionBelow s = (Ok (i, second), s)" for s
    by (simp add: FindSecondItem_def statement_def act_defs split: option.splits)
  then obtain i second where "FindSecondItem repo_sample order2000 3 DirectionBelow ?t = (Ok (i, second), ?t)" by blast
  moreover have "order_field (sample_update 1 orderValue) = Ok orderValue"
    by (simp add: order_field_def sample_update_def map_get_def)
  ultimately have "\<exists>ord. beside_target repo_sample 3 DirectionAbove 2 (sample_row 1 orderValue) (sample_update 1 orderValue) ?t = (Ok ord, ?t)"
    using rows(2) by (auto simp: beside_target_def act_defs direction_defs split: option.splits)
  then obtain ord where "new_order repo_sample 3 DirectionAbove (Some 2) (sample_row 1 orderValue) (sample_update 1 orderValue) ?t = (Ok ord, ?t)"
    by (auto simp: new_order_def)
  with rows(1) sample_load [of ?s] show ?thesis
    by (simp add: Reorder_def act_defs sample_update_def bare_type_def sample_row_def save_item_def
       statement_def Let_def Revision_Create_def sample_db_def to_model_def ConvertWorkItemStorageToModel_def
       WorkItemType_ConvertWorkItemStorageToModel_def sample_storage_def alive_def)
qed



section \<open>The order of a new work item\<close>

lemma orderValue_from_0: "f_add 0 orderValue = orderValue"
proof -
  have fin: "unat orderValue < inf_bits" using order_ok_orderValue by (simp add: order_ok_def)
  have "f_add 0 orderValue = f_pack False (unat orderValue)"
    using fin by (simp add: f_add_order order_ok_orderValue round_bits_exact)
  then show ?thesis by (simp add: f_pack_def)
qed

lemma created_order_clean:
  assumes "WIR_Create R sp ty vals cr s = (Ok (res, rv), t)"
    and clean: "clean_orders sp s" and w: "w \<in> set (db_items s)" "wi_SpaceID w = sp"
  shows "f_le (wi_ExecutionOrder w) (wi_ExecutionOrder (last (db_items t)))"
proof -
  from WIR_Create_Ok [OF assms(1)] obtain new where new: "db_items t = db_items s @ [new]"
    "wi_ExecutionOrder new = f_add (case item_with_order (max_order sp s) s of None \<Rightarrow> 0 | Some x \<Rightarrow> wi_ExecutionOrder x) orderValue"
    by auto
  from w obtain v where v: "max_order sp s = Some v"
    by (cases "max_order sp s") (auto simp: max_order_def orders_where_def filter_empty_conv)
  from best_order_max [OF v [unfolded max_order_def]] w obtain x where
    x: "x \<in> set (db_items s)" "wi_SpaceID x = sp" "wi_ExecutionOrder x = v" and "f_le (wi_ExecutionOrder w) v"
    by (auto simp: orders_where_def)
  moreover from item_with_order_row [OF clean x(1,2)] x(3) v
  have "wi_ExecutionOrder new = f_add v orderValue" using new(2) by auto
  moreover have "order_ok v" using x clean by (auto simp: clean_orders_def)
  ultimately show ?thesis using new(1) f_add_above [OF _ order_ok_orderValue] by (auto intro: f_le_trans)
qed

text \<open>
  A new work item gets an order not below any work item of its space if no work item of the space is
  deleted. But if the row with the highest order is deleted, and no other row has that order, the
  query finds nothing and the new work item gets the order 1000, wherever the other work items are.
\<close>
theorem created_item_order:
  assumes "WIR_Create R sp ty vals cr s = (Ok (res, rv), t)"
  shows "db_items t = db_items s @ [last (db_items t)] \<and>
    (clean_orders sp s \<longrightarrow> (\<forall>w \<in> set (db_items s). wi_SpaceID w = sp
      \<longrightarrow> f_le (wi_ExecutionOrder w) (wi_ExecutionOrder (last (db_items t))))) \<and>
    (max_order sp s = Some v \<and> (\<forall>w \<in> set (live_items s). \<not> f_eq (wi_ExecutionOrder w) v)
      \<longrightarrow> wi_ExecutionOrder (last (db_items t)) = orderValue)"
proof -
  from WIR_Create_Ok [OF assms] obtain new where new: "db_items t = db_items s @ [new]"
    "wi_ExecutionOrder new = f_add (case item_with_order (max_order sp s) s of None \<Rightarrow> 0 | Some x \<Rightarrow> wi_ExecutionOrder x) orderValue"
    by auto
  then have "wi_ExecutionOrder (last (db_items t)) = orderValue"
    if "max_order sp s = Some v \<and> (\<forall>w \<in> set (live_items s). \<not> f_eq (wi_ExecutionOrder w) v)"
    using that by (simp add: item_with_order_def filter_False orderValue_from_0)
  with new(1) created_order_clean [OF assms] show ?thesis by auto
qed

theorem created_item_order_witness:
  "\<exists>t. snd (WIR_Create repo_sample 3 9 [] 8 (sample_db [deleted_row 1 order2000, sample_row 2 order1500])) = t \<and>
     wi_ExecutionOrder (last (db_items t)) = orderValue \<and> f_less orderValue order1500"
proof -
  let ?s = "sample_db [deleted_row 1 order2000, sample_row 2 order1500]"
  obtain res rv t where c: "WIR_Create repo_sample 3 9 [] 8 ?s = (Ok (res, rv), t)"
    using sample_create [of "db_items ?s"] by (cases "WIR_Create repo_sample 3 9 [] 8 ?s") (auto simp: is_ok_iff sample_db_def)
  have top: "f_less order1500 order2000" "\<not> f_eq order1500 order2000" "f_less orderValue order1500" by (simp_all add: float_eval)
  have "max_order 3 ?s = Some order2000"
    using top by (auto simp: max_order_def orders_where_def sample_db_def deleted_row_def sample_row_def sample_storage_def f_less_def)
  moreover have "\<forall>w \<in> set (live_items ?s). \<not> f_eq (wi_ExecutionOrder w) order2000"
    using top by (simp add: live_items_def sample_db_def deleted_row_def sample_row_def sample_storage_def alive_def removed_def)
  ultimately show ?thesis using created_item_order [OF c, of order2000] c top(3) by simp
qed

end
