(* ===== verification/Links.thy ===== *)
theory Links
  imports Work_Item_Invariants
begin

text \<open>
  Links between work items: the records of \<^verbatim>\<open>workitem/link/link.go\<close>, \<^verbatim>\<open>type.go\<close>,
  \<^verbatim>\<open>link_revision.go\<close> and \<^verbatim>\<open>ancestor.go\<close>, and the repositories of links, link types and link
  revisions. The recursive query of \<^verbatim>\<open>GetAncestors\<close> is evaluated as the database does it: a working table
  is joined with the links until it is empty. The uniqueness and foreign key constraints of the tables are
  those of the migrations; texts of formatted messages are abridged.
\<close>

section \<open>Records\<close>

record link =
  l_Lifecycle :: lifecycle
  l_ID :: uuid
  l_Version :: "64 word"
  l_SourceID :: uuid
  l_TargetID :: uuid
  l_LinkTypeID :: uuid

definition WorkItemLink_Equal :: "link \<Rightarrow> link \<Rightarrow> bool" where
  "WorkItemLink_Equal l other \<longleftrightarrow>
     l_ID l = l_ID other \<and> l_Version l = l_Version other \<and> Lifecycle_Equal (l_Lifecycle l) (l_Lifecycle other) \<and>
     l_SourceID l = l_SourceID other \<and> l_TargetID l = l_TargetID other \<and> l_LinkTypeID l = l_LinkTypeID other"

definition link_copy_meta :: "link \<Rightarrow> link \<Rightarrow> link" where
  "link_copy_meta l other = l\<lparr>l_Version := l_Version other, l_Lifecycle := l_Lifecycle other\<rparr>"

definition WorkItemLink_EqualValue :: "link \<Rightarrow> link \<Rightarrow> bool" where
  "WorkItemLink_EqualValue l other = WorkItemLink_Equal (link_copy_meta l other) other"

definition Link_CheckValidForCreation :: "link \<Rightarrow> unit res" where
  "Link_CheckValidForCreation l =
     (if l_LinkTypeID l = uuid_Nil then Err (NewBadParameterError ''link_type_id'' (VUUID (l_LinkTypeID l))) else Ok ())"

fun GetParentIDOf :: "link list \<Rightarrow> uuid \<Rightarrow> uuid \<Rightarrow> uuid" where
  "GetParentIDOf [] childID linkTypeID = uuid_Nil"
| "GetParentIDOf (l # ls) childID linkTypeID =
     (if l_TargetID l = childID \<and> l_LinkTypeID l = linkTypeID then l_SourceID l
      else GetParentIDOf ls childID linkTypeID)"

text \<open>The order of the result is that of a Go map.\<close>

definition GetDistinctListOfTargetIDs :: "link list \<Rightarrow> uuid \<Rightarrow> uuid list" where
  "GetDistinctListOfTargetIDs ls linkTypeID =
     remdups (map l_TargetID (filter (\<lambda>l. l_LinkTypeID l = linkTypeID) ls))"

record link_type =
  wlt_Lifecycle :: lifecycle
  wlt_ID :: uuid
  wlt_Name :: string
  wlt_Description :: "string option"
  wlt_Version :: "64 word"
  wlt_Topology :: string
  wlt_ForwardName :: string
  wlt_ForwardDescription :: "string option"
  wlt_ReverseName :: string
  wlt_ReverseDescription :: "string option"
  wlt_SpaceTemplateID :: uuid

definition WorkItemLinkType_Equal :: "link_type \<Rightarrow> link_type \<Rightarrow> bool" where
  "WorkItemLinkType_Equal t other \<longleftrightarrow>
     wlt_ID t = wlt_ID other \<and> wlt_Name t = wlt_Name other \<and> wlt_Version t = wlt_Version other \<and>
     Lifecycle_Equal (wlt_Lifecycle t) (wlt_Lifecycle other) \<and>
     wlt_Description t = wlt_Description other \<and> wlt_ForwardDescription t = wlt_ForwardDescription other \<and>
     wlt_ReverseDescription t = wlt_ReverseDescription other \<and> wlt_Topology t = wlt_Topology other \<and>
     wlt_ForwardName t = wlt_ForwardName other \<and> wlt_ReverseName t = wlt_ReverseName other \<and>
     wlt_SpaceTemplateID t = wlt_SpaceTemplateID other"

definition link_type_copy_meta :: "link_type \<Rightarrow> link_type \<Rightarrow> link_type" where
  "link_type_copy_meta t other = t\<lparr>wlt_Version := wlt_Version other, wlt_Lifecycle := wlt_Lifecycle other\<rparr>"

definition WorkItemLinkType_EqualValue :: "link_type \<Rightarrow> link_type \<Rightarrow> bool" where
  "WorkItemLinkType_EqualValue t other = WorkItemLinkType_Equal (link_type_copy_meta t other) other"

definition LinkType_CheckValidForCreation :: "link_type \<Rightarrow> unit res" where
  "LinkType_CheckValidForCreation t =
     (if wlt_Name t = [] then Err (NewBadParameterError ''name'' (VString (wlt_Name t)))
      else if wlt_ForwardName t = [] then Err (NewBadParameterError ''forward_name'' (VString (wlt_ForwardName t)))
      else if wlt_ReverseName t = [] then Err (NewBadParameterError ''reverse_name'' (VString (wlt_ReverseName t)))
      else case Topology_CheckValid (wlt_Topology t) of
        Some e \<Rightarrow> Err (EWrap [] e)
      | None \<Rightarrow>
          if wlt_SpaceTemplateID t = uuid_Nil
          then Err (NewBadParameterError ''space_template_id'' (VUUID (wlt_SpaceTemplateID t))) else Ok ())"

record link_revision =
  lr_ID :: uuid
  lr_Time :: gotime
  lr_Type :: nat
  lr_ModifierIdentity :: uuid
  lr_WorkItemLinkID :: uuid
  lr_WorkItemLinkVersion :: "64 word"
  lr_WorkItemLinkSourceID :: uuid
  lr_WorkItemLinkTargetID :: uuid
  lr_WorkItemLinkTypeID :: uuid

section \<open>Ancestors\<close>

record ancestor =
  an_ID :: uuid
  an_DirectChildID :: uuid
  an_OriginalChildID :: uuid
  an_IsRoot :: bool
  an_Level :: int

definition AncestorLevelAll :: int where "AncestorLevelAll = -1"

definition GetDistinctAncestorIDs :: "ancestor list \<Rightarrow> uuid list" where
  "GetDistinctAncestorIDs as = remdups (map an_ID as)"

definition GetParentOf :: "ancestor list \<Rightarrow> uuid \<Rightarrow> ancestor option" where
  "GetParentOf as workItemID = find (\<lambda>a. an_DirectChildID a = workItemID) as"

text \<open>A row of the working table: the columns of the common table expression.\<close>

record cte_row =
  cr_id :: uuid
  cr_ancestor :: uuid
  cr_direct_child :: uuid
  cr_original_child :: uuid
  cr_already_visited :: "uuid list"
  cr_cycle :: bool

definition cte_base :: "link list \<Rightarrow> uuid list \<Rightarrow> cte_row list" where
  "cte_base ls ids =
     map (\<lambda>l. \<lparr>cr_id = l_ID l, cr_ancestor = l_SourceID l, cr_direct_child = l_TargetID l,
              cr_original_child = l_TargetID l, cr_already_visited = [l_ID l], cr_cycle = False\<rparr>)
       (filter (\<lambda>l. l_TargetID l \<in> set ids) ls)"

definition below_limit :: "nat option \<Rightarrow> nat \<Rightarrow> bool" where
  "below_limit maxlen n \<longleftrightarrow> (case maxlen of None \<Rightarrow> True | Some k \<Rightarrow> n < k)"

definition cte_step :: "link list \<Rightarrow> nat option \<Rightarrow> cte_row list \<Rightarrow> cte_row list" where
  "cte_step ls maxlen working =
     concat (map (\<lambda>w.
       map (\<lambda>l. \<lparr>cr_id = l_ID l, cr_ancestor = l_SourceID l, cr_direct_child = l_TargetID l,
                cr_original_child = cr_original_child w, cr_already_visited = cr_already_visited w @ [l_ID l],
                cr_cycle = (l_ID l \<in> set (cr_already_visited w))\<rparr>)
         (filter (\<lambda>l. l_TargetID l = cr_ancestor w \<and> \<not> cr_cycle w \<and>
                      below_limit maxlen (length (cr_already_visited w))) ls)) working)"

text \<open>
  The evaluation of the recursive query: \<^verbatim>\<open>UNION\<close> drops rows that have been found before, and the rows
  that are new become the next working table.
\<close>

fun cte_loop :: "link list \<Rightarrow> nat option \<Rightarrow> nat \<Rightarrow> cte_row list \<Rightarrow> cte_row list \<Rightarrow> cte_row list" where
  "cte_loop ls maxlen 0 result working = result"
| "cte_loop ls maxlen (Suc n) result working =
     (if working = [] then result
      else let new = filter (\<lambda>r. r \<notin> set result) (remdups (cte_step ls maxlen working))
           in cte_loop ls maxlen n (result @ new) new)"

definition cte_rows :: "link list \<Rightarrow> nat option \<Rightarrow> uuid list \<Rightarrow> cte_row list" where
  "cte_rows ls maxlen ids = (let base = remdups (cte_base ls ids) in cte_loop ls maxlen (Suc (length ls)) base base)"

section \<open>The link repository\<close>

text \<open>The tables of the link repositories, beside those of the work items, and the space templates.\<close>

record link_db =
  ld_items :: wi_db
  ld_links :: "link list"
  ld_linkTypes :: "link_type list"
  ld_linkRevisions :: "link_revision list"
  ld_spaceTemplates :: "uuid list"

type_synonym 'a link_repo = "(link_db, 'a) action"

definition on_items :: "'a repo \<Rightarrow> 'a link_repo" where
  "on_items m = (\<lambda>s. case m (ld_items s) of (r, w) \<Rightarrow> (r, s\<lparr>ld_items := w\<rparr>))"

definition rollback_links :: "link_db \<Rightarrow> link_db \<Rightarrow> link_db" where
  "rollback_links s t = s\<lparr>ld_items := rollback_db (ld_items s) (ld_items t)\<rparr>"

definition live_links :: "link_db \<Rightarrow> link list" where
  "live_links s = filter (\<lambda>l. alive (l_Lifecycle l)) (ld_links s)"

definition links_of_type :: "uuid \<Rightarrow> link_db \<Rightarrow> link list" where
  "links_of_type linkTypeID s = filter (\<lambda>l. l_LinkTypeID l = linkTypeID) (live_links s)"

definition GetAncestors :: "repo_env \<Rightarrow> uuid \<Rightarrow> int \<Rightarrow> uuid list \<Rightarrow> ancestor list link_repo" where
  "GetAncestors R linkTypeID upToLevel workItemIDs =
     (if workItemIDs = [] \<or> upToLevel \<le> 0 \<and> upToLevel \<noteq> AncestorLevelAll then act_return []
      else act_bind (statement (re_db R) ''ancestors''
             (\<lambda>e. NewInternalError (EWrap ''failed to find ancestors for work items'' e))) (\<lambda>_.
        act_gets (\<lambda>s. Ok (map (\<lambda>r.
            \<lparr>an_ID = cr_ancestor r, an_DirectChildID = cr_direct_child r, an_OriginalChildID = cr_original_child r,
             an_IsRoot = (\<not> list_ex (\<lambda>l. l_TargetID l = cr_ancestor r \<and> l_LinkTypeID l = linkTypeID) (ld_links s)),
             an_Level = int (length (cr_already_visited r))\<rparr>)
          (cte_rows (links_of_type linkTypeID s)
             (if upToLevel = AncestorLevelAll then None else Some (nat upToLevel)) workItemIDs)))))"

definition HasParent :: "repo_env \<Rightarrow> uuid \<Rightarrow> link_type \<Rightarrow> bool link_repo" where
  "HasParent R childID linkType =
     act_bind (statement (re_db R) ''parent exists''
       (EWrap ''failed to check if a parent exists for the work item'')) (\<lambda>_.
     act_gets (\<lambda>s. Ok (list_ex (\<lambda>l. l_TargetID l = childID) (links_of_type (wlt_ID linkType) s))))"

definition DetectCycle :: "repo_env \<Rightarrow> uuid \<Rightarrow> uuid \<Rightarrow> uuid \<Rightarrow> bool link_repo" where
  "DetectCycle R sourceID targetID linkTypeID =
     act_bind (act_map_err (EWrap ''failed to check if the work item has a parent work item'')
                 (GetAncestors R linkTypeID AncestorLevelAll [sourceID])) (\<lambda>ancestors.
     act_return (list_ex (\<lambda>a. an_ID a = targetID) ancestors))"

definition ValidateTopology :: "repo_env \<Rightarrow> uuid \<Rightarrow> uuid \<Rightarrow> link_type \<Rightarrow> unit link_repo" where
  "ValidateTopology R sourceID targetID linkType =
     act_bind
       (if wlt_Topology linkType = TopologyTree then
          act_bind (act_map_err (EWrap ''failed to check if the work item has a parent work item'')
                      (HasParent R targetID linkType)) (\<lambda>parentExists.
            if parentExists then
              act_fail (Expected (NewBadParameterError ''linkTypeID + targetID''
                (VString (uString (re_uuid R) (wlt_ID linkType) @ '' + '' @ uString (re_uuid R) targetID)))
                (VString ''single parent in tree topology''))
            else act_return ())
        else act_return ()) (\<lambda>_.
       if wlt_Topology linkType = TopologyTree \<or> wlt_Topology linkType = TopologyDependency then
         act_bind (act_map_err (EWrap ''error during cycle-detection of new link'')
                     (DetectCycle R sourceID targetID (wlt_ID linkType))) (\<lambda>hasCycle.
           if hasCycle then
             act_fail (NewDataConflictError (''linking the work item '' @ uString (re_uuid R) sourceID @ '' to '' @
               uString (re_uuid R) targetID @ '' would create a cycle which is not allowed in a '' @
               wlt_Topology linkType @ '' topology''))
           else act_return ())
       else act_return ())"


definition acquireLock :: "repo_env \<Rightarrow> uuid \<Rightarrow> unit link_repo" where
  "acquireLock R spaceID = statement (re_db R) ''lock'' (EWrap ''failed to acquire pg_advisory_xact_lock'')"

definition LinkRevision_Create :: "repo_env \<Rightarrow> uuid \<Rightarrow> nat \<Rightarrow> link \<Rightarrow> unit link_repo" where
  "LinkRevision_Create R modifierID revisionType l =
     (let rev = \<lparr>lr_ID = env_newID (re_db R) ''link revision'', lr_Time = env_now (re_db R), lr_Type = revisionType,
                 lr_ModifierIdentity = modifierID, lr_WorkItemLinkID = l_ID l, lr_WorkItemLinkVersion = l_Version l,
                 lr_WorkItemLinkSourceID = l_SourceID l, lr_WorkItemLinkTargetID = l_TargetID l,
                 lr_WorkItemLinkTypeID = l_LinkTypeID l\<rparr>
      in act_bind (statement (re_db R) ''insert link revision''
                     (\<lambda>e. NewInternalError (EWrap ''failed to create new work item link revision'' e))) (\<lambda>_.
         act_modify (\<lambda>s. s\<lparr>ld_linkRevisions := ld_linkRevisions s @ [rev]\<rparr>)))"

definition LinkRevision_List :: "repo_env \<Rightarrow> uuid \<Rightarrow> link_revision list link_repo" where
  "LinkRevision_List R linkID =
     act_bind (statement (re_db R) ''link revisions''
                 (\<lambda>e. NewInternalError (EWrap ''failed to retrieve work item link revisions'' e))) (\<lambda>_.
     act_gets (\<lambda>s. Ok (sort_key (\<lambda>r. fst (lr_Time r))
                          (filter (\<lambda>r. lr_WorkItemLinkID r = linkID) (ld_linkRevisions s)))))"

subsection \<open>Link types\<close>

definition live_linkTypes :: "link_db \<Rightarrow> link_type list" where
  "live_linkTypes s = filter (\<lambda>t. alive (wlt_Lifecycle t)) (ld_linkTypes s)"

definition find_linkType :: "uuid \<Rightarrow> link_db \<Rightarrow> link_type option" where
  "find_linkType i s = first_row wlt_ID (filter (\<lambda>t. wlt_ID t = i) (live_linkTypes s))"

text \<open>The index \<^verbatim>\<open>work_item_link_types_name_idx\<close> over the rows that are not deleted.\<close>

definition name_taken :: "link_type \<Rightarrow> link_db \<Rightarrow> bool" where
  "name_taken t s \<longleftrightarrow>
     list_ex (\<lambda>x. wlt_ID x \<noteq> wlt_ID t \<and> wlt_Name x = wlt_Name t \<and> wlt_SpaceTemplateID x = wlt_SpaceTemplateID t)
       (live_linkTypes s)"

definition linkType_index :: string where "linkType_index = ''work_item_link_types_name_idx''"

definition LinkType_Create :: "repo_env \<Rightarrow> link_type \<Rightarrow> link_type link_repo" where
  "LinkType_Create R linkType =
     act_bind (act_map_err (EWrap []) (act_lift (LinkType_CheckValidForCreation linkType))) (\<lambda>_.
     let new = linkType\<lparr>wlt_Lifecycle := created (re_db R),
                        wlt_ID := if wlt_ID linkType = uuid_Nil then env_newID (re_db R) ''link type'' else wlt_ID linkType\<rparr>
     in act_bind (act_map_err
          (\<lambda>e. if IsUniqueViolation (Some e) linkType_index
               then NewDataConflictError (''work item link type already exists with the same space_template_id: '' @
                      uString (re_uuid R) (wlt_SpaceTemplateID linkType) @ ''; name: '' @ wlt_Name linkType)
               else NewInternalError (EWrap ''failed to create link type'' e))
          (insert_row (re_db R) ''insert link type''
             (\<lambda>s. if wlt_ID new \<in> set (map wlt_ID (ld_linkTypes s)) then Some (EPq ''23505'' ''work_item_link_types_pkey'' [])
                  else if name_taken new s then Some (EPq ''23505'' linkType_index []) else None)
             (\<lambda>s. s\<lparr>ld_linkTypes := ld_linkTypes s @ [new]\<rparr>))) (\<lambda>_. act_return new))"

definition LinkType_Load :: "repo_env \<Rightarrow> uuid \<Rightarrow> link_type link_repo" where
  "LinkType_Load R i =
     act_bind (statement (re_db R) ''link type'' NewInternalError) (\<lambda>_.
     act_gets (\<lambda>s. case find_linkType i s of
         None \<Rightarrow> Err (NewNotFoundError ''work item link type'' (uString (re_uuid R) i))
       | Some t \<Rightarrow> Ok t))"

definition LinkType_CheckExists :: "repo_env \<Rightarrow> uuid \<Rightarrow> unit link_repo" where
  "LinkType_CheckExists R i =
     CheckExists (re_uuid R) (re_db R) ''work_item_link_types'' (\<lambda>s. map wlt_ID (live_linkTypes s)) i"

definition SystemBaseTemplateID :: uuid where
  "SystemBaseTemplateID = 0x1f48b7bfbc51482381019f10039035ba"

definition LinkType_List :: "repo_env \<Rightarrow> uuid \<Rightarrow> link_type list link_repo" where
  "LinkType_List R spaceTemplateID =
     act_bind (act_map_err (\<lambda>_. NewNotFoundError ''space template'' (uString (re_uuid R) spaceTemplateID))
       (CheckExists (re_uuid R) (re_db R) ''space_templates'' ld_spaceTemplates spaceTemplateID)) (\<lambda>_.
     act_bind (statement (re_db R) ''link types'' (EWrap ''failed to find link types'')) (\<lambda>_.
     act_gets (\<lambda>s. Ok (sort_key wlt_Name
       (filter (\<lambda>t. wlt_SpaceTemplateID t \<in> {spaceTemplateID, SystemBaseTemplateID}) (live_linkTypes s))))))"

definition LinkType_Save :: "repo_env \<Rightarrow> link_type \<Rightarrow> link_type link_repo" where
  "LinkType_Save R modelToSave =
     act_bind (statement (re_db R) ''link type'' NewInternalError) (\<lambda>_.
     act_bind (act_gets (\<lambda>s. case find_linkType (wlt_ID modelToSave) s of
         None \<Rightarrow> Err (NewNotFoundError ''work item link type'' (uString (re_uuid R) (wlt_ID modelToSave)))
       | Some t \<Rightarrow> Ok t)) (\<lambda>existingModel.
     act_bind (act_map_err (EWrap []) (act_lift (LinkType_CheckValidForCreation modelToSave))) (\<lambda>_.
     if wlt_Version existingModel \<noteq> wlt_Version modelToSave then
       act_fail (NewVersionConflictError ''version conflict'')
     else if wlt_SpaceTemplateID existingModel \<noteq> wlt_SpaceTemplateID modelToSave then
       act_fail (NewForbiddenError ''you must not change the link types association to a space'')
     else if Topology_CheckValid (wlt_Topology modelToSave) \<noteq> None then
       act_fail (NewBadParameterError ''topology'' (VString (wlt_Topology modelToSave)))
     else let new = modelToSave\<lparr>wlt_Version := wlt_Version modelToSave + 1,
                                wlt_Lifecycle := touched (re_db R) (wlt_Lifecycle modelToSave)\<rparr>
       in act_bind (act_map_err
            (\<lambda>e. if IsUniqueViolation (Some e) linkType_index
                 then NewDataConflictError (''work item link type already exists within the same space: '' @
                        uString (re_uuid R) (wlt_SpaceTemplateID existingModel) @ ''; name: '' @ wlt_Name existingModel)
                 else NewInternalError e)
            (insert_row (re_db R) ''update link type''
               (\<lambda>s. if alive (wlt_Lifecycle new) \<and> name_taken new s then Some (EPq ''23505'' linkType_index []) else None)
               (\<lambda>s. s\<lparr>ld_linkTypes := map (\<lambda>t. if wlt_ID t = wlt_ID new \<and> alive (wlt_Lifecycle t) then new else t)
                                          (ld_linkTypes s)\<rparr>))) (\<lambda>_. act_return new))))"

subsection \<open>Links\<close>

fun same_space :: "uuid \<Rightarrow> work_item option list \<Rightarrow> unit res" where
  "same_space spaceID [] = Ok ()"
| "same_space spaceID (None # items) = Panic"
| "same_space spaceID (Some w # items) =
     (if w_SpaceID w \<noteq> spaceID then Err (EErrorf ''cross-space links are not allowed (for now)'')
      else same_space spaceID items)"

definition first_space :: "work_item option list \<Rightarrow> uuid res" where
  "first_space items = (case items of Some w # _ \<Rightarrow> Ok (w_SpaceID w) | _ \<Rightarrow> Panic)"

text \<open>The constraints of the table of links, in the order in which the database checks them.\<close>

definition link_violation :: "link \<Rightarrow> link_db \<Rightarrow> go_error option" where
  "link_violation l s =
     (if list_ex (\<lambda>x. l_SourceID x = l_SourceID l \<and> l_TargetID x = l_TargetID l) (links_of_type (l_LinkTypeID l) s)
      then Some (EPq ''23505'' ''work_item_links_unique_idx'' [])
      else if l_SourceID l \<notin> set (map wi_ID (db_items (ld_items s)))
      then Some (EPq ''23503'' ''work_item_links_source_id_fkey'' [])
      else if l_TargetID l \<notin> set (map wi_ID (db_items (ld_items s)))
      then Some (EPq ''23503'' ''work_item_links_target_id_fkey'' []) else None)"

definition Link_Create :: "repo_env \<Rightarrow> uuid \<Rightarrow> uuid \<Rightarrow> uuid \<Rightarrow> uuid \<Rightarrow> link link_repo" where
  "Link_Create R sourceID targetID linkTypeID creatorID =
     (let l = \<lparr>l_Lifecycle = created (re_db R), l_ID = env_newID (re_db R) ''link'', l_Version = 0,
               l_SourceID = sourceID, l_TargetID = targetID, l_LinkTypeID = linkTypeID\<rparr>
      in act_bind (act_map_err (EWrap []) (act_lift (Link_CheckValidForCreation l))) (\<lambda>_.
         act_bind (act_map_err (EWrap ''failed to load source and target work items'')
                     (on_items (LoadBatchByID R [sourceID, targetID]))) (\<lambda>items.
         act_bind (act_lift (first_space items)) (\<lambda>spaceID.
         act_bind (act_lift (same_space spaceID items)) (\<lambda>_.
         act_bind (act_map_err (EWrap ''failed to acquire lock during link creation'') (acquireLock R spaceID)) (\<lambda>_.
         act_bind (act_map_err (EWrap ''failed to load link type'') (LinkType_Load R linkTypeID)) (\<lambda>linkType.
         act_bind (act_map_err (EWrap ''failed to create work item due to topology violation'')
                     (ValidateTopology R sourceID targetID linkType)) (\<lambda>_.
         act_bind (act_map_err
           (\<lambda>e. if IsUniqueViolation (Some e) ''work_item_links_unique_idx''
                then NewDataConflictError (''work item link already exists with data.relationships.source_id: '' @
                       uString (re_uuid R) sourceID @ ''; data.relationships.target_id: '' @ uString (re_uuid R) targetID @
                       ''; data.relationships.link_type_id: '' @ uString (re_uuid R) linkTypeID)
                else if IsForeignKeyViolation (Some e) ''work_item_links_source_id_fkey''
                then NewNotFoundError ''source'' (uString (re_uuid R) sourceID)
                else if IsForeignKeyViolation (Some e) ''work_item_links_target_id_fkey''
                then NewNotFoundError ''target'' (uString (re_uuid R) targetID)
                else NewInternalError e)
           (insert_row (re_db R) ''insert link'' (link_violation l) (\<lambda>s. s\<lparr>ld_links := ld_links s @ [l]\<rparr>))) (\<lambda>_.
         act_bind (act_map_err (EWrap ''error while creating work item'')
                     (LinkRevision_Create R creatorID RevisionTypeCreate l)) (\<lambda>_. act_return l))))))))))"

definition find_link :: "uuid \<Rightarrow> link_db \<Rightarrow> link option" where
  "find_link i s = find (\<lambda>l. l_ID l = i) (live_links s)"

definition link_not_found :: "repo_env \<Rightarrow> uuid \<Rightarrow> go_error" where
  "link_not_found R i = NewNotFoundError ''work item link'' (uString (re_uuid R) i)"

definition Link_Load :: "repo_env \<Rightarrow> uuid \<Rightarrow> link link_repo" where
  "Link_Load R i =
     act_bind (statement (re_db R) ''link'' NewInternalError) (\<lambda>_.
     act_gets (\<lambda>s. case find_link i s of None \<Rightarrow> Err (link_not_found R i) | Some l \<Rightarrow> Ok l))"

definition Link_CheckExists :: "repo_env \<Rightarrow> uuid \<Rightarrow> unit link_repo" where
  "Link_CheckExists R i = CheckExists (re_uuid R) (re_db R) ''work_item_links'' (\<lambda>s. map l_ID (live_links s)) i"

definition links_at :: "uuid \<Rightarrow> link_db \<Rightarrow> link list" where
  "links_at wiID s = filter (\<lambda>l. wiID \<in> {l_SourceID l, l_TargetID l}) (live_links s)"

definition ListByWorkItem :: "repo_env \<Rightarrow> uuid \<Rightarrow> link list link_repo" where
  "ListByWorkItem R wiID =
     act_bind (act_map_err (EWrap []) (on_items (LoadFromDB R wiID))) (\<lambda>wi.
     act_bind (statement (re_db R) ''links of work item'' (\<lambda>e. e)) (\<lambda>_.
     act_gets (\<lambda>s. Ok (links_at (wi_ID wi) s))))"

definition Link_List :: "repo_env \<Rightarrow> link list link_repo" where
  "Link_List R = act_bind (statement (re_db R) ''links'' (\<lambda>e. e)) (\<lambda>_. act_gets (\<lambda>s. Ok (live_links s)))"

text \<open>Both callers drop the error of \<^verbatim>\<open>deleteLink\<close>.\<close>

definition deleteLink :: "repo_env \<Rightarrow> link \<Rightarrow> uuid \<Rightarrow> unit link_repo" where
  "deleteLink R lnk suppressorID =
     act_bind (statement (re_db R) ''delete link'' (\<lambda>_. link_not_found R (l_ID lnk))) (\<lambda>_.
     act_bind (act_gets (\<lambda>s. if list_ex (\<lambda>l. l_ID l = l_ID lnk) (live_links s) then Ok ()
                             else Err (link_not_found R (l_ID lnk)))) (\<lambda>_.
     act_bind (act_modify (\<lambda>s. s\<lparr>ld_links :=
         map (\<lambda>l. if l_ID l = l_ID lnk \<and> alive (l_Lifecycle l)
                  then l\<lparr>l_Lifecycle := removed (re_db R) (l_Lifecycle l)\<rparr> else l) (ld_links s)\<rparr>)) (\<lambda>_.
     act_map_err (EWrap ''error while deleting work item'')
       (LinkRevision_Create R suppressorID RevisionTypeDelete lnk))))"

definition zero_link :: link where
  "zero_link = \<lparr>l_Lifecycle = \<lparr>lc_CreatedAt = zero_time, lc_UpdatedAt = zero_time, lc_DeletedAt = None\<rparr>,
     l_ID = uuid_Nil, l_Version = 0, l_SourceID = uuid_Nil, l_TargetID = uuid_Nil, l_LinkTypeID = uuid_Nil\<rparr>"

definition lock_source :: "repo_env \<Rightarrow> link \<Rightarrow> unit link_repo" where
  "lock_source R lnk =
     act_bind (act_map_err (EWrap ''failed to load source work item for link'')
                 (on_items (LoadByID R (l_SourceID lnk)))) (\<lambda>src.
     act_map_err (EWrap ''failed to acquire lock during link deletion'') (acquireLock R (w_SpaceID src)))"

definition Link_Delete :: "repo_env \<Rightarrow> uuid \<Rightarrow> uuid \<Rightarrow> unit link_repo" where
  "Link_Delete R linkID suppressorID =
     act_bind (act_gets (\<lambda>s.
       if env_fault (re_db R) ''link'' \<noteq> None then Ok zero_link
       else case find_link linkID s of None \<Rightarrow> Err (link_not_found R linkID) | Some l \<Rightarrow> Ok l)) (\<lambda>lnk.
     act_bind (lock_source R lnk) (\<lambda>_. ignore_error (deleteLink R lnk suppressorID)))"

fun delete_links :: "repo_env \<Rightarrow> uuid \<Rightarrow> bool \<Rightarrow> link list \<Rightarrow> unit link_repo" where
  "delete_links R suppressorID locked [] = act_return ()"
| "delete_links R suppressorID locked (l # ls) =
     act_bind (if locked then act_return () else lock_source R l) (\<lambda>_.
     act_bind (ignore_error (deleteLink R l suppressorID)) (\<lambda>_. delete_links R suppressorID True ls))"

definition DeleteRelatedLinks :: "repo_env \<Rightarrow> uuid \<Rightarrow> uuid \<Rightarrow> unit link_repo" where
  "DeleteRelatedLinks R wiID suppressorID =
     act_bind (act_gets (\<lambda>s. Ok (if env_fault (re_db R) ''links of work item'' = None then links_at wiID s else [])))
       (delete_links R suppressorID False)"

definition ListChildLinks :: "repo_env \<Rightarrow> uuid \<Rightarrow> uuid list \<Rightarrow> link list link_repo" where
  "ListChildLinks R linkTypeID parentIDs =
     act_bind (statement (re_db R) ''child links''
       (\<lambda>e. NewInternalError (EWrap ''failed to find children for work items'' e))) (\<lambda>_.
     act_gets (\<lambda>s. Ok (filter (\<lambda>l. l_SourceID l \<in> set parentIDs) (links_of_type linkTypeID s))))"

definition SystemWorkItemLinkTypeParentChildID :: uuid where
  "SystemWorkItemLinkTypeParentChildID = 0x25C326A76D034F5AB23B86A9EE4171E9"

definition child_ids :: "uuid \<Rightarrow> link_db \<Rightarrow> uuid list" where
  "child_ids parentID s =
     map l_TargetID (filter (\<lambda>l. l_SourceID l = parentID) (links_of_type SystemWorkItemLinkTypeParentChildID s))"

text \<open>
  The children of a work item that are not deleted, in falling order. When the page is empty the total
  is asked for again, with the offset still in place: the one row of the count is then skipped.
\<close>

definition children :: "uuid \<Rightarrow> link_db \<Rightarrow> work_item_storage list" where
  "children parentID s =
     sort_key (\<lambda>w. - f_int (wi_ExecutionOrder w))
       (filter (\<lambda>w. wi_ID w \<in> set (child_ids parentID s)) (live_items (ld_items s)))"

fun convert_items :: "repo_env \<Rightarrow> work_item_storage list \<Rightarrow> work_item list repo" where
  "convert_items R [] = act_return []"
| "convert_items R (w # ws) =
     act_bind (act_map_err NewInternalError (WITR_Load R (wi_Type w))) (\<lambda>wiType.
     act_bind (act_map_err NewInternalError (act_lift (to_model R wiType w))) (\<lambda>m.
     act_bind (convert_items R ws) (\<lambda>ms. act_return (m # ms))))"

definition ListWorkItemChildren ::
  "repo_env \<Rightarrow> uuid \<Rightarrow> int option \<Rightarrow> int option \<Rightarrow> (work_item list \<times> int) link_repo" where
  "ListWorkItemChildren R parentID start limit =
     (if start \<noteq> None \<and> the start < 0 then act_fail (NewBadParameterError ''start'' (VInt (word_of_int (the start))))
      else if limit \<noteq> None \<and> the limit \<le> 0 then act_fail (NewBadParameterError ''limit'' (VInt (word_of_int (the limit))))
      else act_bind (statement (re_db R) ''children'' (\<lambda>e. e)) (\<lambda>_.
        act_bind (act_gets (\<lambda>s. Ok (children parentID s))) (\<lambda>rows.
        let page = page_of start limit rows in
        act_bind (if page \<noteq> [] then act_return (int (length rows))
                  else act_bind (statement (re_db R) ''count children'' (EWrap [])) (\<lambda>_.
                    act_return (case page_of start limit [int (length rows)] of [] \<Rightarrow> 0 | n # _ \<Rightarrow> n))) (\<lambda>count.
        act_bind (on_items (convert_items R page)) (\<lambda>res. act_return (res, count))))))"

text \<open>The raw query for children looks at the rows of work items whether they are deleted or not.\<close>

definition WorkItemHasChildren :: "repo_env \<Rightarrow> uuid \<Rightarrow> bool link_repo" where
  "WorkItemHasChildren R parentID =
     act_bind (statement (re_db R) ''has children'' (EWrap ''failed to check if work item has children'')) (\<lambda>_.
     act_gets (\<lambda>s. Ok (list_ex (\<lambda>w. wi_ID w \<in> set (child_ids parentID s)) (db_items (ld_items s)))))"


section \<open>Comparison\<close>

interpretation link_equaler: equaler WorkItemLink_Equal WorkItemLink_EqualValue link_copy_meta
  by unfold_locales (auto simp: WorkItemLink_EqualValue_def WorkItemLink_Equal_def link_copy_meta_def)

interpretation link_type_equaler: equaler WorkItemLinkType_Equal WorkItemLinkType_EqualValue link_type_copy_meta
  by unfold_locales (auto simp: WorkItemLinkType_EqualValue_def WorkItemLinkType_Equal_def link_type_copy_meta_def)

section \<open>A sample\<close>

text \<open>Links between two work items, for the witnesses.\<close>

lemma sample_row_cols [simp]: "wi_Type (sample_row k f) = 9" "alive (wi_Lifecycle (sample_row k f))" "wi_ID (sample_row k f) = of_nat k"
  by (simp_all add: sample_row_def) (simp add: sample_storage_def)

definition sample_link :: "uuid \<Rightarrow> uuid \<Rightarrow> uuid \<Rightarrow> link" where
  "sample_link i source target = \<lparr>l_Lifecycle = wi_Lifecycle sample_storage, l_ID = i, l_Version = 0,
     l_SourceID = source, l_TargetID = target, l_LinkTypeID = 20\<rparr>"

definition sample_linkType :: "string \<Rightarrow> link_type" where
  "sample_linkType topology = \<lparr>wlt_Lifecycle = wi_Lifecycle sample_storage, wlt_ID = 20, wlt_Name = ''Parent'',
     wlt_Description = None, wlt_Version = 0, wlt_Topology = topology, wlt_ForwardName = ''parent of'',
     wlt_ForwardDescription = None, wlt_ReverseName = ''child of'', wlt_ReverseDescription = None,
     wlt_SpaceTemplateID = 4\<rparr>"

definition sample_links :: "string \<Rightarrow> link list \<Rightarrow> link_db" where
  "sample_links topology ls = \<lparr>ld_items = sample_db [sample_row 1 0, sample_row 2 0], ld_links = ls,
     ld_linkTypes = [sample_linkType topology], ld_linkRevisions = [], ld_spaceTemplates = [4]\<rparr>"

lemma sample_link_alive [simp]: "alive (l_Lifecycle (sample_link i a b))" "alive (wlt_Lifecycle (sample_linkType topo))"
  by (simp_all add: sample_link_def sample_linkType_def)

lemma sample_find_type:
  "ld_linkTypes s = [sample_linkType topo] \<Longrightarrow> find_linkType 20 s = Some (sample_linkType topo)"
  by (simp add: find_linkType_def live_linkTypes_def) (simp add: sample_linkType_def)

definition deleted_link :: "uuid \<Rightarrow> uuid \<Rightarrow> uuid \<Rightarrow> link" where
  "deleted_link i source target =
     (sample_link i source target)\<lparr>l_Lifecycle := removed (re_db repo_sample) (wi_Lifecycle sample_storage)\<rparr>"

section \<open>Pages of children\<close>

lemma convert_items_length: "convert_items R ws s = (Ok ms, t) \<Longrightarrow> length ms = length ws"
  by (induction R ws arbitrary: s ms t rule: convert_items.induct) (auto simp: act_bind_Ok_iff)

text \<open>
  A page of children has the children of the work item from the offset on, at most as many as the limit; with a
  page that is not empty comes the total. With an empty page behind the last child comes the
  total 0, because the second count is asked for with the offset in place.
\<close>
theorem children_page_total:
  assumes "ListWorkItemChildren R parent start limit s = (Ok (res, n), t)"
  shows "length res = length (page_of start limit (children parent s)) \<and>
    (res \<noteq> [] \<longrightarrow> n = int (length (children parent s))) \<and>
    (\<forall>k. start = Some k \<and> int (length (children parent s)) \<le> k \<and> 0 < k \<longrightarrow> res = [] \<and> n = 0)"
proof -
  from assms obtain s' where conv: "on_items (convert_items R (page_of start limit (children parent s))) s' = (Ok res, t)"
    and n: "page_of start limit (children parent s) \<noteq> [] \<Longrightarrow> n = int (length (children parent s))"
      "page_of start limit (children parent s) = [] \<Longrightarrow>
        n = (case page_of start limit [int (length (children parent s))] of [] \<Rightarrow> 0 | m # _ \<Rightarrow> m)"
    by (auto simp: ListWorkItemChildren_def Let_def act_bind_Ok_iff split: if_splits)
  have len: "length res = length (page_of start limit (children parent s))"
    using conv by (auto simp: on_items_def dest: convert_items_length split: prod.splits)
  moreover have "page_of start limit (children parent s) = []" "n = 0"
    if "start = Some k" "int (length (children parent s)) \<le> k" "0 < k" for k
  proof -
    from that(2) have "length (children parent s) \<le> nat k" by simp
    then show empty: "page_of start limit (children parent s) = []" by (simp add: page_of_def that(1) split: option.splits)
    have "drop (nat k) [int (length (children parent s))] = []" using that(3) by simp
    then have "page_of start limit [int (length (children parent s))] = []" by (simp add: page_of_def that(1) split: option.splits)
    with n(2) [OF empty] show "n = 0" by simp
  qed
  ultimately show ?thesis using n(1) by (metis length_0_conv)
qed

theorem children_page_total_witness:
  "\<exists>res t. ListWorkItemChildren repo_sample 1 (Some 1) None
       (sample_links TopologyTree [(sample_link 5 1 2)\<lparr>l_LinkTypeID := SystemWorkItemLinkTypeParentChildID\<rparr>]) = (Ok (res, 0), t) \<and>
     length (children 1 (sample_links TopologyTree [(sample_link 5 1 2)\<lparr>l_LinkTypeID := SystemWorkItemLinkTypeParentChildID\<rparr>])) = 1"
proof -
  let ?s = "sample_links TopologyTree [(sample_link 5 1 2)\<lparr>l_LinkTypeID := SystemWorkItemLinkTypeParentChildID\<rparr>]"
  have "child_ids 1 ?s = [2]"
    by (simp add: child_ids_def links_of_type_def live_links_def sample_links_def) (simp add: sample_link_def)
  then have one: "length (children 1 ?s) = 1"
    by (simp add: children_def live_items_def) (simp add: sample_links_def sample_db_def)
  then obtain w where w: "children 1 ?s = [w]" by (auto simp: length_Suc_conv)
  then have "\<exists>res n t. ListWorkItemChildren repo_sample 1 (Some 1) None ?s = (Ok (res, n), t)"
    by (simp add: ListWorkItemChildren_def act_defs statement_def page_of_def on_items_def Let_def)
  then obtain res n t where r: "ListWorkItemChildren repo_sample 1 (Some 1) None ?s = (Ok (res, n), t)" by blast
  from children_page_total [OF r] one r show ?thesis by auto
qed

end
