(* ===== verification/Link_Ancestors.thy ===== *)
theory Link_Ancestors
  imports Links
begin

text \<open>
  What the recursive query of \<^verbatim>\<open>GetAncestors\<close> computes: its rows are the trails of links from the given work
  items upwards, and its ancestors are the work items from which a given one can be reached.
\<close>

section \<open>Trails\<close>

text \<open>A trail goes up link by link; only its last link may have been used before.\<close>

definition trail :: "link list \<Rightarrow> nat option \<Rightarrow> uuid set \<Rightarrow> link list \<Rightarrow> bool" where
  "trail ls maxlen ids p \<longleftrightarrow>
     p \<noteq> [] \<and> set p \<subseteq> set ls \<and> l_TargetID (hd p) \<in> ids \<and>
     successively (\<lambda>l l'. l_TargetID l' = l_SourceID l) p \<and>
     distinct (map l_ID (butlast p)) \<and> (\<forall>n. 0 < n \<and> n < length p \<longrightarrow> below_limit maxlen n)"

definition row_of :: "link list \<Rightarrow> cte_row" where
  "row_of p = \<lparr>cr_id = l_ID (last p), cr_ancestor = l_SourceID (last p), cr_direct_child = l_TargetID (last p),
     cr_original_child = l_TargetID (hd p), cr_already_visited = map l_ID p,
     cr_cycle = (l_ID (last p) \<in> set (map l_ID (butlast p)))\<rparr>"

lemma row_of_simps [simp]:
  "cr_ancestor (row_of p) = l_SourceID (last p)" "cr_original_child (row_of p) = l_TargetID (hd p)"
  "cr_already_visited (row_of p) = map l_ID p"
  "cr_cycle (row_of p) = (l_ID (last p) \<in> set (map l_ID (butlast p)))"
  by (simp_all add: row_of_def)

definition level_rows :: "link list \<Rightarrow> nat option \<Rightarrow> uuid set \<Rightarrow> nat \<Rightarrow> cte_row set" where
  "level_rows ls maxlen ids n = row_of ` {p. trail ls maxlen ids p \<and> length p = n}"

lemma trail_singleton: "trail ls maxlen ids [l] \<longleftrightarrow> l \<in> set ls \<and> l_TargetID l \<in> ids"
  by (auto simp: trail_def)

lemma trail_snoc:
  assumes "p \<noteq> []"
  shows "trail ls maxlen ids (p @ [l]) \<longleftrightarrow>
    trail ls maxlen ids p \<and> l \<in> set ls \<and> l_TargetID l = l_SourceID (last p) \<and> distinct (map l_ID p) \<and>
    below_limit maxlen (length p)"
proof -
  have "distinct (map l_ID p) \<Longrightarrow> distinct (map l_ID (butlast p))" by (simp add: map_butlast distinct_butlast)
  moreover have "(\<forall>n. 0 < n \<and> n < length (p @ [l]) \<longrightarrow> below_limit maxlen n) \<longleftrightarrow>
    (\<forall>n. 0 < n \<and> n < length p \<longrightarrow> below_limit maxlen n) \<and> below_limit maxlen (length p)"
    using assms by (auto simp: less_Suc_eq)
  ultimately show ?thesis using assms by (auto simp: trail_def successively_append_iff)
qed

lemma distinct_last: "p \<noteq> [] \<Longrightarrow> distinct (map f p) \<longleftrightarrow> distinct (map f (butlast p)) \<and> f (last p) \<notin> set (map f (butlast p))"
  by (induction p rule: rev_induct) auto

lemma base_rows: "set (cte_base ls ids) = level_rows ls maxlen (set ids) 1"
proof -
  have "level_rows ls maxlen (set ids) 1 = row_of ` {[l] |l. l \<in> set ls \<and> l_TargetID l \<in> set ids}"
    by (auto simp: level_rows_def trail_singleton length_Suc_conv image_iff)
  also have "\<dots> = (\<lambda>l. row_of [l]) ` {l. l \<in> set ls \<and> l_TargetID l \<in> set ids}" by blast
  finally show ?thesis by (simp add: cte_base_def row_of_def)
qed

lemma step_rows:
  assumes "set working = level_rows ls maxlen ids n" "0 < n"
  shows "set (cte_step ls maxlen working) = level_rows ls maxlen ids (Suc n)"
proof -
  let ?new = "\<lambda>w l. \<lparr>cr_id = l_ID l, cr_ancestor = l_SourceID l, cr_direct_child = l_TargetID l,
     cr_original_child = cr_original_child w, cr_already_visited = cr_already_visited w @ [l_ID l],
     cr_cycle = (l_ID l \<in> set (cr_already_visited w))\<rparr>"
  let ?ok = "\<lambda>w l. l \<in> set ls \<and> l_TargetID l = cr_ancestor w \<and> \<not> cr_cycle w \<and> below_limit maxlen (length (cr_already_visited w))"
  have new: "?new (row_of p) l = row_of (p @ [l])" if "p \<noteq> []" for p l
    using that by (simp add: row_of_def)
  have ok: "trail ls maxlen ids p \<and> ?ok (row_of p) l \<longleftrightarrow> trail ls maxlen ids (p @ [l])" if "p \<noteq> []" for p l
    using that by (auto simp: trail_snoc distinct_last) (auto simp: trail_def)
  have "set (cte_step ls maxlen working) = {?new w l |w l. w \<in> level_rows ls maxlen ids n \<and> ?ok w l}"
  proof -
    have "set (cte_step ls maxlen working) = (\<Union>w \<in> set working. ?new w ` {l. ?ok w l})"
      by (simp add: cte_step_def)
    then show ?thesis unfolding assms(1) by blast
  qed
  also have "\<dots> = {row_of (p @ [l]) |p l. trail ls maxlen ids (p @ [l]) \<and> length p = n}"
  proof (intro set_eqI iffI)
    fix r assume "r \<in> {?new w l |w l. w \<in> level_rows ls maxlen ids n \<and> ?ok w l}"
    then obtain p l where p: "trail ls maxlen ids p" "length p = n" "?ok (row_of p) l" "r = ?new (row_of p) l"
      by (auto simp: level_rows_def)
    with assms(2) have "p \<noteq> []" by auto
    from p ok [OF this] new [OF this] show "r \<in> {row_of (p @ [l]) |p l. trail ls maxlen ids (p @ [l]) \<and> length p = n}"
      by blast
  next
    fix r assume "r \<in> {row_of (p @ [l]) |p l. trail ls maxlen ids (p @ [l]) \<and> length p = n}"
    then obtain p l where p: "trail ls maxlen ids (p @ [l])" "length p = n" "r = row_of (p @ [l])" by blast
    with assms(2) have ne: "p \<noteq> []" by auto
    with ok [OF ne] p(1) have "trail ls maxlen ids p" "?ok (row_of p) l" by blast+
    moreover from this(1) p(2) have "row_of p \<in> level_rows ls maxlen ids n" by (auto simp: level_rows_def)
    moreover have "r = ?new (row_of p) l" using p(3) new [OF ne] by simp
    ultimately show "r \<in> {?new w l |w l. w \<in> level_rows ls maxlen ids n \<and> ?ok w l}" by blast
  qed
  also have "\<dots> = level_rows ls maxlen ids (Suc n)"
  proof -
    have "{q. trail ls maxlen ids q \<and> length q = Suc n} = {p @ [l] |p l. trail ls maxlen ids (p @ [l]) \<and> length p = n}"
      by (auto simp: length_Suc_conv_rev)
    then show ?thesis by (auto simp: level_rows_def)
  qed
  finally show ?thesis .
qed

text \<open>Levels are apart, and there is no level beyond the number of links plus one.\<close>

lemma level_rows_length: "r \<in> level_rows ls maxlen ids n \<Longrightarrow> length (cr_already_visited r) = n"
  by (auto simp: level_rows_def)

lemma trail_length:
  assumes "trail ls maxlen ids p"
  shows "length p \<le> Suc (length ls)"
proof -
  have "set (map l_ID (butlast p)) \<subseteq> set (map l_ID ls)"
    using assms by (auto simp: trail_def dest: in_set_butlastD)
  moreover have "distinct (map l_ID (butlast p))" using assms by (simp add: trail_def)
  ultimately have "length (butlast p) \<le> card (set (map l_ID ls))"
    by (metis List.finite_set card_mono distinct_card length_map)
  also have "\<dots> \<le> length ls" by (metis card_length length_map)
  finally show ?thesis by simp
qed

lemma level_rows_empty: "Suc (length ls) < n \<Longrightarrow> level_rows ls maxlen ids n = {}"
  by (auto simp: level_rows_def dest: trail_length)

lemma cte_loop_rows:
  assumes "set working = level_rows ls maxlen ids k" "0 < k"
    and "set result = (\<Union>j \<in> {1..k}. level_rows ls maxlen ids j)"
    and "length ls < k + n"
  shows "set (cte_loop ls maxlen n result working) = row_of ` {p. trail ls maxlen ids p}"
  using assms
proof (induction n arbitrary: k result working)
  case 0
  have "(\<Union>j \<in> {1..k}. level_rows ls maxlen ids j) = row_of ` {p. trail ls maxlen ids p}"
  proof (intro equalityI subsetI)
    fix r assume "r \<in> row_of ` {p. trail ls maxlen ids p}"
    then obtain p where p: "trail ls maxlen ids p" "r = row_of p" by blast
    with trail_length [OF p(1)] 0 have "length p \<in> {1..k}"
      by (auto simp: trail_def Suc_le_eq)
    with p show "r \<in> (\<Union>j \<in> {1..k}. level_rows ls maxlen ids j)" by (auto simp: level_rows_def)
  qed (auto simp: level_rows_def)
  with 0 show ?case by simp
next
  case (Suc n)
  show ?case
  proof (cases "working = []")
    case True
    have empty: "level_rows ls maxlen ids j = {}" if "k \<le> j" for j
      using that
    proof (induction j rule: dec_induct)
      case base
      from True Suc.prems(1) show ?case by simp
    next
      case (step j)
      with step_rows [of "[]" ls maxlen ids j] Suc.prems(2) show ?case by (simp add: cte_step_def)
    qed
    have "(\<Union>j \<in> {1..k}. level_rows ls maxlen ids j) = row_of ` {p. trail ls maxlen ids p}"
    proof (intro equalityI subsetI)
      fix r assume "r \<in> row_of ` {p. trail ls maxlen ids p}"
      then obtain p where p: "trail ls maxlen ids p" "r = row_of p" by blast
      then have "r \<in> level_rows ls maxlen ids (length p)" by (auto simp: level_rows_def)
      moreover from this empty have "\<not> k \<le> length p" by auto
      moreover have "0 < length p" using p(1) by (simp add: trail_def)
      ultimately show "r \<in> (\<Union>j \<in> {1..k}. level_rows ls maxlen ids j)" by (intro UN_I [of "length p"]) (simp_all add: Suc_le_eq)
    qed (auto simp: level_rows_def)
    with True Suc.prems show ?thesis by simp
  next
    case False
    let ?new = "filter (\<lambda>r. r \<notin> set result) (remdups (cte_step ls maxlen working))"
    have step: "set (cte_step ls maxlen working) = level_rows ls maxlen ids (Suc k)"
      by (rule step_rows [OF Suc.prems(1,2)])
    have "r \<notin> set result" if "r \<in> level_rows ls maxlen ids (Suc k)" for r
      using level_rows_length [OF that] level_rows_length [of r ls maxlen ids] Suc.prems(3) by fastforce
    then have new: "set ?new = level_rows ls maxlen ids (Suc k)" by (auto simp: step)
    have "set (cte_loop ls maxlen n (result @ ?new) ?new) = row_of ` {p. trail ls maxlen ids p}"
      using Suc.prems new by (intro Suc.IH [of _ "Suc k"]) (auto simp: atLeastAtMostSuc_conv)
    with False show ?thesis by (simp add: Let_def)
  qed
qed

lemma cte_rows_trails: "set (cte_rows ls maxlen ids) = row_of ` {p. trail ls maxlen (set ids) p}"
  unfolding cte_rows_def Let_def
  by (rule cte_loop_rows [where k = 1]) (simp_all add: base_rows [of ls ids maxlen])


section \<open>Termination\<close>

lemma cte_loop_nil [simp]: "cte_loop ls maxlen n result [] = result"
  by (cases n) simp_all

lemma cte_loop_more:
  assumes "set working = level_rows ls maxlen ids k" "0 < k"
    and "set result = (\<Union>j \<in> {1..k}. level_rows ls maxlen ids j)"
    and "length ls < k + n"
  shows "cte_loop ls maxlen (n + d) result working = cte_loop ls maxlen n result working"
  using assms
proof (induction n arbitrary: k result working)
  case 0
  have "set (cte_step ls maxlen working) = {}"
    using step_rows [OF 0(1,2)] level_rows_empty [of ls "Suc k" maxlen ids] 0(4) by simp
  then have "cte_step ls maxlen working = []" by simp
  then show ?case by (cases d) simp_all
next
  case (Suc n)
  let ?new = "filter (\<lambda>r. r \<notin> set result) (remdups (cte_step ls maxlen working))"
  have step: "set (cte_step ls maxlen working) = level_rows ls maxlen ids (Suc k)"
    by (rule step_rows [OF Suc.prems(1,2)])
  have "r \<notin> set result" if "r \<in> level_rows ls maxlen ids (Suc k)" for r
    using level_rows_length [OF that] level_rows_length [of r ls maxlen ids] Suc.prems(3) by fastforce
  then have new: "set ?new = level_rows ls maxlen ids (Suc k)" by (auto simp: step)
  have "cte_loop ls maxlen (n + d) (result @ ?new) ?new = cte_loop ls maxlen n (result @ ?new) ?new"
    using Suc.prems new by (intro Suc.IH [of _ "Suc k"]) (auto simp: atLeastAtMostSuc_conv)
  then show ?case by (simp add: Let_def)
qed

text \<open>
  C28. The recursive query ends, cycles of links or not: after as many rounds as there are links of the type, and
  one more, the working table stays empty, so that further rounds add nothing.
\<close>
theorem ancestor_query_terminates:
  "cte_loop ls maxlen (Suc (length ls) + d) (remdups (cte_base ls ids)) (remdups (cte_base ls ids))
     = cte_rows ls maxlen ids"
  unfolding cte_rows_def Let_def
  by (rule cte_loop_more [where k = 1 and ids = "set ids"]) (simp_all add: base_rows [of ls ids maxlen])

section \<open>Reachability\<close>

text \<open>The pairs of source and target of a list of links.\<close>

definition parent_rel :: "link list \<Rightarrow> (uuid \<times> uuid) set" where
  "parent_rel ls = (\<lambda>l. (l_SourceID l, l_TargetID l)) ` set ls"

lemma trail_sound:
  assumes "trail ls maxlen ids p"
  shows "(l_SourceID (last p), l_TargetID (hd p)) \<in> (parent_rel ls)\<^sup>+ \<and> l_TargetID (hd p) \<in> ids"
  using assms
proof (induction p rule: rev_induct)
  case (snoc l p)
  show ?case
  proof (cases "p = []")
    case True
    with snoc.prems show ?thesis by (auto simp: trail_singleton parent_rel_def)
  next
    case False
    with snoc have "(l_SourceID (last p), l_TargetID (hd p)) \<in> (parent_rel ls)\<^sup>+" "l_TargetID (hd p) \<in> ids"
      "l \<in> set ls" "l_TargetID l = l_SourceID (last p)" by (auto simp: trail_snoc)
    moreover from this(3) have "(l_SourceID l, l_TargetID l) \<in> parent_rel ls" by (auto simp: parent_rel_def)
    ultimately show ?thesis using False by (auto intro: trancl_into_trancl2)
  qed
qed (simp add: trail_def)

text \<open>A trail can be cut so that no link occurs twice, if links have identifiers of their own.\<close>

lemma trail_prefix: "trail ls maxlen ids (p @ q) \<Longrightarrow> p \<noteq> [] \<Longrightarrow> trail ls maxlen ids p"
proof (induction q rule: rev_induct)
  case (snoc l q)
  then show ?case using trail_snoc [of "p @ q" ls maxlen ids l] by (simp del: append_assoc add: append_assoc [symmetric])
qed simp

lemma trail_distinct:
  assumes "trail ls maxlen ids p" "distinct (map l_ID ls)"
  shows "\<exists>q. trail ls maxlen ids q \<and> distinct (map l_ID q) \<and> last q = last p \<and> l_TargetID (hd q) = l_TargetID (hd p)"
proof (cases "distinct (map l_ID p)")
  case True
  with assms(1) show ?thesis by blast
next
  case False
  from assms(1) have ne: "p \<noteq> []" and dist: "distinct (map l_ID (butlast p))" and sub: "set p \<subseteq> set ls"
    by (auto simp: trail_def)
  from False dist ne obtain l where l: "l \<in> set (butlast p)" "l_ID l = l_ID (last p)"
    by (auto simp: distinct_last)
  with sub ne have "l \<in> set ls" "last p \<in> set ls" by (auto dest: in_set_butlastD)
  with l assms(2) have "l = last p" by (auto dest: distinct_map_eq)
  with l(1) obtain xs ys where xs: "butlast p = xs @ last p # ys" by (auto simp: in_set_conv_decomp)
  let ?q = "xs @ [last p]"
  have p: "p = ?q @ ys @ [last p]" using xs append_butlast_last_id [OF ne] by simp
  have "trail ls maxlen ids ?q" 
  proof (rule trail_prefix)
    show "trail ls maxlen ids (?q @ ys @ [last p])" by (rule subst [of p, OF p]) (rule assms(1))
  qed simp
  moreover have "distinct (map l_ID ?q)" using dist xs by simp
  moreover have "hd ?q = hd p" using p by (metis append_is_Nil_conv hd_append2 list.distinct(1))
  ultimately show ?thesis by (auto intro!: exI [of _ ?q])
qed

lemma trail_complete:
  assumes "(a, c) \<in> (parent_rel ls)\<^sup>+" "c \<in> ids" "distinct (map l_ID ls)"
  shows "\<exists>p. trail ls None ids p \<and> l_SourceID (last p) = a \<and> l_TargetID (hd p) = c"
  using assms(1)
proof (induction rule: converse_trancl_induct)
  case (base a)
  then obtain l where "l \<in> set ls" "l_SourceID l = a" "l_TargetID l = c" by (auto simp: parent_rel_def)
  with assms(2) show ?case by (intro exI [of _ "[l]"]) (simp add: trail_singleton)
next
  case (step a b)
  then obtain p where "trail ls None ids p" "l_SourceID (last p) = b" "l_TargetID (hd p) = c" by blast
  with trail_distinct [OF this(1) assms(3)] obtain q where
    q: "trail ls None ids q" "distinct (map l_ID q)" "l_SourceID (last q) = b" "l_TargetID (hd q) = c" by auto
  then have ne: "q \<noteq> []" by (simp add: trail_def)
  from step(1) obtain l where l: "l \<in> set ls" "l_SourceID l = a" "l_TargetID l = b" by (auto simp: parent_rel_def)
  with q ne have "trail ls None ids (q @ [l])" by (simp add: trail_snoc below_limit_def)
  with q l ne show ?case by (intro exI [of _ "q @ [l]"]) simp
qed

lemma cte_rows_reachable:
  assumes "distinct (map l_ID ls)"
  shows "(\<lambda>r. (cr_ancestor r, cr_original_child r)) ` set (cte_rows ls None ids)
    = {(a, c). c \<in> set ids \<and> (a, c) \<in> (parent_rel ls)\<^sup>+}"
proof (intro equalityI subsetI)
  fix x assume "x \<in> {(a, c). c \<in> set ids \<and> (a, c) \<in> (parent_rel ls)\<^sup>+}"
  then obtain a c where x: "x = (a, c)" "c \<in> set ids" "(a, c) \<in> (parent_rel ls)\<^sup>+" by blast
  from trail_complete [OF x(3,2) assms] obtain p where
    "trail ls None (set ids) p" "l_SourceID (last p) = a" "l_TargetID (hd p) = c" by blast
  with x(1) show "x \<in> (\<lambda>r. (cr_ancestor r, cr_original_child r)) ` set (cte_rows ls None ids)"
    by (auto simp: cte_rows_trails image_iff intro!: exI [of _ p])
qed (auto simp: cte_rows_trails dest: trail_sound)

text \<open>The link table has identifiers of its own.\<close>

definition link_ids_unique :: "link_db \<Rightarrow> bool" where
  "link_ids_unique s \<longleftrightarrow> distinct (map l_ID (ld_links s))"

lemma links_of_type_unique: "link_ids_unique s \<Longrightarrow> distinct (map l_ID (links_of_type ty s))"
  by (simp add: link_ids_unique_def links_of_type_def live_links_def distinct_map_filter)

abbreviation parents :: "uuid \<Rightarrow> link_db \<Rightarrow> (uuid \<times> uuid) set" where
  "parents ty s \<equiv> parent_rel (links_of_type ty s)"

lemma GetAncestors_reach:
  assumes "link_ids_unique s" "GetAncestors R ty AncestorLevelAll ids s = (Ok as, t)"
  shows "(\<lambda>a. (an_ID a, an_OriginalChildID a)) ` set as = {(a, c). c \<in> set ids \<and> (a, c) \<in> (parents ty s)\<^sup>+} \<and> t = s"
proof (cases "ids = []")
  case True
  with assms(2) show ?thesis by (simp add: GetAncestors_def)
next
  case False
  let ?rows = "cte_rows (links_of_type ty s) None ids"
  from assms(2) False have "(\<lambda>a. (an_ID a, an_OriginalChildID a)) ` set as =
    (\<lambda>r. (cr_ancestor r, cr_original_child r)) ` set ?rows" "t = s"
    by (auto simp: GetAncestors_def act_bind_Ok_iff image_image AncestorLevelAll_def)
  with cte_rows_reachable [OF links_of_type_unique [OF assms(1)]] show ?thesis by simp
qed

lemma DetectCycle_iff:
  assumes "link_ids_unique s" "DetectCycle R source target ty s = (Ok b, t)"
  shows "(b \<longleftrightarrow> (target, source) \<in> (parents ty s)\<^sup>+) \<and> t = s"
proof -
  from assms(2) obtain as where "GetAncestors R ty AncestorLevelAll [source] s = (Ok as, t)"
    "b \<longleftrightarrow> (\<exists>a \<in> set as. an_ID a = target)"
    by (auto simp: DetectCycle_def act_bind_Ok_iff list_ex_iff)
  moreover from GetAncestors_reach [OF assms(1) this(1)]
  have "(\<exists>a \<in> set as. an_ID a = target) \<longleftrightarrow> (target, source) \<in> (parents ty s)\<^sup>+" "t = s"
    by (auto simp: set_eq_iff image_iff) metis+
  ultimately show ?thesis by simp
qed

text \<open>
  C7. Asked for all levels, \<^verbatim>\<open>GetAncestors\<close> returns for the given work items exactly the work items from
  which they can be reached over links of the type that are not deleted, whatever the links look like.
\<close>
theorem ancestors_are_reachability:
  assumes "link_ids_unique s" "GetAncestors R ty AncestorLevelAll ids s = (Ok as, t)"
  shows "(\<lambda>a. (an_ID a, an_OriginalChildID a)) ` set as = {(a, c). c \<in> set ids \<and> (a, c) \<in> (parents ty s)\<^sup>+} \<and> t = s"
  by (rule GetAncestors_reach [OF assms])


lemma sample_ancestors:
  "\<exists>as. GetAncestors repo_sample 20 AncestorLevelAll ids s = (Ok as, s)"
  by (simp add: GetAncestors_def act_defs statement_def)

theorem ancestors_are_reachability_witness:
  "\<exists>as. GetAncestors repo_sample 20 AncestorLevelAll [2] (sample_links TopologyNetwork [sample_link 5 1 2, sample_link 6 2 1])
      = (Ok as, sample_links TopologyNetwork [sample_link 5 1 2, sample_link 6 2 1]) \<and>
     (2, 2) \<in> (\<lambda>a. (an_ID a, an_OriginalChildID a)) ` set as"
proof -
  let ?s = "sample_links TopologyNetwork [sample_link 5 1 2, sample_link 6 2 1]"
  obtain as where as: "GetAncestors repo_sample 20 AncestorLevelAll [2] ?s = (Ok as, ?s)" using sample_ancestors by blast
  have ids: "link_ids_unique ?s" by (simp add: link_ids_unique_def sample_links_def sample_link_def)
  have "(2, 1) \<in> parents 20 ?s" "(1, 2) \<in> parents 20 ?s"
    by (simp_all add: parent_rel_def links_of_type_def live_links_def sample_links_def) (simp_all add: sample_link_def)
  then have "(2, 2) \<in> (parents 20 ?s)\<^sup>+" by (rule trancl.intros(2) [OF trancl.intros(1)])
  with ancestors_are_reachability [OF ids as] as show ?thesis by auto
qed

text \<open>
  \<^verbatim>\<open>IsRoot\<close> looks for a parent among all links of the type, deleted ones included: an ancestor
  without a parent is not reported as a root if it ever had one.
\<close>
theorem deleted_link_hides_root:
  assumes "GetAncestors R ty level ids s = (Ok as, t)" "a \<in> set as"
    and "l \<in> set (ld_links s)" "l_LinkTypeID l = ty" "l_TargetID l = an_ID a"
  shows "\<not> an_IsRoot a"
proof -
  from assms(1,2) have "an_IsRoot a \<longleftrightarrow> \<not> list_ex (\<lambda>l. l_TargetID l = an_ID a \<and> l_LinkTypeID l = ty) (ld_links s)"
    by (auto simp: GetAncestors_def act_bind_Ok_iff split: if_splits)
  with assms(3-5) show ?thesis by (auto simp: list_ex_iff)
qed

theorem deleted_link_hides_root_witness:
  "\<exists>as a. GetAncestors repo_sample 20 AncestorLevelAll [2] (sample_links TopologyTree [sample_link 5 1 2, deleted_link 6 2 1])
      = (Ok as, sample_links TopologyTree [sample_link 5 1 2, deleted_link 6 2 1]) \<and> a \<in> set as \<and> an_ID a = 1 \<and>
     (\<forall>p. (p, 1) \<notin> parents 20 (sample_links TopologyTree [sample_link 5 1 2, deleted_link 6 2 1])) \<and> \<not> an_IsRoot a"
proof -
  let ?s = "sample_links TopologyTree [sample_link 5 1 2, deleted_link 6 2 1]"
  obtain as where as: "GetAncestors repo_sample 20 AncestorLevelAll [2] ?s = (Ok as, ?s)" using sample_ancestors by blast
  have ids: "link_ids_unique ?s" by (simp add: link_ids_unique_def sample_links_def sample_link_def deleted_link_def)
  have parents: "parents 20 ?s = {(1, 2)}"
  proof -
    have "live_links ?s = [sample_link 5 1 2]"
      by (simp add: live_links_def sample_links_def deleted_link_def)
    then show ?thesis by (simp add: links_of_type_def parent_rel_def sample_link_def)
  qed
  then have "(1, 2) \<in> (parents 20 ?s)\<^sup>+" by auto
  with GetAncestors_reach [OF ids as] have "(1, 2) \<in> (\<lambda>a. (an_ID a, an_OriginalChildID a)) ` set as" by simp
  then obtain a where a: "a \<in> set as" "an_ID a = 1" by auto
  have "deleted_link 6 2 1 \<in> set (ld_links ?s)" by (simp add: sample_links_def)
  from deleted_link_hides_root [OF as a(1) this] a(2) have "\<not> an_IsRoot a" by (simp add: deleted_link_def sample_link_def)
  with as a parents show ?thesis by auto
qed

end
