(* ===== verification/Link_Invariants.thy ===== *)
theory Link_Invariants
  imports Link_Ancestors
begin

text \<open>
  The topologies of link types as an invariant of the tables over sequences of transactions, and the
  cases in which the code gives it up.
\<close>

section \<open>Actions on the work item tables\<close>

lemma reads_convert_batch [reads_intro]: "reads (convert_batch R ws)"
  by (induction R ws rule: convert_batch.induct) (simp_all only: convert_batch.simps, intro reads_intro, intro reads_intro)

lemma reads_convert_items [reads_intro]: "reads (convert_items R ws)"
  by (induction R ws rule: convert_items.induct) (simp_all only: convert_items.simps, intro reads_intro, intro reads_intro)

lemma reads_batch [reads_intro]: "reads (LoadBatchByID R ids)" "reads (LoadByID R i)"
  unfolding LoadBatchByID_def LoadBatchFromDB_def LoadByID_def LoadFromDB_def by (intro reads_intro)+

definition with_cache :: "link_db \<Rightarrow> wit_cache \<Rightarrow> link_db" where
  "with_cache s c = s\<lparr>ld_items := (ld_items s)\<lparr>db_cache := c\<rparr>\<rparr>"

lemma with_cache_tables [simp]:
  "ld_links (with_cache s c) = ld_links s" "ld_linkTypes (with_cache s c) = ld_linkTypes s"
  "live_links (with_cache s c) = live_links s" "links_of_type ty (with_cache s c) = links_of_type ty s"
  "live_linkTypes (with_cache s c) = live_linkTypes s" "find_linkType i (with_cache s c) = find_linkType i s"
  "link_ids_unique (with_cache s c) = link_ids_unique s" "ld_linkRevisions (with_cache s c) = ld_linkRevisions s"
  "find_link i (with_cache s c) = find_link i s" "links_at i (with_cache s c) = links_at i s"
  by (simp_all add: with_cache_def live_links_def links_of_type_def live_linkTypes_def find_linkType_def
      link_ids_unique_def find_link_def links_at_def)

lemma on_items_reads:
  assumes "on_items m s = (r, t)" "reads m"
  shows "\<exists>c. t = with_cache s c"
proof -
  obtain r' w where w: "m (ld_items s) = (r', w)" by fastforce
  from readsD [OF assms(2) w] obtain c where "w = (ld_items s)\<lparr>db_cache := c\<rparr>" by blast
  with w assms(1) show ?thesis by (auto simp: on_items_def with_cache_def)
qed

section \<open>The effect of the operations\<close>

lemma LinkRevision_Create_tables:
  assumes "LinkRevision_Create R m ty l s = (r, t)"
  shows "ld_links t = ld_links s \<and> ld_linkTypes t = ld_linkTypes s \<and> ld_items t = ld_items s"
  using assms by (auto simp: LinkRevision_Create_def Let_def act_bind_def act_modify_def statement_def act_return_def
      act_fail_def split: option.splits)

lemma LinkType_Load_Ok: "LinkType_Load R i s = (Ok ty, t) \<Longrightarrow> find_linkType i s = Some ty \<and> t = s"
  by (auto simp: LinkType_Load_def act_bind_Ok_iff split: option.splits)

lemma find_linkType_SomeD: "find_linkType i s = Some ty \<Longrightarrow> ty \<in> set (live_linkTypes s) \<and> wlt_ID ty = i"
  by (auto simp: find_linkType_def dest!: first_row_SomeD)

lemma ValidateTopology_Ok:
  assumes "ValidateTopology R source target ty s = (Ok u, t)" "link_ids_unique s"
  shows "t = s \<and> (wlt_Topology ty = TopologyTree \<longrightarrow> (\<forall>p. (p, target) \<notin> parents (wlt_ID ty) s)) \<and>
    (wlt_Topology ty \<in> {TopologyTree, TopologyDependency} \<longrightarrow> (target, source) \<notin> (parents (wlt_ID ty) s)\<^sup>+)"
proof -
  have parent: "list_ex (\<lambda>l. l_TargetID l = target) ls \<longleftrightarrow> (\<exists>p. (p, target) \<in> parent_rel ls)" for ls
    by (auto simp: parent_rel_def list_ex_iff)
  let ?s1 = "\<lambda>t. wlt_Topology ty = TopologyTree \<longrightarrow> t = s \<and> (\<forall>p. (p, target) \<notin> parents (wlt_ID ty) s)"
  from assms(1) obtain s1 where
    s1: "s1 = s \<and> (wlt_Topology ty = TopologyTree \<longrightarrow> (\<forall>p. (p, target) \<notin> parents (wlt_ID ty) s))" and
    cycle: "(if wlt_Topology ty = TopologyTree \<or> wlt_Topology ty = TopologyDependency then
         act_bind (act_map_err (EWrap ''error during cycle-detection of new link'')
                     (DetectCycle R source target (wlt_ID ty))) (\<lambda>hasCycle.
           if hasCycle then
             act_fail (NewDataConflictError (''linking the work item '' @ uString (re_uuid R) source @ '' to '' @
               uString (re_uuid R) target @ '' would create a cycle which is not allowed in a '' @
               wlt_Topology ty @ '' topology''))
           else act_return ())
       else act_return ()) s1 = (Ok u, t)"
    by (auto simp: ValidateTopology_def act_bind_Ok_iff HasParent_def parent split: if_splits)
  from cycle s1 have "wlt_Topology ty \<in> {TopologyTree, TopologyDependency} \<longrightarrow>
      DetectCycle R source target (wlt_ID ty) s = (Ok False, t)" "wlt_Topology ty \<notin> {TopologyTree, TopologyDependency} \<longrightarrow> t = s"
    by (auto simp: act_bind_Ok_iff split: if_splits)
  with DetectCycle_iff [OF assms(2)] s1 show ?thesis by blast
qed

text \<open>The row that \<^verbatim>\<open>Create\<close> adds.\<close>

lemma Link_Create_Ok:
  assumes "Link_Create R source target ty cr s = (Ok l, t)"
  shows "\<exists>c lt. find_linkType ty s = Some lt \<and> ValidateTopology R source target lt (with_cache s c) = (Ok (), with_cache s c) \<and>
    l_ID l = env_newID (re_db R) ''link'' \<and> l_SourceID l = source \<and> l_TargetID l = target \<and> l_LinkTypeID l = ty \<and>
    alive (l_Lifecycle l) \<and> ld_links t = ld_links s @ [l] \<and> ld_linkTypes t = ld_linkTypes s \<and>
    ld_items t = ld_items (with_cache s c)"
proof -
  let ?l = "\<lparr>l_Lifecycle = created (re_db R), l_ID = env_newID (re_db R) ''link'', l_Version = 0,
    l_SourceID = source, l_TargetID = target, l_LinkTypeID = ty\<rparr>"
  from assms obtain items s1 lt s1' s2 where
    items: "on_items (LoadBatchByID R [source, target]) s = (Ok items, s1)" and
    lt: "LinkType_Load R ty s1 = (Ok lt, s1')" and val': "ValidateTopology R source target lt s1' = (Ok (), s2)" and
    rest: "\<exists>s3. insert_row (re_db R) ''insert link'' (link_violation ?l) (\<lambda>s. s\<lparr>ld_links := ld_links s @ [?l]\<rparr>) s2 = (Ok (), s3) \<and>
      LinkRevision_Create R cr RevisionTypeCreate ?l s3 = (Ok (), t)" and l: "l = ?l"
    unfolding Link_Create_def Let_def
    by (auto simp: act_bind_Ok_iff acquireLock_def)
  have val: "ValidateTopology R source target lt s1 = (Ok (), s2)" using LinkType_Load_Ok [OF lt] val' by simp
  from on_items_reads [OF items reads_batch(1)] obtain c where c: "s1 = with_cache s c" by blast
  have "s2 = s1"
    using val by (auto simp: ValidateTopology_def act_bind_Ok_iff HasParent_def DetectCycle_def GetAncestors_def split: if_splits)
  with rest c LinkType_Load_Ok [OF lt] val l show ?thesis
    by (auto dest!: insert_row_Ok LinkRevision_Create_tables simp: created_def alive_def)
qed


text \<open>What a deletion does to the links, whether it succeeds or fails on the way.\<close>

definition unlinks :: "link_db \<Rightarrow> link_db \<Rightarrow> bool" where
  "unlinks s t \<longleftrightarrow> ld_linkTypes t = ld_linkTypes s \<and> map l_ID (ld_links t) = map l_ID (ld_links s) \<and>
     map l_LinkTypeID (ld_links t) = map l_LinkTypeID (ld_links s) \<and> set (live_links t) \<subseteq> set (live_links s)"

lemma unlinks_refl [simp]: "unlinks s s"
  by (simp add: unlinks_def)

lemma unlinks_trans: "unlinks s t \<Longrightarrow> unlinks t u \<Longrightarrow> unlinks s u"
  by (auto simp: unlinks_def)

lemma unlinks_with_cache [simp]: "unlinks s (with_cache s c)"
  by (simp add: unlinks_def)

lemma deleteLink_unlinks: "deleteLink R l m s = (r, t) \<Longrightarrow> unlinks s t"
proof -
  let ?d = "s\<lparr>ld_links := map (\<lambda>x. if l_ID x = l_ID l \<and> alive (l_Lifecycle x)
    then x\<lparr>l_Lifecycle := removed (re_db R) (l_Lifecycle x)\<rparr> else x) (ld_links s)\<rparr>"
  have d: "unlinks s ?d" by (auto simp: unlinks_def live_links_def removed_def alive_def)
  assume del: "deleteLink R l m s = (r, t)"
  show ?thesis
  proof (cases "env_fault (re_db R) ''delete link'' = None \<and> list_ex (\<lambda>x. l_ID x = l_ID l) (live_links s)")
    case True
    obtain r' t' where rev: "LinkRevision_Create R m RevisionTypeDelete l ?d = (r', t')" by fastforce
    with True del have "t = t'" by (auto simp: deleteLink_def statement_def act_defs)
    with LinkRevision_Create_tables [OF rev] have "unlinks ?d t" by (auto simp: unlinks_def live_links_def)
    with d show ?thesis by (rule unlinks_trans)
  next
    case False
    with del show ?thesis by (auto simp: deleteLink_def statement_def act_defs split: option.splits if_splits)
  qed
qed

lemma ignore_error_state: "ignore_error m s = (r, t) \<Longrightarrow> \<exists>r'. m s = (r', t)"
  by (auto simp: ignore_error_def split: prod.splits gres.splits)

lemma lock_source_state:
  assumes "lock_source R l s = (r, t)"
  shows "\<exists>c. t = with_cache s c"
proof -
  obtain r' s' where l: "on_items (LoadByID R (l_SourceID l)) s = (r', s')" by fastforce
  from on_items_reads [OF l reads_batch(2)] obtain c where "s' = with_cache s c" by blast
  with l assms show ?thesis
    by (auto simp: lock_source_def act_bind_def act_map_err_def acquireLock_def statement_def act_return_def act_fail_def
        split: gres.splits option.splits intro!: exI [of _ c])
qed

lemma delete_links_unlinks: "delete_links R m locked ls s = (r, t) \<Longrightarrow> unlinks s t"
proof (induction R m locked ls arbitrary: s rule: delete_links.induct)
  case (2 R m locked l ls)
  obtain r1 s1 where 1: "(if locked then act_return () else lock_source R l) s = (r1, s1)" by fastforce
  then have u1: "unlinks s s1" by (auto split: if_splits dest: lock_source_state)
  obtain r2 s2 where 2: "ignore_error (deleteLink R l m) s1 = (r2, s2)" by fastforce
  from ignore_error_state [OF this] have u2: "unlinks s1 s2" by (auto dest: deleteLink_unlinks)
  show ?case
  proof (cases "is_ok r1 \<and> is_ok r2")
    case True
    with 1 2 "2.prems" have "delete_links R m True ls s2 = (r, t)" by (auto simp: act_bind_def is_ok_iff)
    from "2.IH" [OF this] u1 u2 show ?thesis by (blast intro: unlinks_trans)
  next
    case False
    with 1 2 "2.prems" have "t = s1 \<or> t = s2" by (cases r1; cases r2) (auto simp: act_bind_def)
    with u1 u2 show ?thesis by (blast intro: unlinks_trans)
  qed
qed simp

lemma Link_Delete_unlinks:
  assumes "Link_Delete R i m s = (Ok u, t)"
  shows "unlinks s t"
proof -
  from assms obtain l s1 where "lock_source R l s = (Ok (), s1)" "ignore_error (deleteLink R l m) s1 = (Ok u, t)"
    by (auto simp: Link_Delete_def act_bind_Ok_iff)
  then obtain c r' where "s1 = with_cache s c" "deleteLink R l m s1 = (r', t)"
    by (auto dest!: lock_source_state ignore_error_state)
  with deleteLink_unlinks [of R l m s1 r' t] show ?thesis by (metis unlinks_trans unlinks_with_cache)
qed

lemma DeleteRelatedLinks_unlinks: "DeleteRelatedLinks R wi m s = (Ok u, t) \<Longrightarrow> unlinks s t"
  by (auto simp: DeleteRelatedLinks_def act_bind_Ok_iff dest: delete_links_unlinks)

section \<open>The invariant\<close>

definition type_ok :: "link_db \<Rightarrow> link_type \<Rightarrow> bool" where
  "type_ok s ty \<longleftrightarrow>
     (wlt_Topology ty = TopologyTree \<longrightarrow> single_valued ((parents (wlt_ID ty) s)\<inverse>)) \<and>
     (wlt_Topology ty \<in> {TopologyTree, TopologyDependency} \<longrightarrow> acyclic (parents (wlt_ID ty) s))"

definition topology_ok :: "link_db \<Rightarrow> bool" where
  "topology_ok s \<longleftrightarrow>
     link_ids_unique s \<and> distinct (map wlt_ID (ld_linkTypes s)) \<and>
     set (map l_LinkTypeID (ld_links s)) \<subseteq> set (map wlt_ID (ld_linkTypes s)) \<and>
     (\<forall>ty \<in> set (live_linkTypes s). type_ok s ty)"

lemma unlinks_parents: "unlinks s t \<Longrightarrow> parents ty t \<subseteq> parents ty s"
  by (auto simp: unlinks_def parent_rel_def links_of_type_def)

lemma type_ok_mono: "type_ok s ty \<Longrightarrow> parents (wlt_ID ty) t \<subseteq> parents (wlt_ID ty) s \<Longrightarrow> type_ok t ty"
  unfolding type_ok_def by (meson acyclic_subset converse_mono single_valued_subset)

lemma unlinks_keeps:
  assumes "topology_ok s" "unlinks s t"
  shows "topology_ok t"
proof -
  from assms(2) have types: "live_linkTypes t = live_linkTypes s" by (simp add: unlinks_def live_linkTypes_def)
  have "type_ok t ty" if "ty \<in> set (live_linkTypes t)" for ty
    using that types assms type_ok_mono [OF _ unlinks_parents [OF assms(2)]] by (simp add: topology_ok_def)
  moreover have "set (map l_LinkTypeID (ld_links t)) = set (map l_LinkTypeID (ld_links s))"
    using assms(2) by (simp only: unlinks_def)
  ultimately show ?thesis using assms by (simp add: topology_ok_def link_ids_unique_def unlinks_def)
qed

lemma parents_added:
  assumes "ld_links t = ld_links s @ [l]" "alive (l_Lifecycle l)"
  shows "parents ty t = (if ty = l_LinkTypeID l then insert (l_SourceID l, l_TargetID l) (parents ty s) else parents ty s)"
  using assms by (auto simp: parent_rel_def links_of_type_def live_links_def)

lemma link_keeps:
  assumes "Link_Create R source target ty cr s = (Ok l, t)" "topology_ok s"
    and fresh: "env_newID (re_db R) ''link'' \<notin> set (map l_ID (ld_links s))" and "source \<noteq> target"
  shows "topology_ok t"
proof -
  from assms(2) have ids: "link_ids_unique s" by (simp add: topology_ok_def)
  from Link_Create_Ok [OF assms(1)] obtain c lt where lt: "find_linkType ty s = Some lt"
    and val: "ValidateTopology R source target lt (with_cache s c) = (Ok (), with_cache s c)"
    and l: "l_ID l = env_newID (re_db R) ''link''" "l_SourceID l = source" "l_TargetID l = target" "l_LinkTypeID l = ty"
      "alive (l_Lifecycle l)"
    and t: "ld_links t = ld_links s @ [l]" "ld_linkTypes t = ld_linkTypes s" by blast
  from find_linkType_SomeD [OF lt] have lt': "lt \<in> set (live_linkTypes s)" "wlt_ID lt = ty" by auto
  from ValidateTopology_Ok [OF val] ids lt'(2) have
    tree: "wlt_Topology lt = TopologyTree \<longrightarrow> (\<forall>p. (p, target) \<notin> parents ty s)" and
    cyc: "wlt_Topology lt \<in> {TopologyTree, TopologyDependency} \<longrightarrow> (target, source) \<notin> (parents ty s)\<^sup>+" by auto
  have ok: "type_ok s lt" using lt'(1) assms(2) by (simp add: topology_ok_def)
  have new: "type_ok t lt"
    using ok tree cyc assms(4) unfolding type_ok_def
    by (auto simp: parents_added [OF t(1) l(5)] lt'(2) l acyclic_insert rtrancl_eq_or_trancl single_valued_def)
  have "type_ok t x" if "x \<in> set (live_linkTypes t)" for x
  proof (cases "wlt_ID x = ty")
    case True
    from that lt'(1) t(2) have "x \<in> set (ld_linkTypes s)" "lt \<in> set (ld_linkTypes s)" by (auto simp: live_linkTypes_def)
    with True lt'(2) assms(2) have "x = lt" by (auto simp: topology_ok_def dest: distinct_map_eq)
    with new show ?thesis by simp
  next
    case False
    with that t assms(2) have "type_ok s x" by (auto simp: topology_ok_def live_linkTypes_def)
    with False show ?thesis by (simp add: type_ok_def parents_added [OF t(1) l(5)] l)
  qed
  moreover have "ty \<in> set (map wlt_ID (ld_linkTypes s))" using lt' by (auto simp: live_linkTypes_def)
  ultimately show ?thesis using assms(2) fresh l t by (auto simp: topology_ok_def link_ids_unique_def)
qed

lemma LinkType_Create_Ok:
  assumes "LinkType_Create R m s = (Ok new, t)"
  shows "t = s\<lparr>ld_linkTypes := ld_linkTypes s @ [new]\<rparr> \<and> wlt_ID new \<notin> set (map wlt_ID (ld_linkTypes s))"
  using assms by (auto simp: LinkType_Create_def Let_def act_bind_Ok_iff dest!: insert_row_Ok split: if_splits)

lemma same_links: "ld_links t = ld_links s \<Longrightarrow> links_of_type ty t = links_of_type ty s"
  by (simp add: links_of_type_def live_links_def)

lemma linkType_keeps:
  assumes "LinkType_Create R m s = (Ok new, t)" "topology_ok s"
  shows "topology_ok t"
proof -
  from LinkType_Create_Ok [OF assms(1)] have t: "ld_links t = ld_links s" "ld_linkTypes t = ld_linkTypes s @ [new]"
    "link_ids_unique t = link_ids_unique s" and new: "wlt_ID new \<notin> set (map wlt_ID (ld_linkTypes s))"
    by (auto simp: link_ids_unique_def)
  have "l_LinkTypeID l \<noteq> wlt_ID new" if "l \<in> set (ld_links s)" for l
    using that new assms(2) unfolding topology_ok_def by (metis imageI list.set_map subsetD)
  then have "links_of_type (wlt_ID new) s = []" by (simp add: links_of_type_def live_links_def filter_empty_conv)
  then have "type_ok t new" by (simp add: type_ok_def same_links [OF t(1)] parent_rel_def acyclic_def)
  moreover have "type_ok t x" if "type_ok s x" for x
    using that by (simp add: type_ok_def same_links [OF t(1)])
  ultimately show ?thesis using assms(2) t new by (auto simp: topology_ok_def live_linkTypes_def)
qed

lemma LinkType_Save_Ok:
  assumes "LinkType_Save R m s = (Ok new, t)"
  shows "wlt_ID new = wlt_ID m \<and> wlt_Topology new = wlt_Topology m \<and> (\<exists>old. find_linkType (wlt_ID m) s = Some old) \<and>
    t = s\<lparr>ld_linkTypes := map (\<lambda>x. if wlt_ID x = wlt_ID m \<and> alive (wlt_Lifecycle x) then new else x) (ld_linkTypes s)\<rparr>"
  using assms by (auto simp: LinkType_Save_def Let_def act_bind_Ok_iff dest!: insert_row_Ok split: if_splits option.splits)

lemma saveType_keeps:
  assumes "LinkType_Save R m s = (Ok new, t)" "topology_ok s"
    and same: "\<forall>x \<in> set (live_linkTypes s). wlt_ID x = wlt_ID m \<longrightarrow> wlt_Topology x = wlt_Topology m"
  shows "topology_ok t"
proof -
  from LinkType_Save_Ok [OF assms(1)] obtain old where
    new: "wlt_ID new = wlt_ID m" "wlt_Topology new = wlt_Topology m" and old: "find_linkType (wlt_ID m) s = Some old" and
    t: "ld_links t = ld_links s"
    "ld_linkTypes t = map (\<lambda>x. if wlt_ID x = wlt_ID m \<and> alive (wlt_Lifecycle x) then new else x) (ld_linkTypes s)"
    by auto
  from find_linkType_SomeD [OF old] have old': "old \<in> set (live_linkTypes s)" "wlt_ID old = wlt_ID m" by auto
  with same assms(2) have "type_ok s old" "wlt_Topology old = wlt_Topology m" by (auto simp: topology_ok_def)
  with new old' have "type_ok t new" by (simp add: type_ok_def same_links [OF t(1)])
  moreover have "type_ok t x" if "type_ok s x" for x using that by (simp add: type_ok_def same_links [OF t(1)])
  moreover have ids: "map wlt_ID (ld_linkTypes t) = map wlt_ID (ld_linkTypes s)" by (simp add: t(2) new(1))
  moreover have "link_ids_unique t = link_ids_unique s" by (simp add: link_ids_unique_def t(1))
  moreover have "x = new \<or> x \<in> set (live_linkTypes s)" if "x \<in> set (live_linkTypes t)" for x
    using that by (auto simp: live_linkTypes_def t(2))
  ultimately show ?thesis using assms(2) unfolding topology_ok_def t(1) ids by blast
qed


section \<open>Creating a link in the sample\<close>

lemma sample_model:
  "to_model repo_sample bare_type (sample_row k 0) = Ok
     \<lparr>w_ID = of_nat k, w_Number = of_nat k, w_Type = 9, w_Version = 0, w_SpaceID = 3, w_Fields = [], w_relationShipsChangedAt = None\<rparr>"
  by (simp add: to_model_def ConvertWorkItemStorageToModel_def WorkItemType_ConvertWorkItemStorageToModel_def bare_type_def
      sample_type_def sample_row_def sample_storage_def set_if_defined_def)

lemma sample_load_cached:
  "db_cache s = Cache_Put NewWorkItemTypeCache bare_type \<Longrightarrow> WITR_Load repo_sample 9 s = (Ok bare_type, s)"
  by (simp add: WITR_Load_def act_defs Cache_Get_def Cache_Put_def bare_type_def sample_type_def)

lemma sample_batch:
  assumes "b \<in> {1, 2}"
  shows "\<exists>items c. on_items (LoadBatchByID repo_sample [1, b]) (sample_links topo ls) = (Ok items, with_cache (sample_links topo ls) c)
    \<and> first_space items = Ok 3 \<and> same_space 3 items = Ok ()"
proof -
  let ?s = "sample_db [sample_row 1 0, sample_row 2 0]" and ?c = "Cache_Put NewWorkItemTypeCache bare_type"
  have rows: "LoadBatchFromDB repo_sample [1, b] ?s = (Ok (sample_row 1 0 # (if b = 2 then [sample_row 2 0] else [])), ?s)"
    using assms by (auto simp: LoadBatchFromDB_def statement_def act_defs live_items_def sample_db_def)
  have first: "WITR_Load repo_sample 9 ?s = (Ok bare_type, ?s\<lparr>db_cache := ?c\<rparr>)"
    by (rule sample_load) (simp_all add: sample_db_def)
  have "WITR_Load repo_sample 9 (?s\<lparr>db_cache := ?c\<rparr>) = (Ok bare_type, ?s\<lparr>db_cache := ?c\<rparr>)"
    by (rule sample_load_cached) simp
  with first have "\<exists>items. convert_batch repo_sample (sample_row 1 0 # (if b = 2 then [sample_row 2 0] else [])) ?s =
      (Ok items, ?s\<lparr>db_cache := ?c\<rparr>) \<and> first_space items = Ok 3 \<and> same_space 3 items = Ok ()"
    using sample_model [of 1] sample_model [of 2] by (simp add: act_defs first_space_def)
  then obtain items where items: "convert_batch repo_sample (sample_row 1 0 # (if b = 2 then [sample_row 2 0] else [])) ?s =
      (Ok items, ?s\<lparr>db_cache := ?c\<rparr>)" "first_space items = Ok 3" "same_space 3 items = Ok ()" by blast
  have "LoadBatchByID repo_sample [1, b] ?s = (Ok items, ?s\<lparr>db_cache := ?c\<rparr>)"
    unfolding LoadBatchByID_def act_bind_def act_map_err_def rows using items(1) by simp
  then have "on_items (LoadBatchByID repo_sample [1, b]) (sample_links topo ls) = (Ok items, with_cache (sample_links topo ls) ?c)"
    by (simp add: on_items_def with_cache_def sample_links_def)
  with items show ?thesis by blast
qed

lemma sample_create_link:
  assumes "b \<in> {1, 2}" "topo \<in> {TopologyTree, TopologyDependency}"
  shows "is_ok (fst (Link_Create repo_sample 1 b 20 8 (sample_links topo [])))"
proof -
  from sample_batch [OF assms(1), of topo "[]"] obtain items c where
    items: "on_items (LoadBatchByID repo_sample [1, b]) (sample_links topo []) = (Ok items, with_cache (sample_links topo []) c)"
      "first_space items = Ok 3" "same_space 3 items = Ok ()" by blast
  let ?s = "with_cache (sample_links topo []) c"
  have type: "LinkType_Load repo_sample 20 ?s = (Ok (sample_linkType topo), ?s)"
    using sample_find_type [of ?s topo] by (simp add: LinkType_Load_def act_defs statement_def sample_links_def)
  have none: "links_of_type i (sample_links topo []) = []" for i by (simp add: links_of_type_def live_links_def sample_links_def)
  have val: "ValidateTopology repo_sample 1 b (sample_linkType topo) ?s = (Ok (), ?s)"
    by (simp add: ValidateTopology_def HasParent_def DetectCycle_def GetAncestors_def act_defs statement_def none
        cte_rows_def cte_base_def AncestorLevelAll_def)
  have "link_violation l ?s = None" if "l_SourceID l = 1" "l_TargetID l = b" for l
    using that assms(1) by (auto simp: link_violation_def none) (auto simp: with_cache_def sample_links_def sample_db_def)
  with items type val show ?thesis
    by (simp add: Link_Create_def act_defs Link_CheckValidForCreation_def acquireLock_def statement_def insert_row_def
        LinkRevision_Create_def Let_def)
qed

lemma link_create_step:
  assumes "b \<in> {1, 2}" "topo \<in> {TopologyTree, TopologyDependency}"
  obtains l t where "Link_Create repo_sample 1 b 20 8 (sample_links topo []) = (Ok l, t)"
  using sample_create_link [OF assms]
  by (cases "Link_Create repo_sample 1 b 20 8 (sample_links topo [])") (auto simp: is_ok_iff)

section \<open>Sequences of transactions\<close>

datatype link_request =
    ReqLink repo_env uuid uuid uuid uuid
  | ReqUnlink repo_env uuid uuid
  | ReqUnlinkAll repo_env uuid uuid
  | ReqLinkType repo_env link_type
  | ReqSaveLinkType repo_env link_type
  | ReqItems wi_request

fun link_operation :: "link_request \<Rightarrow> unit link_repo" where
  "link_operation (ReqLink R source target ty cr) = act_bind (Link_Create R source target ty cr) (\<lambda>_. act_return ())"
| "link_operation (ReqUnlink R i m) = Link_Delete R i m"
| "link_operation (ReqUnlinkAll R wi m) = DeleteRelatedLinks R wi m"
| "link_operation (ReqLinkType R ty) = act_bind (LinkType_Create R ty) (\<lambda>_. act_return ())"
| "link_operation (ReqSaveLinkType R ty) = act_bind (LinkType_Save R ty) (\<lambda>_. act_return ())"
| "link_operation (ReqItems req) = on_items (wi_operation req)"

text \<open>
  New rows get identifiers that are not in use. No link goes from a work item to itself, and no link type
  changes its topology: the code checks neither.
\<close>

fun link_guard :: "link_request \<Rightarrow> link_db \<Rightarrow> bool" where
  "link_guard (ReqLink R source target ty cr) s \<longleftrightarrow>
     env_newID (re_db R) ''link'' \<notin> set (map l_ID (ld_links s)) \<and> source \<noteq> target"
| "link_guard (ReqSaveLinkType R ty) s \<longleftrightarrow>
     (\<forall>x \<in> set (live_linkTypes s). wlt_ID x = wlt_ID ty \<longrightarrow> wlt_Topology x = wlt_Topology ty)"
| "link_guard _ s \<longleftrightarrow> True"

lemma topology_ok_items [simp]: "topology_ok (s\<lparr>ld_items := w\<rparr>) = topology_ok s"
  by (simp add: topology_ok_def link_ids_unique_def live_linkTypes_def type_ok_def links_of_type_def live_links_def)

lemma link_operation_keeps:
  assumes "topology_ok s" "link_guard req s" "link_operation req s = (Ok x, t)"
  shows "topology_ok t"
proof (cases req)
  case (ReqLink R source target ty cr)
  with assms link_keeps show ?thesis by (auto simp: act_bind_Ok_iff)
next
  case (ReqUnlink R i m)
  with assms Link_Delete_unlinks unlinks_keeps show ?thesis by simp
next
  case (ReqUnlinkAll R wi m)
  with assms DeleteRelatedLinks_unlinks unlinks_keeps show ?thesis by simp
next
  case (ReqLinkType R ty)
  with assms linkType_keeps show ?thesis by (auto simp: act_bind_Ok_iff)
next
  case (ReqSaveLinkType R ty)
  with assms saveType_keeps show ?thesis by (auto simp: act_bind_Ok_iff)
next
  case (ReqItems req)
  with assms show ?thesis by (auto simp: on_items_def split: prod.splits)
qed

interpretation link_ops: invariant_operation topology_ok link_guard link_operation rollback_links
  by unfold_locales (auto simp: link_operation_keeps rollback_links_def)

inductive link_step :: "link_db \<Rightarrow> link_db \<Rightarrow> bool" where
  link_transaction: "link_guard req s \<Longrightarrow>
    link_step s (snd (Transactional E stack timeout rollback_links (act_bind (link_operation req) (\<lambda>_. act_return ())) s))"

lemma link_step_keeps: "link_step s t \<Longrightarrow> topology_ok s \<Longrightarrow> topology_ok t"
  by (erule link_step.cases) (metis link_ops.transaction_keeps)

text \<open>
  C2. Over every sequence of transactions that create and delete links, create and save link types and work
  on work items, from tables without links: in a tree topology every work item has at most one parent,
  and neither a tree nor a dependency topology has a cycle. Transactions that link a work item to itself or
  change the topology of a link type are left out.
\<close>
theorem topologies_respected:
  assumes "ld_links s0 = []" "distinct (map wlt_ID (ld_linkTypes s0))" "link_step\<^sup>*\<^sup>* s0 s"
    and "ty \<in> set (live_linkTypes s)"
  shows "(wlt_Topology ty = TopologyTree \<longrightarrow> (\<forall>p q c. (p, c) \<in> parents (wlt_ID ty) s \<and> (q, c) \<in> parents (wlt_ID ty) s \<longrightarrow> p = q)) \<and>
    (wlt_Topology ty \<in> {TopologyTree, TopologyDependency} \<longrightarrow> acyclic (parents (wlt_ID ty) s))"
proof -
  have "topology_ok s" using assms(3)
  proof (induction rule: rtranclp_induct)
    case base
    from assms(1,2) show ?case
      by (simp add: topology_ok_def link_ids_unique_def type_ok_def links_of_type_def live_links_def parent_rel_def acyclic_def)
  next
    case (step s t)
    then show ?case by (simp add: link_step_keeps)
  qed
  with assms(4) show ?thesis by (auto simp: topology_ok_def type_ok_def single_valued_def)
qed

theorem topologies_respected_witness:
  "\<exists>s. link_step\<^sup>*\<^sup>* (sample_links TopologyTree []) s \<and> (1, 2) \<in> parents 20 s \<and> acyclic (parents 20 s)"
proof -
  let ?s0 = "sample_links TopologyTree []"
  obtain l t where c: "Link_Create repo_sample 1 2 20 8 ?s0 = (Ok l, t)" using link_create_step [of 2 TopologyTree] by auto
  have "link_guard (ReqLink repo_sample 1 2 20 8) ?s0" by (simp add: sample_links_def)
  from link_transaction [OF this, of "re_db repo_sample" "[]" False] c have step: "link_step ?s0 t"
    by (simp add: Transactional_def act_bind_def act_return_def)
  from Link_Create_Ok [OF c] have t: "(1, 2) \<in> parents 20 t" "ld_linkTypes t = ld_linkTypes ?s0"
    by (auto simp: parents_added)
  then have "ld_linkTypes t = [sample_linkType TopologyTree]" by (simp add: sample_links_def)
  note t = t(1) this
  have "sample_linkType TopologyTree \<in> set (live_linkTypes t)" by (simp add: live_linkTypes_def t(2))
  from topologies_respected [OF _ _ r_into_rtranclp [of link_step, OF step] this] have "acyclic (parents 20 t)"
    by (simp add: sample_links_def) (simp add: sample_linkType_def)
  with step t show ?thesis by blast
qed



text \<open>
  Saving a link type checks that its new topology is one of the four, not that the existing links have
  it: a network with a cycle can be turned into a tree.
\<close>
theorem topology_change_unchecked:
  assumes "LinkType_Save R m s = (Ok new, t)" "\<not> acyclic (parents (wlt_ID m) s)" "wlt_Topology m = TopologyTree"
  shows "new \<in> set (ld_linkTypes t) \<and> wlt_Topology new = TopologyTree \<and> \<not> acyclic (parents (wlt_ID new) t)"
proof -
  from LinkType_Save_Ok [OF assms(1)] obtain old where
    new: "wlt_ID new = wlt_ID m" "wlt_Topology new = wlt_Topology m" and old: "find_linkType (wlt_ID m) s = Some old" and
    t: "ld_links t = ld_links s"
    "ld_linkTypes t = map (\<lambda>x. if wlt_ID x = wlt_ID m \<and> alive (wlt_Lifecycle x) then new else x) (ld_linkTypes s)"
    by auto
  from find_linkType_SomeD [OF old] have "old \<in> set (ld_linkTypes s)" "wlt_ID old = wlt_ID m" "alive (wlt_Lifecycle old)"
    by (auto simp: live_linkTypes_def)
  then have "new \<in> set (ld_linkTypes t)" by (auto simp: t(2) image_iff intro!: bexI [of _ old])
  with new assms(2,3) show ?thesis by (simp add: same_links [OF t(1)])
qed

lemma sample_cycle: "\<not> acyclic (parents 20 (sample_links topo [sample_link 5 1 2, sample_link 6 2 1]))"
proof -
  have "(1, 2) \<in> parents 20 (sample_links topo [sample_link 5 1 2, sample_link 6 2 1])"
    "(2, 1) \<in> parents 20 (sample_links topo [sample_link 5 1 2, sample_link 6 2 1])"
    by (simp_all add: parent_rel_def links_of_type_def live_links_def sample_links_def) (simp_all add: sample_link_def)
  then have "(1, 1) \<in> (parents 20 (sample_links topo [sample_link 5 1 2, sample_link 6 2 1]))\<^sup>+" by (rule trancl.intros(2) [OF trancl.intros(1)])
  then show ?thesis by (auto simp: acyclic_def)
qed

theorem topology_change_unchecked_witness:
  "\<exists>new t. LinkType_Save repo_sample (sample_linkType TopologyTree)
       (sample_links TopologyNetwork [sample_link 5 1 2, sample_link 6 2 1]) = (Ok new, t) \<and> \<not> acyclic (parents 20 t)"
proof -
  let ?s = "sample_links TopologyNetwork [sample_link 5 1 2, sample_link 6 2 1]"
  have "is_ok (fst (LinkType_Save repo_sample (sample_linkType TopologyTree) ?s))"
    using sample_find_type [of ?s TopologyNetwork]
    by (simp add: LinkType_Save_def act_defs statement_def sample_links_def)
      (simp add: sample_linkType_def LinkType_CheckValidForCreation_def insert_row_def statement_def act_defs name_taken_def
        topology_defs live_linkTypes_def Let_def)
  then obtain new t where save: "LinkType_Save repo_sample (sample_linkType TopologyTree) ?s = (Ok new, t)"
    by (cases "LinkType_Save repo_sample (sample_linkType TopologyTree) ?s") (auto simp: is_ok_iff)
  from topology_change_unchecked [OF save] sample_cycle [of TopologyNetwork] LinkType_Save_Ok [OF save]
  have "\<not> acyclic (parents 20 t)" by (simp add: sample_linkType_def)
  with save show ?thesis by blast
qed


definition failing_env :: repo_env where
  "failing_env = repo_sample\<lparr>re_db := (re_db repo_sample)\<lparr>env_fault := \<lambda>l. if l = ''delete link'' then Some (EErrorf ''timeout'') else None\<rparr>\<rparr>"

text \<open>
  Both ways of deleting links drop the error of \<^verbatim>\<open>deleteLink\<close>: if the statement that deletes the row fails
  \<^verbatim>\<open>Delete\<close> still reports success, and every link is still there.
\<close>
theorem link_delete_hides_failure:
  assumes "env_fault (re_db R) ''delete link'' = Some e" "Link_Delete R i m s = (r, t)"
    and "find_link i s = Some l" "env_fault (re_db R) ''link'' = None" "is_ok (fst (lock_source R l s))"
  shows "r = Ok () \<and> ld_links t = ld_links s"
proof -
  obtain c where lock: "lock_source R l s = (Ok (), with_cache s c)"
    using lock_source_state [of R l s] assms(5) by (cases "lock_source R l s") (auto simp: is_ok_iff)
  with assms show ?thesis
    by (auto simp: Link_Delete_def act_defs ignore_error_def deleteLink_def statement_def)
qed

theorem link_delete_hides_failure_witness:
  "\<exists>t. Link_Delete failing_env 5 8 (sample_links TopologyTree [sample_link 5 1 2]) = (Ok (), t) \<and> ld_links t = [sample_link 5 1 2]"
proof -
  let ?s = "sample_links TopologyTree [sample_link 5 1 2]"
  have fault: "env_fault (re_db failing_env) ''delete link'' = Some (EErrorf ''timeout'')" by (simp add: failing_env_def)
  have other: "env_fault (re_db failing_env) l = None" if "l \<noteq> ''delete link''" for l using that by (simp add: failing_env_def)
  have find: "find_link 5 ?s = Some (sample_link 5 1 2)"
    by (simp add: find_link_def live_links_def sample_links_def) (simp add: sample_link_def)
  have src: "LoadFromDB failing_env 1 (sample_db [sample_row 1 0, sample_row 2 0]) = (Ok (sample_row 1 0), sample_db [sample_row 1 0, sample_row 2 0])"
    by (simp add: LoadFromDB_def statement_def other act_defs live_items_def sample_db_def)
  have "\<exists>t. WITR_Load failing_env 9 (sample_db [sample_row 1 0, sample_row 2 0]) = (Ok bare_type, t)"
    by (simp add: WITR_Load_def loadChildTypeList_def find_type_def statement_def other act_defs Cache_Get_def Let_def sample_db_def
      NewWorkItemTypeCache_def bare_type_def sample_type_def alive_def sample_storage_def)
  then obtain u where type: "WITR_Load failing_env 9 (sample_db [sample_row 1 0, sample_row 2 0]) = (Ok bare_type, u)" by blast
  have "is_ok (to_model failing_env bare_type (sample_row 1 0))"
    by (simp add: to_model_def ConvertWorkItemStorageToModel_def WorkItemType_ConvertWorkItemStorageToModel_def bare_type_def
      sample_type_def sample_row_def sample_storage_def set_if_defined_def)
  then have "is_ok (fst (LoadByID failing_env 1 (sample_db [sample_row 1 0, sample_row 2 0])))"
    using src type by (auto simp: LoadByID_def act_defs is_ok_iff)
  then have "is_ok (fst (lock_source failing_env (sample_link 5 1 2) ?s))"
    by (auto simp: lock_source_def on_items_def acquireLock_def statement_def other act_defs is_ok_iff sample_links_def sample_link_def
        split: prod.splits)
  moreover obtain r t where r: "Link_Delete failing_env 5 8 ?s = (r, t)" by fastforce
  ultimately have "r = Ok () \<and> ld_links t = ld_links ?s" using link_delete_hides_failure [OF fault r find other] by simp
  with r show ?thesis by (simp add: sample_links_def)
qed

end
