(* ===== verification/Tables.thy ===== *)
theory Tables
  imports Store
begin

text \<open>
  What the repositories of spaces, areas, iterations, labels, queries and comments share: the statements gorm
  builds for one table, and the contract of a table whose rows carry a version for optimistic locking.

  A table is a list of rows; \<open>lc\<close> and \<open>key\<close> select the life cycle and the primary key of a row. An update and
  a deletion return the number of rows they affected. The constraints of a table (\<open>violated\<close>) are those of
  the migrations; failures that are not modelled (foreign keys, lost connections) come from the environment.
\<close>

section \<open>Statements\<close>

definition live_rows :: "('r \<Rightarrow> lifecycle) \<Rightarrow> 'r list \<Rightarrow> 'r list" where
  "live_rows lc rows = filter (\<lambda>r. alive (lc r)) rows"

definition by_id :: "('r \<Rightarrow> lifecycle) \<Rightarrow> ('r \<Rightarrow> uuid) \<Rightarrow> uuid \<Rightarrow> 'r list \<Rightarrow> 'r option" where
  "by_id lc key i rows = first_row key (filter (\<lambda>r. key r = i) (live_rows lc rows))"

text \<open>An insertion fills the time stamps that are not set; an update sets the time of the update.\<close>

definition stamped :: "db_env \<Rightarrow> lifecycle \<Rightarrow> lifecycle" where
  "stamped E l = l\<lparr>lc_CreatedAt := if lc_CreatedAt l = zero_time then env_now E else lc_CreatedAt l,
                   lc_UpdatedAt := if lc_UpdatedAt l = zero_time then env_now E else lc_UpdatedAt l\<rparr>"

definition unique_violation :: "string \<Rightarrow> go_error" where
  "unique_violation index = EPq ''23505'' index []"

definition check_violation :: "string \<Rightarrow> go_error" where
  "check_violation name = EPq ''23514'' name []"

fun first_violation :: "(bool \<times> go_error) list \<Rightarrow> go_error option" where
  "first_violation [] = None"
| "first_violation ((bad, e) # rest) = (if bad then Some e else first_violation rest)"

text \<open>The primary key comes before the other constraints; \<open>what\<close> is the table.\<close>

definition gorm_insert ::
  "db_env \<Rightarrow> string \<Rightarrow> ('r \<Rightarrow> uuid) \<Rightarrow> ('r list \<Rightarrow> go_error option) \<Rightarrow> 'r \<Rightarrow> ('r list, unit) action" where
  "gorm_insert E what key violated new =
     insert_row E (''insert '' @ what)
       (\<lambda>rows. if key new \<in> set (map key rows) then Some (unique_violation (what @ ''_pkey'')) else violated rows)
       (\<lambda>rows. rows @ [new])"

definition gorm_first :: "db_env \<Rightarrow> string \<Rightarrow> ('r list \<Rightarrow> 'r option) \<Rightarrow> go_error \<Rightarrow> ('r list, 'r) action" where
  "gorm_first E label select notFound =
     act_bind (statement E label NewInternalError) (\<lambda>_.
     act_gets (\<lambda>rows. case select rows of None \<Rightarrow> Err notFound | Some r \<Rightarrow> Ok r))"

text \<open>The constraints are looked at only when a row is written.\<close>

definition gorm_update ::
  "db_env \<Rightarrow> string \<Rightarrow> ('r \<Rightarrow> bool) \<Rightarrow> ('r list \<Rightarrow> go_error option) \<Rightarrow> 'r \<Rightarrow> ('r list, nat) action" where
  "gorm_update E label matches violated new =
     act_bind (statement E label (\<lambda>e. e)) (\<lambda>_.
     act_bind (act_gets (\<lambda>rows. Ok (length (filter matches rows)))) (\<lambda>n.
     act_bind (act_gets (\<lambda>rows. if n = 0 then Ok () else
                 case violated rows of None \<Rightarrow> Ok () | Some e \<Rightarrow> Err e)) (\<lambda>_.
     act_bind (act_modify (map (\<lambda>x. if matches x then new else x))) (\<lambda>_. act_return n))))"

text \<open>
  A partial unique index over the rows that are not deleted: the entry of a row is taken when another row has the
  same one.
\<close>

definition index_taken :: "('r \<Rightarrow> lifecycle) \<Rightarrow> ('r \<Rightarrow> uuid) \<Rightarrow> ('r \<Rightarrow> 'k) \<Rightarrow> 'r \<Rightarrow> 'r list \<Rightarrow> bool" where
  "index_taken lc key ix r rows \<longleftrightarrow>
     alive (lc r) \<and> list_ex (\<lambda>x. key x \<noteq> key r \<and> ix x = ix r) (live_rows lc rows)"

definition unique_index :: "('r \<Rightarrow> lifecycle) \<Rightarrow> ('r \<Rightarrow> uuid) \<Rightarrow> ('r \<Rightarrow> 'k) \<Rightarrow> 'r list \<Rightarrow> bool" where
  "unique_index lc key ix rows \<longleftrightarrow> distinct (map key rows) \<and>
     (\<forall>x \<in> set rows. \<forall>y \<in> set rows. alive (lc x) \<and> alive (lc y) \<and> ix x = ix y \<longrightarrow> key x = key y)"

text \<open>
  A soft deletion of the row with the primary key of a struct: gorm adds the condition on the key only if
  the key is not blank, so that a blank key stands for every row.
\<close>

definition keyed :: "('r \<Rightarrow> uuid) \<Rightarrow> uuid \<Rightarrow> 'r \<Rightarrow> bool" where
  "keyed key i r \<longleftrightarrow> i = uuid_Nil \<or> key r = i"

definition gorm_delete ::
  "db_env \<Rightarrow> string \<Rightarrow> ('r \<Rightarrow> bool) \<Rightarrow> ('r \<Rightarrow> 'r) \<Rightarrow> ('r list, nat) action" where
  "gorm_delete E label matches mark =
     act_bind (statement E label (\<lambda>e. e)) (\<lambda>_.
     act_bind (act_gets (\<lambda>rows. Ok (length (filter matches rows)))) (\<lambda>n.
     act_bind (act_modify (map (\<lambda>x. if matches x then mark x else x))) (\<lambda>_. act_return n)))"

text \<open>A permanent deletion also finds the rows that have been deleted softly.\<close>

definition gorm_purge :: "db_env \<Rightarrow> string \<Rightarrow> ('r \<Rightarrow> bool) \<Rightarrow> ('r list, nat) action" where
  "gorm_purge E label matches =
     act_bind (statement E label (\<lambda>e. e)) (\<lambda>_.
     act_bind (act_gets (\<lambda>rows. Ok (length (filter matches rows)))) (\<lambda>n.
     act_bind (act_modify (filter (\<lambda>x. \<not> matches x))) (\<lambda>_. act_return n)))"

text \<open>
  The common shape of the saves with versions: find the row, write the new value (which may depend on the row
  found) where the version still matches, and report a conflict if no row was affected. \<open>stored\<close> is what the columns keep of a value.
\<close>

definition versioned_save ::
  "db_env \<Rightarrow> string \<Rightarrow> ('r list \<Rightarrow> 'r option) \<Rightarrow> go_error \<Rightarrow> ('r \<Rightarrow> bool) \<Rightarrow> ('r \<Rightarrow> 'r list \<Rightarrow> go_error option)
     \<Rightarrow> (go_error \<Rightarrow> go_error) \<Rightarrow> ('r \<Rightarrow> 'r) \<Rightarrow> ('r \<Rightarrow> 'r) \<Rightarrow> ('r list, 'r) action" where
  "versioned_save E what select notFound matches violated wrap stored new =
     act_bind (gorm_first E what select notFound) (\<lambda>cur.
     act_bind (act_map_err wrap (gorm_update E (''update '' @ what) matches (violated (new cur)) (stored (new cur)))) (\<lambda>n.
     if n = 0 then act_fail (NewVersionConflictError ''version conflict'') else act_return (new cur)))"

text \<open>Gorm runs an insertion with its callbacks in a transaction of its own.\<close>

definition undo_on_error :: "('s, 'a) action \<Rightarrow> ('s, 'a) action" where
  "undo_on_error m = (\<lambda>s. case m s of (r, t) \<Rightarrow> (r, if is_ok r then t else s))"

text \<open>An action on one table of a larger state.\<close>

definition on_table :: "('s \<Rightarrow> 't) \<Rightarrow> ('t \<Rightarrow> 's \<Rightarrow> 's) \<Rightarrow> ('t, 'a) action \<Rightarrow> ('s, 'a) action" where
  "on_table get put m = (\<lambda>s. case m (get s) of (r, t) \<Rightarrow> (r, put t s))"

text \<open>Sorting by texts, which are compared byte by byte.\<close>

definition name_code :: "string \<Rightarrow> nat list" where
  "name_code s = map of_char s"

fun lex_le :: "nat list \<Rightarrow> nat list \<Rightarrow> bool" where
  "lex_le [] ys = True"
| "lex_le (x # xs) [] = False"
| "lex_le (x # xs) (y # ys) = (x < y \<or> x = y \<and> lex_le xs ys)"

fun insert_by :: "('r \<Rightarrow> 'r \<Rightarrow> bool) \<Rightarrow> 'r \<Rightarrow> 'r list \<Rightarrow> 'r list" where
  "insert_by le x [] = [x]"
| "insert_by le x (y # ys) = (if le x y then x # y # ys else y # insert_by le x ys)"

definition sort_by :: "('r \<Rightarrow> 'r \<Rightarrow> bool) \<Rightarrow> 'r list \<Rightarrow> 'r list" where
  "sort_by le xs = foldr (insert_by le) xs []"

section \<open>Facts\<close>

text \<open>
  Actions that change nothing, actions that change nothing when they fail, and actions that do not fail.
\<close>

definition readonly :: "('s, 'a) action \<Rightarrow> bool" where
  "readonly m \<longleftrightarrow> (\<forall>s. snd (m s) = s)"

definition atomic :: "('s, 'a) action \<Rightarrow> bool" where
  "atomic m \<longleftrightarrow> (\<forall>s. is_ok (fst (m s)) \<or> snd (m s) = s)"

definition infallible :: "('s, 'a) action \<Rightarrow> bool" where
  "infallible m \<longleftrightarrow> (\<forall>s. is_ok (fst (m s)))"

named_theorems action_intro \<open>actions that read only, or fail without an effect\<close>

lemma readonly_simple [action_intro]:
  "readonly (act_return x)" "readonly (act_fail e)" "readonly (act_lift r)" "readonly (act_gets f)" "readonly (statement E l w)"
  by (auto simp: readonly_def act_defs statement_def split: option.splits)

lemma readonly_map_err [action_intro]: "readonly m \<Longrightarrow> readonly (act_map_err f m)"
  by (simp add: readonly_def act_map_err_def split_beta)

lemma readonly_bind [action_intro]: "readonly m \<Longrightarrow> (\<And>x. readonly (f x)) \<Longrightarrow> readonly (act_bind m f)"
  by (auto simp: readonly_def act_bind_def split: prod.splits gres.splits) (metis snd_conv)+

lemma infallible_return [action_intro]: "infallible (act_return x)"
  by (simp add: infallible_def act_return_def)

lemma atomic_simple [action_intro]:
  "atomic (act_return x)" "atomic (act_fail e)" "atomic (act_lift r)" "atomic (act_gets f)" "atomic (statement E l w)"
  "atomic (act_modify g)"
  by (auto simp: atomic_def act_defs statement_def split: option.splits)

lemma is_ok_map_err [simp]: "is_ok (map_err f x) = is_ok x"
  by (cases x) auto

lemma atomic_map_err [action_intro]: "atomic m \<Longrightarrow> atomic (act_map_err f m)"
  by (auto simp: atomic_def act_map_err_def split_beta)

lemma atomic_bind_read [action_intro]: "readonly m \<Longrightarrow> (\<And>x. atomic (f x)) \<Longrightarrow> atomic (act_bind m f)"
  unfolding atomic_def readonly_def act_bind_def
  by (auto split: prod.splits gres.splits) (metis snd_conv, metis snd_conv, metis fst_conv snd_conv)

lemma atomic_bind_total: "atomic m \<Longrightarrow> (\<And>x. infallible (f x)) \<Longrightarrow> atomic (act_bind m f)"
  unfolding atomic_def infallible_def act_bind_def
  by (auto split: prod.splits gres.splits) (metis fst_conv is_ok.simps snd_conv)+

lemma atomic_if [action_intro]: "(b \<Longrightarrow> atomic m) \<Longrightarrow> (\<not> b \<Longrightarrow> atomic m') \<Longrightarrow> atomic (if b then m else m')"
  by simp

lemma atomic_Let [action_intro]: "(\<And>x. atomic (f x)) \<Longrightarrow> atomic (let x = v in f x)"
  by simp

lemma readonly_if [action_intro]: "(b \<Longrightarrow> readonly m) \<Longrightarrow> (\<not> b \<Longrightarrow> readonly m') \<Longrightarrow> readonly (if b then m else m')"
  by simp

lemma atomic_undo [action_intro]: "atomic (undo_on_error m)"
  by (simp add: atomic_def undo_on_error_def split: prod.splits)

lemma undo_on_error_Ok_iff [simp]: "undo_on_error m s = (Ok x, t) \<longleftrightarrow> m s = (Ok x, t)"
  by (auto simp: undo_on_error_def split: prod.splits)

lemma atomicD: "atomic m \<Longrightarrow> m s = (r, t) \<Longrightarrow> \<not> is_ok r \<Longrightarrow> t = s"
  unfolding atomic_def by (metis fst_conv snd_conv)

lemma readonlyD: "readonly m \<Longrightarrow> m s = (r, t) \<Longrightarrow> t = s"
  unfolding readonly_def by (metis snd_conv)

lemma on_table_Ok_iff:
  "on_table get put m s = (Ok x, t) \<longleftrightarrow> (\<exists>u. m (get s) = (Ok x, u) \<and> t = put u s)"
  by (auto simp: on_table_def split: prod.splits)

lemma atomic_on_table:
  assumes "atomic m" "\<And>s. put (get s) s = s"
  shows "atomic (on_table get put m)"
  unfolding atomic_def on_table_def
proof (intro allI)
  fix s
  show "is_ok (fst (case m (get s) of (r, t) \<Rightarrow> (r, put t s))) \<or> snd (case m (get s) of (r, t) \<Rightarrow> (r, put t s)) = s"
    using assms(1) [unfolded atomic_def, rule_format, of "get s"] assms(2) by (auto split: prod.splits)
qed

lemma readonly_first [action_intro]: "readonly (gorm_first E label select nf)"
  unfolding gorm_first_def by (intro action_intro)

lemma atomic_insert [action_intro]: "atomic (gorm_insert E what key violated new)"
  unfolding gorm_insert_def insert_row_def by (intro action_intro)

lemma atomic_update [action_intro]: "atomic (gorm_update E label matches violated new)"
  unfolding gorm_update_def by (intro action_intro atomic_bind_total [OF atomic_simple(6)])

lemma atomic_delete [action_intro]: "atomic (gorm_delete E label matches mark)"
  unfolding gorm_delete_def by (intro action_intro atomic_bind_total [OF atomic_simple(6)])

lemma first_violation_None [simp]:
  "first_violation cs = None \<longleftrightarrow> list_all (\<lambda>c. \<not> fst c) cs"
  by (induction cs rule: first_violation.induct) auto

declare first_violation.simps [simp del]

lemma set_live_rows [simp]: "r \<in> set (live_rows lc rows) \<longleftrightarrow> r \<in> set rows \<and> alive (lc r)"
  by (simp add: live_rows_def)

lemma by_id_SomeD: "by_id lc key i rows = Some r \<Longrightarrow> r \<in> set rows \<and> alive (lc r) \<and> key r = i"
  by (auto simp: by_id_def dest!: first_row_SomeD)

lemma by_id_None_iff: "by_id lc key i rows = None \<longleftrightarrow> (\<forall>r \<in> set rows. alive (lc r) \<longrightarrow> key r \<noteq> i)"
  by (auto simp: by_id_def filter_empty_conv)

lemma by_id_match:
  assumes "distinct (map key (live_rows lc rows))" "by_id lc key i rows = Some c"
    and "y \<in> set rows" "alive (lc y)" "key y = i"
  shows "y = c"
  using assms(1) by_id_SomeD [OF assms(2)] assms(3-5) by (auto simp: distinct_map inj_on_def)

lemma gorm_first_Ok_iff:
  "gorm_first E label select nf rows = (Ok r, t) \<longleftrightarrow> env_fault E label = None \<and> select rows = Some r \<and> t = rows"
  by (auto simp: gorm_first_def act_bind_Ok_iff split: option.splits)

lemma gorm_insert_Ok_iff:
  "gorm_insert E what key violated new rows = (Ok u, t) \<longleftrightarrow>
     env_fault E (''insert '' @ what) = None \<and> key new \<notin> key ` set rows \<and> violated rows = None \<and> t = rows @ [new]"
  by (auto simp: gorm_insert_def insert_row_def act_bind_Ok_iff split: option.splits if_splits)

lemma gorm_update_Ok_iff:
  "gorm_update E label matches violated new rows = (Ok n, t) \<longleftrightarrow>
     env_fault E label = None \<and> n = length (filter matches rows) \<and> (n = 0 \<or> violated rows = None) \<and>
     t = map (\<lambda>x. if matches x then new else x) rows"
  by (auto simp: gorm_update_def act_bind_Ok_iff split: option.splits if_splits)

lemma gorm_delete_Ok_iff:
  "gorm_delete E label matches mark rows = (Ok n, t) \<longleftrightarrow>
     env_fault E label = None \<and> n = length (filter matches rows) \<and>
     t = map (\<lambda>x. if matches x then mark x else x) rows"
  by (auto simp: gorm_delete_def act_bind_Ok_iff)

lemma gorm_purge_Ok_iff:
  "gorm_purge E label matches rows = (Ok n, t) \<longleftrightarrow>
     env_fault E label = None \<and> n = length (filter matches rows) \<and> t = filter (\<lambda>x. \<not> matches x) rows"
  by (auto simp: gorm_purge_def act_bind_Ok_iff)

lemma map_no_match: "filter P rows = [] \<Longrightarrow> map (\<lambda>x. if P x then f x else x) rows = rows"
  by (induction rows) (auto split: if_splits)

lemma index_takenD:
  "\<not> index_taken lc key ix r rows \<Longrightarrow> alive (lc r) \<Longrightarrow> x \<in> set rows \<Longrightarrow> alive (lc x) \<Longrightarrow> ix x = ix r \<Longrightarrow> key x = key r"
  by (auto simp: index_taken_def list_ex_iff)

lemma unique_index_keys: "unique_index lc key ix rows \<Longrightarrow> distinct (map key (live_rows lc rows))"
  by (simp add: unique_index_def live_rows_def distinct_map_filter)

lemma unique_indexI:
  "distinct (map key rows) \<Longrightarrow>
   (\<And>x y. x \<in> set rows \<Longrightarrow> y \<in> set rows \<Longrightarrow> alive (lc x) \<Longrightarrow> alive (lc y) \<Longrightarrow> ix x = ix y \<Longrightarrow> key x = key y) \<Longrightarrow>
   unique_index lc key ix rows"
  unfolding unique_index_def by blast

lemma unique_indexD:
  "unique_index lc key ix rows \<Longrightarrow> x \<in> set rows \<Longrightarrow> y \<in> set rows \<Longrightarrow> alive (lc x) \<Longrightarrow> alive (lc y) \<Longrightarrow>
   ix x = ix y \<Longrightarrow> key x = key y"
  unfolding unique_index_def by blast

text \<open>Adding a row whose entry is free among old rows.\<close>

lemma free_entry:
  assumes ui: "unique_index lc key ix rows" and free: "\<not> index_taken lc key ix r rows"
    and x: "x \<in> set rows \<or> x = r" "alive (lc x)" and y: "y \<in> set rows \<or> y = r" "alive (lc y)"
    and e: "ix x = ix y"
  shows "key x = key y"
proof -
  consider "x \<in> set rows" "y \<in> set rows" | "x = r" "y \<in> set rows" | "x \<in> set rows" "y = r" | "x = r" "y = r"
    using x(1) y(1) by blast
  then show ?thesis
  proof cases
    case 1
    then show ?thesis using unique_indexD [OF ui] x(2) y(2) e by blast
  next
    case 2
    then show ?thesis using index_takenD [OF free _ _ y(2)] x(2) e by metis
  next
    case 3
    then show ?thesis using index_takenD [OF free _ _ x(2)] y(2) e by metis
  qed simp
qed

lemma unique_index_insert:
  assumes ui: "unique_index lc key ix rows" and "\<not> index_taken lc key ix r rows" and "key r \<notin> key ` set rows"
  shows "unique_index lc key ix (rows @ [r])"
proof (rule unique_indexI)
  show "distinct (map key (rows @ [r]))" using assms by (simp add: unique_index_def)
qed (rule free_entry [OF assms(1,2)]; simp; blast)

lemma unique_index_replace:
  assumes ui: "unique_index lc key ix rows" and free: "\<not> index_taken lc key ix r rows"
    and P: "\<And>x. P x \<Longrightarrow> key x = key r"
  shows "unique_index lc key ix (map (\<lambda>x. if P x then r else x) rows)"
proof (rule unique_indexI)
  have "map key (map (\<lambda>x. if P x then r else x) rows) = map key rows" using P by simp
  then show "distinct (map key (map (\<lambda>x. if P x then r else x) rows))" using ui unfolding unique_index_def by metis
qed (rule free_entry [OF ui free]; force)

text \<open>Marking rows as deleted keeps every index.\<close>

lemma unique_index_mark:
  assumes ui: "unique_index lc key ix rows" and m: "\<And>x. key (mark x) = key x" "\<And>x. \<not> alive (lc (mark x))"
  shows "unique_index lc key ix (map (\<lambda>x. if P x then mark x else x) rows)"
proof -
  let ?t = "map (\<lambda>x. if P x then mark x else x) rows"
  have "map key ?t = map key rows" using m by auto
  then have "distinct (map key ?t)" using ui unfolding unique_index_def by metis
  moreover have "y \<in> set rows" if "y \<in> set ?t" "alive (lc y)" for y using that m(2) by auto
  ultimately show ?thesis using ui unfolding unique_index_def by metis
qed

lemma alive_stamped [simp]: "alive (stamped E l) = alive l"
  by (simp add: alive_def stamped_def)

lemma versioned_save_Ok_iff:
  "versioned_save E what select nf matches violated wrap stored new rows = (Ok r, t) \<longleftrightarrow>
     env_fault E what = None \<and> env_fault E (''update '' @ what) = None \<and> (\<exists>x \<in> set rows. matches x) \<and>
     (\<exists>cur. select rows = Some cur \<and> r = new cur \<and> violated r rows = None \<and>
       t = map (\<lambda>x. if matches x then stored r else x) rows)"
  unfolding versioned_save_def
  by (auto simp: act_bind_Ok_iff gorm_first_Ok_iff gorm_update_Ok_iff filter_empty_conv split: if_splits)

lemma atomic_versioned_save [action_intro]:
  "atomic (versioned_save E what select nf matches violated wrap stored new)"
proof -
  have "atomic (act_bind (act_map_err wrap (gorm_update E (''update '' @ what) matches (violated (new cur)) (stored (new cur))))
      (\<lambda>n. if n = 0 then act_fail (NewVersionConflictError ''version conflict'') else act_return (new cur)))" for cur
    unfolding atomic_def
    by (auto simp: gorm_update_def act_defs statement_def map_no_match split: option.splits if_splits prod.splits gres.splits)
  then show ?thesis unfolding versioned_save_def by (rule atomic_bind_read [OF readonly_first])
qed

lemma versioned_save_current:
  assumes "no_faults E" "select rows = Some cur" "\<exists>x \<in> set rows. matches x" "violated (new cur) rows = None"
  shows "is_ok (fst (versioned_save E what select nf matches violated wrap stored new rows))"
proof -
  have "versioned_save E what select nf matches violated wrap stored new rows =
      (Ok (new cur), map (\<lambda>x. if matches x then stored (new cur) else x) rows)"
    using assms by (subst versioned_save_Ok_iff) (auto simp: no_faults_def)
  then show ?thesis by simp
qed

lemma versioned_save_conflict:
  assumes "no_faults E" "select rows = Some cur" "\<forall>x \<in> set rows. \<not> matches x"
  shows "fst (versioned_save E what select nf matches violated wrap stored new rows) =
    Err (NewVersionConflictError ''version conflict'')"
proof -
  have "filter matches rows = []" using assms(3) by (simp add: filter_empty_conv)
  then show ?thesis using assms(1,2)
    by (simp add: versioned_save_def gorm_first_def gorm_update_def act_bind_def act_return_def act_gets_def
        act_map_err_def act_modify_def act_fail_def)
qed

section \<open>Optimistic locking\<close>

text \<open>
  The contract of a repository with versions. In a table whose primary keys are
  distinct, a successful save found the row that is not deleted, with the key and the version of the given
  value, replaced that row by what the table stores of the result, and returns the value with
  the next version;
  a save that fails leaves the table alone. \<open>ready\<close> describes when nothing but a conflict of versions can
  go wrong.
\<close>

locale versioned_table =
  fixes rows :: "'s \<Rightarrow> 'r list"
    and key :: "'r \<Rightarrow> uuid"
    and version :: "'r \<Rightarrow> 64 word"
    and lc :: "'r \<Rightarrow> lifecycle"
    and load :: "'e \<Rightarrow> uuid \<Rightarrow> ('s, 'r) action"
    and save :: "'e \<Rightarrow> 'r \<Rightarrow> ('s, 'r) action"
    and ready :: "'e \<Rightarrow> 's \<Rightarrow> 'r \<Rightarrow> bool"
    and stored :: "'e \<Rightarrow> 'r \<Rightarrow> 'r"
  assumes stored_meta: "key (stored e r) = key r" "version (stored e r) = version r" "lc (stored e r) = lc r"
    and save_Ok: "distinct (map key (live_rows lc (rows s))) \<Longrightarrow> save e r s = (Ok r', t) \<Longrightarrow>
      key r' = key r \<and> version r' = version r + 1 \<and> alive (lc r') = alive (lc r) \<and>
      (\<exists>x \<in> set (rows s). alive (lc x) \<and> key x = key r \<and> version x = version r) \<and>
      rows t = map (\<lambda>x. if alive (lc x) \<and> key x = key r \<and> version x = version r then stored e r' else x) (rows s)"
    and save_atomic: "atomic (save e r)"
    and save_current: "ready e s r \<Longrightarrow> by_id lc key (key r) (rows s) = Some x \<Longrightarrow> version x = version r \<Longrightarrow>
      is_ok (fst (save e r s))"
    and save_conflict: "ready e s r \<Longrightarrow> by_id lc key (key r) (rows s) = Some x \<Longrightarrow>
      \<forall>y \<in> set (rows s). alive (lc y) \<and> key y = key r \<longrightarrow> version y \<noteq> version r \<Longrightarrow>
      fst (save e r s) = Err (NewVersionConflictError ''version conflict'')"
    and load_live: "ready e s r \<Longrightarrow> by_id lc key i (rows s) = Some x \<Longrightarrow> load e i s = (Ok x, s)"
begin

definition unique_keys :: "'s \<Rightarrow> bool" where
  "unique_keys s \<longleftrightarrow> distinct (map key (live_rows lc (rows s)))"

lemma unique_keysD:
  "unique_keys s \<Longrightarrow> x \<in> set (rows s) \<Longrightarrow> y \<in> set (rows s) \<Longrightarrow> alive (lc x) \<Longrightarrow> alive (lc y) \<Longrightarrow>
   key x = key y \<Longrightarrow> x = y"
  unfolding unique_keys_def distinct_map by (auto simp: inj_on_def)

lemma by_id_unique:
  assumes "unique_keys s" "x \<in> set (rows s)" "alive (lc x)"
  shows "by_id lc key (key x) (rows s) = Some x"
  unfolding by_id_def using assms by (intro first_row_unique) (auto dest: unique_keysD)

text \<open>The update keeps the keys of the rows that are not deleted.\<close>

lemma live_rows_replace:
  assumes "key r' = k"
  shows "map key (live_rows lc (map (\<lambda>x. if alive (lc x) \<and> key x = k \<and> version x = v then r' else x) xs)) =
    map key (filter (\<lambda>x. if key x = k \<and> version x = v then alive (lc r') else True) (live_rows lc xs))"
  using assms by (induction xs) (auto simp: live_rows_def)

lemma save_keeps_unique_keys:
  assumes "save e r s = (Ok r', t)" "unique_keys s"
  shows "unique_keys t"
proof -
  from save_Ok [OF assms(2) [unfolded unique_keys_def] assms(1)] have "map key (live_rows lc (rows t)) =
      map key (filter (\<lambda>x. if key x = key r \<and> version x = version r then alive (lc r') else True) (live_rows lc (rows s)))"
    using live_rows_replace [of "stored e r'" "key r" "version r" "rows s"] by (simp add: stored_meta)
  with assms(2) show ?thesis unfolding unique_keys_def by (simp add: distinct_map_filter)
qed

text \<open>After a successful save, the row that can be found under the key is the value that was returned.\<close>

lemma saved_row_found:
  assumes "save e r s = (Ok r', t)" "unique_keys s" "alive (lc r)"
  shows "by_id lc key (key r) (rows t) = Some (stored e r')"
proof -
  note s = save_Ok [OF assms(2) [unfolded unique_keys_def] assms(1)]
  then have "stored e r' \<in> set (rows t)" by force
  moreover have "alive (lc (stored e r'))" "key (stored e r') = key r" using s assms(3) by (auto simp: stored_meta)
  ultimately show ?thesis using by_id_unique [OF save_keeps_unique_keys [OF assms(1,2)]] by metis
qed

text \<open>No update is lost: who holds a value read before somebody else's save cannot save it any more.\<close>

lemma stale_save:
  assumes "save e r s = (Ok r', t)" "unique_keys s" "alive (lc r)" "key q = key r" "version q = version r"
  shows "\<not> is_ok (fst (save e' q t)) \<and> snd (save e' q t) = t \<and>
    (ready e' t q \<longrightarrow> fst (save e' q t) = Err (NewVersionConflictError ''version conflict''))"
proof -
  note s = save_Ok [OF assms(2) [unfolded unique_keys_def] assms(1)]
  have found: "by_id lc key (key q) (rows t) = Some (stored e r')" using saved_row_found [OF assms(1-3)] assms(4) by simp
  have "key r' = key r" "alive (lc r')" using s assms(3) by auto
  have other: "version y \<noteq> version q" if "y \<in> set (rows t)" "alive (lc y)" "key y = key q" for y
  proof -
    have "y = stored e r'"
      using unique_keysD [OF save_keeps_unique_keys [OF assms(1,2)] that(1) _ that(2)] that(3) assms(4)
        \<open>key r' = key r\<close> \<open>alive (lc r')\<close> by_id_SomeD [OF found] by (auto simp: stored_meta)
    then show ?thesis using s assms(5) by (auto simp: stored_meta)
  qed
  have no: "\<not> is_ok (fst (save e' q t))"
  proof
    assume "is_ok (fst (save e' q t))"
    then obtain q' u where "save e' q t = (Ok q', u)" by (cases "save e' q t") (auto simp: is_ok_iff)
    with save_Ok [of t e' q q' u] other save_keeps_unique_keys [OF assms(1,2)] show False
      unfolding unique_keys_def by blast
  qed
  moreover have "snd (save e' q t) = t" using save_atomic [of e' q] no unfolding atomic_def by blast
  moreover have "ready e' t q \<Longrightarrow> fst (save e' q t) = Err (NewVersionConflictError ''version conflict'')"
    using save_conflict [OF _ found] other by blast
  ultimately show ?thesis by blast
qed

text \<open>A client that lost the race succeeds when it reads the row again and saves its change on top of it.\<close>

lemma retry_succeeds:
  assumes "by_id lc key i (rows s) = Some x" "key (change x) = key x" "version (change x) = version x"
    and "ready e s (change x)" "unique_keys s"
  shows "\<exists>r t. act_bind (load e i) (\<lambda>y. save e (change y)) s = (Ok r, t) \<and>
    version r = version x + 1 \<and> by_id lc key i (rows t) = (if alive (lc (change x)) then Some (stored e r) else None)"
proof -
  note x = by_id_SomeD [OF assms(1)]
  then have k: "key (change x) = i" using assms(2) by simp
  from save_current [OF assms(4)] assms(1,3) k have "is_ok (fst (save e (change x) s))" by simp
  then obtain r t where t: "save e (change x) s = (Ok r, t)" by (cases "save e (change x) s") (auto simp: is_ok_iff)
  note r = save_Ok [OF assms(5) [unfolded unique_keys_def] t]
  have "by_id lc key i (rows t) = (if alive (lc (change x)) then Some (stored e r) else None)"
  proof (cases "alive (lc (change x))")
    case True
    then show ?thesis using saved_row_found [OF t assms(5)] k by simp
  next
    case False
    have "key y \<noteq> i" if "y \<in> set (rows t)" "alive (lc y)" for y
    proof
      assume y: "key y = i"
      with that r k False have "y \<in> set (rows s)" "version y \<noteq> version (change x)" by (auto simp: stored_meta split: if_splits)
      with unique_keysD [OF assms(5), of y x] x that(2) y assms(3) show False by auto
    qed
    then show ?thesis using False by (simp add: by_id_None_iff)
  qed
  with t r load_live [OF assms(4,1)] assms(3) show ?thesis by (simp add: act_bind_def)
qed

end

end
