(* ===== verification/Labels.thy ===== *)
theory Labels
  imports Tables
begin

text \<open>
  Labels: the record and the repository of \<^verbatim>\<open>label/label.go\<close>, with the constraints of the
  table \<^verbatim>\<open>labels\<close> from the migrations 073 to 075. Saving uses optimistic locking, which the
  interpretation \<open>labels\<close> of the contract of versioned tables establishes.
\<close>

record label =
  la_Lifecycle :: lifecycle
  la_ID :: uuid
  la_SpaceID :: uuid
  la_Name :: string
  la_TextColor :: string
  la_BackgroundColor :: string
  la_BorderColor :: string
  la_Version :: "64 word"

definition Label_GetETagData :: "label \<Rightarrow> goval list" where
  "Label_GetETagData m = [VUUID (la_ID m), VInt (la_Version m)]"

definition Label_GetLastModified :: "label \<Rightarrow> gotime" where
  "Label_GetLastModified m = time_truncate time_second (lc_UpdatedAt (la_Lifecycle m))"

definition LabelTableName :: string where "LabelTableName = ''labels''"

section \<open>Constraints\<close>

definition hex_digit :: "char \<Rightarrow> bool" where
  "hex_digit c \<longleftrightarrow> (let n = (of_char c :: nat) in 48 \<le> n \<and> n \<le> 57 \<or> 65 \<le> n \<and> n \<le> 70 \<or> 97 \<le> n \<and> n \<le> 102)"

text \<open>The expression \<^verbatim>\<open>^#[A-Fa-f0-9]{6}$\<close>.\<close>

definition color_ok :: "string \<Rightarrow> bool" where
  "color_ok s \<longleftrightarrow> length s = 7 \<and> take 1 s = ''#'' \<and> list_all hex_digit (drop 1 s)"

definition label_index :: string where "label_index = ''labels_name_space_id_unique_idx''"

definition label_entry :: "label \<Rightarrow> uuid \<times> string" where
  "label_entry l = (la_SpaceID l, la_Name l)"

definition label_violation :: "label \<Rightarrow> label list \<Rightarrow> go_error option" where
  "label_violation l rows = first_violation
     [(\<not> color_ok (la_BackgroundColor l), check_violation ''labels_background_color_check''),
      (\<not> color_ok (la_BorderColor l), check_violation ''labels_border_color_check''),
      (la_Name l = [], check_violation ''labels_name_check''),
      (\<not> color_ok (la_TextColor l), check_violation ''labels_text_color_check''),
      (index_taken la_Lifecycle la_ID label_entry l rows, unique_violation label_index)]"

section \<open>The repository\<close>

type_synonym 'a label_repo = "(label list, 'a) action"

definition label_name_error :: "string \<Rightarrow> go_error" where
  "label_name_error name =
     Expected (NewBadParameterError ''label name cannot be empty string'' (VString name)) (VString ''non empty string'')"

definition label_conflict :: "uuid_lib \<Rightarrow> label \<Rightarrow> go_error" where
  "label_conflict U l = NewDataConflictError
     (''label already exists with name = '' @ la_Name l @ '' , space_id = '' @ uString U (la_SpaceID l))"

definition label_not_found :: "uuid_lib \<Rightarrow> uuid \<Rightarrow> go_error" where
  "label_not_found U i = NewNotFoundError ''label'' (uString U i)"

text \<open>Blank colours are left to the defaults of the table and read back.\<close>

definition or_default :: "string \<Rightarrow> string \<Rightarrow> string" where
  "or_default s d = (if s = [] then d else s)"

definition Label_Create :: "uuid_lib \<Rightarrow> db_env \<Rightarrow> label \<Rightarrow> label label_repo" where
  "Label_Create U E u0 =
     (let u = u0\<lparr>la_ID := env_newID E ''label''\<rparr> in
      if TrimSpace (la_Name u) = [] then act_fail (label_name_error (la_Name u))
      else let new = u\<lparr>la_Lifecycle := stamped E (la_Lifecycle u),
                       la_TextColor := or_default (la_TextColor u) ''#000000'',
                       la_BackgroundColor := or_default (la_BackgroundColor u) ''#FFFFFF'',
                       la_BorderColor := or_default (la_BorderColor u) ''#000000''\<rparr>
        in act_bind (act_map_err (\<lambda>e. if IsUniqueViolation (Some e) label_index then label_conflict U u else e)
             (gorm_insert E ''labels'' la_ID (label_violation new) new)) (\<lambda>_. act_return new))"

definition Label_Save :: "uuid_lib \<Rightarrow> db_env \<Rightarrow> label \<Rightarrow> label label_repo" where
  "Label_Save U E l =
     (if TrimSpace (la_Name l) = [] then act_fail (label_name_error (la_Name l))
      else let oldVersion = la_Version l in
        versioned_save E ''label'' (by_id la_Lifecycle la_ID (la_ID l)) (label_not_found U (la_ID l))
          (\<lambda>x. alive (la_Lifecycle x) \<and> la_ID x = la_ID l \<and> la_Version x = oldVersion)
          label_violation
          (\<lambda>e. if IsUniqueViolation (Some e) label_index then label_conflict U l else NewInternalError e)
          (\<lambda>x. x) (\<lambda>lbl. l\<lparr>la_Version := la_Version lbl + 1, la_Lifecycle := touched E (la_Lifecycle l)\<rparr>))"

definition Label_List :: "db_env \<Rightarrow> uuid \<Rightarrow> label list label_repo" where
  "Label_List E spaceID =
     act_bind (statement E ''labels'' (\<lambda>e. e)) (\<lambda>_.
     act_gets (\<lambda>rows. Ok (filter (\<lambda>l. la_SpaceID l = spaceID) (live_rows la_Lifecycle rows))))"

definition Label_IsValid :: "uuid_lib \<Rightarrow> db_env \<Rightarrow> uuid \<Rightarrow> label list \<Rightarrow> bool" where
  "Label_IsValid U E i rows \<longleftrightarrow>
     is_ok (fst (CheckExists U E LabelTableName (\<lambda>rows. map la_ID (live_rows la_Lifecycle rows)) i rows))"

definition Label_Load :: "uuid_lib \<Rightarrow> db_env \<Rightarrow> uuid \<Rightarrow> label label_repo" where
  "Label_Load U E i = gorm_first E ''label'' (by_id la_Lifecycle la_ID i) (label_not_found U i)"

section \<open>Facts\<close>

lemma label_violation_cong:
  assumes "la_ID a = la_ID b" "la_SpaceID a = la_SpaceID b" "la_Name a = la_Name b" "la_TextColor a = la_TextColor b"
    "la_BackgroundColor a = la_BackgroundColor b" "la_BorderColor a = la_BorderColor b"
    "alive (la_Lifecycle a) = alive (la_Lifecycle b)"
  shows "label_violation a rows = label_violation b rows"
  using assms by (simp add: label_violation_def index_taken_def label_entry_def)

definition label_ready :: "db_env \<Rightarrow> label list \<Rightarrow> label \<Rightarrow> bool" where
  "label_ready E rows l \<longleftrightarrow> no_faults E \<and> TrimSpace (la_Name l) \<noteq> [] \<and> label_violation l rows = None"

interpretation labels: versioned_table "\<lambda>rows. rows" la_ID la_Version la_Lifecycle
  "Label_Load U" "Label_Save U" label_ready "\<lambda>_ x. x"
  for U
proof (unfold_locales; (rule refl)?)
  fix E l rows r t
  assume keys: "distinct (map la_ID (live_rows la_Lifecycle rows))" and "Label_Save U E l rows = (Ok r, t)"
  then obtain cur y where *: "by_id la_Lifecycle la_ID (la_ID l) rows = Some cur"
    "y \<in> set rows" "alive (la_Lifecycle y)" "la_ID y = la_ID l" "la_Version y = la_Version l"
    "r = l\<lparr>la_Version := la_Version cur + 1, la_Lifecycle := touched E (la_Lifecycle l)\<rparr>"
    "t = map (\<lambda>x. if alive (la_Lifecycle x) \<and> la_ID x = la_ID l \<and> la_Version x = la_Version l then r else x) rows"
    by (auto simp: Label_Save_def Let_def versioned_save_Ok_iff split: if_splits)
  then have "y = cur" by (intro by_id_match [OF keys])
  with * show "la_ID r = la_ID l \<and> la_Version r = la_Version l + 1 \<and>
      alive (la_Lifecycle r) = alive (la_Lifecycle l) \<and>
      (\<exists>x \<in> set rows. alive (la_Lifecycle x) \<and> la_ID x = la_ID l \<and> la_Version x = la_Version l) \<and>
      t = map (\<lambda>x. if alive (la_Lifecycle x) \<and> la_ID x = la_ID l \<and> la_Version x = la_Version l then r else x) rows"
    by auto
next
  show "atomic (Label_Save U E l)" for E l
    unfolding Label_Save_def Let_def by (intro action_intro)
next
  fix E rows l x
  assume a: "label_ready E rows l" "by_id la_Lifecycle la_ID (la_ID l) rows = Some x" "la_Version x = la_Version l"
  let ?new = "l\<lparr>la_Version := la_Version x + 1, la_Lifecycle := touched E (la_Lifecycle l)\<rparr>"
  have "label_violation ?new rows = None"
    using a(1) label_violation_cong [of ?new l rows] by (simp add: label_ready_def)
  then show "is_ok (fst (Label_Save U E l rows))"
    using a by_id_SomeD [OF a(2)]
    by (auto simp: Label_Save_def Let_def label_ready_def intro!: versioned_save_current)
next
  fix E rows l x
  assume "label_ready E rows l" "by_id la_Lifecycle la_ID (la_ID l) rows = Some x"
    "\<forall>y \<in> set rows. alive (la_Lifecycle y) \<and> la_ID y = la_ID l \<longrightarrow> la_Version y \<noteq> la_Version l"
  then show "fst (Label_Save U E l rows) = Err (NewVersionConflictError ''version conflict'')"
    by (auto simp: Label_Save_def Let_def label_ready_def intro!: versioned_save_conflict)
next
  fix E rows i x l
  assume "label_ready E rows l" "by_id la_Lifecycle la_ID i rows = Some x"
  then show "Label_Load U E i rows = (Ok x, rows)"
    by (simp add: Label_Load_def gorm_first_Ok_iff label_ready_def no_faults_def)
qed

section \<open>The invariant of the table\<close>

definition label_ok :: "label \<Rightarrow> bool" where
  "label_ok l \<longleftrightarrow> TrimSpace (la_Name l) \<noteq> [] \<and> color_ok (la_TextColor l) \<and>
     color_ok (la_BackgroundColor l) \<and> color_ok (la_BorderColor l)"

definition labels_wf :: "label list \<Rightarrow> bool" where
  "labels_wf rows \<longleftrightarrow> unique_index la_Lifecycle la_ID label_entry rows \<and> list_all label_ok rows"

lemma label_violation_NoneD:
  assumes "label_violation l rows = None"
  shows "color_ok (la_TextColor l)" "color_ok (la_BackgroundColor l)" "color_ok (la_BorderColor l)"
    "\<not> index_taken la_Lifecycle la_ID label_entry l rows"
  using assms by (simp_all add: label_violation_def)

lemma Label_Save_Ok:
  assumes "Label_Save U E l rows = (Ok new, t)"
  obtains "label_ok new" "label_violation new rows = None" "la_ID new = la_ID l"
    "t = map (\<lambda>x. if alive (la_Lifecycle x) \<and> la_ID x = la_ID l \<and> la_Version x = la_Version l then new else x) rows"
proof -
  have nonblank: "TrimSpace (la_Name l) \<noteq> []"
    using assms by (auto simp: Label_Save_def)
  from assms [unfolded Label_Save_def Let_def if_not_P [OF nonblank] versioned_save_Ok_iff] obtain cur :: label where
    cur: "new = l\<lparr>la_Version := la_Version cur + 1, la_Lifecycle := touched E (la_Lifecycle l)\<rparr>"
    and new: "label_violation new rows = None"
    and t: "t = map (\<lambda>x. if alive (la_Lifecycle x) \<and> la_ID x = la_ID l \<and> la_Version x = la_Version l then new else x) rows"
    by blast
  have "label_ok new" using label_violation_NoneD(1-3) [OF new] nonblank cur by (simp add: label_ok_def)
  with that new t cur show ?thesis by simp
qed

lemma Label_Create_Ok:
  assumes "Label_Create U E l rows = (Ok new, t)"
  obtains "label_ok new" "label_violation new rows = None" "la_ID new \<notin> la_ID ` set rows" "t = rows @ [new]"
  using assms label_violation_NoneD [of new rows]
  by (auto simp: Label_Create_def Let_def label_ok_def act_bind_Ok_iff gorm_insert_Ok_iff split: if_splits)

lemma atomic_Label_Create: "atomic (Label_Create U E l)"
  unfolding Label_Create_def Let_def by (intro action_intro atomic_bind_total [OF atomic_map_err])

text \<open>
  C26. The table of labels stays well-formed whatever is created or saved, and also when the operation fails: every
  row has a name that is not blank and three colours of the form \<^verbatim>\<open>#rrggbb\<close>, and no two rows of a space that are not
  deleted have the same name.
\<close>
theorem label_rows_well_typed:
  assumes "labels_wf rows"
  shows "labels_wf (snd (Label_Save U E l rows)) \<and> labels_wf (snd (Label_Create U E l rows))"
proof
  obtain r t where r: "Label_Save U E l rows = (r, t)" by fastforce
  show "labels_wf (snd (Label_Save U E l rows))"
  proof (cases r)
    case (Ok new)
    show ?thesis using r unfolding Ok
    proof (rule Label_Save_Ok)
      assume "label_ok new" "label_violation new rows = None" "la_ID new = la_ID l"
        "t = map (\<lambda>x. if alive (la_Lifecycle x) \<and> la_ID x = la_ID l \<and> la_Version x = la_Version l then new else x) rows"
      with assms r show ?thesis
        by (auto simp: labels_wf_def list_all_iff intro!: unique_index_replace dest: label_violation_NoneD(4))
    qed
  qed (use r assms atomicD [OF labels.save_atomic r] in auto)
next
  obtain r t where r: "Label_Create U E l rows = (r, t)" by fastforce
  show "labels_wf (snd (Label_Create U E l rows))"
  proof (cases r)
    case (Ok new)
    with r have "Label_Create U E l rows = (Ok new, t)" by simp
    then show ?thesis
    proof (rule Label_Create_Ok)
      assume "label_ok new" "label_violation new rows = None" "la_ID new \<notin> la_ID ` set rows" "t = rows @ [new]"
      then show ?thesis using assms r label_violation_NoneD(4) [of new rows]
        by (simp add: labels_wf_def unique_index_insert)
    qed
  qed (use r assms atomicD [OF atomic_Label_Create r] in auto)
qed

definition sample_label :: "uuid \<Rightarrow> string \<Rightarrow> string \<Rightarrow> label" where
  "sample_label i name color = \<lparr>la_Lifecycle = \<lparr>lc_CreatedAt = (1, ''UTC''), lc_UpdatedAt = (1, ''UTC''), lc_DeletedAt = None\<rparr>,
     la_ID = i, la_SpaceID = 9, la_Name = name, la_TextColor = color, la_BackgroundColor = ''#FFFFFF'',
     la_BorderColor = ''#000000'', la_Version = 0\<rparr>"

theorem label_rows_well_typed_witness:
  "labels_wf (snd (Label_Save canonical_uuid
     \<lparr>env_now = (9, ''UTC''), env_newID = (\<lambda>_. 77), env_fault = (\<lambda>_. None)\<rparr> (sample_label 5 ''new'' ''#00ff00'')
     [sample_label 5 ''old'' ''#000000'', sample_label 6 ''other'' ''#000000'']))"
proof (rule label_rows_well_typed [THEN conjunct1])
  have "TrimSpace ''old'' \<noteq> []" "TrimSpace ''other'' \<noteq> []" by code_simp+
  then show "labels_wf [sample_label 5 ''old'' ''#000000'', sample_label 6 ''other'' ''#000000'']"
    by (simp add: labels_wf_def unique_index_def label_ok_def color_ok_def hex_digit_def sample_label_def label_entry_def)
qed

end
