(* ===== verification/Queries.thy ===== *)
theory Queries
  imports Tables Search_Filter
begin

text \<open>
  Saved searches: the record and the repository of \<^verbatim>\<open>query/query.go\<close>, with the constraints of
  the table \<^verbatim>\<open>queries\<close> from the migrations 081 and later. The text of a filter is decoded by the JSON
  package (\<open>unmarshal\<close>) and read by the filter language of the search package; the column
  \<^verbatim>\<open>fields\<close> keeps what the database makes of the text (\<open>jsonb\<close>).
\<close>

record saved_query =
  qu_Lifecycle :: lifecycle
  qu_ID :: uuid
  qu_SpaceID :: uuid
  qu_Creator :: uuid
  qu_Title :: string
  qu_Fields :: string
  qu_Version :: "64 word"

text \<open>The parameters of the repository.\<close>

record query_env =
  qe_uuid :: uuid_lib
  qe_db :: db_env
  qe_unmarshal :: "string \<Rightarrow> string + goval"
  qe_jsonb :: "string \<Rightarrow> string"

definition QueryTableName :: string where "QueryTableName = ''queries''"

definition Query_GetLastModified :: "saved_query \<Rightarrow> gotime" where
  "Query_GetLastModified q = time_truncate time_second (lc_UpdatedAt (qu_Lifecycle q))"

definition Query_GetETagData :: "saved_query \<Rightarrow> goval list" where
  "Query_GetETagData q = [VUUID (qu_ID q), VString (itoa (time_unix (lc_UpdatedAt (qu_Lifecycle q))))]"

section \<open>Constraints\<close>

definition query_index :: string where "query_index = ''queries_title_space_id_creator_unique''"

definition query_entry :: "saved_query \<Rightarrow> string \<times> uuid \<times> uuid" where
  "query_entry q = (qu_Title q, qu_SpaceID q, qu_Creator q)"

definition query_violation :: "saved_query \<Rightarrow> saved_query list \<Rightarrow> go_error option" where
  "query_violation q rows = first_violation
     [(qu_Title q = [], check_violation ''queries_title_check''),
      (index_taken qu_Lifecycle qu_ID query_entry q rows, unique_violation query_index)]"

section \<open>The repository\<close>

type_synonym 'a query_repo = "(saved_query list, 'a) action"

definition query_not_found :: "query_env \<Rightarrow> uuid \<Rightarrow> go_error" where
  "query_not_found Q i = NewNotFoundError ''query'' (uString (qe_uuid Q) i)"

definition Query_CheckExists :: "query_env \<Rightarrow> uuid \<Rightarrow> unit query_repo" where
  "Query_CheckExists Q i =
     CheckExists (qe_uuid Q) (qe_db Q) QueryTableName (\<lambda>rows. map qu_ID (live_rows qu_Lifecycle rows)) i"

text \<open>\<^verbatim>\<open>json.Unmarshal\<close> into a map accepts objects and null.\<close>

definition json_map_ok :: "(string \<Rightarrow> string + goval) \<Rightarrow> string \<Rightarrow> bool" where
  "json_map_ok unmarshal s \<longleftrightarrow>
     (case unmarshal s of Inl e \<Rightarrow> False | Inr doc \<Rightarrow> (case doc of VMap _ \<Rightarrow> True | VNil \<Rightarrow> True | _ \<Rightarrow> False))"

definition query_json_error :: "saved_query \<Rightarrow> go_error" where
  "query_json_error q =
     Expected (NewBadParameterError ''query field is invalid JSON syntax'' (VString (qu_Fields q))) (VString ''valid JSON'')"

definition stored_query :: "query_env \<Rightarrow> saved_query \<Rightarrow> saved_query" where
  "stored_query Q q = q\<lparr>qu_Fields := qe_jsonb Q (qu_Fields q)\<rparr>"

text \<open>A filter that parses to no expression at all ends the function with a nil error before anything is stored.\<close>

definition Query_Create :: "query_env \<Rightarrow> saved_query \<Rightarrow> saved_query query_repo" where
  "Query_Create Q q0 =
     (let q = q0\<lparr>qu_ID := env_newID (qe_db Q) ''query''\<rparr> in
      if qu_Creator q = uuid_Nil then
        act_fail (Expected (NewBadParameterError ''creator cannot be nil'' (VUUID (qu_Creator q))) (VString ''valid user ID''))
      else if \<not> json_map_ok (qe_unmarshal Q) (qu_Fields q) then act_fail (query_json_error q)
      else act_bind (act_lift (ParseFilterString (qe_unmarshal Q) (qu_Fields q))) (\<lambda>(exp, _).
        if exp = None then act_return q
        else let new = q\<lparr>qu_Lifecycle := stamped (qe_db Q) (qu_Lifecycle q)\<rparr> in
          act_bind (act_map_err
            (\<lambda>e. if IsCheckViolation (Some e) ''queries_title_check'' then
                   Expected (NewBadParameterError ''Title'' (VString (qu_Title q))) (VString ''not empty'')
                 else if IsUniqueViolation (Some e) query_index then
                   NewDataConflictError (''query already exists with title = '' @ qu_Title q @ '' , space_id = '' @
                     uString (qe_uuid Q) (qu_SpaceID q) @ '', creator = '' @ uString (qe_uuid Q) (qu_Creator q))
                 else e)
            (gorm_insert (qe_db Q) ''queries'' qu_ID (query_violation new) (stored_query Q new))) (\<lambda>_. act_return new)))"

definition Query_Save :: "query_env \<Rightarrow> saved_query \<Rightarrow> saved_query query_repo" where
  "Query_Save Q q =
     (if TrimSpace (qu_Title q) = [] then
        act_fail (Expected (NewBadParameterError ''query title cannot be empty string'' (VString (qu_Title q)))
                    (VString ''non empty string''))
      else if \<not> json_map_ok (qe_unmarshal Q) (qu_Fields q) then act_fail (query_json_error q)
      else let oldVersion = qu_Version q in
        versioned_save (qe_db Q) ''query'' (by_id qu_Lifecycle qu_ID (qu_ID q)) (query_not_found Q (qu_ID q))
          (\<lambda>x. alive (qu_Lifecycle x) \<and> qu_ID x = qu_ID q \<and> qu_Version x = oldVersion)
          query_violation
          (\<lambda>e. if IsUniqueViolation (Some e) query_index then
                 NewDataConflictError (''query already exists with title = '' @ qu_Title q @ '' , space_id = '' @
                   uString (qe_uuid Q) (qu_SpaceID q))
               else NewInternalError e)
          (stored_query Q)
          (\<lambda>qry. q\<lparr>qu_Version := qu_Version qry + 1, qu_Lifecycle := touched (qe_db Q) (qu_Lifecycle q)\<rparr>))"

definition Query_List :: "query_env \<Rightarrow> uuid \<Rightarrow> saved_query list query_repo" where
  "Query_List Q spaceID =
     act_bind (statement (qe_db Q) ''queries'' (\<lambda>e. e)) (\<lambda>_.
     act_gets (\<lambda>rows. Ok (filter (\<lambda>q. qu_SpaceID q = spaceID) (live_rows qu_Lifecycle rows))))"

definition Query_ListByCreator :: "query_env \<Rightarrow> uuid \<Rightarrow> uuid \<Rightarrow> saved_query list query_repo" where
  "Query_ListByCreator Q spaceID creatorID =
     act_bind (statement (qe_db Q) ''queries'' (\<lambda>e. e)) (\<lambda>_.
     act_gets (\<lambda>rows. Ok (filter (\<lambda>q. qu_SpaceID q = spaceID \<and> qu_Creator q = creatorID)
                                (live_rows qu_Lifecycle rows))))"

definition Query_Load :: "query_env \<Rightarrow> uuid \<Rightarrow> uuid \<Rightarrow> saved_query query_repo" where
  "Query_Load Q i spaceID =
     gorm_first (qe_db Q) ''query''
       (\<lambda>rows. first_row qu_ID (filter (\<lambda>q. qu_ID q = i \<and> qu_SpaceID q = spaceID) (live_rows qu_Lifecycle rows)))
       (query_not_found Q i)"

definition Query_Delete :: "query_env \<Rightarrow> uuid \<Rightarrow> unit query_repo" where
  "Query_Delete Q i =
     act_bind (act_map_err NewInternalError (gorm_delete (qe_db Q) ''delete query''
       (\<lambda>x. alive (qu_Lifecycle x) \<and> keyed qu_ID i x)
       (\<lambda>x. x\<lparr>qu_Lifecycle := removed (qe_db Q) (qu_Lifecycle x)\<rparr>))) (\<lambda>n.
     if n = 0 then act_fail (query_not_found Q i) else act_return ())"

section \<open>Facts\<close>

lemma query_violation_cong:
  assumes "qu_ID a = qu_ID b" "query_entry a = query_entry b" "alive (qu_Lifecycle a) = alive (qu_Lifecycle b)"
  shows "query_violation a rows = query_violation b rows"
  using assms by (simp add: query_violation_def index_taken_def query_entry_def)

definition query_ready :: "query_env \<Rightarrow> saved_query list \<Rightarrow> saved_query \<Rightarrow> bool" where
  "query_ready Q rows q \<longleftrightarrow> no_faults (qe_db Q) \<and> TrimSpace (qu_Title q) \<noteq> [] \<and>
     json_map_ok (qe_unmarshal Q) (qu_Fields q) \<and> query_violation q rows = None"

text \<open>The row a save replaces is the one with the version of the client, so the version goes up by one.\<close>

lemma Query_Save_Ok:
  assumes "Query_Save Q q rows = (Ok new, t)"
  obtains cur :: saved_query where "by_id qu_Lifecycle qu_ID (qu_ID q) rows = Some cur"
    "new = q\<lparr>qu_Version := qu_Version cur + 1, qu_Lifecycle := touched (qe_db Q) (qu_Lifecycle q)\<rparr>"
    "\<exists>x \<in> set rows. alive (qu_Lifecycle x) \<and> qu_ID x = qu_ID q \<and> qu_Version x = qu_Version q"
    "query_violation new rows = None"
    "t = map (\<lambda>x. if alive (qu_Lifecycle x) \<and> qu_ID x = qu_ID q \<and> qu_Version x = qu_Version q
                 then stored_query Q new else x) rows"
proof -
  have ok: "TrimSpace (qu_Title q) \<noteq> []" "json_map_ok (qe_unmarshal Q) (qu_Fields q)"
    using assms by (auto simp: Query_Save_def split: if_splits)
  then have ok': "\<not> \<not> json_map_ok (qe_unmarshal Q) (qu_Fields q)" by simp
  from assms [unfolded Query_Save_def Let_def if_not_P [OF ok(1)] if_not_P [OF ok'] versioned_save_Ok_iff]
    that show thesis by blast
qed

interpretation queries: versioned_table "\<lambda>rows. rows" qu_ID qu_Version qu_Lifecycle
  "\<lambda>Q i. gorm_first (qe_db Q) ''query'' (by_id qu_Lifecycle qu_ID i) (query_not_found Q i)"
  Query_Save query_ready stored_query
proof
  fix Q q rows r t
  assume keys: "distinct (map qu_ID (live_rows qu_Lifecycle rows))" and save: "Query_Save Q q rows = (Ok r, t)"
  from save obtain cur :: saved_query where cur: "by_id qu_Lifecycle qu_ID (qu_ID q) rows = Some cur"
    "r = q\<lparr>qu_Version := qu_Version cur + 1, qu_Lifecycle := touched (qe_db Q) (qu_Lifecycle q)\<rparr>"
    and ex: "\<exists>x \<in> set rows. alive (qu_Lifecycle x) \<and> qu_ID x = qu_ID q \<and> qu_Version x = qu_Version q"
    and t: "t = map (\<lambda>x. if alive (qu_Lifecycle x) \<and> qu_ID x = qu_ID q \<and> qu_Version x = qu_Version q
                 then stored_query Q r else x) rows"
    by (rule Query_Save_Ok)
  from ex have "qu_Version cur = qu_Version q" using by_id_match [OF keys cur(1)] by blast
  with cur ex t show "qu_ID r = qu_ID q \<and> qu_Version r = qu_Version q + 1 \<and>
      alive (qu_Lifecycle r) = alive (qu_Lifecycle q) \<and>
      (\<exists>x \<in> set rows. alive (qu_Lifecycle x) \<and> qu_ID x = qu_ID q \<and> qu_Version x = qu_Version q) \<and>
      t = map (\<lambda>x. if alive (qu_Lifecycle x) \<and> qu_ID x = qu_ID q \<and> qu_Version x = qu_Version q
                 then stored_query Q r else x) rows"
    by simp
next
  show "atomic (Query_Save Q q)" for Q q
    unfolding Query_Save_def Let_def by (intro action_intro)
next
  fix Q rows q x
  assume a: "query_ready Q rows q" "by_id qu_Lifecycle qu_ID (qu_ID q) rows = Some x" "qu_Version x = qu_Version q"
  let ?new = "q\<lparr>qu_Version := qu_Version x + 1, qu_Lifecycle := touched (qe_db Q) (qu_Lifecycle q)\<rparr>"
  have "query_violation ?new rows = None"
    using a(1) query_violation_cong [of ?new q rows] by (simp add: query_ready_def query_entry_def)
  then show "is_ok (fst (Query_Save Q q rows))"
    using a by_id_SomeD [OF a(2)]
    by (auto simp: Query_Save_def Let_def query_ready_def intro!: versioned_save_current)
next
  fix Q rows q x
  assume "query_ready Q rows q" "by_id qu_Lifecycle qu_ID (qu_ID q) rows = Some x"
    "\<forall>y \<in> set rows. alive (qu_Lifecycle y) \<and> qu_ID y = qu_ID q \<longrightarrow> qu_Version y \<noteq> qu_Version q"
  then show "fst (Query_Save Q q rows) = Err (NewVersionConflictError ''version conflict'')"
    by (auto simp: Query_Save_def Let_def query_ready_def intro!: versioned_save_conflict)
qed (auto simp: stored_query_def gorm_first_Ok_iff query_ready_def no_faults_def)

text \<open>The load also asks for the space.\<close>

lemma Query_Load_by_id:
  assumes "queries.unique_keys rows" "by_id qu_Lifecycle qu_ID i rows = Some q" "env_fault (qe_db Q) ''query'' = None"
  shows "Query_Load Q i (qu_SpaceID q) rows = (Ok q, rows)"
    and "gorm_first (qe_db Q) ''query'' (by_id qu_Lifecycle qu_ID i) (query_not_found Q i) rows = (Ok q, rows)"
proof -
  note q = by_id_SomeD [OF assms(2)]
  have "first_row qu_ID (filter (\<lambda>x. qu_ID x = i \<and> qu_SpaceID x = qu_SpaceID q) (live_rows qu_Lifecycle rows)) = Some q"
  proof (rule first_row_unique)
    fix x assume "x \<in> set (filter (\<lambda>x. qu_ID x = i \<and> qu_SpaceID x = qu_SpaceID q) (live_rows qu_Lifecycle rows))"
    then show "x = q" using q queries.unique_keysD [OF assms(1), of x q] by simp
  qed (use q in simp)
  then show "Query_Load Q i (qu_SpaceID q) rows = (Ok q, rows)"
    using assms(3) by (simp add: Query_Load_def gorm_first_Ok_iff)
qed (use assms(2,3) in \<open>simp add: gorm_first_Ok_iff\<close>)

section \<open>Properties\<close>

text \<open>
  C36. Deleting a saved search with the identifier nil, which the repositories of spaces and iterations refuse, deletes
  every saved search of every space and reports success; with any other identifier it deletes the row
  with that identifier, and reports an error if there is none.
\<close>
theorem query_delete_nil_deletes_all:
  assumes "no_faults (qe_db Q)" "Query_Delete Q i rows = (r, t)"
  shows "live_rows qu_Lifecycle t =
      (if i = uuid_Nil then [] else filter (\<lambda>x. qu_ID x \<noteq> i) (live_rows qu_Lifecycle rows)) \<and>
    (is_ok r \<longleftrightarrow> (\<exists>x \<in> set (live_rows qu_Lifecycle rows). i = uuid_Nil \<or> qu_ID x = i))"
proof -
  let ?P = "\<lambda>x. alive (qu_Lifecycle x) \<and> keyed qu_ID i x"
  let ?t = "map (\<lambda>x. if ?P x then x\<lparr>qu_Lifecycle := removed (qe_db Q) (qu_Lifecycle x)\<rparr> else x) rows"
  have "gorm_delete (qe_db Q) ''delete query'' ?P (\<lambda>x. x\<lparr>qu_Lifecycle := removed (qe_db Q) (qu_Lifecycle x)\<rparr>) rows
      = (Ok (length (filter ?P rows)), ?t)"
    using assms(1) by (simp add: gorm_delete_Ok_iff no_faults_def)
  then have rt: "t = ?t \<and> (is_ok r \<longleftrightarrow> filter ?P rows \<noteq> [])"
    using assms(2) by (auto simp: Query_Delete_def act_bind_def act_map_err_def act_return_def act_fail_def split: if_splits)
  have "live_rows qu_Lifecycle ?t = filter (\<lambda>x. \<not> keyed qu_ID i x) (live_rows qu_Lifecycle rows)"
    by (induction rows) (auto simp: live_rows_def)
  then show ?thesis using rt by (auto simp: keyed_def filter_empty_conv)
qed

definition sample_query_env :: query_env where
  "sample_query_env = \<lparr>qe_uuid = canonical_uuid,
     qe_db = \<lparr>env_now = (9, ''UTC''), env_newID = (\<lambda>_. 77), env_fault = (\<lambda>_. None)\<rparr>,
     qe_unmarshal = (\<lambda>_. Inr (VMap [(''state'', VMap [(''$IN'', VSlice [])])])), qe_jsonb = (\<lambda>s. s)\<rparr>"

definition sample_query :: "uuid \<Rightarrow> string \<Rightarrow> saved_query" where
  "sample_query i title = \<lparr>qu_Lifecycle = \<lparr>lc_CreatedAt = (1, ''UTC''), lc_UpdatedAt = (1, ''UTC''), lc_DeletedAt = None\<rparr>,
     qu_ID = i, qu_SpaceID = 3, qu_Creator = 8, qu_Title = title, qu_Fields = ''{}'', qu_Version = 0\<rparr>"

theorem query_delete_nil_deletes_all_witness:
  "live_rows qu_Lifecycle (snd (Query_Delete sample_query_env uuid_Nil [sample_query 5 ''mine'', sample_query 6 ''yours''])) = []"
proof -
  have "no_faults (qe_db sample_query_env)" by (simp add: sample_query_env_def no_faults_def)
  from query_delete_nil_deletes_all [OF this, of uuid_Nil "[sample_query 5 ''mine'', sample_query 6 ''yours'']"]
  show ?thesis by (metis prod.collapse)
qed

text \<open>
  A saved search whose filter parses to no expression, such as a membership test in an empty list, is not stored:
  the creation reports success and leaves the table as it was.
\<close>
theorem query_without_expression_dropped:
  assumes "ParseFilterString (qe_unmarshal Q) (qu_Fields q) = Ok (None, opts)"
    and "json_map_ok (qe_unmarshal Q) (qu_Fields q)" "qu_Creator q \<noteq> uuid_Nil"
  shows "Query_Create Q q rows = (Ok (q\<lparr>qu_ID := env_newID (qe_db Q) ''query''\<rparr>), rows)"
  using assms by (simp add: Query_Create_def Let_def act_bind_def act_lift_def act_return_def)

theorem query_without_expression_dropped_witness:
  "snd (Query_Create sample_query_env (sample_query 0 ''mine'') []) = []"
proof -
  have "ParseFilterString (qe_unmarshal sample_query_env) (qu_Fields (sample_query 0 ''mine'')) = Ok (None, None)"
  proof -
    have "ParseFilterString (\<lambda>_. Inr (VMap [(''state'', VMap [(''$IN'', VSlice [])])])) ''{}'' = Ok (None, None)"
      by code_simp
    then show ?thesis by (simp add: sample_query_env_def sample_query_def)
  qed
  from query_without_expression_dropped [OF this] show ?thesis
    by (simp add: sample_query_env_def sample_query_def json_map_ok_def)
qed

end
