(* ===== verification/Spaces.thy ===== *)
theory Spaces
  imports Labels Queries
begin

text \<open>
  Spaces and space templates: the records and repositories of \<^verbatim>\<open>space/space.go\<close>,
  \<^verbatim>\<open>spacetemplate/template.go\<close> and \<^verbatim>\<open>spacetemplate/repository.go\<close>, with the constraints of the tables
  from the migrations 004, 061 and 087. Listing and searching share one query with a window count; its
  \<^verbatim>\<open>LIKE\<close> patterns are evaluated as the database does, byte by byte. The case mappings
  of Go and of the database are parameters. At the end stand the properties of optimistic
  locking that labels, saved searches and spaces have in common.
\<close>

section \<open>Space templates\<close>

record space_template =
  tp_Lifecycle :: lifecycle
  tp_ID :: uuid
  tp_Version :: "64 word"
  tp_Name :: string
  tp_Description :: "string option"
  tp_CanConstruct :: bool

definition SpaceTemplate_Validate :: "space_template \<Rightarrow> unit res" where
  "SpaceTemplate_Validate t =
     (if tp_Name t = [] then
        Err (Expected (NewBadParameterError ''name'' (VString (tp_Name t))) (VString ''not empty''))
      else if tp_ID t = uuid_Nil then
        Err (Expected (NewBadParameterError ''template id'' (VUUID (tp_ID t))) (VString ''non-nil UUID''))
      else Ok ())"

definition SpaceTemplate_GetETagData :: "space_template \<Rightarrow> goval list" where
  "SpaceTemplate_GetETagData t = [VUUID (tp_ID t), VInt (tp_Version t)]"

definition SpaceTemplate_GetLastModified :: "space_template \<Rightarrow> gotime" where
  "SpaceTemplate_GetLastModified t = time_truncate time_second (lc_UpdatedAt (tp_Lifecycle t))"

definition SpaceTemplate_Equal :: "space_template \<Rightarrow> space_template \<Rightarrow> bool" where
  "SpaceTemplate_Equal t other \<longleftrightarrow>
     tp_ID t = tp_ID other \<and> tp_Name t = tp_Name other \<and> tp_Version t = tp_Version other \<and>
     Lifecycle_Equal (tp_Lifecycle t) (tp_Lifecycle other) \<and> tp_CanConstruct t = tp_CanConstruct other \<and>
     tp_Description t = tp_Description other"

definition template_copy_meta :: "space_template \<Rightarrow> space_template \<Rightarrow> space_template" where
  "template_copy_meta t other = t\<lparr>tp_Version := tp_Version other, tp_Lifecycle := tp_Lifecycle other\<rparr>"

definition SpaceTemplate_EqualValue :: "space_template \<Rightarrow> space_template \<Rightarrow> bool" where
  "SpaceTemplate_EqualValue t other = SpaceTemplate_Equal (template_copy_meta t other) other"

definition template_index :: string where "template_index = ''space_templates_name_uidx''"

definition template_violation :: "space_template \<Rightarrow> space_template list \<Rightarrow> go_error option" where
  "template_violation t rows = first_violation
     [(tp_Name t = [], check_violation ''space_templates_name_check''),
      (index_taken tp_Lifecycle tp_ID tp_Name t rows, unique_violation template_index)]"

type_synonym 'a template_repo = "(space_template list, 'a) action"

definition template_ids :: "space_template list \<Rightarrow> uuid list" where
  "template_ids rows = map tp_ID (live_rows tp_Lifecycle rows)"

definition SpaceTemplate_CheckExists :: "uuid_lib \<Rightarrow> db_env \<Rightarrow> uuid \<Rightarrow> unit template_repo" where
  "SpaceTemplate_CheckExists U E = CheckExists U E ''space_templates'' template_ids"

definition SpaceTemplate_List :: "db_env \<Rightarrow> space_template list template_repo" where
  "SpaceTemplate_List E =
     act_bind (statement E ''space_templates'' (EWrap ''failed to list space templates'')) (\<lambda>_.
     act_gets (\<lambda>rows. Ok (live_rows tp_Lifecycle rows)))"

text \<open>Both failures of the load are wrapped alike; only the missing row is told apart.\<close>

definition SpaceTemplate_Load :: "uuid_lib \<Rightarrow> db_env \<Rightarrow> uuid \<Rightarrow> space_template template_repo" where
  "SpaceTemplate_Load U E i =
     act_bind (statement E ''space_template'' (\<lambda>e. NewInternalError (EWrap ''failed to load space template'' e))) (\<lambda>_.
     act_gets (\<lambda>rows. case by_id tp_Lifecycle tp_ID i rows of
         None \<Rightarrow> Err (NewNotFoundError ''space_template'' (uString U i))
       | Some t \<Rightarrow> Ok t))"

definition SpaceTemplate_Create :: "db_env \<Rightarrow> space_template \<Rightarrow> space_template template_repo" where
  "SpaceTemplate_Create E s0 =
     (let s = (if tp_ID s0 = uuid_Nil then s0\<lparr>tp_ID := env_newID E ''space template''\<rparr> else s0);
          new = s\<lparr>tp_Lifecycle := stamped E (tp_Lifecycle s)\<rparr>
      in act_bind (act_map_err (EWrap ''space template is invalid'') (act_lift (SpaceTemplate_Validate s))) (\<lambda>_.
         act_bind (act_map_err
           (\<lambda>e. if IsUniqueViolation (Some e) template_index then
                  Expected (NewBadParameterError ''name'' (VString (tp_Name s))) (VString ''unique'')
                else EWrap ''failed to create space template'' e)
           (gorm_insert E ''space_templates'' tp_ID (template_violation new) new)) (\<lambda>_. act_return new)))"

section \<open>Spaces\<close>

record space =
  sp_Lifecycle :: lifecycle
  sp_ID :: uuid
  sp_Version :: "64 word"
  sp_Name :: string
  sp_Description :: string
  sp_OwnerID :: uuid
  sp_SpaceTemplateID :: uuid

definition Space_Equal :: "space \<Rightarrow> space \<Rightarrow> bool" where
  "Space_Equal p other \<longleftrightarrow>
     Lifecycle_Equal (sp_Lifecycle p) (sp_Lifecycle other) \<and> sp_ID p = sp_ID other \<and>
     sp_Version p = sp_Version other \<and> sp_Name p = sp_Name other \<and>
     sp_SpaceTemplateID p = sp_SpaceTemplateID other \<and> sp_Description p = sp_Description other \<and>
     sp_OwnerID p = sp_OwnerID other"

definition space_copy_meta :: "space \<Rightarrow> space \<Rightarrow> space" where
  "space_copy_meta p other = p\<lparr>sp_Version := sp_Version other, sp_Lifecycle := sp_Lifecycle other\<rparr>"

definition Space_EqualValue :: "space \<Rightarrow> space \<Rightarrow> bool" where
  "Space_EqualValue p other = Space_Equal (space_copy_meta p other) other"

definition Space_GetETagData :: "space \<Rightarrow> goval list" where
  "Space_GetETagData p = [VUUID (sp_ID p), VInt (sp_Version p)]"

definition Space_GetLastModified :: "space \<Rightarrow> gotime" where
  "Space_GetLastModified p = lc_UpdatedAt (sp_Lifecycle p)"

interpretation space_equaler: equaler Space_Equal Space_EqualValue space_copy_meta
  by unfold_locales (auto simp: Space_EqualValue_def Space_Equal_def space_copy_meta_def)

interpretation template_equaler: equaler SpaceTemplate_Equal SpaceTemplate_EqualValue template_copy_meta
  by unfold_locales (auto simp: SpaceTemplate_EqualValue_def SpaceTemplate_Equal_def template_copy_meta_def)

text \<open>
  The parameters: \<open>se_LOWER\<close> is the function of the database, \<open>se_ToLower\<close> that of Go.
\<close>

record space_env =
  se_uuid :: uuid_lib
  se_db :: db_env
  se_LOWER :: "string \<Rightarrow> string"
  se_ToLower :: "string \<Rightarrow> string"

record space_db =
  sd_Spaces :: "space list"
  sd_Templates :: "space_template list"

type_synonym 'a space_repo = "(space_db, 'a) action"

definition on_spaces :: "(space list, 'a) action \<Rightarrow> 'a space_repo" where
  "on_spaces = on_table sd_Spaces (\<lambda>rows s. s\<lparr>sd_Spaces := rows\<rparr>)"

definition on_templates :: "(space_template list, 'a) action \<Rightarrow> 'a space_repo" where
  "on_templates = on_table sd_Templates (\<lambda>rows s. s\<lparr>sd_Templates := rows\<rparr>)"

definition live_spaces :: "space_db \<Rightarrow> space list" where
  "live_spaces s = live_rows sp_Lifecycle (sd_Spaces s)"

subsection \<open>Constraints\<close>

definition space_index :: string where "space_index = ''spaces_name_idx''"

definition space_entry :: "space_env \<Rightarrow> space \<Rightarrow> uuid \<times> string" where
  "space_entry S p = (sp_OwnerID p, se_LOWER S (sp_Name p))"

definition space_violation :: "space_env \<Rightarrow> space \<Rightarrow> space list \<Rightarrow> go_error option" where
  "space_violation S p rows = first_violation
     [(sp_Name p = [], check_violation ''spaces_name_check''),
      (index_taken sp_Lifecycle sp_ID (space_entry S) p rows, unique_violation space_index)]"

subsection \<open>The repository\<close>

definition space_not_found :: "space_env \<Rightarrow> uuid \<Rightarrow> go_error" where
  "space_not_found S i = NewNotFoundError ''space'' (uString (se_uuid S) i)"

definition Space_Load :: "space_env \<Rightarrow> uuid \<Rightarrow> space space_repo" where
  "Space_Load S i = on_spaces (gorm_first (se_db S) ''space'' (by_id sp_Lifecycle sp_ID i) (space_not_found S i))"

definition Space_LoadMany :: "space_env \<Rightarrow> uuid list \<Rightarrow> space list space_repo" where
  "Space_LoadMany S IDs =
     (if IDs = [] then act_return []
      else act_bind (statement (se_db S) ''spaces'' NewInternalError) (\<lambda>_.
           act_gets (\<lambda>s. Ok (remdups (filter (\<lambda>p. sp_ID p \<in> set IDs) (live_spaces s))))))"

definition Space_CheckExists :: "space_env \<Rightarrow> uuid \<Rightarrow> unit space_repo" where
  "Space_CheckExists S = CheckExists (se_uuid S) (se_db S) ''spaces'' (\<lambda>s. map sp_ID (live_spaces s))"

definition Space_Delete :: "space_env \<Rightarrow> uuid \<Rightarrow> unit space_repo" where
  "Space_Delete S i =
     (if i = uuid_Nil then act_fail (space_not_found S i)
      else act_bind (act_map_err NewInternalError (on_spaces (gorm_delete (se_db S) ''delete space''
               (\<lambda>x. alive (sp_Lifecycle x) \<and> keyed sp_ID i x)
               (\<lambda>x. x\<lparr>sp_Lifecycle := removed (se_db S) (sp_Lifecycle x)\<rparr>)))) (\<lambda>n.
           if n = 0 then act_fail (space_not_found S i) else act_return ()))"

definition Space_PermanentDelete :: "space_env \<Rightarrow> uuid \<Rightarrow> unit space_repo" where
  "Space_PermanentDelete S i =
     (if i = uuid_Nil then act_fail (space_not_found S i)
      else act_bind (act_map_err NewInternalError (on_spaces (gorm_purge (se_db S) ''purge space'' (keyed sp_ID i)))) (\<lambda>n.
           if n = 0 then act_fail (space_not_found S i) else act_return ()))"

definition Space_Save :: "space_env \<Rightarrow> space \<Rightarrow> space space_repo" where
  "Space_Save S p =
     (let oldVersion = sp_Version p in
      on_spaces (versioned_save (se_db S) ''space'' (by_id sp_Lifecycle sp_ID (sp_ID p)) (space_not_found S (sp_ID p))
        (\<lambda>x. alive (sp_Lifecycle x) \<and> sp_ID x = sp_ID p \<and> sp_Version x = oldVersion)
        (space_violation S)
        (\<lambda>e. if IsCheckViolation (Some e) ''spaces_name_check'' then
               Expected (NewBadParameterError ''Name'' (VString (sp_Name p))) (VString ''not empty'')
             else if IsUniqueViolation (Some e) space_index then
               Expected (NewBadParameterError ''Name'' (VString (sp_Name p))) (VString ''unique'')
             else NewInternalError e)
        (\<lambda>x. x)
        (\<lambda>_. p\<lparr>sp_Version := sp_Version p + 1, sp_Lifecycle := touched (se_db S) (sp_Lifecycle p)\<rparr>)))"

definition Space_Create :: "space_env \<Rightarrow> space \<Rightarrow> space space_repo" where
  "Space_Create S p0 =
     (let E = se_db S;
          p = (if sp_ID p0 = uuid_Nil then p0\<lparr>sp_ID := env_newID E ''space''\<rparr> else p0);
          new = p\<lparr>sp_Lifecycle := stamped E (sp_Lifecycle p)\<rparr>
      in act_bind (act_map_err (\<lambda>_. NewNotFoundError ''space template'' (uString (se_uuid S) (sp_SpaceTemplateID p)))
             (on_templates (SpaceTemplate_Load (se_uuid S) E (sp_SpaceTemplateID p)))) (\<lambda>templ.
         if \<not> tp_CanConstruct templ then
           act_fail (NewForbiddenError (''space template '' @ tp_Name templ @ '' (ID: '' @
             uString (se_uuid S) (tp_ID templ) @ '') cannot create spaces''))
         else act_bind (act_map_err
                (\<lambda>e. if IsCheckViolation (Some e) ''spaces_name_check'' then
                       Expected (NewBadParameterError ''Name'' (VString (sp_Name p))) (VString ''not empty'')
                     else if IsUniqueViolation (Some e) space_index then
                       NewDataConflictError (''space already exists ( for this user ) : '' @ sp_Name p @ '' '')
                     else NewInternalError e)
                (on_spaces (gorm_insert E ''spaces'' sp_ID (space_violation S new) new))) (\<lambda>_. act_return new)))"

subsection \<open>Listing and searching\<close>

text \<open>The patterns of the database: percent for any text, underscore for one character, backslash to escape.\<close>

fun like :: "string \<Rightarrow> string \<Rightarrow> bool" where
  "like [] t \<longleftrightarrow> t = []"
| "like (p # ps) t \<longleftrightarrow>
     (if p = CHR ''%'' then like ps t \<or> (case t of [] \<Rightarrow> False | _ # t' \<Rightarrow> like (p # ps) t')
      else case t of [] \<Rightarrow> False
        | c # t' \<Rightarrow>
            if p = CHR ''_'' then like ps t'
            else if p = CHR 0x5C then (case ps of [] \<Rightarrow> False | q # qs \<Rightarrow> q = c \<and> like qs t')
            else p = c \<and> like ps t')"

text \<open>With an owner and a text, the owner would restrict the matches of the name only.\<close>

definition space_matches :: "space_env \<Rightarrow> string option \<Rightarrow> uuid option \<Rightarrow> space \<Rightarrow> bool" where
  "space_matches S q userID p \<longleftrightarrow>
     (let owned = (case userID of None \<Rightarrow> True | Some u \<Rightarrow> sp_OwnerID p = u) in
      case q of
        None \<Rightarrow> owned
      | Some t \<Rightarrow> let pat = ''%'' @ se_ToLower S t @ ''%'' in
          like pat (se_LOWER S (sp_Name p)) \<and> owned \<or> like pat (se_LOWER S (sp_Description p)))"

text \<open>Newest first; rows with the same time of update come in the order of the table.\<close>

definition newest_first :: "space list \<Rightarrow> space list" where
  "newest_first = sort_key (\<lambda>p. - fst (lc_UpdatedAt (sp_Lifecycle p)))"

definition space_page_error :: "int option \<Rightarrow> int option \<Rightarrow> go_error option" where
  "space_page_error start limit =
     (if start \<noteq> None \<and> the start < 0 then Some (NewBadParameterError ''start'' (VInt (word_of_int (the start))))
      else if limit \<noteq> None \<and> the limit \<le> 0 then Some (NewBadParameterError ''limit'' (VInt (word_of_int (the limit))))
      else None)"

text \<open>
  The count comes from the first row of the page. A page without rows has the count 0 in a search, and otherwise
  that of the query from before the conditions were added.
\<close>

definition listSpaceFromDB ::
  "space_env \<Rightarrow> string option \<Rightarrow> uuid option \<Rightarrow> int option \<Rightarrow> int option \<Rightarrow> (space list \<times> int) space_repo" where
  "listSpaceFromDB S q userID start limit =
     (case space_page_error start limit of
        Some e \<Rightarrow> act_fail e
      | None \<Rightarrow>
          act_bind (statement (se_db S) ''list spaces'' (EWrap [])) (\<lambda>_.
          act_bind (act_gets (\<lambda>s. Ok (newest_first (filter (space_matches S q userID) (live_spaces s))))) (\<lambda>rows.
          let result = page_of start limit rows in
          if result \<noteq> [] then act_return (result, int (length rows))
          else if q \<noteq> None then act_return (result, 0)
          else act_bind (statement (se_db S) ''count spaces'' (EWrap [])) (\<lambda>_.
               act_gets (\<lambda>s. Ok (result, int (length (live_spaces s))))))))"

definition Space_List :: "space_env \<Rightarrow> int option \<Rightarrow> int option \<Rightarrow> (space list \<times> int) space_repo" where
  "Space_List S start limit = act_map_err (EWrap []) (listSpaceFromDB S None None start limit)"

definition Space_Search :: "space_env \<Rightarrow> string option \<Rightarrow> int option \<Rightarrow> int option \<Rightarrow> (space list \<times> int) space_repo" where
  "Space_Search S q start limit = act_map_err (EWrap []) (listSpaceFromDB S q None start limit)"

definition LoadByOwner :: "space_env \<Rightarrow> uuid option \<Rightarrow> int option \<Rightarrow> int option \<Rightarrow> (space list \<times> int) space_repo" where
  "LoadByOwner S userID start limit = act_map_err (EWrap []) (listSpaceFromDB S None userID start limit)"

definition LoadByOwnerAndName :: "space_env \<Rightarrow> uuid \<Rightarrow> string \<Rightarrow> space space_repo" where
  "LoadByOwnerAndName S userID spaceName =
     on_spaces (gorm_first (se_db S) ''space by name''
       (\<lambda>rows. first_row sp_ID (filter (\<lambda>p. sp_OwnerID p = userID \<and> se_LOWER S (sp_Name p) = se_ToLower S spaceName)
                                       (live_rows sp_Lifecycle rows)))
       (NewNotFoundError ''space'' spaceName))"

section \<open>Facts\<close>

lemma space_violation_cong:
  assumes "sp_ID a = sp_ID b" "sp_OwnerID a = sp_OwnerID b" "sp_Name a = sp_Name b"
    "alive (sp_Lifecycle a) = alive (sp_Lifecycle b)"
  shows "space_violation S a rows = space_violation S b rows"
  using assms by (simp add: space_violation_def index_taken_def space_entry_def)

lemma Space_Save_Ok_iff:
  "Space_Save S p s = (Ok new, t) \<longleftrightarrow>
     env_fault (se_db S) ''space'' = None \<and> env_fault (se_db S) ''update space'' = None \<and>
     (\<exists>x \<in> set (sd_Spaces s). alive (sp_Lifecycle x) \<and> sp_ID x = sp_ID p \<and> sp_Version x = sp_Version p) \<and>
     (\<exists>cur. by_id sp_Lifecycle sp_ID (sp_ID p) (sd_Spaces s) = Some cur) \<and>
     new = p\<lparr>sp_Version := sp_Version p + 1, sp_Lifecycle := touched (se_db S) (sp_Lifecycle p)\<rparr> \<and>
     space_violation S new (sd_Spaces s) = None \<and>
     t = s\<lparr>sd_Spaces := map (\<lambda>x. if alive (sp_Lifecycle x) \<and> sp_ID x = sp_ID p \<and> sp_Version x = sp_Version p
                               then new else x) (sd_Spaces s)\<rparr>"
  unfolding Space_Save_def Let_def on_spaces_def on_table_Ok_iff versioned_save_Ok_iff by auto

lemma atomic_on_spaces [action_intro]: "atomic m \<Longrightarrow> atomic (on_spaces m)"
  unfolding on_spaces_def by (rule atomic_on_table) auto

lemma readonly_on_templates [action_intro]: "readonly m \<Longrightarrow> readonly (on_templates m)"
  by (auto simp: readonly_def on_templates_def on_table_def split_beta)

lemma fst_on_spaces [simp]: "fst (on_spaces m s) = fst (m (sd_Spaces s))"
  by (simp add: on_spaces_def on_table_def split_beta)

definition space_ready :: "space_env \<Rightarrow> space_db \<Rightarrow> space \<Rightarrow> bool" where
  "space_ready S s p \<longleftrightarrow> no_faults (se_db S) \<and> space_violation S p (sd_Spaces s) = None"

interpretation spaces: versioned_table sd_Spaces sp_ID sp_Version sp_Lifecycle
  Space_Load Space_Save space_ready "\<lambda>_ x. x"
proof (unfold_locales; (rule refl)?)
  fix S s p r t
  assume "Space_Save S p s = (Ok r, t)"
  then show "sp_ID r = sp_ID p \<and> sp_Version r = sp_Version p + 1 \<and>
      alive (sp_Lifecycle r) = alive (sp_Lifecycle p) \<and>
      (\<exists>x \<in> set (sd_Spaces s). alive (sp_Lifecycle x) \<and> sp_ID x = sp_ID p \<and> sp_Version x = sp_Version p) \<and>
      sd_Spaces t = map (\<lambda>x. if alive (sp_Lifecycle x) \<and> sp_ID x = sp_ID p \<and> sp_Version x = sp_Version p
                          then r else x) (sd_Spaces s)"
    unfolding Space_Save_Ok_iff by simp
next
  show "atomic (Space_Save S p)" for S p
    unfolding Space_Save_def Let_def by (intro action_intro)
next
  fix S s p x
  assume a: "space_ready S s p" "by_id sp_Lifecycle sp_ID (sp_ID p) (sd_Spaces s) = Some x" "sp_Version x = sp_Version p"
  let ?new = "p\<lparr>sp_Version := sp_Version p + 1, sp_Lifecycle := touched (se_db S) (sp_Lifecycle p)\<rparr>"
  have "space_violation S ?new (sd_Spaces s) = None"
    using a(1) space_violation_cong [of ?new p S] by (simp add: space_ready_def)
  then show "is_ok (fst (Space_Save S p s))"
    using a by_id_SomeD [OF a(2)]
    by (auto simp: Space_Save_def Let_def space_ready_def intro!: versioned_save_current)
next
  fix S s p x
  assume "space_ready S s p" "by_id sp_Lifecycle sp_ID (sp_ID p) (sd_Spaces s) = Some x"
    "\<forall>y \<in> set (sd_Spaces s). alive (sp_Lifecycle y) \<and> sp_ID y = sp_ID p \<longrightarrow> sp_Version y \<noteq> sp_Version p"
  then show "fst (Space_Save S p s) = Err (NewVersionConflictError ''version conflict'')"
    by (auto simp: Space_Save_def Let_def space_ready_def intro!: versioned_save_conflict)
next
  fix S s i x p
  assume "space_ready S s p" "by_id sp_Lifecycle sp_ID i (sd_Spaces s) = Some x"
  then show "Space_Load S i s = (Ok x, s)"
    by (simp add: Space_Load_def on_spaces_def on_table_Ok_iff gorm_first_Ok_iff space_ready_def no_faults_def)
qed

lemma unique_index_filter: "unique_index lc key ix rows \<Longrightarrow> unique_index lc key ix (filter P rows)"
  unfolding unique_index_def by (auto intro: distinct_map_filter)

lemma on_spaces_Ok_iff: "on_spaces m s = (Ok x, t) \<longleftrightarrow> (\<exists>u. m (sd_Spaces s) = (Ok x, u) \<and> t = s\<lparr>sd_Spaces := u\<rparr>)"
  by (simp add: on_spaces_def on_table_Ok_iff)

lemma Space_Create_Ok:
  assumes "Space_Create S p s = (Ok new, t)"
  obtains templ where "by_id tp_Lifecycle tp_ID (sp_SpaceTemplateID new) (sd_Templates s) = Some templ" "tp_CanConstruct templ"
    "space_violation S new (sd_Spaces s) = None" "sp_ID new \<notin> sp_ID ` set (sd_Spaces s)"
    "t = s\<lparr>sd_Spaces := sd_Spaces s @ [new]\<rparr>"
  using assms
  by (auto simp: Space_Create_def Let_def act_bind_Ok_iff gorm_insert_Ok_iff on_spaces_Ok_iff on_templates_def
      on_table_Ok_iff SpaceTemplate_Load_def split: if_splits option.splits)

lemma atomic_Space_Create: "atomic (Space_Create S p)"
proof -
  have "readonly (SpaceTemplate_Load U E i)" for U E i
    unfolding SpaceTemplate_Load_def by (intro action_intro)
  then show ?thesis
    unfolding Space_Create_def Let_def by (intro action_intro atomic_bind_total [OF atomic_map_err])
qed

section \<open>The invariant of the table\<close>

definition spaces_wf :: "space_env \<Rightarrow> space_db \<Rightarrow> bool" where
  "spaces_wf S s \<longleftrightarrow> unique_index sp_Lifecycle sp_ID (space_entry S) (sd_Spaces s) \<and>
     list_all (\<lambda>p. sp_Name p \<noteq> []) (sd_Spaces s)"

lemma space_violation_NoneD:
  "space_violation S p rows = None \<Longrightarrow> sp_Name p \<noteq> [] \<and> \<not> index_taken sp_Lifecycle sp_ID (space_entry S) p rows"
  by (simp add: space_violation_def)

text \<open>The operations that change the table, one after the other, each with its own clock and failures.\<close>

datatype space_op = SpaceCreate space | SpaceSave space | SpaceDelete uuid | SpacePurge uuid

fun run_space_op :: "space_env \<Rightarrow> space_op \<Rightarrow> space_db \<Rightarrow> space_db" where
  "run_space_op S (SpaceCreate p) s = snd (Space_Create S p s)"
| "run_space_op S (SpaceSave p) s = snd (Space_Save S p s)"
| "run_space_op S (SpaceDelete i) s = snd (Space_Delete S i s)"
| "run_space_op S (SpacePurge i) s = snd (Space_PermanentDelete S i s)"

definition run_spaces :: "space_env \<Rightarrow> (db_env \<times> space_op) list \<Rightarrow> space_db \<Rightarrow> space_db" where
  "run_spaces S = fold (\<lambda>(E, op). run_space_op (S\<lparr>se_db := E\<rparr>) op)"

lemma spaces_wf_env [simp]: "spaces_wf (S\<lparr>se_db := E\<rparr>) = spaces_wf S"
  by (rule ext) (simp add: spaces_wf_def unique_index_def space_entry_def)

lemma Space_Create_wf: "spaces_wf S s \<Longrightarrow> spaces_wf S (snd (Space_Create S p s))"
proof (cases "Space_Create S p s")
  case (Pair r t)
  assume wf: "spaces_wf S s"
  show ?thesis
  proof (cases r)
    case (Ok new)
    with Pair have "Space_Create S p s = (Ok new, t)" by simp
    then show ?thesis
      by (rule Space_Create_Ok)
        (use Pair wf in \<open>auto simp: spaces_wf_def intro: unique_index_insert dest!: space_violation_NoneD\<close>)
  qed (use Pair wf atomicD [OF atomic_Space_Create Pair] in auto)
qed

lemma Space_Save_wf: "spaces_wf S s \<Longrightarrow> spaces_wf S (snd (Space_Save S p s))"
proof (cases "Space_Save S p s")
  case (Pair r t)
  assume wf: "spaces_wf S s"
  show ?thesis
  proof (cases r)
    case (Ok new)
    with Pair have "Space_Save S p s = (Ok new, t)" by simp
    note new = this [unfolded Space_Save_Ok_iff]
    then have "\<not> index_taken sp_Lifecycle sp_ID (space_entry S) new (sd_Spaces s)" "sp_Name new \<noteq> []"
      using space_violation_NoneD by blast+
    with wf new Pair show ?thesis
      by (auto simp: spaces_wf_def list_all_iff intro!: unique_index_replace)
  qed (use Pair wf atomicD [OF spaces.save_atomic Pair] in auto)
qed

lemma Space_Delete_effect:
  "snd (Space_Delete S i s) = s \<or>
   snd (Space_Delete S i s) = s\<lparr>sd_Spaces := map (\<lambda>x. if alive (sp_Lifecycle x) \<and> keyed sp_ID i x
      then x\<lparr>sp_Lifecycle := removed (se_db S) (sp_Lifecycle x)\<rparr> else x) (sd_Spaces s)\<rparr>"
  by (auto simp: Space_Delete_def gorm_delete_def on_spaces_def on_table_def statement_def act_defs split: option.splits)

lemma Space_PermanentDelete_effect:
  "snd (Space_PermanentDelete S i s) = s \<or>
   snd (Space_PermanentDelete S i s) = s\<lparr>sd_Spaces := filter (\<lambda>x. \<not> keyed sp_ID i x) (sd_Spaces s)\<rparr>"
  by (auto simp: Space_PermanentDelete_def gorm_purge_def on_spaces_def on_table_def statement_def act_defs split: option.splits)

lemma Space_Delete_wf:
  assumes "spaces_wf S s"
  shows "spaces_wf S (snd (Space_Delete S i s))"
  using Space_Delete_effect [of S i s] assms
proof (elim disjE)
  assume t: "snd (Space_Delete S i s) = s\<lparr>sd_Spaces := map (\<lambda>x. if alive (sp_Lifecycle x) \<and> keyed sp_ID i x
      then x\<lparr>sp_Lifecycle := removed (se_db S) (sp_Lifecycle x)\<rparr> else x) (sd_Spaces s)\<rparr>"
  from assms show ?thesis unfolding t spaces_wf_def
    by (auto simp: list_all_iff intro: unique_index_mark)
qed simp

lemma Space_PermanentDelete_wf:
  assumes "spaces_wf S s"
  shows "spaces_wf S (snd (Space_PermanentDelete S i s))"
  using Space_PermanentDelete_effect [of S i s] assms
  by (auto simp: spaces_wf_def list_all_iff intro: unique_index_filter)

lemmas space_op_wf = Space_Create_wf Space_Save_wf Space_Delete_wf Space_PermanentDelete_wf

lemma run_space_op_wf:
  assumes "spaces_wf S s"
  shows "spaces_wf S (run_space_op (S\<lparr>se_db := E\<rparr>) op s)"
proof -
  have "spaces_wf (S\<lparr>se_db := E\<rparr>) s" using assms by simp
  then have "spaces_wf (S\<lparr>se_db := E\<rparr>) (run_space_op (S\<lparr>se_db := E\<rparr>) op s)" by (cases op) (simp_all only: run_space_op.simps space_op_wf)
  then show ?thesis by simp
qed

section \<open>Properties\<close>

text \<open>
  C22. Whatever sequence of creations, saves, deletions and permanent deletions is run on the table of spaces, with
  whatever failures of the database, every space keeps a name and no two spaces of an owner that are
  not deleted have names that differ in case only.
\<close>
theorem space_names_unique:
  assumes "spaces_wf S s" "x \<in> set (live_spaces (run_spaces S steps s))" "y \<in> set (live_spaces (run_spaces S steps s))"
  shows "sp_Name x \<noteq> [] \<and>
    (sp_OwnerID x = sp_OwnerID y \<and> se_LOWER S (sp_Name x) = se_LOWER S (sp_Name y) \<longrightarrow> x = y)"
proof -
  have "spaces_wf S (run_spaces S steps s)"
    using assms(1) run_space_op_wf
    unfolding run_spaces_def by (induction steps arbitrary: s) auto
  then have ui: "unique_index sp_Lifecycle sp_ID (space_entry S) (sd_Spaces (run_spaces S steps s))"
    and names: "list_all (\<lambda>p. sp_Name p \<noteq> []) (sd_Spaces (run_spaces S steps s))" by (simp_all add: spaces_wf_def)
  have x: "x \<in> set (sd_Spaces (run_spaces S steps s))" "alive (sp_Lifecycle x)"
    and y: "y \<in> set (sd_Spaces (run_spaces S steps s))" "alive (sp_Lifecycle y)"
    using assms(2,3) by (simp_all add: live_spaces_def)
  have "x = y" if "sp_OwnerID x = sp_OwnerID y \<and> se_LOWER S (sp_Name x) = se_LOWER S (sp_Name y)"
  proof -
    have "sp_ID x = sp_ID y"
      using unique_indexD [OF ui x(1) y(1) x(2) y(2)] that by (simp add: space_entry_def)
    with ui x(1) y(1) show ?thesis by (auto simp: unique_index_def distinct_map inj_on_def)
  qed
  with names x(1) show ?thesis by (auto simp: list_all_iff)
qed

definition sample_lower :: "string \<Rightarrow> string" where
  "sample_lower = map (\<lambda>c. let n = (of_char c :: nat) in if 65 \<le> n \<and> n \<le> 90 then char_of (n + 32) else c)"

definition sample_db :: db_env where
  "sample_db = \<lparr>env_now = (9, ''UTC''), env_newID = (\<lambda>_. 77), env_fault = (\<lambda>_. None)\<rparr>"

definition sample_space_env :: space_env where
  "sample_space_env = \<lparr>se_uuid = canonical_uuid, se_db = sample_db, se_LOWER = sample_lower, se_ToLower = sample_lower\<rparr>"

definition sample_times :: lifecycle where
  "sample_times = \<lparr>lc_CreatedAt = (1, ''UTC''), lc_UpdatedAt = (1, ''UTC''), lc_DeletedAt = None\<rparr>"

definition sample_space :: "uuid \<Rightarrow> string \<Rightarrow> uuid \<Rightarrow> space" where
  "sample_space i name owner = \<lparr>sp_Lifecycle = sample_times, sp_ID = i, sp_Version = 0, sp_Name = name,
     sp_Description = ''about'', sp_OwnerID = owner, sp_SpaceTemplateID = 4\<rparr>"

definition sample_spaces :: space_db where
  "sample_spaces = \<lparr>sd_Spaces = [sample_space 5 ''Planner'' 8, sample_space 6 ''Build'' 8],
     sd_Templates = [\<lparr>tp_Lifecycle = sample_times, tp_ID = 4, tp_Version = 0, tp_Name = ''scrum'',
        tp_Description = None, tp_CanConstruct = True\<rparr>]\<rparr>"

lemmas sample_space_defs = sample_space_env_def sample_db_def sample_times_def sample_space_def sample_spaces_def

lemma sample_spaces_wf: "spaces_wf sample_space_env sample_spaces"
  by (simp add: spaces_wf_def unique_index_def sample_space_defs space_entry_def sample_lower_def)

theorem space_names_unique_witness:
  "let s = run_spaces sample_space_env [(sample_db, SpaceCreate (sample_space 0 ''Tests'' 8)), (sample_db, SpaceDelete 5)] sample_spaces
   in map sp_ID (live_spaces s) = [6, 77] \<and>
      se_LOWER sample_space_env (sp_Name (live_spaces s ! 0)) \<noteq> se_LOWER sample_space_env (sp_Name (live_spaces s ! 1))"
proof -
  let ?s = "run_spaces sample_space_env [(sample_db, SpaceCreate (sample_space 0 ''Tests'' 8)), (sample_db, SpaceDelete 5)] sample_spaces"
  have ids: "map sp_ID (live_spaces ?s) = [6, 77]" and owners: "map sp_OwnerID (live_spaces ?s) = [8, 8]"
    by (simp_all add: run_spaces_def Space_Create_def Space_Delete_def SpaceTemplate_Load_def on_spaces_def on_templates_def
        on_table_def gorm_insert_def insert_row_def gorm_delete_def act_defs statement_def sample_space_defs by_id_def
        live_rows_def space_violation_def first_violation.simps index_taken_def space_entry_def sample_lower_def stamped_def
        zero_time_def alive_def removed_def keyed_def live_spaces_def Let_def)
  have two: "length (live_spaces ?s) = 2" using arg_cong [OF ids, of length] by simp
  have mem: "live_spaces ?s ! 0 \<in> set (live_spaces ?s)" "live_spaces ?s ! 1 \<in> set (live_spaces ?s)"
    using two by simp_all
  have "sp_ID (live_spaces ?s ! 0) = 6" "sp_ID (live_spaces ?s ! 1) = 77"
      "sp_OwnerID (live_spaces ?s ! 0) = 8" "sp_OwnerID (live_spaces ?s ! 1) = 8"
    using two ids owners nth_map [of _ "live_spaces ?s" sp_ID] nth_map [of _ "live_spaces ?s" sp_OwnerID] by (simp_all flip: nth_map)
  with space_names_unique [OF sample_spaces_wf mem] ids show ?thesis by auto
qed

lemma listSpaceFromDB_Ok_iff:
  "listSpaceFromDB S q userID start limit s = (Ok (res, n), t) \<longleftrightarrow>
     space_page_error start limit = None \<and>
     env_fault (se_db S) ''list spaces'' = None \<and> t = s \<and>
     (let rows = newest_first (filter (space_matches S q userID) (live_spaces s)) in
      res = page_of start limit rows \<and>
      (if res \<noteq> [] then n = int (length rows)
       else if q \<noteq> None then n = 0
       else env_fault (se_db S) ''count spaces'' = None \<and> n = int (length (live_spaces s))))"
  by (cases "space_page_error start limit") (auto simp: listSpaceFromDB_def act_bind_Ok_iff Let_def)

lemma listSpaceFromDB_OkD:
  assumes "listSpaceFromDB S q userID start limit s = (Ok (res, n), t)"
  defines "hits \<equiv> filter (space_matches S q userID) (live_spaces s)"
  shows "res = page_of start limit (newest_first hits)"
    and "res \<noteq> [] \<Longrightarrow> n = int (length hits)"
    and "res = [] \<Longrightarrow> q \<noteq> None \<Longrightarrow> n = 0"
    and "res = [] \<Longrightarrow> q = None \<Longrightarrow> n = int (length (live_spaces s))"
  using assms(1) unfolding listSpaceFromDB_Ok_iff Let_def hits_def newest_first_def by (simp_all split: if_splits)

lemma listSpaceFromDB_returns:
  assumes "no_faults (se_db S)" "space_page_error start limit = None"
  shows "\<exists>res n. listSpaceFromDB S q userID start limit s = (Ok (res, n), s)"
  using assms by (simp add: listSpaceFromDB_def act_bind_def Let_def no_faults_def act_gets_def act_return_def)

lemma length_newest_first [simp]: "length (newest_first xs) = length xs"
  by (simp add: newest_first_def)

text \<open>
  The list of an owner's spaces has the page asked for of the owner's spaces that are not deleted, the newest first.
  A page with rows comes with the number of the owner's spaces; a page without rows comes with the
  number of the spaces of all owners, so that an owner without spaces is told the total of the system.
\<close>
theorem owner_page_total:
  assumes "LoadByOwner S (Some u) start limit s = (Ok (res, n), t)"
  shows "res = page_of start limit (newest_first (filter (\<lambda>p. sp_OwnerID p = u) (live_spaces s))) \<and>
    n = int (if res \<noteq> [] then length (filter (\<lambda>p. sp_OwnerID p = u) (live_spaces s)) else length (live_spaces s))"
proof -
  have *: "space_matches S None (Some u) = (\<lambda>p. sp_OwnerID p = u)" by (rule ext) (simp add: space_matches_def)
  note page = listSpaceFromDB_OkD [OF assms [unfolded LoadByOwner_def act_map_err_Ok_iff], unfolded *]
  show ?thesis using page(1,2) page(4) [OF _ refl] by (cases "res = []") simp_all
qed

theorem owner_page_total_witness:
  "fst (LoadByOwner sample_space_env (Some 99) None None sample_spaces) = Ok ([], 2)"
proof -
  have "LoadByOwner sample_space_env (Some 99) None None sample_spaces = (Ok ([], 2), sample_spaces)"
    unfolding LoadByOwner_def act_map_err_Ok_iff listSpaceFromDB_Ok_iff Let_def
    by (simp add: space_page_error_def space_matches_def newest_first_def page_of_def live_spaces_def live_rows_def alive_def sample_space_defs)
  from this owner_page_total [OF this] show ?thesis by simp
qed

subsection \<open>Searching\<close>

declare like.simps(2) [simp del]

lemma like_percent: "like (CHR ''%'' # ps) t \<longleftrightarrow> (\<exists>a b. t = a @ b \<and> like ps b)"
proof (induction t)
  case (Cons c t)
  show ?case
  proof
    assume "like (CHR ''%'' # ps) (c # t)"
    then have "like ps (c # t) \<or> like (CHR ''%'' # ps) t" by (simp add: like.simps(2))
    then show "\<exists>a b. c # t = a @ b \<and> like ps b" using Cons by (metis append_Cons append_Nil)
  next
    assume "\<exists>a b. c # t = a @ b \<and> like ps b"
    then obtain a b where ab: "c # t = a @ b" "like ps b" by blast
    then show "like (CHR ''%'' # ps) (c # t)" using Cons by (cases a) (auto simp: like.simps(2))
  qed
qed (simp add: like.simps(2))

definition plain :: "string \<Rightarrow> bool" where
  "plain w \<longleftrightarrow> list_all (\<lambda>c. c \<notin> {CHR ''%'', CHR ''_'', CHR 0x5C}) w"

lemma like_plain: "plain w \<Longrightarrow> like (w @ ps) t \<longleftrightarrow> (\<exists>r. t = w @ r \<and> like ps r)"
  by (induction w arbitrary: t) (auto simp: plain_def like.simps(2) split: list.splits)

lemma like_contains:
  assumes "plain w"
  shows "like (''%'' @ w @ ''%'') t \<longleftrightarrow> Contains t w"
proof -
  have any: "like ''%'' r" for r by (simp add: like_percent)
  have "like (CHR ''%'' # w @ ''%'') t \<longleftrightarrow> (\<exists>a b r. t = a @ b \<and> b = w @ r)"
    by (simp add: like_percent like_plain [OF assms] any)
  then show ?thesis by (auto simp: Contains_def sublist_def)
qed



subsection \<open>Optimistic locking of labels, saved searches and spaces\<close>

text \<open>
  C11. No update of a label, a saved search or a space is lost: once a save of a version has succeeded, a save of another
  value with the same version fails and leaves the tables as they are; if nothing else is wrong with the value, the error is
  the conflict of versions.
\<close>
theorem no_update_lost:
  shows "(distinct (map la_ID (live_rows la_Lifecycle ls)) \<and> alive (la_Lifecycle l) \<and>
      la_ID l' = la_ID l \<and> la_Version l' = la_Version l \<and> Label_Save U E l ls = (Ok lr, lt) \<longrightarrow>
      \<not> is_ok (fst (Label_Save U E' l' lt)) \<and> snd (Label_Save U E' l' lt) = lt \<and>
      (label_ready E' lt l' \<longrightarrow> fst (Label_Save U E' l' lt) = Err (NewVersionConflictError ''version conflict''))) \<and>
    (distinct (map qu_ID (live_rows qu_Lifecycle qs)) \<and> alive (qu_Lifecycle q) \<and>
      qu_ID q' = qu_ID q \<and> qu_Version q' = qu_Version q \<and> Query_Save Q q qs = (Ok qr, qt) \<longrightarrow>
      \<not> is_ok (fst (Query_Save Q' q' qt)) \<and> snd (Query_Save Q' q' qt) = qt \<and>
      (query_ready Q' qt q' \<longrightarrow> fst (Query_Save Q' q' qt) = Err (NewVersionConflictError ''version conflict''))) \<and>
    (distinct (map sp_ID (live_spaces ss)) \<and> alive (sp_Lifecycle p) \<and>
      sp_ID p' = sp_ID p \<and> sp_Version p' = sp_Version p \<and> Space_Save S p ss = (Ok pr, pt) \<longrightarrow>
      \<not> is_ok (fst (Space_Save S' p' pt)) \<and> snd (Space_Save S' p' pt) = pt \<and>
      (space_ready S' pt p' \<longrightarrow> fst (Space_Save S' p' pt) = Err (NewVersionConflictError ''version conflict'')))"
  by (intro conjI impI; elim conjE;
      simp add: labels.unique_keys_def queries.unique_keys_def spaces.unique_keys_def live_spaces_def
        labels.stale_save queries.stale_save spaces.stale_save)

theorem no_update_lost_witness:
  "let p = sample_space 5 ''Planner'' 8; t = snd (Space_Save sample_space_env (p\<lparr>sp_Name := ''Plans''\<rparr>) sample_spaces) in
   Space_Save sample_space_env (p\<lparr>sp_Name := ''Board''\<rparr>) t = (Err (NewVersionConflictError ''version conflict''), t)"
proof -
  let ?p = "sample_space 5 ''Planner'' 8\<lparr>sp_Name := ''Plans''\<rparr>" and ?q = "sample_space 5 ''Planner'' 8\<lparr>sp_Name := ''Board''\<rparr>"
  let ?t = "snd (Space_Save sample_space_env ?p sample_spaces)"
  have "Space_Save sample_space_env ?p sample_spaces =
      (Ok (?p\<lparr>sp_Version := 1, sp_Lifecycle := touched sample_db sample_times\<rparr>),
       sample_spaces\<lparr>sd_Spaces := [?p\<lparr>sp_Version := 1, sp_Lifecycle := touched sample_db sample_times\<rparr>, sample_space 6 ''Build'' 8]\<rparr>)"
    by (simp add: Space_Save_Ok_iff sample_space_defs by_id_def live_rows_def alive_def touched_def space_violation_def
        index_taken_def space_entry_def sample_lower_def Let_def)
  note save = this
  have "distinct (map sp_ID (live_spaces sample_spaces))" "alive (sp_Lifecycle ?p)"
    by (simp_all add: live_spaces_def live_rows_def alive_def sample_space_defs)
  moreover have "space_ready sample_space_env ?t ?q"
    unfolding save
    by (simp add: space_ready_def no_faults_def space_violation_def index_taken_def sample_space_defs space_entry_def
        alive_def touched_def live_rows_def sample_lower_def Let_def)
  ultimately show ?thesis
    using no_update_lost [THEN conjunct2, THEN conjunct2, of sample_spaces ?p ?q sample_space_env] save
    by (simp add: sample_space_def prod_eq_iff)
qed

text \<open>
  C21. A client that lost the race gets through: if nobody else interferes and the database works, reading the label, the
  saved search or the space again and saving the change on top of what was read succeeds whenever the
  change is legal, the version goes up by one, and the row then has the change.
\<close>
theorem retry_gets_through:
  shows "(distinct (map la_ID (live_rows la_Lifecycle ls)) \<and> by_id la_Lifecycle la_ID i ls = Some l \<and>
      la_ID (f l) = la_ID l \<and> la_Version (f l) = la_Version l \<and> label_ready E ls (f l) \<longrightarrow>
      (\<exists>r t. act_bind (Label_Load U E i) (\<lambda>x. Label_Save U E (f x)) ls = (Ok r, t) \<and> la_Version r = la_Version l + 1 \<and>
        by_id la_Lifecycle la_ID i t = (if alive (la_Lifecycle (f l)) then Some r else None))) \<and>
    (distinct (map qu_ID (live_rows qu_Lifecycle qs)) \<and> by_id qu_Lifecycle qu_ID j qs = Some q \<and>
      qu_ID (g q) = qu_ID q \<and> qu_Version (g q) = qu_Version q \<and> query_ready Q qs (g q) \<longrightarrow>
      (\<exists>r t. act_bind (Query_Load Q j (qu_SpaceID q)) (\<lambda>x. Query_Save Q (g x)) qs = (Ok r, t) \<and>
        qu_Version r = qu_Version q + 1 \<and>
        by_id qu_Lifecycle qu_ID j t = (if alive (qu_Lifecycle (g q)) then Some (stored_query Q r) else None))) \<and>
    (distinct (map sp_ID (live_spaces ss)) \<and> by_id sp_Lifecycle sp_ID k (sd_Spaces ss) = Some p \<and>
      sp_ID (h p) = sp_ID p \<and> sp_Version (h p) = sp_Version p \<and> space_ready S ss (h p) \<longrightarrow>
      (\<exists>r t. act_bind (Space_Load S k) (\<lambda>x. Space_Save S (h x)) ss = (Ok r, t) \<and> sp_Version r = sp_Version p + 1 \<and>
        by_id sp_Lifecycle sp_ID k (sd_Spaces t) = (if alive (sp_Lifecycle (h p)) then Some r else None)))"
  unfolding live_spaces_def labels.unique_keys_def [symmetric] queries.unique_keys_def [symmetric]
    spaces.unique_keys_def [symmetric]
proof (intro conjI impI; elim conjE)
  assume a: "queries.unique_keys qs" "by_id qu_Lifecycle qu_ID j qs = Some q" "query_ready Q qs (g q)"
    "qu_ID (g q) = qu_ID q" "qu_Version (g q) = qu_Version q"
  then have "env_fault (qe_db Q) ''query'' = None" by (simp add: query_ready_def no_faults_def)
  from Query_Load_by_id [OF a(1,2) this] queries.retry_succeeds [of j qs q g Q] a
  show "\<exists>r t. act_bind (Query_Load Q j (qu_SpaceID q)) (\<lambda>x. Query_Save Q (g x)) qs = (Ok r, t) \<and>
      qu_Version r = qu_Version q + 1 \<and>
      by_id qu_Lifecycle qu_ID j t = (if alive (qu_Lifecycle (g q)) then Some (stored_query Q r) else None)"
    by (simp add: act_bind_def)
qed (rule labels.retry_succeeds spaces.retry_succeeds; assumption)+

theorem retry_gets_through_witness:
  "let m = act_bind (Space_Load sample_space_env 5) (\<lambda>x. Space_Save sample_space_env (x\<lparr>sp_Name := ''Board''\<rparr>))
   in \<exists>r t. m sample_spaces = (Ok r, t) \<and> by_id sp_Lifecycle sp_ID 5 (sd_Spaces t) = Some r"
proof -
  let ?f = "\<lambda>x. x\<lparr>sp_Name := ''Board''\<rparr> :: space" and ?p = "sample_space 5 ''Planner'' 8"
  have "distinct (map sp_ID (live_spaces sample_spaces))" "by_id sp_Lifecycle sp_ID 5 (sd_Spaces sample_spaces) = Some ?p"
      "alive (sp_Lifecycle (?f ?p))" "sp_ID (?f ?p) = sp_ID ?p" "sp_Version (?f ?p) = sp_Version ?p"
    by (simp_all add: live_spaces_def by_id_def live_rows_def alive_def sample_space_defs)
  moreover have "space_ready sample_space_env sample_spaces (?f ?p)"
    by (simp add: space_ready_def no_faults_def space_violation_def index_taken_def sample_space_defs space_entry_def
        alive_def live_rows_def sample_lower_def Let_def)
  ultimately show ?thesis
    using retry_gets_through [THEN conjunct2, THEN conjunct2, of sample_spaces 5 ?p ?f sample_space_env]
    by (simp only: Let_def if_True simp_thms) blast
qed

end
