(* ===== verification/Trees.thy ===== *)
theory Trees
  imports Tables Paths
begin

text \<open>
  What areas and iterations share: the numbers of \<^verbatim>\<open>numbersequence/human_friendly_number.go\<close>, trees
  stored as materialised paths with the \<^verbatim>\<open>ltree\<close> operations of the database, and the slices of Go
  behind \<^verbatim>\<open>append(parent.Path, m.ID)\<close>.
\<close>

section \<open>Human friendly numbers\<close>

record human_number =
  hn_Number :: "64 word"
  hn_spaceID :: uuid
  hn_tableName :: string

text \<open>The optional argument of the constructor is a list of length at most one.\<close>

definition NewHumanFriendlyNumber :: "uuid \<Rightarrow> string \<Rightarrow> (64 word) list \<Rightarrow> human_number" where
  "NewHumanFriendlyNumber spaceID tableName number =
     \<lparr>hn_Number = (if length number > 0 then number ! 0 else 0), hn_spaceID = spaceID, hn_tableName = tableName\<rparr>"

definition HumanFriendlyNumber_Equal :: "human_number \<Rightarrow> human_number \<Rightarrow> bool" where
  "HumanFriendlyNumber_Equal n other \<longleftrightarrow>
     hn_Number n = hn_Number other \<and> hn_spaceID n = hn_spaceID other \<and> hn_tableName n = hn_tableName other"

definition HumanFriendlyNumber_EqualValue :: "human_number \<Rightarrow> human_number \<Rightarrow> bool" where
  "HumanFriendlyNumber_EqualValue n u = HumanFriendlyNumber_Equal n u"

text \<open>The columns of the row keep the number only.\<close>

definition number_column :: "human_number \<Rightarrow> human_number" where
  "number_column n = \<lparr>hn_Number = hn_Number n, hn_spaceID = uuid_Nil, hn_tableName = []\<rparr>"

type_synonym sequences = "uuid \<times> string \<rightharpoonup> int"

definition next_val :: "sequences \<Rightarrow> uuid \<times> string \<Rightarrow> int" where
  "next_val sq k = (case sq k of None \<Rightarrow> 1 | Some n \<Rightarrow> n + 1)"

text \<open>The callback before an insertion: the upsert that returns the next number of the space and the table.\<close>

definition BeforeCreate :: "uuid_lib \<Rightarrow> db_env \<Rightarrow> human_number \<Rightarrow> (sequences, human_number) action" where
  "BeforeCreate U E n =
     act_bind (statement E ''next number'' (EWrap (''failed to obtain next val for space '' @
                 uString U (hn_spaceID n) @ '' and table '' @ hn_tableName n))) (\<lambda>_.
     act_bind (act_gets (\<lambda>sq. Ok (next_val sq (hn_spaceID n, hn_tableName n)))) (\<lambda>currentVal.
     act_bind (act_modify (\<lambda>sq. sq((hn_spaceID n, hn_tableName n) \<mapsto> currentVal))) (\<lambda>_.
     act_return (n\<lparr>hn_Number := word_of_int currentVal\<rparr>))))"

text \<open>The condition that the callback before an update adds.\<close>

definition BeforeUpdate :: "human_number \<Rightarrow> human_number \<Rightarrow> bool" where
  "BeforeUpdate n row \<longleftrightarrow> hn_Number row = hn_Number n"

section \<open>Trees in the database\<close>

text \<open>
  A table of paths, the sequences, and the conditions that \<^verbatim>\<open>LoadMultiple\<close> leaves in the database
  handle of the repository object: identifiers that every later statement of the object accepts as well.
\<close>

record 'r tree_db =
  td_rows :: "'r list"
  td_sequences :: sequences
  td_carried :: "uuid list"

definition on_rows :: "('r list, 'a) action \<Rightarrow> ('r tree_db, 'a) action" where
  "on_rows = on_table td_rows (\<lambda>rows s. s\<lparr>td_rows := rows\<rparr>)"

definition on_sequences :: "(sequences, 'a) action \<Rightarrow> ('r tree_db, 'a) action" where
  "on_sequences = on_table td_sequences (\<lambda>sq s. s\<lparr>td_sequences := sq\<rparr>)"

text \<open>Every call of the application makes a new repository object, without carried conditions.\<close>

definition fresh_handle :: "('r tree_db, 'a) action \<Rightarrow> ('r tree_db, 'a) action" where
  "fresh_handle m = (\<lambda>s. case m (s\<lparr>td_carried := []\<rparr>) of (r, t) \<Rightarrow> (r, t\<lparr>td_carried := td_carried s\<rparr>))"

lemma fresh_handle_Ok_iff:
  "fresh_handle m s = (Ok x, t) \<longleftrightarrow>
     (\<exists>u. m (s\<lparr>td_carried := []\<rparr>) = (Ok x, u) \<and> t = u\<lparr>td_carried := td_carried s\<rparr>)"
  by (auto simp: fresh_handle_def split: prod.splits)

lemma readonly_fresh_handle [action_intro]: "readonly m \<Longrightarrow> readonly (fresh_handle m)"
  by (auto simp: readonly_def fresh_handle_def split_beta)

lemma fresh_handle_idle: "td_carried (s :: 'r tree_db) = [] \<Longrightarrow> s\<lparr>td_carried := []\<rparr> = s"
  by (cases s) simp

text \<open>A condition together with the carried ones; without a condition of its own a statement selects the carried rows only.\<close>

definition selected :: "('r \<Rightarrow> uuid) \<Rightarrow> uuid list \<Rightarrow> ('r \<Rightarrow> bool) \<Rightarrow> 'r \<Rightarrow> bool" where
  "selected key carried P r \<longleftrightarrow> P r \<or> key r \<in> set carried"

definition selected_only :: "('r \<Rightarrow> uuid) \<Rightarrow> uuid list \<Rightarrow> 'r \<Rightarrow> bool" where
  "selected_only key carried r \<longleftrightarrow> carried = [] \<or> key r \<in> set carried"

text \<open>The labels of a path, its level, and its longest proper prefix, on which the unique index is built.\<close>

definition labels_of :: "uuid_lib \<Rightarrow> path \<Rightarrow> string list" where
  "labels_of U p = map (ConvertToLtree U) p"

definition nlevel :: "path \<Rightarrow> nat" where
  "nlevel p = length p"

definition sibling_labels :: "uuid_lib \<Rightarrow> path \<Rightarrow> string list" where
  "sibling_labels U p = butlast (labels_of U p)"

text \<open>
  The pattern of labels \<^verbatim>\<open>p.*{1}\<close> or \<^verbatim>\<open>p.*{1,}\<close>: the labels of \<open>p\<close>, then as many more as
  \<open>levels\<close> accepts. The pattern of an empty path starts with a dot, which is a syntax error.
\<close>

definition lquery_match :: "uuid_lib \<Rightarrow> path \<Rightarrow> (nat \<Rightarrow> bool) \<Rightarrow> path \<Rightarrow> bool" where
  "lquery_match U p levels q \<longleftrightarrow>
     length p \<le> length q \<and> labels_of U (take (length p) q) = labels_of U p \<and> levels (length q - length p)"

definition lquery_error :: go_error where
  "lquery_error = EPq ''42601'' [] ''syntax error at position 0''"

text \<open>
  The contract of the two repositories: the paths end with the identifier of the row, no two siblings of a space
  that are not deleted have the same name (\<open>entry\<close> is the entry of the unique index), and a creation adds one
  such row or nothing.
\<close>

definition tree_wf :: "('r \<Rightarrow> lifecycle) \<Rightarrow> ('r \<Rightarrow> uuid) \<Rightarrow> ('r \<Rightarrow> path) \<Rightarrow> ('r \<Rightarrow> 'k) \<Rightarrow> 'r list \<Rightarrow> bool" where
  "tree_wf lc key path entry rows \<longleftrightarrow>
     unique_index lc key entry rows \<and> list_all (\<lambda>r. path r \<noteq> [] \<and> This (path r) = key r) rows"

locale path_tree =
  fixes lc :: "'r \<Rightarrow> lifecycle"
    and key :: "'r \<Rightarrow> uuid"
    and path :: "'r \<Rightarrow> path"
    and entry :: "'r \<Rightarrow> 'k"
    and create :: "'r \<Rightarrow> ('r tree_db, 'r) action"
  assumes create_Ok: "create u s = (Ok new, t) \<Longrightarrow>
      \<exists>row. td_rows t = td_rows s @ [row] \<and> key row \<notin> key ` set (td_rows s) \<and> path row \<noteq> [] \<and>
        This (path row) = key row \<and> \<not> index_taken lc key entry row (td_rows s)"
    and create_atomic: "atomic (create u)"
begin

lemma create_keeps_tree:
  assumes "tree_wf lc key path entry (td_rows s)"
  shows "tree_wf lc key path entry (td_rows (snd (create u s)))"
proof (cases "create u s")
  case (Pair r t)
  show ?thesis
  proof (cases "is_ok r")
    case True
    then obtain new where "create u s = (Ok new, t)" using Pair by (auto simp: is_ok_iff)
    from create_Ok [OF this] assms Pair show ?thesis by (auto simp: tree_wf_def intro: unique_index_insert)
  next
    case False
    with atomicD [OF create_atomic Pair] assms Pair show ?thesis by simp
  qed
qed

end

section \<open>Slices\<close>

text \<open>
  Backing arrays by address, and a slice that starts at the beginning of its array. Appending writes into the array
  while the capacity lasts, and otherwise copies to a new array whose capacity the run-time system chooses
  (\<open>grow\<close>).
\<close>

type_synonym 'a arrays = "'a list list"

record slice =
  sl_array :: nat
  sl_len :: nat

definition slice_ok :: "'a arrays \<Rightarrow> slice \<Rightarrow> bool" where
  "slice_ok h s \<longleftrightarrow> sl_array s < length h \<and> sl_len s \<le> length (h ! sl_array s)"

definition slice_get :: "'a arrays \<Rightarrow> slice \<Rightarrow> 'a list" where
  "slice_get h s = take (sl_len s) (h ! sl_array s)"

definition slice_cap :: "'a arrays \<Rightarrow> slice \<Rightarrow> nat" where
  "slice_cap h s = length (h ! sl_array s)"

definition slice_append :: "(nat \<Rightarrow> nat) \<Rightarrow> 'a \<Rightarrow> 'a arrays \<Rightarrow> slice \<Rightarrow> 'a \<Rightarrow> 'a arrays \<times> slice" where
  "slice_append grow zero h s x =
     (if sl_len s < slice_cap h s then
        (h[sl_array s := (h ! sl_array s)[sl_len s := x]], s\<lparr>sl_len := sl_len s + 1\<rparr>)
      else
        (h @ [slice_get h s @ [x] @ replicate (grow (slice_cap h s) - (sl_len s + 1)) zero],
         \<lparr>sl_array = length h, sl_len = sl_len s + 1\<rparr>))"

text \<open>The growth of Go's run-time system for short slices of sixteen-byte elements, and a path built by appending.\<close>

definition go_grow :: "nat \<Rightarrow> nat" where
  "go_grow c = (if c = 0 then 1 else 2 * c)"

fun append_all :: "(nat \<Rightarrow> nat) \<Rightarrow> 'a \<Rightarrow> 'a arrays \<times> slice \<Rightarrow> 'a list \<Rightarrow> 'a arrays \<times> slice" where
  "append_all grow zero hs [] = hs"
| "append_all grow zero (h, s) (x # xs) = append_all grow zero (slice_append grow zero h s x) xs"

section \<open>Facts\<close>

lemma selected_fresh [simp]: "selected key [] P = P" "selected_only key [] = (\<lambda>_. True)"
  by (auto simp: selected_def selected_only_def)

lemma BeforeCreate_Ok_iff:
  "BeforeCreate U E n sq = (Ok n', sq') \<longleftrightarrow> env_fault E ''next number'' = None \<and>
     sq' = sq((hn_spaceID n, hn_tableName n) \<mapsto> next_val sq (hn_spaceID n, hn_tableName n)) \<and>
     n' = n\<lparr>hn_Number := word_of_int (next_val sq (hn_spaceID n, hn_tableName n))\<rparr>"
  by (auto simp: BeforeCreate_def act_bind_Ok_iff)

lemma ConvertToLtree_inj:
  assumes "uuid_lib_ok U"
  shows "ConvertToLtree U i = ConvertToLtree U j \<longleftrightarrow> i = j"
proof
  have "replace_char (CHR ''_'') (CHR ''-'') (ConvertToLtree U u) = uString U u" for u
    using uuid_string_no_sep(2) [OF assms] by (simp add: ConvertToLtree_def replace_char_inverse)
  then show "ConvertToLtree U i = ConvertToLtree U j \<Longrightarrow> i = j"
    using uuid_ok_roundtrip [OF assms] by (metis option.inject)
qed simp

lemma labels_of_inj: "uuid_lib_ok U \<Longrightarrow> labels_of U p = labels_of U q \<longleftrightarrow> p = q"
  unfolding labels_of_def by (intro inj_map_eq_map) (simp add: inj_def ConvertToLtree_inj)

lemma lquery_match_iff:
  assumes "uuid_lib_ok U"
  shows "lquery_match U p levels q \<longleftrightarrow> (\<exists>rest. q = p @ rest \<and> levels (length rest))"
  unfolding lquery_match_def labels_of_inj [OF assms]
  by (metis add_diff_cancel_left' append_eq_conv_conj append_take_drop_id le_add1 length_append length_drop)

lemma slice_append_lemmas:
  assumes "slice_ok h s" "slice_append grow zero h s x = (h', s')"
  shows "slice_get h' s' = slice_get h s @ [x]" "slice_ok h' s'"
  using assms
  by (auto simp: slice_append_def slice_ok_def slice_get_def slice_cap_def take_Suc_conv_app_nth nth_append
      split: if_splits)

lemma sibling_entry:
  assumes "uuid_lib_ok U"
  shows "sibling_labels U p = sibling_labels U q \<longleftrightarrow> butlast p = butlast q"
  using labels_of_inj [OF assms, of "butlast p" "butlast q"]
  by (simp add: sibling_labels_def labels_of_def map_butlast)

lemma This_eq_last: "p \<noteq> [] \<Longrightarrow> This p = last p"
  by (simp add: This_def IsEmpty_def last_conv_nth)

section \<open>Properties\<close>



end
