(* ===== verification/Areas.thy ===== *)
theory Areas
  imports Trees
begin

text \<open>
  Areas: the record and the repository of \<^verbatim>\<open>area/area.go\<close>, with the constraints of the table
  \<^verbatim>\<open>areas\<close> from the migration 105.
\<close>

record area =
  ar_Lifecycle :: lifecycle
  ar_Number :: human_number
  ar_ID :: uuid
  ar_SpaceID :: uuid
  ar_Path :: path
  ar_Name :: string
  ar_Version :: "64 word"

definition Area_TableName :: string where "Area_TableName = ''areas''"

definition Area_MakeChildOf :: "db_env \<Rightarrow> area \<Rightarrow> area \<Rightarrow> area" where
  "Area_MakeChildOf E m0 parent =
     (let m = (if ar_ID m0 = uuid_Nil then m0\<lparr>ar_ID := env_newID E ''area''\<rparr> else m0)
      in m\<lparr>ar_Path := ar_Path parent @ [ar_ID m]\<rparr>)"

definition Area_GetETagData :: "area \<Rightarrow> goval list" where
  "Area_GetETagData m = [VUUID (ar_ID m), VInt (ar_Version m)]"

definition Area_GetLastModified :: "area \<Rightarrow> gotime" where
  "Area_GetLastModified m = time_truncate time_second (lc_UpdatedAt (ar_Lifecycle m))"

section \<open>Constraints\<close>

definition area_index :: string where "area_index = ''areas_name_space_id_path_unique''"

definition area_entry :: "uuid_lib \<Rightarrow> area \<Rightarrow> uuid \<times> string list \<times> string" where
  "area_entry U a = (ar_SpaceID a, sibling_labels U (ar_Path a), ar_Name a)"

definition area_violation :: "uuid_lib \<Rightarrow> area \<Rightarrow> area list \<Rightarrow> go_error option" where
  "area_violation U a rows = first_violation
     [(ar_Path a = [], check_violation ''non_empty_path_check''),
      (index_taken ar_Lifecycle ar_ID (area_entry U) a rows, unique_violation area_index)]"

section \<open>The repository\<close>

type_synonym area_db = "area tree_db"

type_synonym 'a area_repo = "(area_db, 'a) action"

text \<open>The identifier and the path a new area gets.\<close>

definition area_to_create :: "uuid_lib \<Rightarrow> db_env \<Rightarrow> area \<Rightarrow> area res" where
  "area_to_create U E u0 =
     (let u1 = u0\<lparr>ar_Number := NewHumanFriendlyNumber (ar_SpaceID u0) Area_TableName []\<rparr>;
          u = (if ar_ID u1 = uuid_Nil then u1\<lparr>ar_ID := env_newID E ''area'', ar_Path := [env_newID E ''area'']\<rparr> else u1)
      in if ar_Path u = [] then Ok (u\<lparr>ar_Path := [ar_ID u]\<rparr>)
         else if This (ar_Path u) \<noteq> ar_ID u then
           Err (EErrorf (''area path has to end with area ID '' @ uString U (ar_ID u)))
         else Ok u)"

definition Area_Create :: "uuid_lib \<Rightarrow> db_env \<Rightarrow> area \<Rightarrow> area area_repo" where
  "Area_Create U E u0 =
     act_bind (act_lift (area_to_create U E u0)) (\<lambda>u.
     act_map_err
       (\<lambda>e. if IsUniqueViolation (Some e) area_index then
              NewDataConflictError (''area already exists with name = '' @ ar_Name u @ '' , space_id = '' @
                uString U (ar_SpaceID u) @ '' , path = '' @ Path_String U (ParentPath (ar_Path u)) @ '' '')
            else e)
       (undo_on_error
         (act_bind (on_sequences (BeforeCreate U E (ar_Number u))) (\<lambda>n.
          let new = u\<lparr>ar_Number := n, ar_Lifecycle := stamped E (ar_Lifecycle u)\<rparr>;
              row = new\<lparr>ar_Number := number_column n\<rparr> in
          act_bind (on_rows (gorm_insert E ''areas'' ar_ID (area_violation U row) row)) (\<lambda>_.
          act_return new)))))"

definition live_areas :: "area_db \<Rightarrow> area list" where
  "live_areas s = live_rows ar_Lifecycle (td_rows s)"

definition find_areas :: "db_env \<Rightarrow> (go_error \<Rightarrow> go_error) \<Rightarrow> (area \<Rightarrow> bool) \<Rightarrow> area list area_repo" where
  "find_areas E wrap P =
     act_bind (statement E ''areas'' wrap) (\<lambda>_.
     act_gets (\<lambda>s. Ok (filter (selected ar_ID (td_carried s) P) (live_areas s))))"

definition Area_List :: "db_env \<Rightarrow> uuid \<Rightarrow> area list area_repo" where
  "Area_List E spaceID = find_areas E (\<lambda>e. e) (\<lambda>a. ar_SpaceID a = spaceID)"

definition Area_Load :: "uuid_lib \<Rightarrow> db_env \<Rightarrow> uuid \<Rightarrow> area area_repo" where
  "Area_Load U E i =
     act_bind (statement E ''area'' NewInternalError) (\<lambda>_.
     act_gets (\<lambda>s. case first_row ar_ID (filter (selected ar_ID (td_carried s) (\<lambda>a. ar_ID a = i)) (live_areas s)) of
         None \<Rightarrow> Err (NewNotFoundError ''Area'' (uString U i))
       | Some a \<Rightarrow> Ok a))"

definition Area_CheckExists :: "uuid_lib \<Rightarrow> db_env \<Rightarrow> uuid \<Rightarrow> unit area_repo" where
  "Area_CheckExists U E i = CheckExists U E Area_TableName (\<lambda>s. map ar_ID (live_areas s)) i"

text \<open>The conditions are added to the handle of the repository itself.\<close>

definition Area_LoadMultiple :: "db_env \<Rightarrow> uuid list \<Rightarrow> area list area_repo" where
  "Area_LoadMultiple E ids =
     (if length ids = 0 then act_return []
      else act_bind (act_modify (\<lambda>s. s\<lparr>td_carried := td_carried s @ ids\<rparr>)) (\<lambda>_.
           act_bind (statement E ''areas'' NewInternalError) (\<lambda>_.
           act_gets (\<lambda>s. Ok (filter (selected_only ar_ID (td_carried s)) (live_areas s))))))"

definition Area_ListChildren :: "uuid_lib \<Rightarrow> db_env \<Rightarrow> area \<Rightarrow> area list area_repo" where
  "Area_ListChildren U E parentArea =
     (if ar_Path parentArea = [] then act_fail (NewInternalError lquery_error)
      else find_areas E NewInternalError (\<lambda>a. lquery_match U (ar_Path parentArea) (\<lambda>n. n = 1) (ar_Path a)))"

text \<open>Scopes: a condition and possibly a limit.\<close>

type_synonym area_scope = "(area \<Rightarrow> bool) \<times> nat option"

definition FilterBySpaceID :: "uuid \<Rightarrow> area_scope" where
  "FilterBySpaceID spaceID = (\<lambda>a. ar_SpaceID a = spaceID, None)"

definition FilterByName :: "string \<Rightarrow> area_scope" where
  "FilterByName name = (\<lambda>a. ar_Name a = name, Some 1)"

definition scope_limit :: "area_scope list \<Rightarrow> nat option" where
  "scope_limit funcs = fold (\<lambda>f l. case snd f of None \<Rightarrow> l | Some n \<Rightarrow> Some n) funcs None"

definition Area_Query :: "db_env \<Rightarrow> area_scope list \<Rightarrow> area list area_repo" where
  "Area_Query E funcs =
     act_bind (statement E ''area query'' (EWrap [])) (\<lambda>_.
     act_gets (\<lambda>s.
       let found = filter (if funcs = [] then selected_only ar_ID (td_carried s)
                           else selected ar_ID (td_carried s) (\<lambda>a. list_all (\<lambda>f. fst f a) funcs)) (live_areas s)
       in Ok (case scope_limit funcs of None \<Rightarrow> found | Some n \<Rightarrow> take n found)))"

text \<open>An error of the query leaves no rows, so that it is reported as a missing root.\<close>

definition Area_Root :: "uuid_lib \<Rightarrow> db_env \<Rightarrow> uuid \<Rightarrow> area area_repo" where
  "Area_Root U E spaceID =
     (\<lambda>s. case Area_Query E [FilterBySpaceID spaceID, (\<lambda>a. ar_SpaceID a = spaceID \<and> nlevel (ar_Path a) = 1, None)] s of
            (Ok [a], t) \<Rightarrow> (Ok a, t)
          | (Panic, t) \<Rightarrow> (Panic, t)
          | (_, t) \<Rightarrow> (Err (NewInternalError (EErrorf (''single Root area not found for space '' @ uString U spaceID))), t))"

section \<open>Facts\<close>

lemma area_to_create_Ok:
  "area_to_create U E u0 = Ok u \<Longrightarrow> ar_Path u \<noteq> [] \<and> This (ar_Path u) = ar_ID u"
  by (auto simp: area_to_create_def Let_def This_def IsEmpty_def split: if_splits)

lemma area_violation_NoneD:
  "area_violation U a rows = None \<Longrightarrow> ar_Path a \<noteq> [] \<and> \<not> index_taken ar_Lifecycle ar_ID (area_entry U) a rows"
  by (simp add: area_violation_def)

interpretation areas: path_tree ar_Lifecycle ar_ID ar_Path "area_entry U" "Area_Create U E" for U E
proof
  fix u s new t
  assume "Area_Create U E u s = (Ok new, t)"
  then show "\<exists>row. td_rows t = td_rows s @ [row] \<and> ar_ID row \<notin> ar_ID ` set (td_rows s) \<and> ar_Path row \<noteq> [] \<and>
      This (ar_Path row) = ar_ID row \<and> \<not> index_taken ar_Lifecycle ar_ID (area_entry U) row (td_rows s)"
    by (auto simp: Area_Create_def Let_def act_bind_Ok_iff on_rows_def on_sequences_def on_table_Ok_iff
        gorm_insert_Ok_iff dest!: area_to_create_Ok area_violation_NoneD)
next
  show "atomic (Area_Create U E u)" for u
    unfolding Area_Create_def by (intro action_intro)
qed

text \<open>The direct children of an area.\<close>

lemma Area_ListChildren_Ok:
  assumes "uuid_lib_ok U" "td_carried s = []" "Area_ListChildren U E p s = (Ok cs, t)"
  shows "cs = filter (\<lambda>a. ar_Path a \<noteq> [] \<and> butlast (ar_Path a) = ar_Path p) (live_areas s)"
proof -
  have "lquery_match U (ar_Path p) (\<lambda>n. n = 1) q \<longleftrightarrow> q \<noteq> [] \<and> butlast q = ar_Path p" for q
    unfolding lquery_match_iff [OF assms(1)]
    by (cases q rule: rev_cases) (auto simp: length_Suc_conv)
  with assms(2,3) show ?thesis
    by (auto simp: Area_ListChildren_def find_areas_def act_bind_Ok_iff split: if_splits)
qed

section \<open>Properties\<close>

text \<open>
  The conditions of LoadMultiple stay in the repository: when areas have been loaded by their identifiers, loading another area
  with the same repository object returns the area with the smallest identifier among all of them, which
  is the wrong one as soon as one of those loaded before has a smaller identifier.
\<close>
theorem load_multiple_leaks:
  assumes "Area_LoadMultiple E ids s = (Ok as, s1)" "Area_Load U E i s1 = (Ok a, s2)"
    and "b \<in> set (live_areas s)" "ar_ID b \<in> set ids" "ar_ID b < i"
  shows "ar_ID a \<noteq> i \<and> ar_ID a \<le> ar_ID b"
proof -
  from assms(1,4) have s1: "s1 = s\<lparr>td_carried := td_carried s @ ids\<rparr>"
    by (auto simp: Area_LoadMultiple_def act_bind_Ok_iff split: if_splits)
  then have live: "live_areas s1 = live_areas s" by (simp add: live_areas_def)
  from assms(2) have a: "first_row ar_ID (filter (selected ar_ID (td_carried s1) (\<lambda>a. ar_ID a = i)) (live_areas s1)) = Some a"
    by (auto simp: Area_Load_def act_bind_Ok_iff split: option.splits)
  have "b \<in> set (filter (selected ar_ID (td_carried s1) (\<lambda>a. ar_ID a = i)) (live_areas s1))"
    using assms(3,4) live s1 by (simp add: selected_def)
  with first_row_SomeD [OF a] have "ar_ID a \<le> ar_ID b" by blast
  with assms(5) show ?thesis by auto
qed

definition sample_area :: "uuid \<Rightarrow> string \<Rightarrow> path \<Rightarrow> area" where
  "sample_area i name p = \<lparr>ar_Lifecycle = \<lparr>lc_CreatedAt = (1, ''UTC''), lc_UpdatedAt = (1, ''UTC''), lc_DeletedAt = None\<rparr>,
     ar_Number = \<lparr>hn_Number = 7, hn_spaceID = 0, hn_tableName = []\<rparr>, ar_ID = i, ar_SpaceID = 9, ar_Path = p, ar_Name = name,
     ar_Version = 0\<rparr>"

definition quiet_db :: db_env where
  "quiet_db = \<lparr>env_now = (9, ''UTC''), env_newID = (\<lambda>_. 77), env_fault = (\<lambda>_. None)\<rparr>"

theorem load_multiple_leaks_witness:
  "\<exists>as s1 a s2. Area_LoadMultiple quiet_db [1]
      \<lparr>td_rows = [sample_area 1 ''root'' [1], sample_area 2 ''a'' [1, 2]], td_sequences = Map.empty, td_carried = []\<rparr> = (Ok as, s1) \<and>
     Area_Load canonical_uuid quiet_db 2 s1 = (Ok a, s2) \<and> ar_ID a \<noteq> 2"
proof -
  let ?s = "\<lparr>td_rows = [sample_area 1 ''root'' [1], sample_area 2 ''a'' [1, 2]], td_sequences = Map.empty, td_carried = []\<rparr>"
  have live: "live_areas (?s\<lparr>td_carried := c\<rparr>) = [sample_area 1 ''root'' [1], sample_area 2 ''a'' [1, 2]]" for c
    by (simp add: live_areas_def live_rows_def sample_area_def alive_def)
  from live [of "[]"] have live': "live_areas ?s = [sample_area 1 ''root'' [1], sample_area 2 ''a'' [1, 2]]" by simp
  obtain as where as: "Area_LoadMultiple quiet_db [1] ?s = (Ok as, ?s\<lparr>td_carried := [1]\<rparr>)"
    by (simp add: Area_LoadMultiple_def act_defs statement_def quiet_db_def)
  obtain a s2 where a: "Area_Load canonical_uuid quiet_db 2 (?s\<lparr>td_carried := [1]\<rparr>) = (Ok a, s2)"
    using live [of "[1]"]
    by (simp add: Area_Load_def act_defs statement_def quiet_db_def selected_def sample_area_def)
  from load_multiple_leaks [OF as a, of "sample_area 1 ''root'' [1]"] live' have "ar_ID a \<noteq> 2"
    by (simp add: sample_area_def)
  with as a show ?thesis by blast
qed

end
