(* ===== verification/Iterations.thy ===== *)
theory Iterations
  imports Trees
begin

text \<open>
  Iterations: the record and the repository of \<^verbatim>\<open>iteration/iteration.go\<close>, with the constraints of
  the table \<^verbatim>\<open>iterations\<close> from the migration 105, and the core of the handlers of
  \<^verbatim>\<open>controller/iteration.go\<close> that create an iteration below another one and move a subtree.
\<close>

record iteration =
  it_Lifecycle :: lifecycle
  it_Number :: human_number
  it_ID :: uuid
  it_SpaceID :: uuid
  it_Path :: path
  it_StartAt :: "gotime option"
  it_EndAt :: "gotime option"
  it_Name :: string
  it_Description :: "string option"
  it_State :: string
  it_UserActive :: bool
  it_RelationShipsChangedAt :: "gotime option"

text \<open>The parameters: UUIDs, the database, and what gorm leaves in the given struct when an update affects no row.\<close>

record iteration_env =
  ie_uuid :: uuid_lib
  ie_db :: db_env
  ie_unmatched :: "iteration \<Rightarrow> iteration"

definition Iteration_TableName :: string where "Iteration_TableName = ''iterations''"

definition Iteration_MakeChildOf :: "db_env \<Rightarrow> iteration \<Rightarrow> iteration \<Rightarrow> iteration" where
  "Iteration_MakeChildOf E m0 parent =
     (let m = (if it_ID m0 = uuid_Nil then m0\<lparr>it_ID := env_newID E ''iteration''\<rparr> else m0)
      in m\<lparr>it_Path := it_Path parent @ [it_ID m]\<rparr>)"

definition FullPath :: "uuid_lib \<Rightarrow> iteration \<Rightarrow> string" where
  "FullPath U m = Path_String U (it_Path m) @ SepInService @ uString U (it_ID m)"

definition Iteration_GetETagData :: "iteration \<Rightarrow> goval list" where
  "Iteration_GetETagData m =
     [VUUID (it_ID m), VString (itoa (time_unix (lc_UpdatedAt (it_Lifecycle m)))),
      (case it_RelationShipsChangedAt m of None \<Rightarrow> VNil | Some (t, l) \<Rightarrow> VTime t l)]"

definition Iteration_GetLastModified :: "iteration \<Rightarrow> gotime" where
  "Iteration_GetLastModified m =
     (let lastModified = lc_UpdatedAt (it_Lifecycle m) in
      case it_RelationShipsChangedAt m of
        None \<Rightarrow> lastModified
      | Some r \<Rightarrow> if fst r > fst lastModified then r else lastModified)"

definition IsRoot :: "uuid \<Rightarrow> iteration \<Rightarrow> bool" where
  "IsRoot spaceID m \<longleftrightarrow> it_SpaceID m = spaceID \<and> length (it_Path m) = 1 \<and> it_Path m ! 0 = it_ID m"

definition Iteration_Parent :: "iteration \<Rightarrow> uuid" where
  "Iteration_Parent m = ParentID (it_Path m)"

text \<open>The clock is read once.\<close>

definition inTimeframe :: "gotime \<Rightarrow> gotime \<Rightarrow> gotime \<Rightarrow> bool" where
  "inTimeframe now startAt endAt \<longleftrightarrow> fst now > fst startAt \<and> fst now < fst endAt"

definition IsActive :: "gotime \<Rightarrow> iteration \<Rightarrow> bool" where
  "IsActive now m =
     (if it_UserActive m then True
      else case it_StartAt m of
        None \<Rightarrow> False
      | Some s \<Rightarrow> (case it_EndAt m of None \<Rightarrow> fst now > fst s | Some e \<Rightarrow> inTimeframe now s e))"

section \<open>Constraints\<close>

definition iteration_index :: string where "iteration_index = ''iterations_name_space_id_path_unique''"

definition iteration_entry :: "uuid_lib \<Rightarrow> iteration \<Rightarrow> uuid \<times> string list \<times> string" where
  "iteration_entry U i = (it_SpaceID i, sibling_labels U (it_Path i), it_Name i)"

text \<open>The column of the state has an enumeration type with the three states.\<close>

definition invalid_state :: "string \<Rightarrow> go_error" where
  "invalid_state st = EPq ''22P02'' [] (''invalid input value for enum iteration_state: '' @ st)"

definition iteration_violation :: "uuid_lib \<Rightarrow> iteration \<Rightarrow> iteration list \<Rightarrow> go_error option" where
  "iteration_violation U i rows = first_violation
     [(State_CheckValid (it_State i) \<noteq> None, invalid_state (it_State i)),
      (it_Path i = [], check_violation ''non_empty_path_check''),
      (index_taken it_Lifecycle it_ID (iteration_entry U) i rows, unique_violation iteration_index)]"

section \<open>The repository\<close>

type_synonym iteration_db = "iteration tree_db"

type_synonym 'a iteration_repo = "(iteration_db, 'a) action"

definition live_iterations :: "iteration_db \<Rightarrow> iteration list" where
  "live_iterations s = live_rows it_Lifecycle (td_rows s)"

definition find_iterations :: "db_env \<Rightarrow> (go_error \<Rightarrow> go_error) \<Rightarrow> (iteration \<Rightarrow> bool) \<Rightarrow> iteration list iteration_repo" where
  "find_iterations E wrap P =
     act_bind (statement E ''iterations'' wrap) (\<lambda>_.
     act_gets (\<lambda>s. Ok (filter (selected it_ID (td_carried s) P) (live_iterations s))))"

definition first_iteration :: "db_env \<Rightarrow> go_error \<Rightarrow> (iteration \<Rightarrow> bool) \<Rightarrow> iteration iteration_repo" where
  "first_iteration E notFound P =
     act_bind (statement E ''iteration'' NewInternalError) (\<lambda>_.
     act_gets (\<lambda>s. case first_row it_ID (filter (selected it_ID (td_carried s) P) (live_iterations s)) of
         None \<Rightarrow> Err notFound | Some i \<Rightarrow> Ok i))"

definition Iteration_LoadMultiple :: "iteration_env \<Rightarrow> uuid list \<Rightarrow> iteration list iteration_repo" where
  "Iteration_LoadMultiple I ids =
     (if length ids = 0 then act_return []
      else act_bind (act_modify (\<lambda>s. s\<lparr>td_carried := td_carried s @ ids\<rparr>)) (\<lambda>_.
           act_bind (statement (ie_db I) ''iterations'' NewInternalError) (\<lambda>_.
           act_gets (\<lambda>s. Ok (filter (selected_only it_ID (td_carried s)) (live_iterations s))))))"

definition iteration_to_create :: "uuid_lib \<Rightarrow> db_env \<Rightarrow> iteration \<Rightarrow> iteration res" where
  "iteration_to_create U E u0 =
     (let u1 = u0\<lparr>it_Number := NewHumanFriendlyNumber (it_SpaceID u0) Iteration_TableName []\<rparr>;
          u = (if it_ID u1 = uuid_Nil
               then u1\<lparr>it_ID := env_newID E ''iteration'', it_Path := [env_newID E ''iteration'']\<rparr> else u1)
      in res_bind
           (if it_Path u = [] then Ok (u\<lparr>it_Path := [it_ID u]\<rparr>)
            else if This (it_Path u) \<noteq> it_ID u then
              Err (EErrorf (''iteration path has to end with iteration ID '' @ uString U (it_ID u)))
            else Ok u) (\<lambda>u.
         Ok (if \<not> State_IsSet (it_State u) then u\<lparr>it_State := StateNew\<rparr> else u)))"

definition Iteration_Create :: "iteration_env \<Rightarrow> iteration \<Rightarrow> iteration iteration_repo" where
  "Iteration_Create I u0 =
     (let U = ie_uuid I; E = ie_db I in
      act_bind (act_lift (iteration_to_create U E u0)) (\<lambda>u.
      act_map_err
        (\<lambda>e. if IsUniqueViolation (Some e) iteration_index then
               NewDataConflictError (''iteration already exists with name = '' @ it_Name u @ '' , space_id = '' @
                 uString U (it_SpaceID u) @ '' , path = '' @ Path_String U (ParentPath (it_Path u)) @ '' '')
             else EWrap [] e)
        (undo_on_error
          (act_bind (on_sequences (BeforeCreate U E (it_Number u))) (\<lambda>n.
           let new = u\<lparr>it_Number := n, it_Lifecycle := stamped E (it_Lifecycle u)\<rparr>;
               row = new\<lparr>it_Number := number_column n\<rparr> in
           act_bind (on_rows (gorm_insert E ''iterations'' it_ID (iteration_violation U row) row)) (\<lambda>_.
           act_return new))))))"

definition Iteration_List :: "iteration_env \<Rightarrow> uuid \<Rightarrow> iteration list iteration_repo" where
  "Iteration_List I spaceID = find_iterations (ie_db I) (EWrap []) (\<lambda>i. it_SpaceID i = spaceID)"

definition Iteration_Root :: "iteration_env \<Rightarrow> uuid \<Rightarrow> iteration iteration_repo" where
  "Iteration_Root I spaceID =
     first_iteration (ie_db I) (NewNotFoundError ''root iteration for space'' (uString (ie_uuid I) spaceID))
       (\<lambda>i. it_SpaceID i = spaceID \<and> nlevel (it_Path i) = 1)"

definition Iteration_Load :: "iteration_env \<Rightarrow> uuid \<Rightarrow> iteration iteration_repo" where
  "Iteration_Load I i =
     first_iteration (ie_db I) (NewNotFoundError ''Iteration'' (uString (ie_uuid I) i)) (\<lambda>x. it_ID x = i)"

definition Iteration_CheckExists :: "iteration_env \<Rightarrow> uuid \<Rightarrow> unit iteration_repo" where
  "Iteration_CheckExists I i =
     CheckExists (ie_uuid I) (ie_db I) Iteration_TableName (\<lambda>s. map it_ID (live_iterations s)) i"

text \<open>
  The update is restricted to the primary key and to the conditions of the handle: the identifier and the number
  (from the callback), or a carried identifier. How many rows it affects is not looked at.
\<close>

definition Iteration_Save :: "iteration_env \<Rightarrow> iteration \<Rightarrow> iteration iteration_repo" where
  "Iteration_Save I i =
     (let E = ie_db I in
      act_bind (first_iteration E (NewNotFoundError ''iteration'' (uString (ie_uuid I) (it_ID i)))
                  (\<lambda>x. it_ID x = it_ID i)) (\<lambda>_.
      let new = i\<lparr>it_Lifecycle := touched E (it_Lifecycle i)\<rparr>;
          row = new\<lparr>it_Number := number_column (it_Number i)\<rparr> in
      act_bind (act_gets (\<lambda>s. Ok (td_carried s))) (\<lambda>carried.
      act_bind (act_lift (if State_CheckValid (it_State i) = None then Ok ()
                          else Err (NewInternalError (invalid_state (it_State i))))) (\<lambda>_.
      act_bind (act_map_err NewInternalError (on_rows (gorm_update E ''update iteration''
         (\<lambda>x. alive (it_Lifecycle x) \<and> it_ID x = it_ID i \<and>
              selected it_ID carried (\<lambda>x. it_ID x = it_ID i \<and> BeforeUpdate (it_Number i) (it_Number x)) x)
         (iteration_violation (ie_uuid I) row) row))) (\<lambda>n.
      act_return (if n = 0 then ie_unmatched I i else new))))))"

text \<open>The error of the count is not looked at: the count is then zero.\<close>

definition CanStart :: "iteration_env \<Rightarrow> iteration \<Rightarrow> bool iteration_repo" where
  "CanStart I i =
     act_bind (Iteration_Root I (it_SpaceID i)) (\<lambda>rootItr.
     if it_ID i = it_ID rootItr then
       act_fail (NewBadParameterError ''iteration'' (VString ''Root iteration can not be started.''))
     else act_bind (act_gets (\<lambda>s. Ok (if env_fault (ie_db I) ''count started'' = None then
              length (filter (selected it_ID (td_carried s)
                (\<lambda>x. it_SpaceID x = it_SpaceID i \<and> it_State x = StateStart)) (live_iterations s))
            else 0))) (\<lambda>count.
       if count \<noteq> 0 then
         act_fail (NewBadParameterError ''state'' (VString ''One iteration from given space is already running''))
       else act_return True))"

definition LoadChildren :: "iteration_env \<Rightarrow> uuid \<Rightarrow> iteration list iteration_repo" where
  "LoadChildren I parentIterationID =
     act_bind (act_map_err (\<lambda>_. NewNotFoundError ''iteration'' (uString (ie_uuid I) parentIterationID))
                 (Iteration_Load I parentIterationID)) (\<lambda>parentIteration.
     if it_Path parentIteration = [] then act_fail lquery_error
     else act_bind (find_iterations (ie_db I) (\<lambda>e. e)
            (\<lambda>x. lquery_match (ie_uuid I) (it_Path parentIteration) (\<lambda>n. 1 \<le> n) (it_Path x))) (\<lambda>objs.
          act_return (sort_key (\<lambda>x. fst (lc_UpdatedAt (it_Lifecycle x))) objs)))"

definition Iteration_Delete :: "iteration_env \<Rightarrow> uuid \<Rightarrow> unit iteration_repo" where
  "Iteration_Delete I i =
     (let E = ie_db I; missing = NewNotFoundError ''iteration'' (uString (ie_uuid I) i) in
      if i = uuid_Nil then act_fail missing
      else act_bind (act_gets (\<lambda>s. Ok (td_carried s))) (\<lambda>carried.
           act_bind (act_map_err NewInternalError (on_rows (gorm_delete E ''delete iteration''
              (\<lambda>x. alive (it_Lifecycle x) \<and> keyed it_ID i x \<and> selected_only it_ID carried x)
              (\<lambda>x. x\<lparr>it_Lifecycle := removed E (it_Lifecycle x)\<rparr>)))) (\<lambda>n.
           if n = 0 then act_fail missing else act_return ())))"

section \<open>The update handler\<close>

text \<open>
  The transaction of the handler that updates an iteration: the attributes, the check before starting, and the move
  below another parent with the new paths of everything below the iteration. Every call of the application makes a new
  repository object, so that no conditions are carried. The counts and parents for the response are left out.
\<close>

record iteration_payload =
  ip_Name :: "string option"
  ip_StartAt :: "gotime option"
  ip_EndAt :: "gotime option"
  ip_Description :: "string option"
  ip_State :: "string option"
  ip_UserActive :: "bool option"
  ip_Parent :: "string option option"

definition set_time :: "gotime option \<Rightarrow> gotime option \<Rightarrow> gotime option" where
  "set_time given old = (case given of None \<Rightarrow> old | Some t \<Rightarrow> if fst t = fst zero_time then None else Some t)"

definition update_attributes :: "iteration_payload \<Rightarrow> iteration \<Rightarrow> iteration" where
  "update_attributes p itr =
     itr\<lparr>it_Name := case ip_Name p of None \<Rightarrow> it_Name itr | Some n \<Rightarrow> n,
         it_StartAt := set_time (ip_StartAt p) (it_StartAt itr),
         it_EndAt := set_time (ip_EndAt p) (it_EndAt itr),
         it_Description := case ip_Description p of None \<Rightarrow> it_Description itr | Some d \<Rightarrow> Some d\<rparr>"

definition update_state :: "iteration_env \<Rightarrow> iteration_payload \<Rightarrow> iteration \<Rightarrow> iteration iteration_repo" where
  "update_state I p itr =
     (case ip_State p of
        None \<Rightarrow> act_return itr
      | Some st \<Rightarrow>
          act_bind (if st = StateStart then act_bind (fresh_handle (CanStart I itr)) (\<lambda>_. act_return ())
                    else act_return ()) (\<lambda>_.
          act_return (itr\<lparr>it_State := st\<rparr>)))"

definition move_target :: "iteration_env \<Rightarrow> iteration \<Rightarrow> string option \<Rightarrow> (iteration \<times> iteration list) iteration_repo" where
  "move_target I itr newParentID =
     (if IsRoot (it_SpaceID itr) itr then act_fail (NewForbiddenError ''Parent of root iteration can not be updated'')
      else case newParentID of
        None \<Rightarrow> act_fail (Expected (NewBadParameterError ''Data.Relationships.Parent.ID'' (VOther ''*string'' 0)) (VString ''not nil''))
      | Some str \<Rightarrow>
          (case uFromString (ie_uuid I) str of
             None \<Rightarrow> act_fail (NewBadParameterError ''Data.Relationships.Parent.ID'' (VOther ''*string'' 1))
           | Some pid \<Rightarrow>
               if pid = it_ID itr then
                 act_fail (NewForbiddenError ''Parent must be different than subject iteration'')
               else act_bind (fresh_handle (Iteration_Load I pid)) (\<lambda>newParent.
                 if it_SpaceID newParent \<noteq> it_SpaceID itr then
                   act_fail (NewForbiddenError ''Parent must be from same space'')
                 else act_bind (fresh_handle (LoadChildren I (it_ID itr))) (\<lambda>oldSubtree.
                   if list_ex (\<lambda>childItr. it_ID newParent = it_ID childItr) oldSubtree then
                     act_fail (NewForbiddenError ''Parent must not be existing child'')
                   else act_return (Iteration_MakeChildOf (ie_db I) itr newParent, oldSubtree)))))"

fun save_subtree :: "iteration_env \<Rightarrow> iteration \<Rightarrow> iteration list \<Rightarrow> unit iteration_repo" where
  "save_subtree I itr [] = act_return ()"
| "save_subtree I itr (x # xs) =
     act_bind (fresh_handle (Iteration_Save I (Iteration_MakeChildOf (ie_db I) x itr))) (\<lambda>_. save_subtree I itr xs)"

definition update_iteration :: "iteration_env \<Rightarrow> iteration_payload \<Rightarrow> iteration \<Rightarrow> iteration iteration_repo" where
  "update_iteration I p itr0 =
     act_bind (update_state I p (update_attributes p itr0)) (\<lambda>itr1.
     let itr2 = (case ip_UserActive p of None \<Rightarrow> itr1 | Some b \<Rightarrow> itr1\<lparr>it_UserActive := b\<rparr>) in
     act_bind (case ip_Parent p of None \<Rightarrow> act_return (itr2, []) | Some parent \<Rightarrow> move_target I itr2 parent)
       (\<lambda>(itr3, oldSubtree).
     act_bind (fresh_handle (Iteration_Save I itr3)) (\<lambda>itr4.
     act_bind (if ip_Parent p = None then act_return () else save_subtree I itr4 oldSubtree) (\<lambda>_.
     act_return itr4))))"

section \<open>Facts\<close>

lemma iteration_to_create_Ok:
  "iteration_to_create U E u0 = Ok u \<Longrightarrow> it_Path u \<noteq> [] \<and> This (it_Path u) = it_ID u"
  by (auto simp: iteration_to_create_def Let_def This_def IsEmpty_def split: if_splits)

lemma iteration_violation_NoneD:
  "iteration_violation U i rows = None \<Longrightarrow>
     it_Path i \<noteq> [] \<and> \<not> index_taken it_Lifecycle it_ID (iteration_entry U) i rows"
  by (simp add: iteration_violation_def)

interpretation iterations: path_tree it_Lifecycle it_ID it_Path "iteration_entry (ie_uuid I)" "Iteration_Create I" for I
proof
  fix u s new t
  assume "Iteration_Create I u s = (Ok new, t)"
  then show "\<exists>row. td_rows t = td_rows s @ [row] \<and> it_ID row \<notin> it_ID ` set (td_rows s) \<and> it_Path row \<noteq> [] \<and>
      This (it_Path row) = it_ID row \<and> \<not> index_taken it_Lifecycle it_ID (iteration_entry (ie_uuid I)) row (td_rows s)"
    by (auto simp: Iteration_Create_def Let_def act_bind_Ok_iff on_rows_def on_sequences_def on_table_Ok_iff
        gorm_insert_Ok_iff dest!: iteration_to_create_Ok iteration_violation_NoneD)
next
  show "atomic (Iteration_Create I u)" for u
    unfolding Iteration_Create_def Let_def by (intro action_intro)
qed

lemma live_carried [simp]:
  "live_iterations (s\<lparr>td_carried := c\<rparr>) = live_iterations s"
  by (simp add: live_iterations_def)

lemma first_iteration_Ok:
  assumes "first_iteration E nf P s = (Ok i, t)" "td_carried s = []"
  shows "t = s \<and> i \<in> set (live_iterations s) \<and> P i"
  using assms by (auto simp: first_iteration_def act_bind_Ok_iff selected_def split: option.splits dest!: first_row_SomeD)

text \<open>What LoadChildren finds: the iterations strictly below, in the order of their last update.\<close>

lemma LoadChildren_Ok:
  assumes U: "uuid_lib_ok (ie_uuid I)" and ids: "distinct (map it_ID (live_iterations s))"
    and "td_carried s = []" "x \<in> set (live_iterations s)" "LoadChildren I (it_ID x) s = (Ok cs, t)"
  shows "t = s \<and> cs = sort_key (\<lambda>c. fst (lc_UpdatedAt (it_Lifecycle c)))
      (filter (\<lambda>c. strict_prefix (it_Path x) (it_Path c)) (live_iterations s))"
proof -
  have below: "lquery_match (ie_uuid I) (it_Path x) ((\<le>) (Suc 0)) q \<longleftrightarrow> strict_prefix (it_Path x) q" for q
    unfolding lquery_match_iff [OF U] by (auto simp: strict_prefix_def prefix_def Suc_le_eq)
  from assms(5) obtain p s1 where p: "Iteration_Load I (it_ID x) s = (Ok p, s1)"
    by (auto simp: LoadChildren_def act_bind_Ok_iff)
  from first_iteration_Ok [OF p [unfolded Iteration_Load_def] assms(3)] have "s1 = s" "p \<in> set (live_iterations s)" "it_ID p = it_ID x"
    by auto
  then have "p = x" using ids assms(4) by (auto simp: distinct_map inj_on_def)
  with assms(5) p \<open>s1 = s\<close> assms(3) show ?thesis
    by (auto simp: LoadChildren_def act_bind_Ok_iff find_iterations_def below split: if_splits)
qed

subsection \<open>Saving\<close>

text \<open>The rows that are not deleted, as identifier, number and space, with their paths.\<close>

type_synonym identity = "uuid \<times> 64 word \<times> uuid"

definition identity_of :: "iteration \<Rightarrow> identity" where
  "identity_of i = (it_ID i, hn_Number (it_Number i), it_SpaceID i)"

definition skeleton :: "iteration_db \<Rightarrow> (identity \<times> path) list" where
  "skeleton s = map (\<lambda>x. (identity_of x, it_Path x)) (live_iterations s)"

definition set_path :: "uuid \<Rightarrow> path \<Rightarrow> identity \<times> path \<Rightarrow> identity \<times> path" where
  "set_path i p = (\<lambda>(k, q). (k, if fst k = i then p else q))"

lemma fst_set_path [simp]: "map fst (map (set_path i p) xs) = map fst xs"
  by (induction xs) (auto simp: set_path_def split: prod.splits)

lemma Iteration_Save_rows:
  assumes save: "Iteration_Save I i s = (Ok i', t)" and c: "td_carried s = []"
    and ids: "distinct (map (fst \<circ> fst) (skeleton s))" and known: "identity_of i \<in> fst ` set (skeleton s)"
    and live: "alive (it_Lifecycle i)"
  shows "i' = i\<lparr>it_Lifecycle := touched (ie_db I) (it_Lifecycle i)\<rparr> \<and> td_carried t = [] \<and>
    live_iterations t = map (\<lambda>x. if it_ID x = it_ID i
      then i'\<lparr>it_Number := number_column (it_Number i)\<rparr> else x) (live_iterations s) \<and>
    (\<forall>x \<in> set (live_iterations s). it_ID x = it_ID i \<longrightarrow> identity_of x = identity_of i)"
proof -
  let ?new = "i\<lparr>it_Lifecycle := touched (ie_db I) (it_Lifecycle i)\<rparr>"
  let ?row = "?new\<lparr>it_Number := number_column (it_Number i)\<rparr>"
  let ?m = "\<lambda>x. alive (it_Lifecycle x) \<and> it_ID x = it_ID i \<and> BeforeUpdate (it_Number i) (it_Number x)"
  obtain s1 n where s1: "s1 = s"
    and n: "n = length (filter ?m (td_rows s))" "i' = (if n = 0 then ie_unmatched I i else ?new)"
    and t: "t = s\<lparr>td_rows := map (\<lambda>x. if ?m x then ?row else x) (td_rows s)\<rparr>"
    using save c
    by (auto simp: Iteration_Save_def Let_def act_bind_Ok_iff on_rows_def on_table_Ok_iff gorm_update_Ok_iff
        dest!: first_iteration_Ok split: if_splits)
  have same: "identity_of x = identity_of i" if "x \<in> set (live_iterations s)" "it_ID x = it_ID i" for x
  proof -
    from known obtain y where y: "y \<in> set (live_iterations s)" "identity_of y = identity_of i"
      by (auto simp: skeleton_def)
    have "x = y" using ids that y
      by (auto simp: skeleton_def identity_of_def comp_def distinct_map inj_on_def)
    with y(2) show ?thesis by simp
  qed
  then have number: "BeforeUpdate (it_Number i) (it_Number x)"
    if "x \<in> set (live_iterations s)" "it_ID x = it_ID i" for x
    using that by (simp add: BeforeUpdate_def identity_of_def)
  have "filter ?m (td_rows s) \<noteq> []"
  proof -
    from known obtain y where "y \<in> set (live_iterations s)" "it_ID y = it_ID i"
      by (auto simp: skeleton_def identity_of_def)
    with number [of y] show ?thesis by (auto simp: filter_empty_conv live_iterations_def)
  qed
  then have i': "i' = ?new" using n by simp
  have "live_rows it_Lifecycle (map (\<lambda>x. if ?m x then ?row else x) rows) =
      map (\<lambda>x. if ?m x then ?row else x) (live_rows it_Lifecycle rows)" for rows
    using live by (induction rows) (auto simp: live_rows_def)
  then have "live_iterations t = map (\<lambda>x. if it_ID x = it_ID i then ?row else x) (live_iterations s)"
    using number by (auto simp: live_iterations_def t)
  with i' t c same show ?thesis by simp
qed

lemma Iteration_Save_Ok:
  assumes save: "Iteration_Save I i s = (Ok i', t)" and c: "td_carried s = []"
    and ids: "distinct (map (fst \<circ> fst) (skeleton s))" and known: "identity_of i \<in> fst ` set (skeleton s)"
    and live: "alive (it_Lifecycle i)"
  shows "i' = i\<lparr>it_Lifecycle := touched (ie_db I) (it_Lifecycle i)\<rparr> \<and> td_carried t = [] \<and>
    skeleton t = map (set_path (it_ID i) (it_Path i)) (skeleton s)"
  using Iteration_Save_rows [OF assms]
  by (auto simp: skeleton_def set_path_def number_column_def identity_of_def)

text \<open>Saving the subtree puts every one of its iterations directly below the moved one.\<close>

lemma save_subtree_Ok:
  assumes "save_subtree I itr xs s = (Ok u, t)" "td_carried s = []" "distinct (map (fst \<circ> fst) (skeleton s))"
    and "\<And>x. x \<in> set xs \<Longrightarrow> identity_of x \<in> fst ` set (skeleton s) \<and> alive (it_Lifecycle x) \<and> it_ID x \<noteq> uuid_Nil"
  shows "td_carried t = [] \<and>
    skeleton t = map (\<lambda>(k, p). (k, if fst k \<in> it_ID ` set xs then it_Path itr @ [fst k] else p)) (skeleton s)"
  using assms
proof (induction xs arbitrary: s)
  case Nil
  then show ?case by (auto simp: act_return_def intro!: map_idI [symmetric])
next
  case (Cons x xs)
  let ?x = "Iteration_MakeChildOf (ie_db I) x itr"
  from Cons.prems(4) have x: "it_ID ?x = it_ID x" "it_Path ?x = it_Path itr @ [it_ID x]"
    "identity_of ?x = identity_of x" "it_Lifecycle ?x = it_Lifecycle x"
    by (auto simp: Iteration_MakeChildOf_def identity_of_def)
  have handle: "s\<lparr>td_carried := []\<rparr> = s" using Cons.prems(2) by simp
  from Cons.prems(1,2) obtain i' s1 where save: "Iteration_Save I ?x s = (Ok i', s1)"
    and rest: "save_subtree I itr xs (s1\<lparr>td_carried := []\<rparr>) = (Ok u, t)"
    by (auto simp: act_bind_Ok_iff fresh_handle_Ok_iff handle)
  have s1: "td_carried s1 = []" "skeleton s1 = map (set_path (it_ID x) (it_Path itr @ [it_ID x])) (skeleton s)"
    using Iteration_Save_Ok [OF save Cons.prems(2,3)] Cons.prems(4) x by auto
  have keys: "map fst (skeleton s1) = map fst (skeleton s)" by (simp add: s1(2) del: map_map)
  have "s1\<lparr>td_carried := []\<rparr> = s1" using s1(1) by (cases s1) simp
  with rest have rest': "save_subtree I itr xs s1 = (Ok u, t)" by simp
  have "td_carried t = [] \<and>
    skeleton t = map (\<lambda>(k, p). (k, if fst k \<in> it_ID ` set xs then it_Path itr @ [fst k] else p)) (skeleton s1)"
  proof (rule Cons.IH [OF rest' s1(1)])
    show "distinct (map (fst \<circ> fst) (skeleton s1))" using Cons.prems(3) keys by (metis map_map)
    show "identity_of y \<in> fst ` set (skeleton s1) \<and> alive (it_Lifecycle y) \<and> it_ID y \<noteq> uuid_Nil"
      if "y \<in> set xs" for y using Cons.prems(4) [of y] that keys by (metis list.set_intros(2) list.set_map)
  qed
  then show ?case by (auto simp: s1(2) set_path_def)
qed

subsection \<open>Moving a subtree\<close>

text \<open>
  A forest: identifiers are distinct, a path ends with the identifier of its iteration, and what comes before is the
  path of another iteration of the same space.
\<close>

definition forest :: "(identity \<times> path) list \<Rightarrow> bool" where
  "forest sk \<longleftrightarrow> distinct (map (fst \<circ> fst) sk) \<and>
     (\<forall>(k, q) \<in> set sk. fst k \<noteq> uuid_Nil \<and> q \<noteq> [] \<and> last q = fst k \<and>
        (butlast q \<noteq> [] \<longrightarrow> (\<exists>(k', q') \<in> set sk. q' = butlast q \<and> snd (snd k') = snd (snd k))))"

lemma forestD:
  assumes "forest sk" "(k, q) \<in> set sk"
  shows "fst k \<noteq> uuid_Nil" "q \<noteq> []" "last q = fst k"
    and "butlast q \<noteq> [] \<Longrightarrow> \<exists>k'. (k', butlast q) \<in> set sk \<and> snd (snd k') = snd (snd k)"
  using assms unfolding forest_def by blast+

lemma forest_unique:
  assumes "forest sk" "(k, q) \<in> set sk" "(k', q') \<in> set sk" "fst k = fst k'"
  shows "k = k' \<and> q = q'"
proof -
  have "inj_on (fst \<circ> fst) (set sk)" using assms(1) by (simp add: forest_def distinct_map)
  from inj_onD [OF this _ assms(2,3)] assms(4) show ?thesis by simp
qed

text \<open>Everything below an iteration is in its space.\<close>

lemma forest_space:
  assumes "forest sk" "(k, q) \<in> set sk" "(k', q @ rest) \<in> set sk"
  shows "snd (snd k') = snd (snd k)"
  using assms(3)
proof (induction rest arbitrary: k' rule: rev_induct)
  case Nil
  then have "fst k = fst k'" using forestD(3) [OF assms(1)] assms(2) by (metis append_Nil2)
  with forest_unique [OF assms(1,2) Nil] show ?case by simp
next
  case (snoc x xs)
  have "butlast (q @ xs @ [x]) = q @ xs" by (simp add: butlast_append)
  moreover have "q @ xs \<noteq> []" using forestD(2) [OF assms(1,2)] by simp
  ultimately obtain k'' where "(k'', q @ xs) \<in> set sk" "snd (snd k'') = snd (snd k')"
    using forestD(4) [OF assms(1) snoc.prems] by auto
  with snoc.IH show ?case by simp
qed

definition moved_path :: "path \<Rightarrow> path \<Rightarrow> uuid \<Rightarrow> uuid \<Rightarrow> path \<Rightarrow> path" where
  "moved_path old target i j q =
     (if j = i then target @ [i] else if strict_prefix old q then target @ [i, j] else q)"

lemma forestI:
  assumes "distinct (map (fst \<circ> fst) sk)"
    and "\<And>k q. (k, q) \<in> set sk \<Longrightarrow> fst k \<noteq> uuid_Nil \<and> q \<noteq> [] \<and> last q = fst k"
    and "\<And>k q. (k, q) \<in> set sk \<Longrightarrow> butlast q \<noteq> [] \<Longrightarrow> \<exists>k'. (k', butlast q) \<in> set sk \<and> snd (snd k') = snd (snd k)"
  shows "forest sk"
  using assms unfolding forest_def by blast

lemma forest_moved:
  assumes f: "forest sk" and i: "(ki, old) \<in> set sk" and p: "(kp, target) \<in> set sk"
    and space: "snd (snd kp) = snd (snd ki)" and out: "fst kp \<noteq> fst ki" "\<not> strict_prefix old target"
    and sk': "sk' = map (\<lambda>(k, q). (k, moved_path old target (fst ki) (fst k) q)) sk"
  shows "forest sk'"
proof -
  have mem: "(k, r) \<in> set sk' \<longleftrightarrow> (\<exists>q. (k, q) \<in> set sk \<and> r = moved_path old target (fst ki) (fst k) q)" for k r
    by (auto simp: sk')
  have target: "(kp, target) \<in> set sk'" unfolding mem using p out by (intro exI [of _ target]) (simp add: moved_path_def)
  have item: "(ki, target @ [fst ki]) \<in> set sk'" unfolding mem using i by (intro exI [of _ old]) (simp add: moved_path_def)
  have ne: "target \<noteq> []" by (rule forestD(2) [OF f p])
  show ?thesis
  proof (rule forestI)
    show "distinct (map (fst \<circ> fst) sk')"
      using f by (simp add: sk' forest_def comp_def split_beta)
  next
    fix k r
    assume "(k, r) \<in> set sk'"
    then obtain q where q: "(k, q) \<in> set sk" "r = moved_path old target (fst ki) (fst k) q" unfolding mem by blast
    show "fst k \<noteq> uuid_Nil \<and> r \<noteq> [] \<and> last r = fst k"
      using forestD(1-3) [OF f q(1)] by (simp add: q(2) moved_path_def)
  next
    fix k r
    assume "(k, r) \<in> set sk'" and nonroot: "butlast r \<noteq> []"
    then obtain q where q: "(k, q) \<in> set sk" "r = moved_path old target (fst ki) (fst k) q" unfolding mem by blast
    consider "fst k = fst ki" | "fst k \<noteq> fst ki" "strict_prefix old q" | "fst k \<noteq> fst ki" "\<not> strict_prefix old q"
      by blast
    then show "\<exists>k'. (k', butlast r) \<in> set sk' \<and> snd (snd k') = snd (snd k)"
    proof cases
      case 1
      with forest_unique [OF f q(1) i] have "k = ki" by blast
      with q(2) target space show ?thesis by (intro exI [of _ kp]) (simp add: moved_path_def)
    next
      case 2
      then obtain rest where "q = old @ rest" by (auto simp: strict_prefix_def prefix_def)
      with forest_space [OF f i] q(1) have "snd (snd k) = snd (snd ki)" by blast
      moreover have "butlast r = target @ [fst ki]" using 2 q(2) by (simp add: moved_path_def butlast_append)
      ultimately show ?thesis using item by (intro exI [of _ ki]) simp
    next
      case 3
      then have r: "r = q" using q(2) by (simp add: moved_path_def)
      from forestD(4) [OF f q(1)] nonroot r obtain k' where
        k': "(k', butlast q) \<in> set sk" "snd (snd k') = snd (snd k)" by blast
      have "q = butlast q @ [last q]" using forestD(2) [OF f q(1)] by simp
      then have "strict_prefix (butlast q) q" by (metis strict_prefixI')
      then have nb: "\<not> strict_prefix old (butlast q)" "butlast q \<noteq> old" using 3(2) by (auto dest: prefix_order.less_trans)
      then have "fst k' \<noteq> fst ki" using forest_unique [OF f k'(1) i] by blast
      with k' nb(1) r show ?thesis unfolding mem by (intro exI [of _ k']) (auto simp: moved_path_def)
    qed
  qed
qed

lemma readonly_first_iteration [action_intro]: "readonly (first_iteration E nf P)"
  unfolding first_iteration_def by (intro action_intro)

lemma readonly_CanStart [action_intro]: "readonly (CanStart I i)"
  unfolding CanStart_def Iteration_Root_def by (intro action_intro)

lemma update_state_Ok:
  assumes "update_state I p itr s = (Ok i, t)"
  shows "t = s \<and> identity_of i = identity_of itr \<and> it_Path i = it_Path itr \<and> it_Lifecycle i = it_Lifecycle itr"
proof -
  have "readonly (update_state I p itr)"
    unfolding update_state_def by (cases "ip_State p") (auto intro!: action_intro)
  from readonlyD [OF this assms] assms show ?thesis
    by (auto simp: update_state_def act_bind_Ok_iff identity_of_def split: option.splits)
qed

lemma update_attributes_identity [simp]:
  "identity_of (update_attributes p itr) = identity_of itr" "it_Path (update_attributes p itr) = it_Path itr"
  "it_Lifecycle (update_attributes p itr) = it_Lifecycle itr"
  by (simp_all add: update_attributes_def identity_of_def)

lemma move_target_Ok:
  assumes U: "uuid_lib_ok (ie_uuid I)" and c: "td_carried s = []" and ids: "distinct (map it_ID (live_iterations s))"
    and x: "x \<in> set (live_iterations s)" "identity_of itr = identity_of x" "it_Path itr = it_Path x"
    and move: "move_target I itr (Some str) s = (Ok (itr', sub), t)"
  obtains np where "t = s" "np \<in> set (live_iterations s)" "uFromString (ie_uuid I) str = Some (it_ID np)"
    "it_ID np \<noteq> it_ID x" "it_SpaceID np = it_SpaceID x" "\<not> strict_prefix (it_Path x) (it_Path np)"
    "itr' = Iteration_MakeChildOf (ie_db I) itr np"
    "set sub = {y \<in> set (live_iterations s). strict_prefix (it_Path x) (it_Path y)}"
proof -
  have same: "it_ID itr = it_ID x" "it_SpaceID itr = it_SpaceID x" using x(2) by (simp_all add: identity_of_def)
  from move obtain pid where pid: "uFromString (ie_uuid I) str = Some pid"
    by (auto simp: move_target_def split: if_splits option.splits)
  with move c obtain np s1 s2 where
    np: "Iteration_Load I pid s = (Ok np, s1)" and sub: "LoadChildren I (it_ID x) (s1\<lparr>td_carried := []\<rparr>) = (Ok sub, s2)"
    and t: "t = s2\<lparr>td_carried := []\<rparr>"
    and rest: "pid \<noteq> it_ID x" "it_SpaceID np = it_SpaceID x" "\<not> list_ex (\<lambda>c. it_ID np = it_ID c) sub"
      "itr' = Iteration_MakeChildOf (ie_db I) itr np"
    by (auto simp: move_target_def same act_bind_Ok_iff fresh_handle_Ok_iff fresh_handle_idle split: if_splits)
  from first_iteration_Ok [OF np [unfolded Iteration_Load_def] c]
  have np': "s1 = s" "np \<in> set (live_iterations s)" "it_ID np = pid" by auto
  with LoadChildren_Ok [OF U ids c x(1)] sub c have sub': "s2 = s"
    "set sub = {y \<in> set (live_iterations s). strict_prefix (it_Path x) (it_Path y)}"
    by (auto simp: fresh_handle_idle)
  from rest(3) np'(2) sub'(2) have "\<not> strict_prefix (it_Path x) (it_Path np)" by (auto simp: list_ex_iff)
  with that np' sub' rest pid t c show thesis by (simp add: fresh_handle_idle)
qed

lemma live_in_skeleton: "x \<in> set (live_iterations s) \<Longrightarrow> (identity_of x, it_Path x) \<in> set (skeleton s)"
  by (auto simp: skeleton_def)

lemma fst_identity [simp]: "fst (identity_of x) = it_ID x" "snd (snd (identity_of x)) = it_SpaceID x"
  by (simp_all add: identity_of_def)

lemma skeleton_ids: "map (fst \<circ> fst) (skeleton s) = map it_ID (live_iterations s)"
  by (simp add: skeleton_def comp_def)

lemma live_iterations_alive: "x \<in> set (live_iterations s) \<Longrightarrow> alive (it_Lifecycle x)"
  by (simp add: live_iterations_def)

lemma update_iteration_skeleton:
  assumes U: "uuid_lib_ok (ie_uuid I)" and c: "td_carried s = []" and f: "forest (skeleton s)"
    and x: "x \<in> set (live_iterations s)" and p: "ip_Parent p = Some (Some str)"
    and update: "update_iteration I p x s = (Ok res, t)"
  obtains np where "np \<in> set (live_iterations s)" "uFromString (ie_uuid I) str = Some (it_ID np)"
    "it_ID np \<noteq> it_ID x" "it_SpaceID np = it_SpaceID x" "\<not> strict_prefix (it_Path x) (it_Path np)"
    "skeleton t = map (\<lambda>(k, q). (k, moved_path (it_Path x) (it_Path np) (it_ID x) (fst k) q)) (skeleton s)"
proof -
  have ids: "distinct (map it_ID (live_iterations s))"
    using f by (simp add: forest_def skeleton_ids)
  have inj: "y = z" if "y \<in> set (live_iterations s)" "z \<in> set (live_iterations s)" "it_ID y = it_ID z" for y z
    using ids that by (simp add: distinct_map inj_on_def)
  from update p obtain itr1 s1 itr2 itr3 sub s2 itr4 s3 u where
    st: "update_state I p (update_attributes p x) s = (Ok itr1, s1)" and
    itr2: "itr2 = (case ip_UserActive p of None \<Rightarrow> itr1 | Some b \<Rightarrow> itr1\<lparr>it_UserActive := b\<rparr>)" and
    target: "move_target I itr2 (Some str) s1 = (Ok (itr3, sub), s2)" and
    save: "Iteration_Save I itr3 (s2\<lparr>td_carried := []\<rparr>) = (Ok itr4, u)" and
    s3: "s3 = u\<lparr>td_carried := td_carried s2\<rparr>" and
    subtree: "save_subtree I itr4 sub s3 = (Ok (), t)"
    by (auto simp: update_iteration_def Let_def act_bind_Ok_iff fresh_handle_Ok_iff)
  have "identity_of itr2 = identity_of itr1 \<and> it_Path itr2 = it_Path itr1 \<and> it_Lifecycle itr2 = it_Lifecycle itr1"
    unfolding itr2 by (cases "ip_UserActive p") (simp_all add: identity_of_def)
  with update_state_Ok [OF st] have s1: "s1 = s" "identity_of itr2 = identity_of x" "it_Path itr2 = it_Path x"
    "it_Lifecycle itr2 = it_Lifecycle x" by simp_all
  obtain np where np: "s2 = s" "np \<in> set (live_iterations s)" "uFromString (ie_uuid I) str = Some (it_ID np)"
    "it_ID np \<noteq> it_ID x" "it_SpaceID np = it_SpaceID x" "\<not> strict_prefix (it_Path x) (it_Path np)"
    "itr3 = Iteration_MakeChildOf (ie_db I) itr2 np"
    "set sub = {y \<in> set (live_iterations s). strict_prefix (it_Path x) (it_Path y)}"
    using move_target_Ok [OF U c ids x s1(2,3) target [unfolded s1(1)]] by blast
  have nil: "it_ID y \<noteq> uuid_Nil" if "y \<in> set (live_iterations s)" for y
    using forestD(1) [OF f live_in_skeleton [OF that]] by simp
  have id2: "it_ID itr2 = it_ID x" using s1(2) by (metis fst_identity(1))
  with nil [OF x] np(7) s1 have itr3: "identity_of itr3 = identity_of x" "it_Path itr3 = it_Path np @ [it_ID x]"
    "it_Lifecycle itr3 = it_Lifecycle x" "it_ID itr3 = it_ID x"
    by (auto simp: Iteration_MakeChildOf_def identity_of_def)
  have dist: "distinct (map (fst \<circ> fst) (skeleton s))" using f by (simp add: forest_def)
  have "identity_of x \<in> fst ` set (skeleton s)" using live_in_skeleton [OF x] by force
  with Iteration_Save_Ok [OF save [unfolded np(1) fresh_handle_idle [OF c]] c dist] itr3 live_iterations_alive [OF x]
  have saved: "itr4 = itr3\<lparr>it_Lifecycle := touched (ie_db I) (it_Lifecycle itr3)\<rparr>" "td_carried u = []"
    "skeleton u = map (set_path (it_ID x) (it_Path np @ [it_ID x])) (skeleton s)"
    by auto
  have keys: "map fst (skeleton u) = map fst (skeleton s)" by (simp add: saved(3) del: map_map)
  have s3': "s3 = u" using s3 saved(2) np(1) c by (simp add: fresh_handle_idle)
  have "skeleton t = map (\<lambda>(k, q). (k, if fst k \<in> it_ID ` set sub then it_Path itr4 @ [fst k] else q)) (skeleton u)"
  proof (rule save_subtree_Ok [THEN conjunct2, OF subtree [unfolded s3'] saved(2)])
    show "distinct (map (fst \<circ> fst) (skeleton u))" using dist keys by (metis map_map)
    show "identity_of y \<in> fst ` set (skeleton u) \<and> alive (it_Lifecycle y) \<and> it_ID y \<noteq> uuid_Nil" if "y \<in> set sub" for y
    proof -
      from that np(8) have y: "y \<in> set (live_iterations s)" by simp
      with live_in_skeleton [OF y] keys have "identity_of y \<in> fst ` set (skeleton u)" by (metis image_eqI fst_conv list.set_map)
      with y nil live_iterations_alive show ?thesis by blast
    qed
  qed
  also have "\<dots> = map (\<lambda>(k, q). (k, moved_path (it_Path x) (it_Path np) (it_ID x) (fst k) q)) (skeleton s)"
    unfolding saved(3) map_map
  proof (rule map_cong [OF refl])
    fix kq
    assume kq: "kq \<in> set (skeleton s)"
    obtain k q where k: "kq = (k, q)" by fastforce
    from kq k obtain z where z: "z \<in> set (live_iterations s)" "it_ID z = fst k" "it_Path z = q"
      by (auto simp: skeleton_def)
    have sub: "fst k \<in> it_ID ` set sub \<longleftrightarrow> strict_prefix (it_Path x) q"
    proof
      assume "fst k \<in> it_ID ` set sub"
      then obtain y where y: "y \<in> set sub" "it_ID y = fst k" by auto
      with np(8) have "y = z" using inj z(1,2) by auto
      with y np(8) z(3) show "strict_prefix (it_Path x) q" by auto
    next
      assume "strict_prefix (it_Path x) q"
      then have "z \<in> set sub" using np(8) z by simp
      with z(2) show "fst k \<in> it_ID ` set sub" by (metis imageI)
    qed
    have "\<not> strict_prefix (it_Path x) q" if "fst k = it_ID x"
      using inj [OF z(1) x] that z by simp
    with sub show "((\<lambda>(k, q). (k, if fst k \<in> it_ID ` set sub then it_Path itr4 @ [fst k] else q)) \<circ>
        set_path (it_ID x) (it_Path np @ [it_ID x])) kq =
        (case kq of (k, q) \<Rightarrow> (k, moved_path (it_Path x) (it_Path np) (it_ID x) (fst k) q))"
      by (simp add: k set_path_def moved_path_def saved(1) itr3(2))
  qed
  finally show thesis using that np by blast
qed

section \<open>A sample\<close>

text \<open>A root with two children, one of which has a child: the paths 1, 1.2, 1.2.3 and 1.4.\<close>

definition sample_iteration :: "uuid \<Rightarrow> string \<Rightarrow> path \<Rightarrow> iteration" where
  "sample_iteration i name p = \<lparr>it_Lifecycle = \<lparr>lc_CreatedAt = (1, ''UTC''), lc_UpdatedAt = (1, ''UTC''), lc_DeletedAt = None\<rparr>,
     it_Number = \<lparr>hn_Number = 7, hn_spaceID = 0, hn_tableName = []\<rparr>, it_ID = i, it_SpaceID = 9, it_Path = p,
     it_StartAt = None, it_EndAt = None, it_Name = name, it_Description = None, it_State = StateNew, it_UserActive = False,
     it_RelationShipsChangedAt = None\<rparr>"

definition iteration_sample_env :: iteration_env where
  "iteration_sample_env = \<lparr>ie_uuid = canonical_uuid,
     ie_db = \<lparr>env_now = (9, ''UTC''), env_newID = (\<lambda>_. 77), env_fault = (\<lambda>_. None)\<rparr>, ie_unmatched = (\<lambda>x. x)\<rparr>"

definition sample_tree :: iteration_db where
  "sample_tree = \<lparr>td_rows = [sample_iteration 1 ''root'' [1], sample_iteration 2 ''a'' [1, 2],
     sample_iteration 3 ''b'' [1, 2, 3], sample_iteration 4 ''c'' [1, 4]], td_sequences = Map.empty, td_carried = []\<rparr>"

definition sample_payload :: "string option \<Rightarrow> string option option \<Rightarrow> iteration_payload" where
  "sample_payload st parent = \<lparr>ip_Name = None, ip_StartAt = None, ip_EndAt = None, ip_Description = None, ip_State = st,
     ip_UserActive = None, ip_Parent = parent\<rparr>"

lemma sample_tree_live: "live_iterations sample_tree = td_rows sample_tree"
  by (simp add: live_iterations_def live_rows_def sample_tree_def sample_iteration_def alive_def)

lemma sample_tree_rows:
  "live_iterations sample_tree = [sample_iteration 1 ''root'' [1], sample_iteration 2 ''a'' [1, 2],
     sample_iteration 3 ''b'' [1, 2, 3], sample_iteration 4 ''c'' [1, 4]]"
  using sample_tree_live by (simp add: sample_tree_def)

lemma sample_tree_forest: "forest (skeleton sample_tree)" "td_carried sample_tree = []"
  "sample_iteration 2 ''a'' [1, 2] \<in> set (live_iterations sample_tree)"
  by (simp_all add: forest_def skeleton_def sample_tree_live, simp_all add: sample_tree_def sample_iteration_def identity_of_def)

lemma sample_tree_load:
  assumes "i \<in> {1, 2, 3, 4}"
  shows "is_ok (fst (Iteration_Load iteration_sample_env i sample_tree))"
  using assms
  by (auto simp: Iteration_Load_def first_iteration_def sample_tree_live act_defs statement_def iteration_sample_env_def)
     (simp_all add: sample_tree_def sample_iteration_def)

lemmas iteration_eval =
  update_iteration_def update_state_def update_attributes_def move_target_def Iteration_Load_def LoadChildren_def first_iteration_def
  find_iterations_def fresh_handle_def Iteration_Save_def gorm_update_def on_rows_def on_table_def statement_def act_defs
  CanStart_def Iteration_Root_def Iteration_MakeChildOf_def IsRoot_def set_time_def sample_payload_def iteration_sample_env_def sample_tree_def
  sample_iteration_def live_iterations_def live_rows_def alive_def touched_def iteration_violation_def index_taken_def
  iteration_entry_def BeforeUpdate_def number_column_def nlevel_def State_CheckValid_def state_defs first_violation.simps Let_def

lemma sample_move:
  "is_ok (fst (update_iteration iteration_sample_env (sample_payload None (Some (Some (uString canonical_uuid 4))))
     (sample_iteration 2 ''a'' [1, 2]) sample_tree))"
  by (simp add: iteration_eval uuid_ok_roundtrip [OF canonical_uuid_ok] lquery_match_iff [OF canonical_uuid_ok])

section \<open>Properties\<close>

text \<open>
  C29. Moving an iteration below another one: the new parent is another iteration of the same space that is not
  below the moved one; the moved iteration gets the path of the new parent extended by itself, iterations that are not below it
  keep their paths, and every iteration that was below it, at whatever depth, becomes a direct child of the moved one. The
  hierarchy inside the moved subtree is lost.
\<close>
theorem moved_subtree_flattened:
  assumes "uuid_lib_ok (ie_uuid I)" "td_carried s = []" "forest (skeleton s)" "x \<in> set (live_iterations s)"
    and "ip_Parent p = Some (Some str)" "update_iteration I p x s = (Ok res, t)"
  shows "\<exists>np \<in> set (live_iterations s). uFromString (ie_uuid I) str = Some (it_ID np) \<and> it_ID np \<noteq> it_ID x \<and>
    it_SpaceID np = it_SpaceID x \<and> \<not> strict_prefix (it_Path x) (it_Path np) \<and>
    map (\<lambda>y. (it_ID y, it_Path y)) (live_iterations t) =
    map (\<lambda>y. (it_ID y, if it_ID y = it_ID x then it_Path np @ [it_ID x]
                     else if strict_prefix (it_Path x) (it_Path y) then it_Path np @ [it_ID x, it_ID y]
                     else it_Path y)) (live_iterations s)"
proof -
  from update_iteration_skeleton [OF assms] obtain np where np: "np \<in> set (live_iterations s)"
    "uFromString (ie_uuid I) str = Some (it_ID np)" "it_ID np \<noteq> it_ID x" "it_SpaceID np = it_SpaceID x"
    "\<not> strict_prefix (it_Path x) (it_Path np)"
    and sk: "skeleton t = map (\<lambda>(k, q). (k, moved_path (it_Path x) (it_Path np) (it_ID x) (fst k) q)) (skeleton s)"
    by blast
  from arg_cong [OF sk, of "map (\<lambda>(k, q). (fst k, q))"] np show ?thesis
    by (intro bexI [of _ np]) (auto simp: skeleton_def moved_path_def comp_def)
qed

theorem moved_subtree_flattened_witness:
  "\<exists>res t. update_iteration iteration_sample_env (sample_payload None (Some (Some (uString canonical_uuid 4))))
      (sample_iteration 2 ''a'' [1, 2]) sample_tree = (Ok res, t) \<and>
    map (\<lambda>y. (it_ID y, it_Path y)) (live_iterations t) = [(1, [1]), (2, [1, 4, 2]), (3, [1, 4, 2, 3]), (4, [1, 4])]"
proof -
  let ?p = "sample_payload None (Some (Some (uString canonical_uuid 4)))" and ?x = "sample_iteration 2 ''a'' [1, 2]"
  obtain res t where t: "update_iteration iteration_sample_env ?p ?x sample_tree = (Ok res, t)"
    using sample_move by (metis is_ok_iff prod.collapse)
  have p: "ip_Parent ?p = Some (Some (uString canonical_uuid 4))" by (simp add: sample_payload_def)
  have U: "ie_uuid iteration_sample_env = canonical_uuid" by (simp add: iteration_sample_env_def)
  from moved_subtree_flattened [OF _ sample_tree_forest(2,1,3) p t] obtain np where
    np: "np \<in> set (live_iterations sample_tree)" "uFromString canonical_uuid (uString canonical_uuid 4) = Some (it_ID np)"
      "map (\<lambda>y. (it_ID y, it_Path y)) (live_iterations t) =
       map (\<lambda>y. (it_ID y, if it_ID y = it_ID ?x then it_Path np @ [it_ID ?x]
                        else if strict_prefix (it_Path ?x) (it_Path y) then it_Path np @ [it_ID ?x, it_ID y]
                        else it_Path y)) (live_iterations sample_tree)"
    unfolding U using canonical_uuid_ok by blast
  have id: "it_ID np = 4" using np(2) by (simp add: uuid_ok_roundtrip [OF canonical_uuid_ok])
  have "it_Path np = [1, 4]"
    using np(1) id unfolding sample_tree_rows by (auto simp: sample_iteration_def)
  with np(3) have "map (\<lambda>y. (it_ID y, it_Path y)) (live_iterations t) = [(1, [1]), (2, [1, 4, 2]), (3, [1, 4, 2, 3]), (4, [1, 4])]"
    unfolding sample_tree_rows by (simp add: sample_iteration_def)
  with t show ?thesis by (intro exI conjI)
qed

text \<open>
  C17. The update handler keeps the forest: after any successful move, every path that is not a root still ends with the
  iteration itself and continues the path of another iteration of the same space, and no identifier occurs
  twice.
\<close>
theorem update_keeps_forest:
  assumes "uuid_lib_ok (ie_uuid I)" "td_carried s = []" "forest (skeleton s)" "x \<in> set (live_iterations s)"
    and "ip_Parent p = Some (Some str)" "update_iteration I p x s = (Ok res, t)"
  shows "forest (skeleton t)"
proof -
  from update_iteration_skeleton [OF assms] obtain np where np: "np \<in> set (live_iterations s)"
    "it_ID np \<noteq> it_ID x" "it_SpaceID np = it_SpaceID x" "\<not> strict_prefix (it_Path x) (it_Path np)"
    and sk: "skeleton t = map (\<lambda>(k, q). (k, moved_path (it_Path x) (it_Path np) (it_ID x) (fst k) q)) (skeleton s)"
    by blast
  show ?thesis
    by (rule forest_moved [OF assms(3) live_in_skeleton [OF assms(4)] live_in_skeleton [OF np(1)]])
      (use np sk in auto)
qed

theorem update_keeps_forest_witness:
  "\<exists>res t. update_iteration iteration_sample_env (sample_payload None (Some (Some (uString canonical_uuid 4))))
      (sample_iteration 2 ''a'' [1, 2]) sample_tree = (Ok res, t) \<and> forest (skeleton t)"
proof -
  obtain res t where t: "update_iteration iteration_sample_env (sample_payload None (Some (Some (uString canonical_uuid 4))))
      (sample_iteration 2 ''a'' [1, 2]) sample_tree = (Ok res, t)"
    using sample_move by (metis is_ok_iff prod.collapse)
  have "uuid_lib_ok (ie_uuid iteration_sample_env)" by (simp add: iteration_sample_env_def canonical_uuid_ok)
  from update_keeps_forest [OF this sample_tree_forest(2,1,3) _ t] t show ?thesis by (simp add: sample_payload_def)
qed

text \<open>At most one iteration of a space is running.\<close>

definition one_running :: "iteration list \<Rightarrow> bool" where
  "one_running xs \<longleftrightarrow> (\<forall>x \<in> set xs. \<forall>y \<in> set xs.
     it_State x = StateStart \<and> it_State y = StateStart \<and> it_SpaceID x = it_SpaceID y \<longrightarrow> it_ID x = it_ID y)"

lemma one_running_replaced:
  assumes one: "one_running xs" and row: "it_ID row = i"
    and space: "\<And>x. x \<in> set xs \<Longrightarrow> it_ID x = i \<Longrightarrow> it_SpaceID x = it_SpaceID row"
    and free: "it_State row = StateStart \<Longrightarrow> (\<exists>x \<in> set xs. it_ID x = i \<and> it_State x = StateStart) \<or>
      (\<forall>x \<in> set xs. it_State x = StateStart \<longrightarrow> it_SpaceID x \<noteq> it_SpaceID row)"
  shows "one_running (map (\<lambda>x. if it_ID x = i then row else x) xs)"
proof -
  have one': "it_ID x = it_ID y" if "x \<in> set xs" "y \<in> set xs" "it_State x = StateStart" "it_State y = StateStart"
    "it_SpaceID x = it_SpaceID y" for x y
    using one that unfolding one_running_def by blast
  have other: "it_ID y = i" if y: "it_State row = StateStart" "y \<in> set xs" "it_State y = StateStart"
    "it_SpaceID y = it_SpaceID row" for y
    using free [OF y(1)]
  proof
    assume "\<exists>x \<in> set xs. it_ID x = i \<and> it_State x = StateStart"
    then obtain x where x: "x \<in> set xs" "it_ID x = i" "it_State x = StateStart" by blast
    then have "it_SpaceID x = it_SpaceID y" using space y(4) by simp
    then show ?thesis using one' [OF x(1) y(2) x(3) y(3)] x(2) by simp
  qed (use y in blast)
  show ?thesis unfolding one_running_def
  proof (intro ballI impI, elim conjE)
    fix x y
    assume xy: "x \<in> set (map (\<lambda>x. if it_ID x = i then row else x) xs)"
      "y \<in> set (map (\<lambda>x. if it_ID x = i then row else x) xs)"
      and st: "it_State x = StateStart" "it_State y = StateStart" and sp: "it_SpaceID x = it_SpaceID y"
    from xy have "x = row \<or> x \<in> set xs" "y = row \<or> y \<in> set xs" by auto
    then consider "x = row" "y = row" | "x = row" "y \<in> set xs" | "x \<in> set xs" "y = row" | "x \<in> set xs" "y \<in> set xs"
      by blast
    then show "it_ID x = it_ID y"
    proof cases
      case 2
      then show ?thesis using other [of y] st sp row by simp
    next
      case 3
      then show ?thesis using other [of x] st sp row by simp
    next
      case 4
      then show ?thesis using one' st sp by blast
    qed simp
  qed
qed

lemma CanStart_Ok:
  assumes "CanStart I i s = (Ok b, t)" "td_carried s = []" "env_fault (ie_db I) ''count started'' = None"
  shows "\<forall>x \<in> set (live_iterations s). it_State x = StateStart \<longrightarrow> it_SpaceID x \<noteq> it_SpaceID i"
proof -
  from readonlyD [OF readonly_CanStart assms(1)] have "t = s" .
  moreover have "readonly (Iteration_Root I (it_SpaceID i))" unfolding Iteration_Root_def by (intro action_intro)
  from readonlyD [OF this] have "w = s" if "Iteration_Root I (it_SpaceID i) s = (r, w)" for r w using that by blast
  ultimately show ?thesis
    using assms by (fastforce simp: CanStart_def act_bind_Ok_iff filter_empty_conv split: if_splits)
qed

text \<open>
  C34. Updating an iteration, without moving it, keeps the rule that at most one iteration of a space is running, provided
  that the count of running iterations can be computed: the code does not look at the error of the
  count, and starts the iteration when there is one.
\<close>
theorem one_running_kept:
  assumes "one_running (live_iterations s)" "td_carried s = []" "forest (skeleton s)" "x \<in> set (live_iterations s)"
    and "ip_Parent p = None" "update_iteration I p x s = (Ok res, t)" "env_fault (ie_db I) ''count started'' = None"
  shows "one_running (live_iterations t)"
proof -
  have dist: "distinct (map (fst \<circ> fst) (skeleton s))" using assms(3) by (simp add: forest_def)
  from assms(5,6) obtain itr1 s1 itr2 u where
    st: "update_state I p (update_attributes p x) s = (Ok itr1, s1)" and
    itr2: "itr2 = (case ip_UserActive p of None \<Rightarrow> itr1 | Some b \<Rightarrow> itr1\<lparr>it_UserActive := b\<rparr>)" and
    save: "Iteration_Save I itr2 (s1\<lparr>td_carried := []\<rparr>) = (Ok res, u)" and t: "t = u\<lparr>td_carried := td_carried s1\<rparr>"
    by (auto simp: update_iteration_def Let_def act_bind_Ok_iff fresh_handle_Ok_iff)
  have "identity_of itr2 = identity_of itr1 \<and> it_Lifecycle itr2 = it_Lifecycle itr1 \<and> it_State itr2 = it_State itr1"
    unfolding itr2 by (cases "ip_UserActive p") (simp_all add: identity_of_def)
  with update_state_Ok [OF st] have s1: "s1 = s" "identity_of itr2 = identity_of x" "it_Lifecycle itr2 = it_Lifecycle x"
    "it_State itr2 = it_State itr1" by simp_all
  have same: "it_ID itr2 = it_ID x" "it_SpaceID itr2 = it_SpaceID x" using s1(2) by (simp_all add: identity_of_def)
  have "identity_of itr2 \<in> fst ` set (skeleton s)" using live_in_skeleton [OF assms(4)] s1(2) by force
  from Iteration_Save_rows [OF save [unfolded s1(1) fresh_handle_idle [OF assms(2)]] assms(2) dist this]
  have rows: "live_iterations t = map (\<lambda>y. if it_ID y = it_ID x then res\<lparr>it_Number := number_column (it_Number itr2)\<rparr> else y)
      (live_iterations s)" "res = itr2\<lparr>it_Lifecycle := touched (ie_db I) (it_Lifecycle itr2)\<rparr>"
    and ident: "y \<in> set (live_iterations s) \<Longrightarrow> it_ID y = it_ID x \<Longrightarrow> identity_of y = identity_of itr2" for y
    using s1(3) live_iterations_alive [OF assms(4)] by (auto simp: same t)
  show ?thesis unfolding rows(1)
  proof (rule one_running_replaced [OF assms(1)])
    show "it_ID (res\<lparr>it_Number := number_column (it_Number itr2)\<rparr>) = it_ID x" by (simp add: rows(2) same)
    show "it_SpaceID y = it_SpaceID (res\<lparr>it_Number := number_column (it_Number itr2)\<rparr>)"
      if "y \<in> set (live_iterations s)" "it_ID y = it_ID x" for y
      using ident [OF that] by (simp add: rows(2) identity_of_def)
    assume "it_State (res\<lparr>it_Number := number_column (it_Number itr2)\<rparr>) = StateStart"
    then have started: "it_State itr1 = StateStart" by (simp add: rows(2) s1(4))
    show "(\<exists>y \<in> set (live_iterations s). it_ID y = it_ID x \<and> it_State y = StateStart) \<or>
      (\<forall>y \<in> set (live_iterations s). it_State y = StateStart \<longrightarrow>
         it_SpaceID y \<noteq> it_SpaceID (res\<lparr>it_Number := number_column (it_Number itr2)\<rparr>))"
    proof (cases "ip_State p")
      case None
      with st started have "it_State x = StateStart" by (simp add: update_state_def update_attributes_def)
      with assms(4) show ?thesis by blast
    next
      case (Some v)
      with st started obtain b w where "CanStart I (update_attributes p x) s = (Ok b, w)"
        by (auto simp: update_state_def act_bind_Ok_iff fresh_handle_Ok_iff fresh_handle_idle [OF assms(2)] split: if_splits)
      from CanStart_Ok [OF this assms(2,7)] show ?thesis
        by (auto simp: rows(2) same update_attributes_def)
    qed
  qed
qed

lemma sample_start:
  "is_ok (fst (update_iteration iteration_sample_env (sample_payload (Some StateStart) None)
     (sample_iteration 2 ''a'' [1, 2]) sample_tree))"
  by (simp add: iteration_eval)

theorem one_running_kept_witness:
  "\<exists>res t. update_iteration iteration_sample_env (sample_payload (Some StateStart) None)
      (sample_iteration 2 ''a'' [1, 2]) sample_tree = (Ok res, t) \<and> one_running (live_iterations t)"
proof -
  obtain res t where t: "update_iteration iteration_sample_env (sample_payload (Some StateStart) None)
      (sample_iteration 2 ''a'' [1, 2]) sample_tree = (Ok res, t)"
    using sample_start by (metis is_ok_iff prod.collapse)
  have "one_running (live_iterations sample_tree)"
    by (simp add: one_running_def sample_tree_live) (simp add: sample_tree_def sample_iteration_def state_defs)
  from one_running_kept [OF this sample_tree_forest(2,1,3) _ t] t show ?thesis
    by (simp add: sample_payload_def iteration_sample_env_def)
qed

text \<open>
  Saving an iteration detects no concurrent change: when two clients have read an iteration, both saves succeed, and
  the second one overwrites what the first one stored.
\<close>
theorem iteration_saves_overwrite:
  assumes "no_faults (ie_db I)" "td_carried s = []" "forest (skeleton s)"
    and "identity_of a \<in> fst ` set (skeleton s)" "identity_of b = identity_of a"
    and "alive (it_Lifecycle a)" "alive (it_Lifecycle b)" "State_CheckValid (it_State b) = None" "it_Path b \<noteq> []"
    and "Iteration_Save I a s = (Ok a', s1)"
    and "\<not> index_taken it_Lifecycle it_ID (iteration_entry (ie_uuid I)) b (td_rows s1)"
  shows "\<exists>b' t. Iteration_Save I b s1 = (Ok b', t) \<and> it_Name b' = it_Name b \<and>
    (\<forall>y \<in> set (live_iterations t). it_ID y = it_ID a \<longrightarrow>
       it_Name y = it_Name b \<and> it_Description y = it_Description b \<and> it_State y = it_State b)"
proof -
  have dist: "distinct (map (fst \<circ> fst) (skeleton s))" using assms(3) by (simp add: forest_def)
  have s1: "td_carried s1 = []" "skeleton s1 = map (set_path (it_ID a) (it_Path a)) (skeleton s)"
    using Iteration_Save_Ok [OF assms(10,2) dist assms(4,6)] by auto
  have keys: "map fst (skeleton s1) = map fst (skeleton s)" by (simp add: s1(2) del: map_map)
  have dist1: "distinct (map (fst \<circ> fst) (skeleton s1))" using dist keys by (metis map_map)
  have known: "identity_of b \<in> fst ` set (skeleton s1)" using assms(4,5) keys by (metis list.set_map)
  let ?row = "b\<lparr>it_Lifecycle := touched (ie_db I) (it_Lifecycle b), it_Number := number_column (it_Number b)\<rparr>"
  have free: "iteration_violation (ie_uuid I) ?row (td_rows s1) = None"
    using assms(8,9,11) by (simp add: iteration_violation_def index_taken_def iteration_entry_def)
  from known obtain y where y: "y \<in> set (live_iterations s1)" "it_ID y = it_ID b"
    by (auto simp: skeleton_def identity_of_def)
  obtain z where "first_row it_ID (filter (\<lambda>x. it_ID x = it_ID b) (live_iterations s1)) = Some z"
    using y by (metis (mono_tags, lifting) filter_empty_conv first_row_None_iff not_Some_eq)
  then have "\<exists>b' t. Iteration_Save I b s1 = (Ok b', t)"
    using assms(1,8) s1(1) free
    by (simp add: Iteration_Save_def Let_def first_iteration_def gorm_update_def on_rows_def on_table_def act_defs split_beta)
  then obtain b' t where t: "Iteration_Save I b s1 = (Ok b', t)" by blast
  have "it_ID b = it_ID a" using assms(5) by (simp add: identity_of_def)
  with Iteration_Save_rows [OF t s1(1) dist1 known assms(7)] t show ?thesis by auto
qed

lemma sample_tree_save:
  "is_ok (fst (Iteration_Save iteration_sample_env ((sample_iteration 2 ''a'' [1, 2])\<lparr>it_Name := ''mine''\<rparr>) sample_tree))"
  by (simp add: iteration_eval)

theorem iteration_saves_overwrite_witness:
  "\<exists>a' s1 b' t. Iteration_Save iteration_sample_env ((sample_iteration 2 ''a'' [1, 2])\<lparr>it_Name := ''mine''\<rparr>) sample_tree = (Ok a', s1) \<and>
     Iteration_Save iteration_sample_env ((sample_iteration 2 ''a'' [1, 2])\<lparr>it_Name := ''yours''\<rparr>) s1 = (Ok b', t) \<and>
     it_Name a' = ''mine'' \<and> it_Name b' = ''yours''"
proof -
  let ?a = "(sample_iteration 2 ''a'' [1, 2])\<lparr>it_Name := ''mine''\<rparr>"
  let ?b = "(sample_iteration 2 ''a'' [1, 2])\<lparr>it_Name := ''yours''\<rparr>"
  obtain a' s1 where a': "Iteration_Save iteration_sample_env ?a sample_tree = (Ok a', s1)"
    using sample_tree_save by (metis is_ok_iff prod.collapse)
  have known: "identity_of ?a \<in> fst ` set (skeleton sample_tree)"
    using imageI [OF live_in_skeleton [OF sample_tree_forest(3)], of fst] by (simp add: identity_of_def)
  have dist: "distinct (map (fst \<circ> fst) (skeleton sample_tree))" using sample_tree_forest(1) by (simp add: forest_def)
  from Iteration_Save_rows [OF a' sample_tree_forest(2) dist known]
  have s1: "it_Name a' = ''mine''" "live_iterations s1 = map (\<lambda>x. if it_ID x = 2
      then a'\<lparr>it_Number := number_column (it_Number ?a)\<rparr> else x) (live_iterations sample_tree)"
    by (simp_all add: sample_iteration_def alive_def)
  have "it_Name x \<noteq> ''yours''" if "x \<in> set (live_iterations s1)" for x
    using that unfolding s1(2) sample_tree_rows by (auto simp: sample_iteration_def s1(1))
  then have free: "\<not> index_taken it_Lifecycle it_ID (iteration_entry (ie_uuid iteration_sample_env)) ?b (td_rows s1)"
    by (auto simp: index_taken_def iteration_entry_def list_ex_iff live_iterations_def)
  have "\<exists>b' t. Iteration_Save iteration_sample_env ?b s1 = (Ok b', t) \<and> it_Name b' = it_Name ?b \<and>
      (\<forall>y \<in> set (live_iterations t). it_ID y = it_ID ?a \<longrightarrow>
         it_Name y = it_Name ?b \<and> it_Description y = it_Description ?b \<and> it_State y = it_State ?b)"
    by (rule iteration_saves_overwrite [OF _ sample_tree_forest(2,1) known _ _ _ _ _ a' free])
      (simp_all add: sample_iteration_def iteration_sample_env_def no_faults_def identity_of_def alive_def
        State_CheckValid_def)
  with a' s1(1) show ?thesis by auto
qed

end
