(* ===== verification/Comments.thy ===== *)
theory Comments
  imports Tables Content
begin

text \<open>
  Comments and their revisions: the records and repositories of \<^verbatim>\<open>comment/comment.go\<close>,
  \<^verbatim>\<open>comment_repository.go\<close>, \<^verbatim>\<open>comment_revision.go\<close> and
  \<^verbatim>\<open>comment_revision_repository.go\<close>. Comments have no versions; every change leaves a revision. The triggers
  that note a change of the relationships on the work item belong to another table and are left out.
\<close>

section \<open>Records\<close>

record comment =
  cm_Lifecycle :: lifecycle
  cm_ID :: uuid
  cm_ParentID :: uuid
  cm_ParentCommentID :: "uuid option"
  cm_Creator :: uuid
  cm_Body :: string
  cm_Markup :: string

definition Comment_TableName :: string where "Comment_TableName = ''comments''"

definition Comment_GetETagData :: "comment \<Rightarrow> goval list" where
  "Comment_GetETagData m = [VUUID (cm_ID m), VString (itoa (time_unix (lc_UpdatedAt (cm_Lifecycle m))))]"

definition Comment_GetLastModified :: "comment \<Rightarrow> gotime" where
  "Comment_GetLastModified m = time_truncate time_second (lc_UpdatedAt (cm_Lifecycle m))"

datatype comment_change = CommentCreated | CommentDeleted | CommentUpdated

fun comment_change_code :: "comment_change \<Rightarrow> nat" where
  "comment_change_code CommentCreated = 1"
| "comment_change_code CommentDeleted = 2"
| "comment_change_code CommentUpdated = 4"

record comment_revision =
  cv_ID :: uuid
  cv_Time :: gotime
  cv_Type :: comment_change
  cv_ModifierIdentity :: uuid
  cv_CommentID :: uuid
  cv_CommentParentID :: uuid
  cv_CommentParentCommentID :: "uuid option"
  cv_CommentBody :: "string option"
  cv_CommentMarkup :: "string option"

record comment_db =
  cd_Comments :: "comment list"
  cd_Revisions :: "comment_revision list"

type_synonym 'a comment_repo = "(comment_db, 'a) action"

definition on_comments :: "(comment list, 'a) action \<Rightarrow> 'a comment_repo" where
  "on_comments = on_table cd_Comments (\<lambda>rows s. s\<lparr>cd_Comments := rows\<rparr>)"

definition on_comment_revisions :: "(comment_revision list, 'a) action \<Rightarrow> 'a comment_repo" where
  "on_comment_revisions = on_table cd_Revisions (\<lambda>rows s. s\<lparr>cd_Revisions := rows\<rparr>)"

definition live_comments :: "comment_db \<Rightarrow> comment list" where
  "live_comments s = live_rows cm_Lifecycle (cd_Comments s)"

section \<open>Revisions\<close>

definition comment_revision_of :: "db_env \<Rightarrow> uuid \<Rightarrow> comment_change \<Rightarrow> comment \<Rightarrow> comment_revision" where
  "comment_revision_of E modifierID revisionType c =
     \<lparr>cv_ID = env_newID E ''comment revision'', cv_Time = env_now E, cv_Type = revisionType,
      cv_ModifierIdentity = modifierID, cv_CommentID = cm_ID c, cv_CommentParentID = cm_ParentID c,
      cv_CommentParentCommentID = cm_ParentCommentID c,
      cv_CommentBody = (if revisionType = CommentDeleted then None else Some (cm_Body c)),
      cv_CommentMarkup = (if revisionType = CommentDeleted then None else Some (cm_Markup c))\<rparr>"

definition CommentRevision_Create :: "db_env \<Rightarrow> uuid \<Rightarrow> comment_change \<Rightarrow> comment \<Rightarrow> unit comment_repo" where
  "CommentRevision_Create E modifierID revisionType c =
     act_map_err (\<lambda>e. NewInternalError (EWrap ''failed to create new comment revision'' e))
       (on_comment_revisions (gorm_insert E ''comment_revisions'' cv_ID (\<lambda>_. None)
          (comment_revision_of E modifierID revisionType c)))"

definition CommentRevision_List :: "db_env \<Rightarrow> uuid \<Rightarrow> comment_revision list comment_repo" where
  "CommentRevision_List E commentID =
     act_bind (statement E ''comment revisions''
       (\<lambda>e. NewInternalError (EWrap ''failed to retrieve comment revisions'' e))) (\<lambda>_.
     act_gets (\<lambda>s. Ok (sort_key (\<lambda>r. fst (cv_Time r)) (filter (\<lambda>r. cv_CommentID r = commentID) (cd_Revisions s)))))"

section \<open>The repository\<close>

definition comment_not_found :: "uuid_lib \<Rightarrow> uuid \<Rightarrow> go_error" where
  "comment_not_found U i = NewNotFoundError ''comment'' (uString U i)"

definition comment_markup :: "comment \<Rightarrow> comment" where
  "comment_markup c = (if cm_Markup c = [] then c\<lparr>cm_Markup := SystemMarkupDefault\<rparr> else c)"

definition Comment_Create :: "db_env \<Rightarrow> comment \<Rightarrow> uuid \<Rightarrow> comment comment_repo" where
  "Comment_Create E c0 creatorID =
     (let c = comment_markup (c0\<lparr>cm_ID := env_newID E ''comment''\<rparr>);
          new = c\<lparr>cm_Lifecycle := stamped E (cm_Lifecycle c)\<rparr>
      in act_bind (act_map_err (EWrap []) (on_comments (gorm_insert E ''comments'' cm_ID (\<lambda>_. None) new))) (\<lambda>_.
         act_bind (act_map_err (EWrap ''error while creating comment'')
           (CommentRevision_Create E creatorID CommentCreated new)) (\<lambda>_. act_return new)))"

definition Comment_Save :: "uuid_lib \<Rightarrow> db_env \<Rightarrow> comment \<Rightarrow> uuid \<Rightarrow> comment comment_repo" where
  "Comment_Save U E c0 modifierID =
     act_bind (on_comments (gorm_first E ''comment'' (by_id cm_Lifecycle cm_ID (cm_ID c0)) (comment_not_found U (cm_ID c0)))) (\<lambda>_.
     let c = comment_markup c0;
         new = c\<lparr>cm_Lifecycle := touched E (cm_Lifecycle c)\<rparr>
     in act_bind (act_map_err NewInternalError (on_comments (gorm_update E ''update comment''
            (\<lambda>x. alive (cm_Lifecycle x) \<and> cm_ID x = cm_ID c) (\<lambda>_. None) new))) (\<lambda>_.
        act_bind (act_map_err (EWrap ''error while saving work item'')
          (CommentRevision_Create E modifierID CommentUpdated new)) (\<lambda>_. act_return new)))"

text \<open>
  The deletion reads the identifiers of the comment and of its parents only. It looks at the number of rows before it looks at
  the error, so that a failure of the statement is reported as a missing comment; the result of the
  deletion itself is dropped.
\<close>

definition comment_skeleton :: "comment \<Rightarrow> comment" where
  "comment_skeleton c = \<lparr>cm_Lifecycle = \<lparr>lc_CreatedAt = zero_time, lc_UpdatedAt = zero_time, lc_DeletedAt = None\<rparr>,
     cm_ID = cm_ID c, cm_ParentID = cm_ParentID c, cm_ParentCommentID = cm_ParentCommentID c, cm_Creator = uuid_Nil,
     cm_Body = [], cm_Markup = []\<rparr>"

definition Comment_Delete :: "uuid_lib \<Rightarrow> db_env \<Rightarrow> uuid \<Rightarrow> uuid \<Rightarrow> unit comment_repo" where
  "Comment_Delete U E commentID suppressorID =
     (if commentID = uuid_Nil then act_fail (comment_not_found U commentID)
      else act_bind (act_gets (\<lambda>s.
             if env_fault E ''comment to delete'' \<noteq> None then Err (comment_not_found U commentID)
             else case filter (\<lambda>x. cm_ID x = commentID) (live_comments s) of
               [c] \<Rightarrow> Ok (comment_skeleton c)
             | _ \<Rightarrow> Err (comment_not_found U commentID))) (\<lambda>c.
           act_bind (ignore_error (act_bind (on_comments (gorm_delete E ''delete comment''
               (\<lambda>x. alive (cm_Lifecycle x) \<and> keyed cm_ID (cm_ID c) x)
               (\<lambda>x. x\<lparr>cm_Lifecycle := removed E (cm_Lifecycle x)\<rparr>))) (\<lambda>_. act_return ()))) (\<lambda>_.
           act_map_err (EWrap ''error while deleting work item'')
             (CommentRevision_Create E suppressorID CommentDeleted c))))"

definition comment_page_error :: "int option \<Rightarrow> int option \<Rightarrow> go_error option" where
  "comment_page_error start limit =
     (if start \<noteq> None \<and> the start < 0 then Some (NewBadParameterError ''start'' (VInt (word_of_int (the start))))
      else if limit \<noteq> None \<and> the limit \<le> 0 then Some (NewBadParameterError ''limit'' (VInt (word_of_int (the limit))))
      else None)"

definition comments_of :: "uuid \<Rightarrow> comment_db \<Rightarrow> comment list" where
  "comments_of parentID s = filter (\<lambda>c. cm_ParentID c = parentID) (live_comments s)"

definition Comment_List :: "db_env \<Rightarrow> uuid \<Rightarrow> int option \<Rightarrow> int option \<Rightarrow> (comment list \<times> nat) comment_repo" where
  "Comment_List E parentID start limit =
     (case comment_page_error start limit of
        Some e \<Rightarrow> act_fail e
      | None \<Rightarrow>
          act_bind (statement E ''list comments'' (\<lambda>e. e)) (\<lambda>_.
          act_bind (act_gets (\<lambda>s. Ok (sort_key (\<lambda>c. - fst (lc_CreatedAt (cm_Lifecycle c))) (comments_of parentID s)))) (\<lambda>rows.
          let result = page_of start limit rows in
          if result \<noteq> [] then act_return (result, length rows)
          else act_bind (statement E ''count comments'' (\<lambda>e. e)) (\<lambda>_.
               act_gets (\<lambda>s. Ok (result, length (comments_of parentID s)))))))"

definition Comment_Count :: "db_env \<Rightarrow> uuid \<Rightarrow> nat comment_repo" where
  "Comment_Count E parentID =
     act_gets (\<lambda>s. Ok (if env_fault E ''count of comments'' = None then length (comments_of parentID s) else 0))"

definition Comment_Load :: "uuid_lib \<Rightarrow> db_env \<Rightarrow> uuid \<Rightarrow> comment comment_repo" where
  "Comment_Load U E i = on_comments (gorm_first E ''comment'' (by_id cm_Lifecycle cm_ID i) (comment_not_found U i))"

definition Comment_CheckExists :: "uuid_lib \<Rightarrow> db_env \<Rightarrow> uuid \<Rightarrow> unit comment_repo" where
  "Comment_CheckExists U E = CheckExists U E Comment_TableName (\<lambda>s. map cm_ID (live_comments s))"

section \<open>The trail of revisions\<close>

text \<open>The last revision of a comment describes its row, for deleted rows by saying so.\<close>

definition latest_revision :: "uuid \<Rightarrow> comment_revision list \<Rightarrow> comment_revision option" where
  "latest_revision i revs = (let rs = filter (\<lambda>r. cv_CommentID r = i) revs in if rs = [] then None else Some (last rs))"

definition recorded :: "comment \<Rightarrow> comment_revision \<Rightarrow> bool" where
  "recorded c r \<longleftrightarrow> cv_CommentID r = cm_ID c \<and> cv_CommentParentID r = cm_ParentID c \<and>
     cv_CommentParentCommentID r = cm_ParentCommentID c \<and>
     (if alive (cm_Lifecycle c)
      then cv_Type r \<noteq> CommentDeleted \<and> cv_CommentBody r = Some (cm_Body c) \<and> cv_CommentMarkup r = Some (cm_Markup c)
      else cv_Type r = CommentDeleted \<and> cv_CommentBody r = None \<and> cv_CommentMarkup r = None)"

definition comments_wf :: "comment_db \<Rightarrow> bool" where
  "comments_wf s \<longleftrightarrow> distinct (map cm_ID (cd_Comments s)) \<and>
     (\<forall>c \<in> set (cd_Comments s). cm_Markup c \<noteq> [] \<and>
        (\<exists>r. latest_revision (cm_ID c) (cd_Revisions s) = Some r \<and> recorded c r))"

lemma latest_revision_append [simp]:
  "latest_revision i (revs @ [r]) = (if cv_CommentID r = i then Some r else latest_revision i revs)"
  by (simp add: latest_revision_def)

lemma comment_markup_facts [simp]:
  "cm_Markup (comment_markup c) \<noteq> []" "cm_ID (comment_markup c) = cm_ID c"
  "cm_Lifecycle (comment_markup c) = cm_Lifecycle c" "cm_ParentID (comment_markup c) = cm_ParentID c"
  "cm_ParentCommentID (comment_markup c) = cm_ParentCommentID c" "cm_Body (comment_markup c) = cm_Body c"
  by (auto simp: comment_markup_def SystemMarkupDefault_def SystemMarkupPlainText_def)

lemma on_comments_Ok_iff: "on_comments m s = (Ok x, t) \<longleftrightarrow> (\<exists>u. m (cd_Comments s) = (Ok x, u) \<and> t = s\<lparr>cd_Comments := u\<rparr>)"
  by (simp add: on_comments_def on_table_Ok_iff)

lemma CommentRevision_Create_Ok:
  "CommentRevision_Create E modifier k c s = (Ok u, t) \<Longrightarrow>
   t = s\<lparr>cd_Revisions := cd_Revisions s @ [comment_revision_of E modifier k c]\<rparr>"
  by (auto simp: CommentRevision_Create_def on_comment_revisions_def on_table_Ok_iff gorm_insert_Ok_iff)

text \<open>A change of the row of one comment together with its revision keeps the trail.\<close>

lemma comments_wf_change:
  assumes wf: "comments_wf s" and new: "cm_Markup new \<noteq> []" "recorded new r"
    and rows: "\<forall>c \<in> set rows. c = new \<or> c \<in> set (cd_Comments s) \<and> cm_ID c \<noteq> cm_ID new"
    and d: "distinct (map cm_ID rows)"
  shows "comments_wf (s\<lparr>cd_Comments := rows, cd_Revisions := cd_Revisions s @ [r]\<rparr>)"
  unfolding comments_wf_def
proof (rule conjI [OF _ ballI])
  fix c assume "c \<in> set (cd_Comments (s\<lparr>cd_Comments := rows, cd_Revisions := cd_Revisions s @ [r]\<rparr>))"
  then have "c = new \<or> c \<in> set (cd_Comments s) \<and> cm_ID c \<noteq> cm_ID new" using rows by simp
  then show "cm_Markup c \<noteq> [] \<and> (\<exists>q. latest_revision (cm_ID c)
      (cd_Revisions (s\<lparr>cd_Comments := rows, cd_Revisions := cd_Revisions s @ [r]\<rparr>)) = Some q \<and> recorded c q)"
    using wf new by (auto simp: comments_wf_def recorded_def)
qed (use d in simp)

lemma Comment_Create_wf:
  assumes "comments_wf s" "alive (cm_Lifecycle c)" "Comment_Create E c creator s = (Ok new, t)"
  shows "comments_wf t"
proof -
  let ?c = "comment_markup (c\<lparr>cm_ID := env_newID E ''comment''\<rparr>)"
  from assms(3) have new: "new = ?c\<lparr>cm_Lifecycle := stamped E (cm_Lifecycle ?c)\<rparr>"
    and fresh: "cm_ID new \<notin> cm_ID ` set (cd_Comments s)"
    and t: "t = s\<lparr>cd_Comments := cd_Comments s @ [new],
        cd_Revisions := cd_Revisions s @ [comment_revision_of E creator CommentCreated new]\<rparr>"
    by (auto simp: Comment_Create_def Let_def act_bind_Ok_iff on_comments_Ok_iff gorm_insert_Ok_iff
        dest!: CommentRevision_Create_Ok)
  have "recorded new (comment_revision_of E creator CommentCreated new)" "cm_Markup new \<noteq> []"
    using assms(2) new by (simp_all add: recorded_def comment_revision_of_def)
  then show ?thesis unfolding t
    by (intro comments_wf_change [OF assms(1)]) (use fresh assms(1) in \<open>auto simp: comments_wf_def intro: rev_image_eqI\<close>)
qed

lemma Comment_Save_wf:
  assumes "comments_wf s" "alive (cm_Lifecycle c)" "Comment_Save U E c modifier s = (Ok new, t)"
  shows "comments_wf t"
proof -
  let ?c = "comment_markup c"
  let ?rows = "map (\<lambda>x. if alive (cm_Lifecycle x) \<and> cm_ID x = cm_ID c then new else x) (cd_Comments s)"
  from assms(3) have new: "new = ?c\<lparr>cm_Lifecycle := touched E (cm_Lifecycle ?c)\<rparr>"
    and found: "\<exists>x. by_id cm_Lifecycle cm_ID (cm_ID c) (cd_Comments s) = Some x"
    and t: "t = s\<lparr>cd_Comments := ?rows,
        cd_Revisions := cd_Revisions s @ [comment_revision_of E modifier CommentUpdated new]\<rparr>"
    by (auto simp: Comment_Save_def Let_def act_bind_Ok_iff on_comments_Ok_iff gorm_first_Ok_iff gorm_update_Ok_iff
        dest!: CommentRevision_Create_Ok)
  have id: "cm_ID new = cm_ID c" using new by simp
  from found obtain x where x: "x \<in> set (cd_Comments s)" "alive (cm_Lifecycle x)" "cm_ID x = cm_ID c"
    by (auto dest: by_id_SomeD)
  have only: "y = x" if "y \<in> set (cd_Comments s)" "cm_ID y = cm_ID c" for y
    using assms(1) that x by (auto simp: comments_wf_def distinct_map inj_on_def)
  have "recorded new (comment_revision_of E modifier CommentUpdated new)" "cm_Markup new \<noteq> []"
    using assms(2) new by (simp_all add: recorded_def comment_revision_of_def)
  moreover have "map cm_ID ?rows = map cm_ID (cd_Comments s)" using id by simp
  then have "distinct (map cm_ID ?rows)" using assms(1) unfolding comments_wf_def by metis
  ultimately show ?thesis unfolding t
    by (intro comments_wf_change [OF assms(1)]) (use id x(2) only in \<open>auto split: if_splits\<close>)
qed

lemma Comment_Delete_wf:
  assumes "comments_wf s" "env_fault E ''delete comment'' = None" "Comment_Delete U E i suppressor s = (Ok u, t)"
  shows "comments_wf t"
proof -
  let ?mark = "\<lambda>x. x\<lparr>cm_Lifecycle := removed E (cm_Lifecycle x)\<rparr>"
  from assms(3) have i: "i \<noteq> uuid_Nil" by (auto simp: Comment_Delete_def)
  define P where "P = (\<lambda>x :: comment. cm_ID x = i)"
  obtain c where c: "filter P (live_comments s) = [c]"
  proof (cases "filter P (live_comments s)" rule: remdups_adj.cases)
    case (2 c)
    then show ?thesis by (rule that)
  qed (use assms(3) i in \<open>simp_all add: Comment_Delete_def act_bind_def act_gets_def P_def [symmetric] split: if_splits\<close>)
  have "c \<in> set (filter P (live_comments s))" unfolding c by simp
  then have x: "c \<in> set (cd_Comments s)" "alive (cm_Lifecycle c)" "cm_ID c = i" by (auto simp: live_comments_def P_def)
  let ?rows = "map (\<lambda>x. if alive (cm_Lifecycle x) \<and> keyed cm_ID i x then ?mark x else x) (cd_Comments s)"
  let ?del = "on_comments (gorm_delete E ''delete comment'' (\<lambda>x. alive (cm_Lifecycle x) \<and> keyed cm_ID i x) ?mark)"
  have "?del s = (Ok (length (filter (\<lambda>x. alive (cm_Lifecycle x) \<and> keyed cm_ID i x) (cd_Comments s))), s\<lparr>cd_Comments := ?rows\<rparr>)"
    using assms(2) by (simp add: on_comments_Ok_iff gorm_delete_Ok_iff)
  then have del: "ignore_error (act_bind ?del (\<lambda>_. act_return ())) s = (Ok (), s\<lparr>cd_Comments := ?rows\<rparr>)"
    by (simp add: ignore_error_def act_bind_def act_return_def)
  have "cm_ID (comment_skeleton c) = i" using x(3) by (simp add: comment_skeleton_def)
  with assms(3) c i del have "CommentRevision_Create E suppressor CommentDeleted (comment_skeleton c) (s\<lparr>cd_Comments := ?rows\<rparr>) = (Ok u, t)"
    by (simp add: Comment_Delete_def act_bind_def act_gets_def P_def [symmetric] split: if_splits)
  then have t: "t = s\<lparr>cd_Comments := ?rows,
      cd_Revisions := cd_Revisions s @ [comment_revision_of E suppressor CommentDeleted (comment_skeleton c)]\<rparr>"
    by (auto dest!: CommentRevision_Create_Ok)
  have only: "y = c" if "y \<in> set (cd_Comments s)" "cm_ID y = i" for y
    using assms(1) that x by (auto simp: comments_wf_def distinct_map inj_on_def)
  have "recorded (?mark c) (comment_revision_of E suppressor CommentDeleted (comment_skeleton c))"
    by (simp add: recorded_def comment_revision_of_def comment_skeleton_def)
  moreover have "cm_Markup (?mark c) \<noteq> []" using assms(1) x(1) by (simp add: comments_wf_def)
  moreover have "map cm_ID ?rows = map cm_ID (cd_Comments s)" by simp
  then have "distinct (map cm_ID ?rows)" using assms(1) unfolding comments_wf_def by metis
  moreover have "\<forall>y \<in> set ?rows. y = ?mark c \<or> y \<in> set (cd_Comments s) \<and> cm_ID y \<noteq> cm_ID (?mark c)"
  proof
    fix y assume "y \<in> set ?rows"
    then obtain z where z: "z \<in> set (cd_Comments s)" "y = (if alive (cm_Lifecycle z) \<and> keyed cm_ID i z then ?mark z else z)"
      by auto
    show "y = ?mark c \<or> y \<in> set (cd_Comments s) \<and> cm_ID y \<noteq> cm_ID (?mark c)"
    proof (cases "cm_ID z = i")
      case True
      then have "z = c" using only z(1) by blast
      then show ?thesis using z(2) x by (simp add: keyed_def)
    next
      case False
      then show ?thesis using z x(3) i by (simp add: keyed_def)
    qed
  qed
  ultimately show ?thesis unfolding t by (intro comments_wf_change [OF assms(1)])
qed

text \<open>
  The operations in transactions: a comment that is written has not been deleted, and the statement that deletes
  a comment does not fail, because its error is dropped.
\<close>

datatype comment_op = CommentCreate comment uuid | CommentSave comment uuid | CommentDelete uuid uuid

fun run_comment_op :: "uuid_lib \<Rightarrow> db_env \<times> comment_op \<Rightarrow> unit comment_repo" where
  "run_comment_op U (E, CommentCreate c creator) = act_bind (Comment_Create E c creator) (\<lambda>_. act_return ())"
| "run_comment_op U (E, CommentSave c modifier) = act_bind (Comment_Save U E c modifier) (\<lambda>_. act_return ())"
| "run_comment_op U (E, CommentDelete i suppressor) = Comment_Delete U E i suppressor"

fun comment_guard :: "db_env \<times> comment_op \<Rightarrow> comment_db \<Rightarrow> bool" where
  "comment_guard (E, CommentCreate c creator) s = alive (cm_Lifecycle c)"
| "comment_guard (E, CommentSave c modifier) s = alive (cm_Lifecycle c)"
| "comment_guard (E, CommentDelete i suppressor) s = (env_fault E ''delete comment'' = None)"

interpretation comment_trail: invariant_operation comments_wf comment_guard "run_comment_op U" "\<lambda>s t. s"
  for U
proof
  fix s p x t
  assume "comments_wf s" "comment_guard p s" "run_comment_op U p s = (Ok x, t)"
  then show "comments_wf t"
    by (cases "(U, p)" rule: run_comment_op.cases)
      (auto simp: act_bind_Ok_iff intro: Comment_Create_wf Comment_Save_wf Comment_Delete_wf)
qed

fun comment_transactions :: "uuid_lib \<Rightarrow> (db_env \<times> comment_op) list \<Rightarrow> comment_db \<Rightarrow> comment_db" where
  "comment_transactions U [] s = s"
| "comment_transactions U (p # ps) s =
     comment_transactions U ps
       (snd (Transactional (fst p) [] False (\<lambda>s t. s) (act_bind (run_comment_op U p) (\<lambda>_. act_return ())) s))"


definition sample_comment :: "uuid \<Rightarrow> string \<Rightarrow> comment" where
  "sample_comment i body = \<lparr>cm_Lifecycle = \<lparr>lc_CreatedAt = (1, ''UTC''), lc_UpdatedAt = (1, ''UTC''), lc_DeletedAt = None\<rparr>,
     cm_ID = i, cm_ParentID = 3, cm_ParentCommentID = None, cm_Creator = 8, cm_Body = body, cm_Markup = []\<rparr>"

definition sample_comment_db :: "uuid \<Rightarrow> db_env" where
  "sample_comment_db i = \<lparr>env_now = (9, ''UTC''), env_newID = (\<lambda>_. i), env_fault = (\<lambda>_. None)\<rparr>"


end
