(* ===== verification/Boards.thy ===== *)
theory Boards
  imports Spaces
begin

text \<open>
  The groups of work item types and the boards of a space template: the records and data of
  \<^verbatim>\<open>workitem/typegroup.go\<close> and \<^verbatim>\<open>workitem/board.go\<close>, and the repositories of
  \<^verbatim>\<open>typegroup_repository.go\<close> and \<^verbatim>\<open>board_repository.go\<close> with the constraints of
  the migrations 088 and 098. Both are stored in two tables, one of them for the ordered parts.
\<close>

section \<open>Groups of work item types\<close>

definition BucketPortfolio :: string where "BucketPortfolio = ''portfolio''"

definition BucketRequirement :: string where "BucketRequirement = ''requirement''"

definition BucketIteration :: string where "BucketIteration = ''iteration''"

text \<open>The type assertion of the scanner panics for anything but bytes.\<close>

definition TypeBucket_Scan :: "goval \<Rightarrow> string res" where
  "TypeBucket_Scan value = (case value of VBytes b \<Rightarrow> Ok b | _ \<Rightarrow> Panic)"

definition TypeBucket_Value :: "string \<Rightarrow> goval" where
  "TypeBucket_Value t = VString t"

record type_group =
  tg_Lifecycle :: lifecycle
  tg_ID :: uuid
  tg_SpaceTemplateID :: uuid
  tg_Bucket :: string
  tg_Name :: string
  tg_Description :: "string option"
  tg_Icon :: string
  tg_Position :: int
  tg_TypeList :: "uuid list"

definition WorkItemTypeGroup_Equal :: "type_group \<Rightarrow> type_group \<Rightarrow> bool" where
  "WorkItemTypeGroup_Equal g other \<longleftrightarrow>
     tg_ID g = tg_ID other \<and> tg_SpaceTemplateID g = tg_SpaceTemplateID other \<and>
     Lifecycle_Equal (tg_Lifecycle g) (tg_Lifecycle other) \<and> tg_Name g = tg_Name other \<and>
     tg_Description g = tg_Description other \<and> tg_Bucket g = tg_Bucket other \<and> tg_Icon g = tg_Icon other \<and>
     tg_Position g = tg_Position other \<and>
     length (tg_TypeList g) = length (tg_TypeList other) \<and>
     list_all (\<lambda>i. tg_TypeList g ! i = tg_TypeList other ! i) [0..<length (tg_TypeList g)]"

definition group_copy_meta :: "type_group \<Rightarrow> type_group \<Rightarrow> type_group" where
  "group_copy_meta g other = g\<lparr>tg_Lifecycle := tg_Lifecycle other\<rparr>"

definition WorkItemTypeGroup_EqualValue :: "type_group \<Rightarrow> type_group \<Rightarrow> bool" where
  "WorkItemTypeGroup_EqualValue g other = WorkItemTypeGroup_Equal (group_copy_meta g other) other"

definition TypeGroup_GetETagData :: "type_group \<Rightarrow> goval list" where
  "TypeGroup_GetETagData g =
     [VUUID (tg_ID g), VTime (fst (lc_UpdatedAt (tg_Lifecycle g))) (snd (lc_UpdatedAt (tg_Lifecycle g)))]"

definition TypeGroup_GetLastModified :: "type_group \<Rightarrow> gotime" where
  "TypeGroup_GetLastModified g = lc_UpdatedAt (tg_Lifecycle g)"

interpretation group_equaler: equaler WorkItemTypeGroup_Equal WorkItemTypeGroup_EqualValue group_copy_meta
  by unfold_locales (auto simp: WorkItemTypeGroup_EqualValue_def WorkItemTypeGroup_Equal_def group_copy_meta_def)

text \<open>The groups the system defines, with the identifiers of the work item types they hold.\<close>

definition SystemTask :: uuid where "SystemTask = 0xbbf3541804b6426ca60b7f80beb0b624"
definition SystemValueProposition :: uuid where "SystemValueProposition = 0x3194ab60855b415590059dce4a05f1eb"
definition SystemFundamental :: uuid where "SystemFundamental = 0xee7ca005f81d4eea9b9b1965df0988d0"
definition SystemExperience :: uuid where "SystemExperience = 0xb9a71831c8034f6687744193fffd1311"
definition SystemFeature :: uuid where "SystemFeature = 0x0a24d3c2e0a646868051ec0ea1915a28"
definition SystemScenario :: uuid where "SystemScenario = 0x71171e906d35498fa6a72083b5267c18"
definition SystemBug :: uuid where "SystemBug = 0x26787039b68f4e288814c2f93be1ef4e"
definition SystemPapercuts :: uuid where "SystemPapercuts = 0x6d603ab47c5e4c5fbba8a3ba9d370985"

definition system_group :: "uuid \<Rightarrow> string \<Rightarrow> string \<Rightarrow> string \<Rightarrow> uuid list \<Rightarrow> type_group" where
  "system_group i bucket name icon types =
     \<lparr>tg_Lifecycle = \<lparr>lc_CreatedAt = zero_time, lc_UpdatedAt = zero_time, lc_DeletedAt = None\<rparr>, tg_ID = i,
      tg_SpaceTemplateID = uuid_Nil, tg_Bucket = bucket, tg_Name = name, tg_Description = None, tg_Icon = icon,
      tg_Position = 0, tg_TypeList = types\<rparr>"

definition TypeGroups :: "type_group list" where
  "TypeGroups =
     [system_group 0xfeb28a2844a643f8946abae987713891 BucketPortfolio ''Scenarios'' ''fa fa-bullseye''
        [SystemScenario, SystemFundamental, SystemPapercuts],
      system_group 0xd4e2c859f4164e9aa3e0e7bb4e1b454b BucketPortfolio ''Experiences'' ''pficon pficon-infrastructure''
        [SystemExperience, SystemValueProposition],
      system_group 0xbb1de8b631754821abe950d0a64f19a2 BucketRequirement ''Requirements'' ''fa fa-list-ul''
        [SystemFeature, SystemBug],
      system_group 0x7fdfde549cf24098b33b30cd505dcfc3 BucketIteration ''Execution'' ''fa fa-repeat''
        [SystemTask, SystemBug, SystemFeature]]"

definition TypeGroupByName :: "string \<Rightarrow> type_group option" where
  "TypeGroupByName name = find (\<lambda>t. tg_Name t = name) TypeGroups"

definition TypeGroupsByBucket :: "string \<Rightarrow> type_group list" where
  "TypeGroupsByBucket bucket = filter (\<lambda>t. tg_Bucket t = bucket) TypeGroups"

record group_member =
  gm_Lifecycle :: lifecycle
  gm_ID :: uuid
  gm_TypeGroupID :: uuid
  gm_WorkItemTypeID :: uuid
  gm_Position :: int

section \<open>Boards\<close>

record board_column =
  bc_Lifecycle :: lifecycle
  bc_ID :: uuid
  bc_BoardID :: uuid
  bc_Name :: string
  bc_Order :: int
  bc_TransRuleKey :: string
  bc_TransRuleArgument :: string

record board =
  bo_Lifecycle :: lifecycle
  bo_ID :: uuid
  bo_SpaceTemplateID :: uuid
  bo_Name :: string
  bo_Description :: string
  bo_Columns :: "board_column list"
  bo_Context :: string
  bo_ContextType :: string

definition BoardColumn_Equal :: "board_column \<Rightarrow> board_column \<Rightarrow> bool" where
  "BoardColumn_Equal c other \<longleftrightarrow>
     bc_ID c = bc_ID other \<and> bc_BoardID c = bc_BoardID other \<and>
     Lifecycle_Equal (bc_Lifecycle c) (bc_Lifecycle other) \<and> bc_Name c = bc_Name other \<and>
     bc_Order c = bc_Order other \<and> bc_TransRuleKey c = bc_TransRuleKey other \<and>
     bc_TransRuleArgument c = bc_TransRuleArgument other"

definition column_copy_meta :: "board_column \<Rightarrow> board_column \<Rightarrow> board_column" where
  "column_copy_meta c other = c\<lparr>bc_Lifecycle := bc_Lifecycle other\<rparr>"

definition BoardColumn_EqualValue :: "board_column \<Rightarrow> board_column \<Rightarrow> bool" where
  "BoardColumn_EqualValue c other = BoardColumn_Equal (column_copy_meta c other) other"

text \<open>The columns are compared by the method that the caller of the comparison asks for.\<close>

definition Board_Equal :: "bool \<Rightarrow> board \<Rightarrow> board \<Rightarrow> bool" where
  "Board_Equal fromEqualValue b other \<longleftrightarrow>
     bo_ID b = bo_ID other \<and> bo_SpaceTemplateID b = bo_SpaceTemplateID other \<and>
     Lifecycle_Equal (bo_Lifecycle b) (bo_Lifecycle other) \<and> bo_Name b = bo_Name other \<and>
     bo_Description b = bo_Description other \<and> bo_Context b = bo_Context other \<and> bo_ContextType b = bo_ContextType other \<and>
     length (bo_Columns b) = length (bo_Columns other) \<and>
     list_all2 (if fromEqualValue then BoardColumn_EqualValue else BoardColumn_Equal) (bo_Columns b) (bo_Columns other)"

definition board_copy_meta :: "board \<Rightarrow> board \<Rightarrow> board" where
  "board_copy_meta b other = b\<lparr>bo_Lifecycle := bo_Lifecycle other\<rparr>"

definition Board_EqualValue :: "board \<Rightarrow> board \<Rightarrow> bool" where
  "Board_EqualValue b other = Board_Equal True (board_copy_meta b other) other"

definition Board_GetETagData :: "board \<Rightarrow> goval list" where
  "Board_GetETagData b =
     [VUUID (bo_ID b), VTime (fst (lc_UpdatedAt (bo_Lifecycle b))) (snd (lc_UpdatedAt (bo_Lifecycle b)))]"

definition Board_GetLastModified :: "board \<Rightarrow> gotime" where
  "Board_GetLastModified b = lc_UpdatedAt (bo_Lifecycle b)"

interpretation column_equaler: equaler BoardColumn_Equal BoardColumn_EqualValue column_copy_meta
  by unfold_locales (auto simp: BoardColumn_EqualValue_def BoardColumn_Equal_def column_copy_meta_def)

section \<open>The tables\<close>

record template_db =
  tb_Templates :: "space_template list"
  tb_Groups :: "type_group list"
  tb_Members :: "group_member list"
  tb_Boards :: "board list"
  tb_Columns :: "board_column list"

type_synonym 'a tb_repo = "(template_db, 'a) action"

definition on_groups :: "(type_group list, 'a) action \<Rightarrow> 'a tb_repo" where
  "on_groups = on_table tb_Groups (\<lambda>rows s. s\<lparr>tb_Groups := rows\<rparr>)"

definition on_members :: "(group_member list, 'a) action \<Rightarrow> 'a tb_repo" where
  "on_members = on_table tb_Members (\<lambda>rows s. s\<lparr>tb_Members := rows\<rparr>)"

definition on_boards :: "(board list, 'a) action \<Rightarrow> 'a tb_repo" where
  "on_boards = on_table tb_Boards (\<lambda>rows s. s\<lparr>tb_Boards := rows\<rparr>)"

definition on_columns :: "(board_column list, 'a) action \<Rightarrow> 'a tb_repo" where
  "on_columns = on_table tb_Columns (\<lambda>rows s. s\<lparr>tb_Columns := rows\<rparr>)"

text \<open>The lists of parts are not columns of the tables of groups and boards.\<close>

definition group_violation :: "type_group \<Rightarrow> type_group list \<Rightarrow> go_error option" where
  "group_violation g rows = first_violation
     [(tg_Bucket g \<notin> {BucketPortfolio, BucketRequirement, BucketIteration}, EPq ''22P02'' [] []),
      (tg_Name g = [], check_violation ''work_item_type_groups_name_check''),
      (index_taken tg_Lifecycle tg_ID (\<lambda>x. (tg_Name x, tg_SpaceTemplateID x)) g rows,
       unique_violation ''work_item_type_groups_name_uidx'')]"

definition member_violation :: "group_member \<Rightarrow> group_member list \<Rightarrow> go_error option" where
  "member_violation m rows = first_violation
     [(index_taken gm_Lifecycle gm_ID (\<lambda>x. (gm_TypeGroupID x, gm_WorkItemTypeID x)) m rows,
       unique_violation ''work_item_type_group_members_uidx'')]"

text \<open>The unique constraints of boards and columns also count deleted rows.\<close>

definition board_violation :: "board \<Rightarrow> board list \<Rightarrow> go_error option" where
  "board_violation b rows = first_violation
     [(bo_Context b = [], check_violation ''work_item_boards_context_check''),
      (bo_ContextType b = [], check_violation ''work_item_boards_context_type_check''),
      (bo_Description b = [], check_violation ''work_item_boards_description_check''),
      (bo_Name b = [], check_violation ''work_item_boards_name_check''),
      (list_ex (\<lambda>x. bo_SpaceTemplateID x = bo_SpaceTemplateID b \<and> bo_Name x = bo_Name b) rows,
       unique_violation ''work_item_board_name_space_template_id_unique'')]"

definition column_violation :: "board_column \<Rightarrow> board_column list \<Rightarrow> go_error option" where
  "column_violation c rows = first_violation
     [(bc_Name c = [], check_violation ''work_item_board_columns_name_check''),
      (bc_TransRuleArgument c = [], check_violation ''work_item_board_columns_trans_rule_argument_check''),
      (bc_TransRuleKey c = [], check_violation ''work_item_board_columns_trans_rule_key_check''),
      (list_ex (\<lambda>x. bc_BoardID x = bc_BoardID c \<and> bc_Name x = bc_Name c) rows,
       unique_violation ''work_item_board_column_name_board_id_unique''),
      (list_ex (\<lambda>x. bc_BoardID x = bc_BoardID c \<and> bc_Order x = bc_Order c) rows,
       unique_violation ''work_item_board_id_order_unique'')]"

section \<open>The repositories\<close>

text \<open>The n-th insertion of a loop gets an identifier of its own.\<close>

definition nth_label :: "string \<Rightarrow> nat \<Rightarrow> string" where
  "nth_label what n = what @ '' '' @ itoa (int n)"

definition template_exists :: "uuid_lib \<Rightarrow> db_env \<Rightarrow> uuid \<Rightarrow> unit tb_repo" where
  "template_exists U E spaceTemplateID =
     act_map_err (\<lambda>_. NewNotFoundError ''space template'' (uString U spaceTemplateID))
       (CheckExists U E ''space_templates'' (\<lambda>s. template_ids (tb_Templates s)) spaceTemplateID)"

definition members_of :: "uuid \<Rightarrow> template_db \<Rightarrow> group_member list" where
  "members_of groupID s =
     sort_key gm_Position (filter (\<lambda>m. gm_TypeGroupID m = groupID) (live_rows gm_Lifecycle (tb_Members s)))"

definition loadTypeList :: "db_env \<Rightarrow> uuid \<Rightarrow> uuid list tb_repo" where
  "loadTypeList E groupID =
     act_bind (statement E ''type group members'' NewInternalError) (\<lambda>_.
     act_gets (\<lambda>s. Ok (map gm_WorkItemTypeID (members_of groupID s))))"

definition TypeGroup_Load :: "uuid_lib \<Rightarrow> db_env \<Rightarrow> uuid \<Rightarrow> type_group tb_repo" where
  "TypeGroup_Load U E groupID =
     act_bind (on_groups (gorm_first E ''type group'' (by_id tg_Lifecycle tg_ID groupID)
       (NewNotFoundError ''work item type group'' (uString U groupID)))) (\<lambda>res.
     act_bind (act_map_err (EWrap []) (loadTypeList E (tg_ID res))) (\<lambda>typeList.
     act_return (res\<lparr>tg_TypeList := typeList\<rparr>)))"

fun load_each :: "('r \<Rightarrow> 'r tb_repo) \<Rightarrow> 'r list \<Rightarrow> 'r list tb_repo" where
  "load_each load [] = act_return []"
| "load_each load (r # rs) = act_bind (load r) (\<lambda>r'. act_bind (load_each load rs) (\<lambda>rs'. act_return (r' # rs')))"

definition TypeGroup_List :: "uuid_lib \<Rightarrow> db_env \<Rightarrow> uuid \<Rightarrow> type_group list tb_repo" where
  "TypeGroup_List U E spaceTemplateID =
     act_bind (template_exists U E spaceTemplateID) (\<lambda>_.
     act_bind (statement E ''type groups'' NewInternalError) (\<lambda>_.
     act_bind (act_gets (\<lambda>s. Ok (sort_key tg_Position
       (filter (\<lambda>g. tg_SpaceTemplateID g = spaceTemplateID) (live_rows tg_Lifecycle (tb_Groups s)))))) (\<lambda>groups.
     load_each (\<lambda>g. act_bind (act_map_err (EWrap []) (loadTypeList E (tg_ID g))) (\<lambda>typeList.
                    act_return (g\<lparr>tg_TypeList := typeList\<rparr>))) groups)))"

definition TypeGroup_CheckExists :: "uuid_lib \<Rightarrow> db_env \<Rightarrow> uuid \<Rightarrow> unit tb_repo" where
  "TypeGroup_CheckExists U E =
     CheckExists U E ''work_item_type_groups'' (\<lambda>s. map tg_ID (live_rows tg_Lifecycle (tb_Groups s)))"

definition new_member :: "db_env \<Rightarrow> uuid \<Rightarrow> nat \<Rightarrow> uuid \<Rightarrow> group_member" where
  "new_member E groupID idx i =
     \<lparr>gm_Lifecycle = created E, gm_ID = env_newID E (nth_label ''type group member'' idx), gm_TypeGroupID = groupID,
      gm_WorkItemTypeID = i, gm_Position = int idx\<rparr>"

definition create_member :: "db_env \<Rightarrow> uuid \<Rightarrow> nat \<Rightarrow> uuid \<Rightarrow> unit tb_repo" where
  "create_member E groupID idx i =
     act_map_err NewInternalError (on_members (gorm_insert E ''work_item_type_group_members'' gm_ID
       (member_violation (new_member E groupID idx i)) (new_member E groupID idx i)))"

text \<open>The loops that insert the parts one after the other.\<close>

fun create_each :: "(nat \<Rightarrow> 'x \<Rightarrow> unit tb_repo) \<Rightarrow> nat \<Rightarrow> 'x list \<Rightarrow> unit tb_repo" where
  "create_each ins idx [] = act_return ()"
| "create_each ins idx (x # xs) = act_bind (ins idx x) (\<lambda>_. create_each ins (Suc idx) xs)"

definition TypeGroup_Create :: "db_env \<Rightarrow> type_group \<Rightarrow> type_group tb_repo" where
  "TypeGroup_Create E g0 =
     (if length (tg_TypeList g0) \<le> 0 then
        act_fail (Expected (NewBadParameterError ''type_list'' (VSlice (map VUUID (tg_TypeList g0)))) (VString ''not empty''))
      else let g = (if tg_ID g0 = uuid_Nil then g0\<lparr>tg_ID := env_newID E ''type group''\<rparr> else g0);
               new = g\<lparr>tg_Lifecycle := stamped E (tg_Lifecycle g)\<rparr>
        in act_bind (act_map_err NewInternalError (on_groups (gorm_insert E ''work_item_type_groups'' tg_ID
               (group_violation new) (new\<lparr>tg_TypeList := []\<rparr>)))) (\<lambda>_.
           act_bind (create_each (create_member E (tg_ID new)) 0 (tg_TypeList new)) (\<lambda>_. act_return new)))"

definition columns_of :: "uuid \<Rightarrow> template_db \<Rightarrow> board_column list" where
  "columns_of boardID s =
     sort_key bc_Order (filter (\<lambda>c. bc_BoardID c = boardID) (live_rows bc_Lifecycle (tb_Columns s)))"

definition loadColumns :: "db_env \<Rightarrow> uuid \<Rightarrow> board_column list tb_repo" where
  "loadColumns E boardID =
     act_bind (statement E ''board columns'' NewInternalError) (\<lambda>_. act_gets (\<lambda>s. Ok (columns_of boardID s)))"

definition Board_Load :: "uuid_lib \<Rightarrow> db_env \<Rightarrow> uuid \<Rightarrow> board tb_repo" where
  "Board_Load U E boardID =
     act_bind (on_boards (gorm_first E ''board'' (by_id bo_Lifecycle bo_ID boardID)
       (NewNotFoundError ''work item board'' (uString U boardID)))) (\<lambda>res.
     act_bind (act_map_err (EWrap ''failed to load board columns'') (loadColumns E (bo_ID res))) (\<lambda>columns.
     act_return (res\<lparr>bo_Columns := columns\<rparr>)))"

definition Board_List :: "uuid_lib \<Rightarrow> db_env \<Rightarrow> uuid \<Rightarrow> board list tb_repo" where
  "Board_List U E spaceTemplateID =
     act_bind (template_exists U E spaceTemplateID) (\<lambda>_.
     act_bind (statement E ''boards'' NewInternalError) (\<lambda>_.
     act_bind (act_gets (\<lambda>s. Ok (sort_by (\<lambda>a b. lex_le (name_code (bo_Name a)) (name_code (bo_Name b)))
       (filter (\<lambda>b. bo_SpaceTemplateID b = spaceTemplateID) (live_rows bo_Lifecycle (tb_Boards s)))))) (\<lambda>boards.
     load_each (\<lambda>b. act_bind (act_map_err (EWrap ''failed to load columns'') (loadColumns E (bo_ID b))) (\<lambda>columns.
                    act_return (b\<lparr>bo_Columns := columns\<rparr>))) boards)))"

definition Board_CheckExists :: "uuid_lib \<Rightarrow> db_env \<Rightarrow> uuid \<Rightarrow> unit tb_repo" where
  "Board_CheckExists U E =
     CheckExists U E ''work_item_boards'' (\<lambda>s. map bo_ID (live_rows bo_Lifecycle (tb_Boards s)))"

text \<open>The loop changes copies of the columns: the board that is returned keeps the columns it was given.\<close>

definition new_column :: "db_env \<Rightarrow> uuid \<Rightarrow> nat \<Rightarrow> board_column \<Rightarrow> board_column" where
  "new_column E boardID idx c =
     c\<lparr>bc_Lifecycle := stamped E (bc_Lifecycle c),
       bc_ID := if bc_ID c = uuid_Nil then env_newID E (nth_label ''board column'' idx) else bc_ID c,
       bc_BoardID := boardID\<rparr>"

definition create_column :: "db_env \<Rightarrow> uuid \<Rightarrow> nat \<Rightarrow> board_column \<Rightarrow> unit tb_repo" where
  "create_column E boardID idx c =
     act_map_err NewInternalError (on_columns (gorm_insert E ''work_item_board_columns'' bc_ID
       (column_violation (new_column E boardID idx c)) (new_column E boardID idx c)))"

definition Board_Create :: "db_env \<Rightarrow> board \<Rightarrow> board tb_repo" where
  "Board_Create E b0 =
     (if length (bo_Columns b0) \<le> 0 then
        act_fail (Expected (NewBadParameterError ''columns'' (VOther ''BoardColumn'' 0)) (VString ''not empty''))
      else let b = (if bo_ID b0 = uuid_Nil then b0\<lparr>bo_ID := env_newID E ''board''\<rparr> else b0);
               new = b\<lparr>bo_Lifecycle := stamped E (bo_Lifecycle b)\<rparr>
        in act_bind (act_map_err NewInternalError (on_boards (gorm_insert E ''work_item_boards'' bo_ID
               (board_violation new) (new\<lparr>bo_Columns := []\<rparr>)))) (\<lambda>_.
           act_bind (create_each (create_column E (bo_ID new)) 0 (bo_Columns new)) (\<lambda>_. act_return new)))"

section \<open>Facts\<close>

lemma on_tables_Ok_iff:
  "on_groups m s = (Ok x, t) \<longleftrightarrow> (\<exists>u. m (tb_Groups s) = (Ok x, u) \<and> t = s\<lparr>tb_Groups := u\<rparr>)"
  "on_members n s = (Ok y, t) \<longleftrightarrow> (\<exists>u. n (tb_Members s) = (Ok y, u) \<and> t = s\<lparr>tb_Members := u\<rparr>)"
  "on_boards p s = (Ok z, t) \<longleftrightarrow> (\<exists>u. p (tb_Boards s) = (Ok z, u) \<and> t = s\<lparr>tb_Boards := u\<rparr>)"
  "on_columns q s = (Ok w, t) \<longleftrightarrow> (\<exists>u. q (tb_Columns s) = (Ok w, u) \<and> t = s\<lparr>tb_Columns := u\<rparr>)"
  by (auto simp: on_groups_def on_members_def on_boards_def on_columns_def on_table_Ok_iff)

text \<open>A loop of insertions appends the new rows in their order.\<close>

lemma create_each_appends:
  assumes "create_each ins idx xs s = (Ok u, t)"
    and ins: "\<And>i x s u t. ins i x s = (Ok u, t) \<Longrightarrow> t = put (get s @ [mk i x]) s"
    and laws: "\<And>r s. get (put r s) = r" "\<And>r q s. put r (put q s) = put r s" "\<And>s. put (get s) s = s"
  shows "t = put (get s @ map (\<lambda>(i, x). mk i x) (enumerate idx xs)) s"
  using assms(1)
proof (induction xs arbitrary: idx s)
  case (Cons x xs)
  from Cons.prems obtain v r where r: "ins idx x s = (Ok v, r)" "create_each ins (Suc idx) xs r = (Ok u, t)"
    by (auto simp: act_bind_Ok_iff)
  show ?case using Cons.IH [OF r(2)] ins [OF r(1)] by (simp add: laws)
qed (simp add: laws)

lemma create_members_Ok:
  assumes "create_each (create_member E groupID) 0 is s = (Ok u, t)"
  shows "t = s\<lparr>tb_Members := tb_Members s @ map (\<lambda>(k, i). new_member E groupID k i) (enumerate 0 is)\<rparr>"
  by (rule create_each_appends [OF assms, where get = tb_Members and put = "\<lambda>r s. s\<lparr>tb_Members := r\<rparr>"])
    (auto simp: create_member_def on_tables_Ok_iff gorm_insert_Ok_iff)

lemma create_columns_Ok:
  assumes "create_each (create_column E boardID) 0 cs s = (Ok u, t)"
  shows "t = s\<lparr>tb_Columns := tb_Columns s @ map (\<lambda>(k, c). new_column E boardID k c) (enumerate 0 cs)\<rparr>"
  by (rule create_each_appends [OF assms, where get = tb_Columns and put = "\<lambda>r s. s\<lparr>tb_Columns := r\<rparr>"])
    (auto simp: create_column_def on_tables_Ok_iff gorm_insert_Ok_iff)

lemma by_id_appended:
  assumes "key r \<notin> key ` set rows" "alive (lc r)" "key r = i"
  shows "by_id lc key i (rows @ [r]) = Some r"
  unfolding by_id_def by (rule first_row_unique) (use assms in \<open>auto intro: rev_image_eqI\<close>)

text \<open>The foreign keys: parts belong to a group and to a board that exist.\<close>

definition parts_refer :: "template_db \<Rightarrow> bool" where
  "parts_refer s \<longleftrightarrow> gm_TypeGroupID ` set (tb_Members s) \<subseteq> tg_ID ` set (tb_Groups s) \<and>
     bc_BoardID ` set (tb_Columns s) \<subseteq> bo_ID ` set (tb_Boards s)"

lemma members_of_new:
  assumes "groupID \<notin> gm_TypeGroupID ` set ms"
  shows "sort_key gm_Position (filter (\<lambda>m. gm_TypeGroupID m = groupID)
      (live_rows gm_Lifecycle (ms @ map (\<lambda>(k, i). new_member E groupID k i) (enumerate 0 is)))) =
    map (\<lambda>(k, i). new_member E groupID k i) (enumerate 0 is)"
proof -
  have "filter (\<lambda>m. gm_TypeGroupID m = groupID) (live_rows gm_Lifecycle ms) = []"
    using assms by (auto simp: filter_empty_conv)
  moreover have "filter (\<lambda>m. gm_TypeGroupID m = groupID) (live_rows gm_Lifecycle
      (map (\<lambda>(k, i). new_member E groupID k i) (enumerate 0 is))) = map (\<lambda>(k, i). new_member E groupID k i) (enumerate 0 is)"
    by (auto simp: live_rows_def filter_id_conv new_member_def created_def alive_def)
  moreover have "map gm_Position (map (\<lambda>(k, i). new_member E groupID k i) (enumerate 0 is)) = map int [0..<length is]"
    by (rule nth_equalityI) (simp_all add: new_member_def nth_enumerate_eq)
  then have "sorted (map gm_Position (map (\<lambda>(k, i). new_member E groupID k i) (enumerate 0 is)))"
    by (simp only: sorted_map) (simp add: sorted_wrt_map sorted_wrt_upt)
  ultimately show ?thesis by (simp add: live_rows_def sort_key_id_if_sorted)
qed

lemma columns_of_new:
  assumes "boardID \<notin> bc_BoardID ` set cs" "list_all (\<lambda>c. alive (bc_Lifecycle c)) new"
  shows "filter (\<lambda>c. bc_BoardID c = boardID)
      (live_rows bc_Lifecycle (cs @ map (\<lambda>(k, c). new_column E boardID k c) (enumerate 0 new))) =
    map (\<lambda>(k, c). new_column E boardID k c) (enumerate 0 new)"
proof -
  have "filter (\<lambda>m. bc_BoardID m = boardID) (live_rows bc_Lifecycle cs) = []"
    using assms by (auto simp: filter_empty_conv)
  moreover have "filter (\<lambda>m. bc_BoardID m = boardID) (live_rows bc_Lifecycle
      (map (\<lambda>(k, i). new_column E boardID k i) (enumerate 0 new))) = map (\<lambda>(k, i). new_column E boardID k i) (enumerate 0 new)"
    using assms(2) by (auto simp: live_rows_def filter_id_conv new_column_def list_all_iff dest!: in_set_enumerate_eq [THEN iffD1])
  ultimately show ?thesis by (simp add: live_rows_def)
qed

text \<open>
  C24. What has been created can be loaded again: a group of types comes back as it was created, with its types in their
  order; a board comes back with the columns it was given, sorted by their order, each with the identifier of the board and
  an identifier of its own. The board that the creation returns still has the columns as they were given, without the
  identifiers that were stored.
\<close>
theorem ordered_parts_roundtrip:
  assumes "parts_refer s" "no_faults E'"
  shows "(alive (tg_Lifecycle g) \<and> TypeGroup_Create E g s = (Ok g', t) \<longrightarrow>
      tg_TypeList g' = tg_TypeList g \<and> TypeGroup_Load U E' (tg_ID g') t = (Ok g', t)) \<and>
    (alive (bo_Lifecycle b) \<and> list_all (\<lambda>c. alive (bc_Lifecycle c)) (bo_Columns b) \<and> Board_Create E b s = (Ok b', r) \<longrightarrow>
      bo_Columns b' = bo_Columns b \<and>
      Board_Load U E' (bo_ID b') r = (Ok (b'\<lparr>bo_Columns :=
        sort_key bc_Order (map (\<lambda>(k, c). new_column E (bo_ID b') k c) (enumerate 0 (bo_Columns b)))\<rparr>), r))"
proof (intro conjI impI; elim conjE)
  assume "alive (tg_Lifecycle g)" "TypeGroup_Create E g s = (Ok g', t)"
  then obtain s1 where new: "tg_ID g' \<notin> tg_ID ` set (tb_Groups s)" "alive (tg_Lifecycle g')" "tg_TypeList g' = tg_TypeList g"
    and s1: "s1 = s\<lparr>tb_Groups := tb_Groups s @ [g'\<lparr>tg_TypeList := []\<rparr>]\<rparr>"
    and parts: "create_each (create_member E (tg_ID g')) 0 (tg_TypeList g') s1 = (Ok (), t)"
    by (auto simp: TypeGroup_Create_def Let_def act_bind_Ok_iff on_tables_Ok_iff gorm_insert_Ok_iff split: if_splits)
  note t = create_members_Ok [OF parts]
  have fresh: "tg_ID g' \<notin> gm_TypeGroupID ` set (tb_Members s)" using assms(1) new(1) unfolding parts_refer_def by blast
  have "by_id tg_Lifecycle tg_ID (tg_ID g') (tb_Groups t) = Some (g'\<lparr>tg_TypeList := []\<rparr>)"
    unfolding t s1 using by_id_appended [of tg_ID "g'\<lparr>tg_TypeList := []\<rparr>" "tb_Groups s" tg_Lifecycle] new by simp
  moreover have "members_of (tg_ID g') t = map (\<lambda>(k, i). new_member E (tg_ID g') k i) (enumerate 0 (tg_TypeList g'))"
    unfolding t s1 members_of_def using members_of_new [OF fresh] by simp
  then have "map gm_WorkItemTypeID (members_of (tg_ID g') t) = tg_TypeList g'"
    by (simp add: new_member_def comp_def split_beta)
  ultimately have "TypeGroup_Load U E' (tg_ID g') t = (Ok g', t)"
    using assms(2) by (simp add: TypeGroup_Load_def act_bind_Ok_iff on_tables_Ok_iff gorm_first_Ok_iff loadTypeList_def no_faults_def)
  then show "tg_TypeList g' = tg_TypeList g" "TypeGroup_Load U E' (tg_ID g') t = (Ok g', t)" using new by simp_all
next
  assume cols: "list_all (\<lambda>c. alive (bc_Lifecycle c)) (bo_Columns b)"
  assume "alive (bo_Lifecycle b)" "Board_Create E b s = (Ok b', r)"
  then obtain s1 where new: "bo_ID b' \<notin> bo_ID ` set (tb_Boards s)" "alive (bo_Lifecycle b')" "bo_Columns b' = bo_Columns b"
    and s1: "s1 = s\<lparr>tb_Boards := tb_Boards s @ [b'\<lparr>bo_Columns := []\<rparr>]\<rparr>"
    and parts: "create_each (create_column E (bo_ID b')) 0 (bo_Columns b') s1 = (Ok (), r)"
    by (auto simp: Board_Create_def Let_def act_bind_Ok_iff on_tables_Ok_iff gorm_insert_Ok_iff split: if_splits)
  note r = create_columns_Ok [OF parts]
  have fresh: "bo_ID b' \<notin> bc_BoardID ` set (tb_Columns s)" using assms(1) new(1) unfolding parts_refer_def by blast
  have "by_id bo_Lifecycle bo_ID (bo_ID b') (tb_Boards r) = Some (b'\<lparr>bo_Columns := []\<rparr>)"
    unfolding r s1 using by_id_appended [of bo_ID "b'\<lparr>bo_Columns := []\<rparr>" "tb_Boards s" bo_Lifecycle] new by simp
  moreover have "columns_of (bo_ID b') r =
      sort_key bc_Order (map (\<lambda>(k, c). new_column E (bo_ID b') k c) (enumerate 0 (bo_Columns b)))"
    unfolding r s1 columns_of_def using columns_of_new [OF fresh cols] new by simp
  ultimately have "Board_Load U E' (bo_ID b') r = (Ok (b'\<lparr>bo_Columns :=
      sort_key bc_Order (map (\<lambda>(k, c). new_column E (bo_ID b') k c) (enumerate 0 (bo_Columns b)))\<rparr>), r)"
    using assms(2) by (simp add: Board_Load_def act_bind_Ok_iff on_tables_Ok_iff gorm_first_Ok_iff loadColumns_def no_faults_def)
  then show "bo_Columns b' = bo_Columns b" "Board_Load U E' (bo_ID b') r = (Ok (b'\<lparr>bo_Columns :=
      sort_key bc_Order (map (\<lambda>(k, c). new_column E (bo_ID b') k c) (enumerate 0 (bo_Columns b)))\<rparr>), r)"
    using new by simp_all
qed

definition empty_templates :: template_db where
  "empty_templates = \<lparr>tb_Templates = [], tb_Groups = [], tb_Members = [], tb_Boards = [], tb_Columns = []\<rparr>"

definition counting_db :: db_env where
  "counting_db = \<lparr>env_now = (9, ''UTC''), env_newID = (\<lambda>l. of_nat (foldr (\<lambda>c n. of_char c + 3 * n) l 0)), env_fault = (\<lambda>_. None)\<rparr>"

definition sample_group :: type_group where
  "sample_group = system_group 7 BucketIteration ''Execution'' ''fa'' [SystemTask, SystemBug]"

theorem ordered_parts_roundtrip_witness:
  "\<exists>t. TypeGroup_Load canonical_uuid counting_db 7 t =
     (Ok (sample_group\<lparr>tg_Lifecycle := stamped counting_db (tg_Lifecycle sample_group)\<rparr>), t)"
proof -
  let ?g = "sample_group\<lparr>tg_Lifecycle := stamped counting_db (tg_Lifecycle sample_group)\<rparr>"
  have ids: "nth_label ''type group member'' 0 = ''type group member 0''" "nth_label ''type group member'' (Suc 0) = ''type group member 1''"
    by code_simp+
  have "\<exists>t. TypeGroup_Create counting_db sample_group empty_templates = (Ok ?g, t)"
    by (simp add: TypeGroup_Create_def create_member_def new_member_def on_groups_def on_members_def on_table_def gorm_insert_def insert_row_def
        act_defs statement_def empty_templates_def counting_db_def sample_group_def system_group_def group_violation_def
        member_violation_def first_violation.simps index_taken_def Let_def live_rows_def alive_def stamped_def zero_time_def
        BucketIteration_def BucketPortfolio_def BucketRequirement_def SystemTask_def SystemBug_def ids created_def)
  then obtain t where t: "TypeGroup_Create counting_db sample_group empty_templates = (Ok ?g, t)" by blast
  have "alive (tg_Lifecycle sample_group)" "parts_refer empty_templates" "no_faults counting_db" "tg_ID ?g = 7"
    by (simp_all add: sample_group_def system_group_def alive_def parts_refer_def empty_templates_def no_faults_def counting_db_def)
  with ordered_parts_roundtrip [THEN conjunct1, of empty_templates counting_db sample_group counting_db ?g t canonical_uuid] t
  show ?thesis by auto
qed

end
