(* ===== verification/Accounts.thy ===== *)
theory Accounts
  imports Tables
begin

text \<open>
  Users and their identities: the records and repositories of \<^verbatim>\<open>account/user.go\<close> and
  \<^verbatim>\<open>account/identity.go\<close>, with the constraints of the migrations 003, 028, 030 and 103. The search over both
  tables, which scans joined rows into one reused value, is left out; the case mappings are
  parameters.
\<close>

section \<open>Records\<close>

record user =
  us_Lifecycle :: lifecycle
  us_ID :: uuid
  us_Email :: string
  us_FullName :: string
  us_ImageURL :: string
  us_Bio :: string
  us_URL :: string
  us_Company :: string
  us_ContextInformation :: goval

record identity =
  id_Lifecycle :: lifecycle
  id_ID :: uuid
  id_Username :: string
  id_RegistrationCompleted :: bool
  id_ProviderType :: string
  id_ProfileURL :: "string option"
  id_UserID :: "uuid option"

definition User_GetETagData :: "user \<Rightarrow> goval list" where
  "User_GetETagData m = [VUUID (us_ID m), VString (itoa (time_unix (lc_UpdatedAt (us_Lifecycle m))))]"

definition User_GetLastModified :: "user \<Rightarrow> gotime" where
  "User_GetLastModified m = lc_UpdatedAt (us_Lifecycle m)"

definition Identity_GetETagData :: "identity \<Rightarrow> goval list" where
  "Identity_GetETagData m = [VUUID (id_ID m), VString (itoa (time_unix (lc_UpdatedAt (id_Lifecycle m))))]"

definition Identity_GetLastModified :: "identity \<Rightarrow> gotime" where
  "Identity_GetLastModified m = lc_UpdatedAt (id_Lifecycle m)"

definition ContextInformation_Equal :: "goval \<Rightarrow> goval \<Rightarrow> bool" where
  "ContextInformation_Equal f other = deep_equal f other"

record account_env =
  ae_uuid :: uuid_lib
  ae_db :: db_env
  ae_lower :: "string \<Rightarrow> string"
  ae_ToLower :: "string \<Rightarrow> string"

record account_db =
  ac_Users :: "user list"
  ac_Identities :: "identity list"

type_synonym 'a account_repo = "(account_db, 'a) action"

definition on_users :: "(user list, 'a) action \<Rightarrow> 'a account_repo" where
  "on_users = on_table ac_Users (\<lambda>rows s. s\<lparr>ac_Users := rows\<rparr>)"

definition on_identities :: "(identity list, 'a) action \<Rightarrow> 'a account_repo" where
  "on_identities = on_table ac_Identities (\<lambda>rows s. s\<lparr>ac_Identities := rows\<rparr>)"

definition live_users :: "account_db \<Rightarrow> user list" where
  "live_users s = live_rows us_Lifecycle (ac_Users s)"

definition live_identities :: "account_db \<Rightarrow> identity list" where
  "live_identities s = live_rows id_Lifecycle (ac_Identities s)"

text \<open>The index on the mail addresses also covers deleted users; a profile URL that is null is never taken.\<close>

definition blank_text :: "string \<Rightarrow> bool" where
  "blank_text s \<longleftrightarrow> list_all (\<lambda>c. c = CHR '' '') s"

definition user_violation :: "user \<Rightarrow> user list \<Rightarrow> go_error option" where
  "user_violation u rows = first_violation
     [(blank_text (us_Email u), check_violation ''email_notempty_check''),
      (list_ex (\<lambda>x. us_ID x \<noteq> us_ID u \<and> us_Email x = us_Email u) rows, unique_violation ''uix_users_email'')]"

definition identity_violation :: "identity \<Rightarrow> identity list \<Rightarrow> go_error option" where
  "identity_violation i rows = first_violation
     [(id_ProfileURL i \<noteq> None \<and> index_taken id_Lifecycle id_ID id_ProfileURL i rows, unique_violation ''uix_identity_profileurl'')]"

text \<open>
  Gorm's \<^verbatim>\<open>Save\<close> updates the row with the key of the value, and inserts the value if it has no key or if no
  row was affected.
\<close>

definition gorm_save ::
  "db_env \<Rightarrow> string \<Rightarrow> ('r \<Rightarrow> lifecycle) \<Rightarrow> ('r \<Rightarrow> uuid) \<Rightarrow> ('r \<Rightarrow> 'r list \<Rightarrow> go_error option) \<Rightarrow> 'r \<Rightarrow> 'r \<Rightarrow> ('r list, unit) action" where
  "gorm_save E what lc key violated updated inserted =
     act_bind (if key updated = uuid_Nil then act_return 0
               else gorm_update E (''update '' @ what) (\<lambda>x. alive (lc x) \<and> key x = key updated) (violated updated) updated) (\<lambda>n.
     if n = 0 then gorm_insert E what key (violated inserted) inserted else act_return ())"

section \<open>Users\<close>

definition user_not_found :: "account_env \<Rightarrow> uuid \<Rightarrow> go_error" where
  "user_not_found A i = NewNotFoundError ''user'' (uString (ae_uuid A) i)"

definition User_Load :: "account_env \<Rightarrow> uuid \<Rightarrow> user account_repo" where
  "User_Load A i =
     act_bind (statement (ae_db A) ''user'' (EWrap [])) (\<lambda>_.
     act_gets (\<lambda>s. case by_id us_Lifecycle us_ID i (ac_Users s) of None \<Rightarrow> Err (user_not_found A i) | Some u \<Rightarrow> Ok u))"

text \<open>
  The raw query sees deleted rows as well. The rows are closed by a deferred call that is set up before the error of the
  query is looked at, so that a failing query is a nil dereference.
\<close>

definition bare_user :: "uuid \<times> string \<Rightarrow> user" where
  "bare_user k = \<lparr>us_Lifecycle = \<lparr>lc_CreatedAt = zero_time, lc_UpdatedAt = zero_time, lc_DeletedAt = None\<rparr>,
     us_ID = fst k, us_Email = snd k, us_FullName = [], us_ImageURL = [], us_Bio = [], us_URL = [], us_Company = [],
     us_ContextInformation = VNil\<rparr>"

definition User_LoadByUsername :: "account_env \<Rightarrow> string \<Rightarrow> user list account_repo" where
  "User_LoadByUsername A username =
     act_gets (\<lambda>s. if env_fault (ae_db A) ''users by name'' \<noteq> None then Panic
       else Ok (map bare_user (remdups (map (\<lambda>u. (us_ID u, us_Email u))
              (filter (\<lambda>u. list_ex (\<lambda>i. id_UserID i = Some (us_ID u) \<and> id_Username i = username) (ac_Identities s))
                 (ac_Users s))))))"

definition User_CheckExists :: "account_env \<Rightarrow> uuid \<Rightarrow> unit account_repo" where
  "User_CheckExists A = CheckExists (ae_uuid A) (ae_db A) ''users'' (\<lambda>s. map us_ID (live_users s))"

definition User_Create :: "account_env \<Rightarrow> user \<Rightarrow> user account_repo" where
  "User_Create A u0 =
     (let E = ae_db A;
          u = (if us_ID u0 = uuid_Nil then u0\<lparr>us_ID := env_newID E ''user''\<rparr> else u0);
          new = u\<lparr>us_Lifecycle := stamped E (us_Lifecycle u)\<rparr>
      in act_bind (act_map_err (EWrap []) (on_users (gorm_insert E ''users'' us_ID (user_violation new) new)))
           (\<lambda>_. act_return new))"

definition User_Save :: "account_env \<Rightarrow> user \<Rightarrow> unit account_repo" where
  "User_Save A u =
     (let E = ae_db A; k = (if us_ID u = uuid_Nil then env_newID E ''saved user'' else us_ID u)
      in act_map_err (EWrap []) (on_users (gorm_save E ''users'' us_Lifecycle us_ID user_violation
           (u\<lparr>us_Lifecycle := touched E (us_Lifecycle u)\<rparr>)
           (u\<lparr>us_ID := k, us_Lifecycle := stamped E (us_Lifecycle u)\<rparr>))))"

definition User_Delete :: "account_env \<Rightarrow> uuid \<Rightarrow> unit account_repo" where
  "User_Delete A i =
     act_bind (act_map_err (EWrap []) (on_users (gorm_delete (ae_db A) ''delete user''
       (\<lambda>x. alive (us_Lifecycle x) \<and> keyed us_ID i x)
       (\<lambda>x. x\<lparr>us_Lifecycle := removed (ae_db A) (us_Lifecycle x)\<rparr>)))) (\<lambda>_. act_return ())"

definition User_PermanentDelete :: "account_env \<Rightarrow> uuid \<Rightarrow> unit account_repo" where
  "User_PermanentDelete A i =
     act_bind (act_map_err NewInternalError (on_users (gorm_purge (ae_db A) ''purge user'' (keyed us_ID i)))) (\<lambda>n.
     if n = 0 then act_fail (user_not_found A i) else act_return ())"

definition User_List :: "account_env \<Rightarrow> user list account_repo" where
  "User_List A =
     act_bind (statement (ae_db A) ''list users'' (EWrap [])) (\<lambda>_.
     act_gets (\<lambda>s. Ok (sort_by (\<lambda>a b. lex_le (name_code (us_Email a)) (name_code (us_Email b))) (live_users s))))"

definition UserFilterByID :: "uuid \<Rightarrow> user \<Rightarrow> bool" where "UserFilterByID i u \<longleftrightarrow> us_ID u = i"

definition UserFilterByEmail :: "string \<Rightarrow> user \<Rightarrow> bool" where "UserFilterByEmail email u \<longleftrightarrow> us_Email u = email"

definition User_Query :: "account_env \<Rightarrow> (user \<Rightarrow> bool) list \<Rightarrow> user list account_repo" where
  "User_Query A funcs =
     act_bind (statement (ae_db A) ''query users'' (EWrap [])) (\<lambda>_.
     act_gets (\<lambda>s. Ok (filter (\<lambda>u. list_all (\<lambda>f. f u) funcs) (live_users s))))"

section \<open>Identities\<close>

definition identity_not_found :: "account_env \<Rightarrow> uuid \<Rightarrow> go_error" where
  "identity_not_found A i = NewNotFoundError ''identity'' (uString (ae_uuid A) i)"

definition Identity_Load :: "account_env \<Rightarrow> uuid \<Rightarrow> identity account_repo" where
  "Identity_Load A i =
     act_bind (statement (ae_db A) ''identity'' (EWrap [])) (\<lambda>_.
     act_gets (\<lambda>s. case by_id id_Lifecycle id_ID i (ac_Identities s) of
         None \<Rightarrow> Err (EWrap [] (identity_not_found A i)) | Some x \<Rightarrow> Ok x))"

definition Identity_CheckExists :: "account_env \<Rightarrow> uuid \<Rightarrow> unit account_repo" where
  "Identity_CheckExists A = CheckExists (ae_uuid A) (ae_db A) ''identities'' (\<lambda>s. map id_ID (live_identities s))"

definition Identity_IsValid :: "account_env \<Rightarrow> uuid \<Rightarrow> account_db \<Rightarrow> bool" where
  "Identity_IsValid A i s \<longleftrightarrow> is_ok (fst (Identity_CheckExists A i s))"

definition Identity_Create :: "account_env \<Rightarrow> identity \<Rightarrow> identity account_repo" where
  "Identity_Create A m0 =
     (let E = ae_db A;
          m = (if id_ID m0 = uuid_Nil then m0\<lparr>id_ID := env_newID E ''identity''\<rparr> else m0);
          new = m\<lparr>id_Lifecycle := stamped E (id_Lifecycle m)\<rparr>
      in act_bind (act_map_err (EWrap []) (on_identities (gorm_insert E ''identities'' id_ID (identity_violation new) new)))
           (\<lambda>_. act_return new))"

text \<open>A scope is a condition with an optional limit; the last limit wins.\<close>

type_synonym identity_scope = "(identity \<Rightarrow> bool) \<times> int option"

definition IdentityFilterByUserID :: "uuid \<Rightarrow> identity_scope" where
  "IdentityFilterByUserID u = ((\<lambda>i. id_UserID i = Some u), None)"

definition IdentityFilterByUsername :: "account_env \<Rightarrow> string \<Rightarrow> identity_scope" where
  "IdentityFilterByUsername A username = ((\<lambda>i. ae_lower A (id_Username i) = ae_ToLower A username), Some 1)"

definition IdentityFilterByProfileURL :: "string \<Rightarrow> identity_scope" where
  "IdentityFilterByProfileURL url = ((\<lambda>i. id_ProfileURL i = Some url), Some 1)"

definition IdentityFilterByID :: "uuid \<Rightarrow> identity_scope" where
  "IdentityFilterByID k = ((\<lambda>i. id_ID i = k), None)"

definition IdentityFilterByProviderType :: "string \<Rightarrow> identity_scope" where
  "IdentityFilterByProviderType t = ((\<lambda>i. id_ProviderType i = t), None)"

definition IdentityFilterByRegistrationCompleted :: "bool \<Rightarrow> identity_scope" where
  "IdentityFilterByRegistrationCompleted b = ((\<lambda>i. id_RegistrationCompleted i = b), None)"

definition scoped :: "identity_scope list \<Rightarrow> account_db \<Rightarrow> identity list" where
  "scoped funcs s =
     (let rows = filter (\<lambda>i. list_all (\<lambda>f. fst f i) funcs) (live_identities s)
      in page_of None (foldl (\<lambda>acc f. if snd f = None then acc else snd f) None funcs) rows)"

definition Identity_Query :: "account_env \<Rightarrow> identity_scope list \<Rightarrow> identity list account_repo" where
  "Identity_Query A funcs =
     act_bind (statement (ae_db A) ''query identities'' (EWrap [])) (\<lambda>_. act_gets (\<lambda>s. Ok (scoped funcs s)))"

definition Identity_First :: "account_env \<Rightarrow> identity_scope list \<Rightarrow> identity option account_repo" where
  "Identity_First A funcs =
     act_bind (statement (ae_db A) ''first identity'' (EWrap [])) (\<lambda>_.
     act_gets (\<lambda>s. Ok (first_row id_ID (filter (\<lambda>i. list_all (\<lambda>f. fst f i) funcs) (live_identities s)))))"

definition remote_identity :: "string \<Rightarrow> string \<Rightarrow> string \<Rightarrow> identity" where
  "remote_identity username profileURL providerType =
     \<lparr>id_Lifecycle = \<lparr>lc_CreatedAt = zero_time, lc_UpdatedAt = zero_time, lc_DeletedAt = None\<rparr>, id_ID = uuid_Nil,
      id_Username = username, id_RegistrationCompleted = False, id_ProviderType = providerType,
      id_ProfileURL = Some profileURL, id_UserID = None\<rparr>"

definition Lookup :: "account_env \<Rightarrow> string \<Rightarrow> string \<Rightarrow> string \<Rightarrow> identity account_repo" where
  "Lookup A username profileURL providerType =
     (if username = [] \<or> profileURL = [] \<or> providerType = [] then
        act_fail (EErrorf ''Cannot lookup identity with empty username, profile URL or provider type'')
      else act_bind (act_map_err (EWrap ''failed to lookup identity by profileURL'')
             (Identity_First A [IdentityFilterByProfileURL profileURL])) (\<lambda>found.
           case found of
             Some i \<Rightarrow> act_return i
           | None \<Rightarrow> act_map_err (EWrap ''failed to create identity during lookup'')
                      (Identity_Create A (remote_identity username profileURL providerType))))"

definition Identity_Save :: "account_env \<Rightarrow> identity \<Rightarrow> unit account_repo" where
  "Identity_Save A m =
     (let E = ae_db A; k = (if id_ID m = uuid_Nil then env_newID E ''saved identity'' else id_ID m)
      in act_map_err (EWrap []) (on_identities (gorm_save E ''identities'' id_Lifecycle id_ID identity_violation
           (m\<lparr>id_Lifecycle := touched E (id_Lifecycle m)\<rparr>)
           (m\<lparr>id_ID := k, id_Lifecycle := stamped E (id_Lifecycle m)\<rparr>))))"

definition Identity_Delete :: "account_env \<Rightarrow> uuid \<Rightarrow> unit account_repo" where
  "Identity_Delete A i =
     act_bind (act_map_err (EWrap []) (on_identities (gorm_delete (ae_db A) ''delete identity''
       (\<lambda>x. alive (id_Lifecycle x) \<and> keyed id_ID i x)
       (\<lambda>x. x\<lparr>id_Lifecycle := removed (ae_db A) (id_Lifecycle x)\<rparr>)))) (\<lambda>n.
     if n = 0 then act_fail (identity_not_found A i) else act_return ())"

definition Identity_List :: "account_env \<Rightarrow> identity list account_repo" where
  "Identity_List A =
     act_bind (statement (ae_db A) ''list identities'' (EWrap [])) (\<lambda>_.
     act_gets (\<lambda>s. Ok (sort_by (\<lambda>a b. lex_le (name_code (id_Username a)) (name_code (id_Username b))) (live_identities s))))"

section \<open>Facts\<close>

lemma on_accounts_Ok_iff:
  "on_users m s = (Ok x, t) \<longleftrightarrow> (\<exists>u. m (ac_Users s) = (Ok x, u) \<and> t = s\<lparr>ac_Users := u\<rparr>)"
  "on_identities n s = (Ok y, t) \<longleftrightarrow> (\<exists>u. n (ac_Identities s) = (Ok y, u) \<and> t = s\<lparr>ac_Identities := u\<rparr>)"
  by (auto simp: on_users_def on_identities_def on_table_Ok_iff)

text \<open>The deletions have no guard against the blank key, for which gorm builds a statement without a condition.\<close>

lemma nil_deletes_every_account:
  assumes "no_faults (ae_db A)"
  shows "live_identities (snd (Identity_Delete A uuid_Nil s)) = []"
    and "live_users (snd (User_Delete A uuid_Nil s)) = []"
    and "ac_Users (snd (User_PermanentDelete A uuid_Nil s)) = []"
  using assms
  by (auto simp: Identity_Delete_def User_Delete_def User_PermanentDelete_def on_identities_def on_users_def on_table_def
      gorm_delete_def gorm_purge_def act_defs live_identities_def live_users_def live_rows_def keyed_def filter_empty_conv
      alive_def removed_def)

lemma load_by_username_panics:
  "env_fault (ae_db A) ''users by name'' \<noteq> None \<Longrightarrow> fst (User_LoadByUsername A username s) = Panic"
  by (simp add: User_LoadByUsername_def act_gets_def)

text \<open>
  C23. Looking an identity up by its profile on a remote service creates it at most once: whatever the lookup returned, a
  second lookup with the same profile, also under another user name, returns that identity and leaves the tables as they are.
\<close>
theorem lookup_creates_once:
  assumes "Lookup A username url provider s = (Ok i, t)"
    and "distinct (map id_ID (ac_Identities s))" "unique_index id_Lifecycle id_ID id_ProfileURL
      (filter (\<lambda>x. id_ProfileURL x \<noteq> None) (ac_Identities s))"
    and "username' \<noteq> []" "provider' \<noteq> []" "no_faults (ae_db A')"
  shows "Lookup A' username' url provider' t = (Ok i, t) \<and> id_ProfileURL i = Some url \<and> alive (id_Lifecycle i)"
proof -
  let ?P = "\<lambda>x. id_ProfileURL x = Some url"
  have url: "url \<noteq> []" using assms(1) by (auto simp: Lookup_def split: if_splits)
  have i: "i \<in> set (filter ?P (live_identities t)) \<and> (\<forall>x \<in> set (filter ?P (live_identities t)). x = i)"
  proof (cases "first_row id_ID (filter ?P (live_identities s))")
    case (Some x)
    then have t: "t = s" "i = x"
      using assms(1) by (auto simp: Lookup_def Identity_First_def IdentityFilterByProfileURL_def act_bind_Ok_iff split: if_splits)
    have x: "x \<in> set (filter ?P (live_identities s))" using first_row_SomeD [OF Some] by blast
    moreover have "y = x" if "y \<in> set (filter ?P (live_identities s))" for y
    proof -
      have "id_ID y = id_ID x"
        by (rule unique_indexD [OF assms(3)]) (use that x in \<open>auto simp: live_identities_def\<close>)
      with assms(2) that x show ?thesis by (auto simp: live_identities_def distinct_map inj_on_def)
    qed
    ultimately show ?thesis unfolding t by blast
  next
    case None
    then have none: "filter ?P (live_identities s) = []" by simp
    with assms(1) have "Identity_Create A (remote_identity username url provider) s = (Ok i, t)"
      by (auto simp: Lookup_def Identity_First_def IdentityFilterByProfileURL_def act_bind_Ok_iff split: if_splits)
    then have "t = s\<lparr>ac_Identities := ac_Identities s @ [i]\<rparr>" "id_ProfileURL i = Some url" "alive (id_Lifecycle i)"
      by (auto simp: Identity_Create_def Let_def remote_identity_def act_bind_Ok_iff on_accounts_Ok_iff gorm_insert_Ok_iff
          alive_def stamped_def)
    then have "filter ?P (live_identities t) = [i]"
      using none by (simp add: live_identities_def live_rows_def)
    then show ?thesis by simp
  qed
  have "first_row id_ID (filter ?P (live_identities t)) = Some i" using i by (intro first_row_unique) auto
  then show ?thesis using i assms(4-6) url
    by (auto simp: Lookup_def Identity_First_def IdentityFilterByProfileURL_def act_bind_def act_gets_def act_map_err_def
        act_return_def no_faults_def live_identities_def)
qed

definition sample_accounts :: account_env where
  "sample_accounts = \<lparr>ae_uuid = canonical_uuid,
     ae_db = \<lparr>env_now = (9, ''UTC''), env_newID = (\<lambda>_. 77), env_fault = (\<lambda>_. None)\<rparr>, ae_lower = (\<lambda>s. s), ae_ToLower = (\<lambda>s. s)\<rparr>"

theorem lookup_creates_once_witness:
  "let s = snd (Lookup sample_accounts ''osio'' ''https://github.com/osio'' ''github'' \<lparr>ac_Users = [], ac_Identities = []\<rparr>)
   in map id_ID (live_identities s) = [77] \<and>
      Lookup sample_accounts ''renamed'' ''https://github.com/osio'' ''github'' s
        = (Ok (hd (live_identities s)), s)"
proof -
  let ?o = "\<lparr>ac_Users = [], ac_Identities = []\<rparr>"
  let ?url = "''https://github.com/osio''"
  let ?i = "(remote_identity ''osio'' ?url ''github'')\<lparr>id_ID := 77,
      id_Lifecycle := stamped (ae_db sample_accounts) \<lparr>lc_CreatedAt = zero_time, lc_UpdatedAt = zero_time, lc_DeletedAt = None\<rparr>\<rparr>"
  let ?s = "\<lparr>ac_Users = [], ac_Identities = [?i]\<rparr>"
  have l: "Lookup sample_accounts ''osio'' ?url ''github'' ?o = (Ok ?i, ?s)"
    by (simp add: Lookup_def Identity_First_def IdentityFilterByProfileURL_def Identity_Create_def remote_identity_def
        statement_def sample_accounts_def live_identities_def live_rows_def identity_violation_def index_taken_def Let_def
        act_bind_Ok_iff on_accounts_Ok_iff gorm_insert_Ok_iff act_return_def)
  have s: "live_identities ?s = [?i]"
    by (simp add: live_identities_def live_rows_def remote_identity_def alive_def stamped_def)
  have "no_faults (ae_db sample_accounts)" by (simp add: sample_accounts_def no_faults_def)
  from lookup_creates_once [OF l _ _ _ _ this, of "''renamed''" "''github''"] l s show ?thesis
    by (simp add: unique_index_def Let_def)
qed

end
