(* ===== verification/Events.thy ===== *)
theory Events
  imports Work_Item_Invariants Accounts
begin

text \<open>
  The history of a work item as a list of events: \<^verbatim>\<open>workitem/event/event.go\<close> and the listing of
  \<^verbatim>\<open>workitem/event/event_repository.go\<close>, which runs the repositories of work items, types, revisions and identities.
\<close>

section \<open>Events\<close>

record event =
  ev_RevisionID :: uuid
  ev_Name :: string
  ev_WorkItemTypeID :: uuid
  ev_Timestamp :: gotime
  ev_Modifier :: uuid
  ev_Old :: goval
  ev_New :: goval

definition Event_GetETagData :: "event \<Rightarrow> goval list" where
  "Event_GetETagData e = [VUUID (ev_RevisionID e), VString (ev_Name e)]"

definition Event_GetLastModified :: "event \<Rightarrow> gotime" where
  "Event_GetLastModified e = time_truncate time_second (ev_Timestamp e)"

definition FilterByRevisionID :: "event list \<Rightarrow> uuid \<Rightarrow> event list" where
  "FilterByRevisionID l revisionID = filter (\<lambda>x. ev_RevisionID x = revisionID) l"

definition WorkitemTypeChangeEvent :: string where
  "WorkitemTypeChangeEvent = ''workitemtype''"

record event_db =
  vd_Items :: wi_db
  vd_Accounts :: account_db

type_synonym 'a event_repo = "(event_db, 'a) action"

definition on_event_items :: "'a repo \<Rightarrow> 'a event_repo" where
  "on_event_items = on_table vd_Items (\<lambda>x s. s\<lparr>vd_Items := x\<rparr>)"

definition on_event_accounts :: "'a account_repo \<Rightarrow> 'a event_repo" where
  "on_event_accounts = on_table vd_Accounts (\<lambda>x s. s\<lparr>vd_Accounts := x\<rparr>)"

section \<open>The events of one revision\<close>

text \<open>
  The value of a field as an event shows it. For a list field, nil counts as the empty list, and a stored value that
  is neither nil nor a slice leaves the variable a nil slice, which is not equal to the empty one.
\<close>

fun event_value :: "field_env \<Rightarrow> field_type \<Rightarrow> goval \<Rightarrow> goval res" where
  "event_value E (FSimple t) v = SimpleType_ConvertFromModel E t v"
| "event_value E (FEnum t) v = EnumType_ConvertFromModel E t v"
| "event_value E (FList t) v =
     (case v of
        VNil \<Rightarrow> Ok (VSlice [])
      | VSlice _ \<Rightarrow> ListType_ConvertFromModel E t v
      | VNilSlice \<Rightarrow> ListType_ConvertFromModel E t v
      | _ \<Rightarrow> Ok VNilSlice)"

definition field_change :: "field_env \<Rightarrow> field_type \<Rightarrow> goval \<Rightarrow> goval \<Rightarrow> (goval \<times> goval) option res" where
  "field_change E ft oldVal newVal =
     res_bind (map_err (EWrap ''failed to convert old value'') (event_value E ft oldVal)) (\<lambda>p.
     res_bind (map_err (EWrap ''failed to convert new value'') (event_value E ft newVal)) (\<lambda>n.
     Ok (if deep_equal p n then None else Some (p, n))))"

definition event_of :: "revision \<Rightarrow> uuid \<Rightarrow> string \<Rightarrow> goval \<Rightarrow> goval \<Rightarrow> event" where
  "event_of newRev modifierID name old new =
     \<lparr>ev_RevisionID = wr_ID newRev, ev_Name = name, ev_WorkItemTypeID = wr_WorkItemTypeID newRev,
      ev_Timestamp = wr_Time newRev, ev_Modifier = modifierID, ev_Old = old, ev_New = new\<rparr>"

text \<open>The loop over the fields of the type; the order of the list is the order in which Go visits the map.\<close>

fun field_events :: "field_env \<Rightarrow> revision \<Rightarrow> revision \<Rightarrow> uuid \<Rightarrow> field_definitions \<Rightarrow> event list res" where
  "field_events E oldRev newRev modifierID [] = Ok []"
| "field_events E oldRev newRev modifierID ((fieldName, fieldDef) # rest) =
     res_bind (field_change E (fd_Type fieldDef) (map_get (wr_WorkItemFields oldRev) fieldName)
                 (map_get (wr_WorkItemFields newRev) fieldName)) (\<lambda>change.
     res_bind (field_events E oldRev newRev modifierID rest) (\<lambda>evs.
     Ok (case change of None \<Rightarrow> evs | Some (p, n) \<Rightarrow> event_of newRev modifierID fieldName p n # evs)))"

definition revision_events :: "field_env \<Rightarrow> work_item_type \<Rightarrow> identity \<Rightarrow> revision \<Rightarrow> revision \<Rightarrow> event list res" where
  "revision_events E wit modifier oldRev newRev =
     (if wr_WorkItemTypeID oldRev \<noteq> wr_WorkItemTypeID newRev then
        Ok [event_of newRev (id_ID modifier) WorkitemTypeChangeEvent
              (VUUID (wr_WorkItemTypeID oldRev)) (VUUID (wr_WorkItemTypeID newRev))]
      else field_events E oldRev newRev (id_ID modifier) (wt_Fields wit))"

section \<open>The listing\<close>

fun revision_steps :: "repo_env \<Rightarrow> account_env \<Rightarrow> revision \<Rightarrow> revision list \<Rightarrow> event list event_repo" where
  "revision_steps R A oldRev [] = act_return []"
| "revision_steps R A oldRev (newRev # revs) =
     act_bind (act_map_err (EWrap ''failed to load old work item type'')
       (on_event_items (WITR_Load R (wr_WorkItemTypeID oldRev)))) (\<lambda>wit.
     act_bind (act_map_err (EWrap ''failed to load modifier identity'')
       (on_event_accounts (Identity_Load A (wr_ModifierIdentity newRev)))) (\<lambda>modifier.
     act_bind (act_lift (revision_events (re_field R) wit modifier oldRev newRev)) (\<lambda>evs.
     act_bind (revision_steps R A newRev revs) (\<lambda>later.
     act_return (evs @ later)))))"

text \<open>\<open>nilRows\<close> tells whether gorm leaves the slice nil when no row is found.\<close>

definition Event_List :: "repo_env \<Rightarrow> account_env \<Rightarrow> bool \<Rightarrow> uuid \<Rightarrow> event list event_repo" where
  "Event_List R A nilRows wiID =
     act_bind (act_map_err (EWrap ''failed to list revisions for work item'') (on_event_items (Revision_List R wiID))) (\<lambda>revisionList.
     if nilRows \<and> revisionList = [] then act_return []
     else act_bind (act_map_err (EWrap ''failed to find work item'') (on_event_items (WIR_CheckExists R wiID))) (\<lambda>_.
       case revisionList of [] \<Rightarrow> act_return [] | r # rs \<Rightarrow> revision_steps R A r rs))"

section \<open>Facts\<close>

text \<open>Deep equality is transitive, so that small differences do not add up unnoticed.\<close>

lemma deep_equal_trans: "deep_equal a b \<Longrightarrow> deep_equal b c \<Longrightarrow> deep_equal a c"
proof (induction a b arbitrary: c rule: deep_equal.induct)
  case (1 xs b)
  then obtain ys where b: "b = VSlice ys" "length xs = length ys" "\<forall>(x, y) \<in> set (zip xs ys). deep_equal x y"
    by (auto split: goval.splits)
  from 1(3) b obtain zs where c: "c = VSlice zs" "length ys = length zs" "\<forall>(x, y) \<in> set (zip ys zs). deep_equal x y"
    by (auto split: goval.splits)
  have "deep_equal (xs ! i) (zs ! i)" if i: "i < length xs" for i
  proof -
    have m: "(xs ! i, ys ! i) \<in> set (zip xs ys)" "(ys ! i, zs ! i) \<in> set (zip ys zs)"
      using i b(2) c(2) by (auto simp: set_zip)
    show ?thesis by (rule 1(1) [OF b(1) m(1) refl]) (use m b(3) c(3) in \<open>blast+\<close>)
  qed
  then show ?case using b(2) c by (auto simp: set_zip)
next
  case (2 m b)
  then obtain n where b: "b = VMap n" "length m = length n"
    "\<forall>(k, v) \<in> set m. case map_of n k of None \<Rightarrow> False | Some w \<Rightarrow> deep_equal v w"
    by (auto split: goval.splits)
  from 2(3) b obtain p where c: "c = VMap p" "length n = length p"
    "\<forall>(k, v) \<in> set n. case map_of p k of None \<Rightarrow> False | Some w \<Rightarrow> deep_equal v w"
    by (auto split: goval.splits)
  have "case map_of p k of None \<Rightarrow> False | Some x \<Rightarrow> deep_equal v x" if kv: "(k, v) \<in> set m" for k v
  proof -
    from b(3) kv obtain w where w: "map_of n k = Some w" "deep_equal v w" by (auto split: option.splits)
    with c(3) map_of_SomeD [OF w(1)] obtain x where x: "map_of p k = Some x" "deep_equal w x"
      by (auto split: option.splits)
    have "deep_equal v x" by (rule 2(1) [OF b(1) kv refl w(1)]) (use w x in auto)
    with x show ?thesis by simp
  qed
  then show ?case using b(2) c by auto
qed (auto simp: go_eq_def f_eq_def split: goval.splits if_splits)


text \<open>Each of the loops, and the type that is loaded once and found in the cache afterwards.\<close>

lemma field_events_Ok:
  assumes "field_events E oldRev newRev m fs = Ok evs" "distinct (map fst fs)" "(f, d) \<in> set fs"
  shows "\<exists>p n. event_value E (fd_Type d) (map_get (wr_WorkItemFields oldRev) f) = Ok p \<and>
    event_value E (fd_Type d) (map_get (wr_WorkItemFields newRev) f) = Ok n \<and>
    filter (\<lambda>e. ev_Name e = f) evs = (if deep_equal p n then [] else [event_of newRev m f p n])"
  using assms
proof (induction fs arbitrary: evs)
  case (Cons x fs)
  obtain g e where x: "x = (g, e)" by force
  from Cons.prems(1) x obtain p n later where
    c: "event_value E (fd_Type e) (map_get (wr_WorkItemFields oldRev) g) = Ok p"
       "event_value E (fd_Type e) (map_get (wr_WorkItemFields newRev) g) = Ok n"
    and later: "field_events E oldRev newRev m fs = Ok later"
    and evs: "evs = (if deep_equal p n then later else event_of newRev m g p n # later)"
    by (auto simp: field_change_def split: if_splits)
  show ?case
  proof (cases "(f, d) = x")
    case True
    have "filter (\<lambda>e. ev_Name e = g) later = []" if "g \<notin> fst ` set fs"
      using later that
    proof (induction fs arbitrary: later)
      case (Cons y fs)
      then show ?case by (cases y) (auto simp: field_change_def event_of_def split: option.splits if_splits)
    qed simp
    then show ?thesis using True x c evs Cons.prems(2) by (auto simp: event_of_def)
  next
    case False
    then have "(f, d) \<in> set fs" "g \<noteq> f" using Cons.prems x by force+
    with Cons.IH [OF later] Cons.prems(2) evs show ?thesis by (auto simp: event_of_def)
  qed
qed simp

lemma field_events_differ:
  "field_events E oldRev newRev m fs = Ok evs \<Longrightarrow> e \<in> set evs \<Longrightarrow>
     ev_RevisionID e = wr_ID newRev \<and> ev_Modifier e = m \<and> \<not> deep_equal (ev_Old e) (ev_New e)"
proof (induction fs arbitrary: evs)
  case (Cons x fs)
  then show ?case by (cases x) (auto simp: field_change_def event_of_def split: option.splits if_splits)
qed simp

lemma WITR_Load_cached:
  "WITR_Load R i s = (Ok t, s') \<Longrightarrow> db_cache s' i = Some t"
  by (auto simp: WITR_Load_def act_bind_Ok_iff act_return_def act_modify_def Cache_Get_def Cache_Put_def Let_def find_type_def
      dest!: first_row_SomeD split: option.splits)

lemma cached_load: "db_cache s i = Some t \<Longrightarrow> WITR_Load R i s = (Ok t, s)"
  by (simp add: WITR_Load_def act_defs Cache_Get_def)

lemma Identity_Load_reads: "Identity_Load A i s = (Ok x, t) \<Longrightarrow> t = s"
  by (auto simp: Identity_Load_def act_bind_Ok_iff statement_def act_return_def act_fail_def split: option.splits)

text \<open>Replaying events on the values they show.\<close>

definition replay :: "event list \<Rightarrow> (string \<Rightarrow> goval) \<Rightarrow> string \<Rightarrow> goval" where
  "replay evs m = fold (\<lambda>e m. m(ev_Name e := ev_New e)) evs m"

lemma replay_append [simp]: "replay (xs @ ys) m = replay ys (replay xs m)"
  by (simp add: replay_def)

lemma replay_field: "replay evs m f = replay (filter (\<lambda>e. ev_Name e = f) evs) m f"
proof -
  have folded: "replay xs m f = fold (\<lambda>e v. if ev_Name e = f then ev_New e else v) xs (m f)" for xs
    unfolding replay_def by (induction xs arbitrary: m) simp_all
  have "fold (\<lambda>e v. if ev_Name e = f then ev_New e else v) evs x =
      fold (\<lambda>e v. if ev_Name e = f then ev_New e else v) (filter (\<lambda>e. ev_Name e = f) evs) x" for x
    by (induction evs arbitrary: x) simp_all
  then show ?thesis unfolding folded .
qed

definition shows_as :: "goval \<Rightarrow> goval \<Rightarrow> bool" where
  "shows_as x y \<longleftrightarrow> x = y \<or> deep_equal x y"

lemma replay_revision:
  assumes "field_events E oldRev newRev m fs = Ok evs" "distinct (map fst fs)" "(f, d) \<in> set fs"
    and "event_value E (fd_Type d) (map_get (wr_WorkItemFields oldRev) f) = Ok p" "shows_as (st f) p"
  shows "\<exists>n. event_value E (fd_Type d) (map_get (wr_WorkItemFields newRev) f) = Ok n \<and> shows_as (replay evs st f) n"
proof -
  from field_events_Ok [OF assms(1-3)] assms(4) obtain n where
    n: "event_value E (fd_Type d) (map_get (wr_WorkItemFields newRev) f) = Ok n"
      "filter (\<lambda>e. ev_Name e = f) evs = (if deep_equal p n then [] else [event_of newRev m f p n])"
    by auto
  have "shows_as (replay evs st f) n"
    unfolding replay_field [of evs] n(2)
    using assms(5) by (auto simp: replay_def shows_as_def event_of_def dest: deep_equal_trans)
  with n(1) show ?thesis by blast
qed

lemma revision_steps_Cons:
  assumes "revision_steps R A r (r' # rs) s = (Ok evs, t)"
  shows "\<exists>wit m evs1 evs2 u. WITR_Load R (wr_WorkItemTypeID r) (vd_Items s) = (Ok wit, u) \<and>
    revision_events (re_field R) wit m r r' = Ok evs1 \<and> revision_steps R A r' rs (s\<lparr>vd_Items := u\<rparr>) = (Ok evs2, t) \<and>
    evs = evs1 @ evs2"
  using assms
  by (auto simp: act_bind_Ok_iff act_return_def on_event_items_def on_event_accounts_def on_table_Ok_iff dest!: Identity_Load_reads)

lemma revision_steps_same:
  assumes "revision_steps R A r (r' # rs) s = (Ok evs, t)" "wr_WorkItemTypeID r = ty" "wr_WorkItemTypeID r' = ty"
  shows "\<exists>wit m evs1 evs2 u. WITR_Load R ty (vd_Items s) = (Ok wit, u) \<and>
    field_events (re_field R) r r' m (wt_Fields wit) = Ok evs1 \<and>
    revision_steps R A r' rs (s\<lparr>vd_Items := u\<rparr>) = (Ok evs2, t) \<and> evs = evs1 @ evs2"
  using revision_steps_Cons [OF assms(1)] assms(2,3) unfolding revision_events_def by metis

lemma replay_steps:
  assumes "revision_steps R A r rs s = (Ok evs, t)" "\<forall>x \<in> set (r # rs). wr_WorkItemTypeID x = ty"
    and "db_cache (vd_Items s) ty = Some wit" "distinct (map fst (wt_Fields wit))" "(f, d) \<in> set (wt_Fields wit)"
    and "event_value (re_field R) (fd_Type d) (map_get (wr_WorkItemFields r) f) = Ok p" "shows_as (st f) p"
  shows "\<exists>n. event_value (re_field R) (fd_Type d) (map_get (wr_WorkItemFields (last (r # rs))) f) = Ok n \<and>
    shows_as (replay evs st f) n"
  using assms
proof (induction rs arbitrary: r s evs st p)
  case Nil
  then show ?case by (auto simp: act_return_def replay_def)
next
  case (Cons r' rs)
  from revision_steps_same [OF Cons.prems(1), of ty] Cons.prems(2) obtain wit' m evs1 evs2 u where
    load: "WITR_Load R ty (vd_Items s) = (Ok wit', u)" and one: "field_events (re_field R) r r' m (wt_Fields wit') = Ok evs1"
    and two: "revision_steps R A r' rs (s\<lparr>vd_Items := u\<rparr>) = (Ok evs2, t)" and evs: "evs = evs1 @ evs2"
    by auto
  from load cached_load [OF Cons.prems(3)] have [simp]: "wit' = wit" "u = vd_Items s" by auto
  from replay_revision [where st=st, OF one [simplified] Cons.prems(4-7)] obtain n where
    n: "event_value (re_field R) (fd_Type d) (map_get (wr_WorkItemFields r') f) = Ok n" "shows_as (replay evs1 st f) n"
    by blast
  from Cons.IH [where st="replay evs1 st", OF two _ _ Cons.prems(4,5) n] Cons.prems(2,3) evs show ?case by auto
qed

lemma steps_differ:
  "revision_steps R A r rs s = (Ok evs, t) \<Longrightarrow> \<forall>x \<in> set (r # rs). wr_WorkItemTypeID x = ty \<Longrightarrow> e \<in> set evs \<Longrightarrow>
     ev_RevisionID e \<in> wr_ID ` set rs \<and> \<not> deep_equal (ev_Old e) (ev_New e)"
proof (induction rs arbitrary: r s evs)
  case (Cons r' rs)
  have "wr_WorkItemTypeID r = ty" "wr_WorkItemTypeID r' = ty" using Cons.prems(2) by auto
  from revision_steps_same [OF Cons.prems(1) this] obtain wit :: work_item_type and m evs1 evs2 u where
    one: "field_events (re_field R) r r' m (wt_Fields wit) = Ok evs1"
    and two: "revision_steps R A r' rs (s\<lparr>vd_Items := u\<rparr>) = (Ok evs2, t)" and evs: "evs = evs1 @ evs2"
    by metis
  from field_events_differ [OF one] Cons.IH [OF two] Cons.prems evs show ?case by auto
qed (auto simp: act_return_def)

text \<open>
  C13. The events of a work item are a lossless history: as long as its type does not change, replaying them on what the
  first revision shows of a field yields what the last revision shows of it (up to deep equality), every event belongs
  to a later revision, and no event reports a change between deeply equal values.
\<close>
theorem events_replay_history:
  assumes "Event_List R A nilRows i s = (Ok evs, t)"
    and "Revision_List R i (vd_Items s) = (Ok revs, u)" "2 \<le> length revs"
    and "\<forall>r \<in> set revs. wr_WorkItemTypeID r = ty" "WITR_Load R ty (vd_Items s) = (Ok wit, v)"
    and "distinct (map fst (wt_Fields wit))" "(f, d) \<in> set (wt_Fields wit)"
  shows "(\<exists>x y. event_value (re_field R) (fd_Type d) (map_get (wr_WorkItemFields (hd revs)) f) = Ok x \<and>
      event_value (re_field R) (fd_Type d) (map_get (wr_WorkItemFields (last revs)) f) = Ok y \<and>
      shows_as (replay evs ((\<lambda>_. VNil)(f := x)) f) y) \<and>
    (\<forall>e \<in> set evs. ev_RevisionID e \<in> wr_ID ` set (tl revs) \<and> \<not> deep_equal (ev_Old e) (ev_New e))"
proof -
  from assms(3) obtain r r' rs where revs: "revs = r # r' # rs" by (cases revs; cases "tl revs") auto
  have u: "u = vd_Items s" using assms(2)
    by (auto simp: Revision_List_def act_bind_Ok_iff statement_def act_return_def act_fail_def split: option.splits)
  have checked: "on_event_items (WIR_CheckExists R i) s = (Ok (), z) \<Longrightarrow> z = s" for z
    by (auto simp: on_event_items_def on_table_Ok_iff WIR_CheckExists_def CheckExists_def Exists_def act_bind_Ok_iff statement_def
        act_return_def act_fail_def split: option.splits if_splits)
  have "on_event_items (Revision_List R i) s = (Ok revs, s)"
    using assms(2) u by (simp add: on_event_items_def on_table_Ok_iff)
  with assms(1) checked revs have steps: "revision_steps R A r (r' # rs) s = (Ok evs, t)"
    by (fastforce simp: Event_List_def act_bind_Ok_iff)
  from revision_steps_same [OF steps, of ty] assms(4,5) revs obtain m evs1 evs2 where
    one: "field_events (re_field R) r r' m (wt_Fields wit) = Ok evs1"
    and two: "revision_steps R A r' rs (s\<lparr>vd_Items := v\<rparr>) = (Ok evs2, t)" and evs: "evs = evs1 @ evs2"
    by auto
  from field_events_Ok [OF one assms(6,7)] obtain x where
    x: "event_value (re_field R) (fd_Type d) (map_get (wr_WorkItemFields r) f) = Ok x" by blast
  from replay_revision [OF one assms(6,7) x, of "(\<lambda>_. VNil)(f := x)"] obtain n where
    n: "event_value (re_field R) (fd_Type d) (map_get (wr_WorkItemFields r') f) = Ok n"
      "shows_as (replay evs1 ((\<lambda>_. VNil)(f := x)) f) n"
    by (auto simp: shows_as_def)
  have "\<exists>y. event_value (re_field R) (fd_Type d) (map_get (wr_WorkItemFields (last (r' # rs))) f) = Ok y \<and>
      shows_as (replay evs2 (replay evs1 ((\<lambda>_. VNil)(f := x))) f) y"
    by (rule replay_steps [where st="replay evs1 ((\<lambda>_. VNil)(f := x))", OF two _ _ assms(6,7) n]) (use assms(4) revs WITR_Load_cached [OF assms(5)] in auto)
  with x evs revs steps_differ [OF steps, of ty] assms(4) show ?thesis by auto
qed

definition sample_revision :: "uuid \<Rightarrow> int \<Rightarrow> string \<Rightarrow> revision" where
  "sample_revision i time title = \<lparr>wr_ID = i, wr_Time = (time, ''UTC''), wr_Type = RevisionTypeUpdate, wr_ModifierIdentity = 8,
     wr_WorkItemID = 5, wr_WorkItemTypeID = 9, wr_WorkItemVersion = 0, wr_WorkItemFields = [(SystemTitle, VString title)]\<rparr>"

definition sample_identity :: identity where
  "sample_identity = (remote_identity ''osio'' ''url'' ''kc'')\<lparr>id_ID := 8\<rparr>"

definition sample_history :: event_db where
  "sample_history = \<lparr>vd_Items = \<lparr>db_items = [sample_storage],
       db_revisions = [sample_revision 12 30 ''b'', sample_revision 10 10 ''a'', sample_revision 11 20 ''a''],
       db_sequences = (\<lambda>_. None), db_types = [sample_type], db_childTypes = [], db_spaces = [],
       db_cache = Cache_Put NewWorkItemTypeCache sample_type\<rparr>,
     vd_Accounts = \<lparr>ac_Users = [], ac_Identities = [sample_identity]\<rparr>\<rparr>"

lemma sample_revision_columns [simp]:
  "wr_WorkItemTypeID (sample_revision i a x) = 9" "wr_ModifierIdentity (sample_revision i a x) = 8"
  "wr_ID (sample_revision i a x) = i" "map_get (wr_WorkItemFields (sample_revision i a x)) SystemTitle = VString x"
  by (simp_all add: sample_revision_def map_get_def)

lemma sample_revision_list:
  "Revision_List repo_sample 5 (vd_Items sample_history) =
     (Ok [sample_revision 10 10 ''a'', sample_revision 11 20 ''a'', sample_revision 12 30 ''b''], vd_Items sample_history)"
  by (simp add: Revision_List_def statement_def act_defs sample_history_def sample_revision_def repo_sample_def)

lemma sample_history_loads:
  "WITR_Load repo_sample 9 (vd_Items sample_history) = (Ok sample_type, vd_Items sample_history)"
  "Identity_Load sample_accounts 8 (vd_Accounts sample_history) =
     (Ok sample_identity, vd_Accounts sample_history)"
  "WIR_CheckExists repo_sample 5 (vd_Items sample_history) = (Ok (), vd_Items sample_history)"
proof -
  have db: "db_cache (vd_Items sample_history) 9 = Some sample_type" "live_items (vd_Items sample_history) = [sample_storage]"
    by (simp_all add: sample_history_def Cache_Put_def sample_type_def live_items_def)
  show "WITR_Load repo_sample 9 (vd_Items sample_history) = (Ok sample_type, vd_Items sample_history)"
    by (rule cached_load [OF db(1)])
  have "wi_ID sample_storage = 5" by (simp add: sample_storage_def)
  with db(2) show "WIR_CheckExists repo_sample 5 (vd_Items sample_history) = (Ok (), vd_Items sample_history)"
    by (simp add: WIR_CheckExists_def CheckExists_def Exists_def statement_def act_defs)
  have ids: "by_id id_Lifecycle id_ID 8 (ac_Identities (vd_Accounts sample_history)) = Some sample_identity"
    by (simp add: sample_history_def by_id_def live_rows_def sample_identity_def remote_identity_def alive_def)
  have "env_fault (ae_db sample_accounts) l = None" for l by (simp add: sample_accounts_def)
  with ids show "Identity_Load sample_accounts 8 (vd_Accounts sample_history) = (Ok sample_identity, vd_Accounts sample_history)"
    by (simp add: Identity_Load_def statement_def act_defs)
qed

lemma sample_identity_ID [simp]: "id_ID sample_identity = 8"
  by (simp add: sample_identity_def)

lemma sample_shown [simp]:
  "event_value E (fd_Type (plain_field KindString)) (VString x) = Ok (VString x)"
  by (simp add: plain_field_def simple_of_def SimpleType_ConvertFromModel_def string_kind_def)

lemma sample_events:
  "revision_events E sample_type m (sample_revision i a x) (sample_revision j b y) =
     Ok (if x = y then [] else [event_of (sample_revision j b y) (id_ID m) SystemTitle (VString x) (VString y)])"
proof -
  have "wt_Fields sample_type = [(SystemTitle, plain_field KindString), (SystemNumber, plain_field KindInteger)]"
    by (simp add: sample_type_def)
  moreover have "event_value E (fd_Type (plain_field KindInteger)) VNil = Ok VNil"
    by (simp add: plain_field_def SimpleType_ConvertFromModel_def)
  moreover have "map_get (wr_WorkItemFields (sample_revision i a x)) SystemNumber = VNil" for i a x
    by (simp add: sample_revision_def map_get_def SystemTitle_def SystemNumber_def)
  ultimately show ?thesis
    by (simp add: revision_events_def field_change_def go_eq_def)
qed

lemma sample_event_list:
  "Event_List repo_sample sample_accounts False 5 sample_history =
     (Ok [event_of (sample_revision 12 30 ''b'') 8 SystemTitle (VString ''a'') (VString ''b'')], sample_history)"
proof -
  have step: "revision_steps repo_sample sample_accounts (sample_revision i a x) (sample_revision j b y # rs) sample_history =
      act_bind (act_return (if x = y then [] else [event_of (sample_revision j b y) 8 SystemTitle (VString x) (VString y)]))
        (\<lambda>evs. act_bind (revision_steps repo_sample sample_accounts (sample_revision j b y) rs)
        (\<lambda>later. act_return (evs @ later))) sample_history" for i a x j b y rs
    by (simp add: act_bind_def act_map_err_def on_event_items_def on_event_accounts_def on_table_def sample_history_loads
        sample_events [where m = sample_identity, unfolded sample_identity_ID] act_lift_def act_return_def)
  have "revision_steps repo_sample sample_accounts (sample_revision 10 10 ''a'')
      [sample_revision 11 20 ''a'', sample_revision 12 30 ''b''] sample_history =
      (Ok [event_of (sample_revision 12 30 ''b'') 8 SystemTitle (VString ''a'') (VString ''b'')], sample_history)"
    by (simp add: step act_bind_def act_return_def del: revision_steps.simps(2))
  then show ?thesis
    by (simp add: Event_List_def act_bind_def act_map_err_def on_event_items_def on_table_def sample_revision_list sample_history_loads
        del: revision_steps.simps)
qed

theorem events_replay_history_witness:
  "\<exists>evs. fst (Event_List repo_sample sample_accounts False 5 sample_history) = Ok evs \<and>
     map ev_RevisionID evs = [12] \<and> shows_as (replay evs ((\<lambda>_. VNil)(SystemTitle := VString ''a'')) SystemTitle) (VString ''b'')"
proof -
  have fields: "distinct (map fst (wt_Fields sample_type))" "(SystemTitle, plain_field KindString) \<in> set (wt_Fields sample_type)"
    by (simp_all add: sample_type_def SystemTitle_def SystemNumber_def)
  let ?evs = "[event_of (sample_revision 12 30 ''b'') 8 SystemTitle (VString ''a'') (VString ''b'')]"
  let ?revs = "[sample_revision 10 10 ''a'', sample_revision 11 20 ''a'', sample_revision 12 30 ''b'']"
  have "2 \<le> length ?revs" "\<forall>r \<in> set ?revs. wr_WorkItemTypeID r = 9" by simp_all
  note replayed = events_replay_history [OF sample_event_list sample_revision_list this sample_history_loads(1) fields]
  have ends: "hd ?revs = sample_revision 10 10 ''a''" "last ?revs = sample_revision 12 30 ''b''" by simp_all
  from conjunct1 [OF replayed] obtain x y where
    "(Ok (VString ''a'') :: goval res) = Ok x" "(Ok (VString ''b'') :: goval res) = Ok y"
    "shows_as (replay ?evs ((\<lambda>_. VNil)(SystemTitle := x)) SystemTitle) y"
    unfolding ends sample_revision_columns sample_shown by (elim exE conjE)
  then have "shows_as (replay ?evs ((\<lambda>_. VNil)(SystemTitle := VString ''a'')) SystemTitle) (VString ''b'')"
    by (simp only: gres.inject)
  moreover have "map ev_RevisionID ?evs = [12]" by (simp add: event_of_def)
  ultimately show ?thesis by (intro exI [of _ ?evs] conjI) (simp_all only: sample_event_list fst_conv)
qed

end
