(* ===== verification/Csv_Export.thy ===== *)
theory Csv_Export
  imports Events Iterations Areas Labels Links
begin

text \<open>
  The export of work items as CSV: \<^verbatim>\<open>ConvertWorkItemsToCSV\<close> of \<^verbatim>\<open>controller/workitem.go\<close> with the functions it
  calls, over the repositories of work items, identities, iterations, areas and labels, and the writer of
  \<^verbatim>\<open>encoding/csv\<close> as far as it is used. Texts are valid UTF-8.
\<close>

section \<open>Writing CSV\<close>

text \<open>Fields that start with a space are quoted too; the spaces outside ASCII are two or three bytes long.\<close>

definition leading_space :: "string \<Rightarrow> bool" where
  "leading_space s \<longleftrightarrow>
     (case map of_char s :: nat list of
        [] \<Rightarrow> False
      | c # cs \<Rightarrow> 9 \<le> c \<and> c \<le> 13 \<or> c = 32 \<or>
          c = 194 \<and> take 1 cs \<in> {[133], [160]} \<or>
          c = 225 \<and> take 2 cs = [154, 128] \<or>
          c = 226 \<and> (take 1 cs = [128] \<and> (\<exists>d \<in> set (take 1 (drop 1 cs)). 128 \<le> d \<and> d \<le> 138 \<or> d \<in> {168, 169, 175}) \<or>
                     take 2 cs = [129, 159]) \<or>
          c = 227 \<and> take 2 cs = [128, 128])"

definition fieldNeedsQuotes :: "string \<Rightarrow> bool" where
  "fieldNeedsQuotes field \<longleftrightarrow>
     field \<noteq> [] \<and>
     (field = [CHR 0x5C, CHR ''.''] \<or> list_ex (\<lambda>c. c \<in> {CHR '','', CHR 0x22, CHR 0x0D, CHR 0x0A}) field \<or> leading_space field)"

definition csv_field :: "string \<Rightarrow> string" where
  "csv_field field =
     (if fieldNeedsQuotes field
      then CHR 0x22 # concat (map (\<lambda>c. if c = CHR 0x22 then [CHR 0x22, CHR 0x22] else [c]) field) @ [CHR 0x22]
      else field)"

definition csv_line :: "string list \<Rightarrow> string" where
  "csv_line record = Join (map csv_field record) '','' @ [CHR 0x0A]"

definition WriteAll :: "string list list \<Rightarrow> string" where
  "WriteAll records = concat (map csv_line records)"

section \<open>State\<close>

text \<open>
  The tables, the map of numbers that the caller passes in, the cache of names of one export, and the variable that the
  transaction of \<^verbatim>\<open>resolveNumberByWorkItemID\<close> assigns.
\<close>

record export_db =
  xd_Items :: wi_db
  xd_Accounts :: account_db
  xd_Iterations :: iteration_db
  xd_Areas :: area_db
  xd_Labels :: "label list"
  xd_Numbers :: "string \<rightharpoonup> string"
  xd_Names :: "string \<rightharpoonup> string"
  xd_numberInt :: "64 word"

type_synonym 'a export = "(export_db, 'a) action"

record export_env =
  xe_repo :: repo_env
  xe_accounts :: account_env
  xe_iterations :: iteration_env
  xe_stack :: string
  xe_timeout :: bool

abbreviation xe_uuid :: "export_env \<Rightarrow> uuid_lib" where
  "xe_uuid X \<equiv> re_uuid (xe_repo X)"

abbreviation xe_db :: "export_env \<Rightarrow> db_env" where
  "xe_db X \<equiv> re_db (xe_repo X)"

definition rollback_export :: "export_db \<Rightarrow> export_db \<Rightarrow> export_db" where
  "rollback_export s t = t\<lparr>xd_Items := rollback_db (xd_Items s) (xd_Items t), xd_Accounts := xd_Accounts s,
     xd_Iterations := xd_Iterations s, xd_Areas := xd_Areas s, xd_Labels := xd_Labels s\<rparr>"

definition remember_number :: "string \<Rightarrow> string \<Rightarrow> unit export" where
  "remember_number i n = act_modify (\<lambda>s. s\<lparr>xd_Numbers := (xd_Numbers s)(i \<mapsto> n)\<rparr>)"

section \<open>Numbers of related work items\<close>

definition checkNumberCache :: "(string \<rightharpoonup> string) \<Rightarrow> string \<Rightarrow> string option" where
  "checkNumberCache idNumberMap entryID = idNumberMap entryID"

definition resolveNumberByWorkItemID :: "export_env \<Rightarrow> uuid \<Rightarrow> string export" where
  "resolveNumberByWorkItemID X workItemID =
     act_bind (act_modify (\<lambda>s. s\<lparr>xd_numberInt := 0\<rparr>)) (\<lambda>_.
     act_bind (Transactional (xe_db X) (xe_stack X) (xe_timeout X) rollback_export
       (act_bind (act_map_err (EWrap (''error retrieving number for workItemID: '' @ uString (xe_uuid X) workItemID))
          (on_table xd_Items (\<lambda>w s. s\<lparr>xd_Items := w\<rparr>) (LoadByID (xe_repo X) workItemID))) (\<lambda>wi.
        case map_get (w_Fields wi) SystemNumber of
          VInt n \<Rightarrow> act_modify (\<lambda>s. s\<lparr>xd_numberInt := n\<rparr>)
        | _ \<Rightarrow> act_bind (act_modify (\<lambda>s. s\<lparr>xd_numberInt := 0\<rparr>)) (\<lambda>_.
             act_fail (EErrorf (''error converting number for workItemID: '' @ uString (xe_uuid X) workItemID)))))) (\<lambda>_.
     act_gets (\<lambda>s. Ok (itoa (sint (xd_numberInt s))))))"

definition cached_number :: "export_env \<Rightarrow> (go_error \<Rightarrow> go_error) \<Rightarrow> uuid \<Rightarrow> string export" where
  "cached_number X wrap i =
     act_bind (act_gets (\<lambda>s. Ok (checkNumberCache (xd_Numbers s) (uString (xe_uuid X) i)))) (\<lambda>cached.
     case cached of
       Some n \<Rightarrow> act_return n
     | None \<Rightarrow>
         act_bind (act_map_err wrap (resolveNumberByWorkItemID X i)) (\<lambda>n.
         act_bind (remember_number (uString (xe_uuid X) i) n) (\<lambda>_. act_return n)))"

fun cached_numbers :: "export_env \<Rightarrow> (go_error \<Rightarrow> go_error) \<Rightarrow> uuid list \<Rightarrow> string list export" where
  "cached_numbers X wrap [] = act_return []"
| "cached_numbers X wrap (i # is) =
     act_bind (cached_number X wrap i) (\<lambda>n. act_bind (cached_numbers X wrap is) (\<lambda>ns. act_return (n # ns)))"

section \<open>Values of fields\<close>

definition load_name :: "export_env \<Rightarrow> kind \<Rightarrow> uuid \<Rightarrow> string export" where
  "load_name X kind i =
     (case kind of
        KindUser \<Rightarrow> act_bind (on_table xd_Accounts (\<lambda>t s. s\<lparr>xd_Accounts := t\<rparr>) (Identity_Load (xe_accounts X) i))
          (\<lambda>u. act_return (id_Username u))
      | KindIteration \<Rightarrow> act_bind (on_table xd_Iterations (\<lambda>t s. s\<lparr>xd_Iterations := t\<rparr>) (fresh_handle (Iteration_Load (xe_iterations X) i)))
          (\<lambda>u. act_return (it_Name u))
      | KindArea \<Rightarrow> act_bind (on_table xd_Areas (\<lambda>t s. s\<lparr>xd_Areas := t\<rparr>) (fresh_handle (Area_Load (xe_uuid X) (xe_db X) i)))
          (\<lambda>u. act_return (ar_Name u))
      | _ \<Rightarrow> act_bind (on_table xd_Labels (\<lambda>t s. s\<lparr>xd_Labels := t\<rparr>) (Label_Load (xe_uuid X) (xe_db X) i))
          (\<lambda>u. act_return (la_Name u)))"

definition cached_name :: "export_env \<Rightarrow> kind \<Rightarrow> string \<Rightarrow> string export" where
  "cached_name X kind key =
     act_bind (act_gets (\<lambda>s. Ok (xd_Names s key))) (\<lambda>cached.
     case cached of
       Some n \<Rightarrow> act_return n
     | None \<Rightarrow>
         (case uFromString (xe_uuid X) key of
            None \<Rightarrow> act_fail (EWrap ''failed to convert value to string for field key'' (EErrorf ''uuid''))
          | Some i \<Rightarrow>
              act_bind (act_map_err (EWrap ''failed to retrieve value for field key'') (load_name X kind i)) (\<lambda>n.
              act_bind (act_modify (\<lambda>s. s\<lparr>xd_Names := (xd_Names s)(key \<mapsto> n)\<rparr>)) (\<lambda>_. act_return n))))"

definition convertValueToString :: "export_env \<Rightarrow> goval \<Rightarrow> string list \<Rightarrow> kind \<Rightarrow> string export" where
  "convertValueToString X fieldValueGeneric fieldValueStrSlice kind =
     (case fieldValueStrSlice of
        [v] \<Rightarrow>
          if fieldValueGeneric \<noteq> VNil \<and> kind \<in> {KindUser, KindIteration, KindArea, KindLabel}
          then cached_name X kind v else act_return v
      | _ \<Rightarrow> act_return [])"

fun convert_elements :: "export_env \<Rightarrow> goval \<Rightarrow> kind \<Rightarrow> string list \<Rightarrow> string list export" where
  "convert_elements X generic kind [] = act_return []"
| "convert_elements X generic kind (e # es) =
     act_bind (act_map_err (EWrap ''failed to convert compound type value to string for field key'')
       (convertValueToString X generic [e] kind)) (\<lambda>v.
     act_bind (convert_elements X generic kind es) (\<lambda>vs. act_return (v # vs)))"

definition field_value_text :: "export_env \<Rightarrow> field_type \<Rightarrow> goval \<Rightarrow> string export" where
  "field_value_text X ft v =
     act_bind (act_map_err (EWrap ''failed to convert type value to string for field key'')
       (act_lift (ConvertToStringSlice (re_field (xe_repo X)) ft v))) (\<lambda>slice.
     case ft of
       FList t \<Rightarrow> act_bind (convert_elements X v (st_Kind (lt_ComponentType t)) slice) (\<lambda>vs.
                  act_return (Join vs [CHR 0x0A]))
     | FEnum t \<Rightarrow> act_map_err (EWrap ''failed to resolve type value to string for field key'')
                    (convertValueToString X v slice (st_Kind (et_BaseType t)))
     | FSimple t \<Rightarrow> act_map_err (EWrap ''failed to resolve type value to string for field key'')
                    (convertValueToString X v slice (st_Kind t)))"

text \<open>The map of the converted values, in the order in which Go visits the fields of the type.\<close>

fun csv_field_values :: "export_env \<Rightarrow> work_item \<Rightarrow> field_definitions \<Rightarrow> (string \<times> string) list export" where
  "csv_field_values X wi [] = act_return []"
| "csv_field_values X wi ((fieldKey, fieldDefinition) # rest) =
     act_bind (field_value_text X (fd_Type fieldDefinition) (map_get (w_Fields wi) fieldKey)) (\<lambda>v.
     act_bind (csv_field_values X wi rest) (\<lambda>vs. act_return ((fieldKey, v) # vs)))"

definition convertWorkItemFieldValues ::
  "export_env \<Rightarrow> work_item_type \<Rightarrow> work_item \<Rightarrow> (string \<times> string) list export" where
  "convertWorkItemFieldValues X wit wi = csv_field_values X wi (wt_Fields wit)"

section \<open>Columns\<close>

text \<open>The labels and the keys of the fields of a type.\<close>

definition extractWorkItemTypeFields :: "work_item_type \<Rightarrow> string list \<times> string list" where
  "extractWorkItemTypeFields wit = (map (\<lambda>f. fd_Label (snd f)) (wt_Fields wit), map fst (wt_Fields wit))"

definition processed_types :: "work_item_type list \<Rightarrow> work_item_type list" where
  "processed_types = foldl (\<lambda>seen wit. if wt_ID wit \<in> wt_ID ` set seen then seen else seen @ [wit]) []"

text \<open>Columns are pairs of a key and a label.\<close>

definition add_column :: "(string \<times> string) list \<Rightarrow> string \<times> string \<Rightarrow> (string \<times> string) list" where
  "add_column cols c = (if fst c \<in> fst ` set cols then cols else cols @ [c])"

definition type_columns :: "work_item_type \<Rightarrow> (string \<times> string) list" where
  "type_columns wit = (case extractWorkItemTypeFields wit of (labels, keys) \<Rightarrow> zip keys labels)"

definition field_columns :: "work_item_type list \<Rightarrow> (string \<times> string) list" where
  "field_columns wits = foldl add_column [] (concat (map type_columns (processed_types wits)))"

definition text_le :: "string \<Rightarrow> string \<Rightarrow> bool" where
  "text_le a b = lex_le (name_code a) (name_code b)"

text \<open>The labels are sorted, and the key of a sorted label is that of the first column with the label.\<close>

definition sorted_columns :: "(string \<times> string) list \<Rightarrow> (string \<times> string) list" where
  "sorted_columns cols =
     map (\<lambda>l. (case find (\<lambda>c. snd c = l) cols of Some c \<Rightarrow> fst c | None \<Rightarrow> [], l)) (sort_by text_le (map snd cols))"

definition witNameKey :: string where "witNameKey = ''_type''"

definition parentNumberKey :: string where "parentNumberKey = ''_parent''"

definition childsNumbersKey :: string where "childsNumbersKey = ''_children''"

definition csv_columns :: "work_item_type list \<Rightarrow> (string \<times> string) list" where
  "csv_columns wits =
     [(witNameKey, ''_Type''), (parentNumberKey, ''_Parent''), (childsNumbersKey, ''_Children'')]
       @ sorted_columns (field_columns wits)"

section \<open>Lines\<close>

definition parent_cell :: "export_env \<Rightarrow> ancestor list \<Rightarrow> work_item \<Rightarrow> string export" where
  "parent_cell X parents wi =
     (case find (\<lambda>a. an_DirectChildID a = w_ID wi) parents of
        None \<Rightarrow> act_return []
      | Some a \<Rightarrow> cached_number X (EWrap ''failed to retrieve number attribute for parent of work item'') (an_ID a))"

definition children_cell :: "export_env \<Rightarrow> link list \<Rightarrow> work_item \<Rightarrow> string export" where
  "children_cell X childLinks wi =
     act_bind (cached_numbers X (EWrap ''failed to retrieve number attribute for childs of work item'')
       (map l_TargetID (filter (\<lambda>l. l_SourceID l = w_ID wi) childLinks))) (\<lambda>ns.
     act_return (Join (sort_by text_le ns) [CHR 0x0A]))"

definition csv_cell ::
  "export_env \<Rightarrow> link list \<Rightarrow> ancestor list \<Rightarrow> work_item_type \<Rightarrow> work_item \<Rightarrow> (string \<times> string) list \<Rightarrow> string \<Rightarrow> string export" where
  "csv_cell X childLinks parents wit wi values columnKey =
     (if columnKey = witNameKey then act_return (wt_Name wit)
      else if columnKey = parentNumberKey then parent_cell X parents wi
      else if columnKey = childsNumbersKey then children_cell X childLinks wi
      else act_return (case map_of values columnKey of Some v \<Rightarrow> v | None \<Rightarrow> []))"

fun csv_cells ::
  "export_env \<Rightarrow> link list \<Rightarrow> ancestor list \<Rightarrow> work_item_type \<Rightarrow> work_item \<Rightarrow> (string \<times> string) list \<Rightarrow> string list
     \<Rightarrow> string list export" where
  "csv_cells X childLinks parents wit wi values [] = act_return []"
| "csv_cells X childLinks parents wit wi values (k # ks) =
     act_bind (csv_cell X childLinks parents wit wi values k) (\<lambda>c.
     act_bind (csv_cells X childLinks parents wit wi values ks) (\<lambda>cs. act_return (c # cs)))"

definition csv_row ::
  "export_env \<Rightarrow> link list \<Rightarrow> ancestor list \<Rightarrow> work_item_type list \<Rightarrow> string list \<Rightarrow> work_item \<Rightarrow> string list export" where
  "csv_row X childLinks parents types keys wi =
     (case map_get (w_Fields wi) SystemNumber of
        VInt n \<Rightarrow>
          act_bind (remember_number (uString (xe_uuid X) (w_ID wi)) (itoa (sint n))) (\<lambda>_.
          case find (\<lambda>t. wt_ID t = w_Type wi) types of
            None \<Rightarrow> act_fail (EErrorf ''encountered work item with unknown work item type'')
          | Some wit \<Rightarrow>
              act_bind (act_map_err (EWrap ''failed to retrieve field values for work item'')
                (convertWorkItemFieldValues X wit wi)) (\<lambda>values.
              csv_cells X childLinks parents wit wi values keys))
      | _ \<Rightarrow> act_fail (EErrorf ''error converting number field value to string for work item''))"

fun csv_rows ::
  "export_env \<Rightarrow> link list \<Rightarrow> ancestor list \<Rightarrow> work_item_type list \<Rightarrow> string list \<Rightarrow> work_item list \<Rightarrow> string list list export" where
  "csv_rows X childLinks parents types keys [] = act_return []"
| "csv_rows X childLinks parents types keys (wi # wis) =
     act_bind (csv_row X childLinks parents types keys wi) (\<lambda>r.
     act_bind (csv_rows X childLinks parents types keys wis) (\<lambda>rs. act_return (r # rs)))"

definition ConvertWorkItemsToCSV ::
  "export_env \<Rightarrow> work_item_type list \<Rightarrow> work_item list \<Rightarrow> link list \<Rightarrow> ancestor list \<Rightarrow> bool
     \<Rightarrow> (string \<times> string list) export" where
  "ConvertWorkItemsToCSV X allWits wis childLinks parents includeHeaderLine =
     (if wis = [] then act_return ([], [])
      else let cols = csv_columns allWits; labels = map snd cols in
        act_bind (act_modify (\<lambda>s. s\<lparr>xd_Names := Map.empty\<rparr>)) (\<lambda>_.
        act_bind (csv_rows X childLinks parents (processed_types allWits) (map fst cols) wis) (\<lambda>rows.
        act_return (WriteAll ((if includeHeaderLine then [labels] else []) @ rows), labels))))"

section \<open>The written text is unambiguous\<close>

text \<open>A reader for the text, as a proof device.\<close>

fun unquote :: "string \<Rightarrow> string \<times> string" where
  "unquote [] = ([], [])"
| "unquote (c # r) =
     (if c \<noteq> CHR 0x22 then (case unquote r of (f, s) \<Rightarrow> (c # f, s))
      else case r of
        [] \<Rightarrow> ([], [])
      | d # s \<Rightarrow> if d = CHR 0x22 then (case unquote s of (f, u) \<Rightarrow> (d # f, u)) else ([], r))"

definition read_field :: "string \<Rightarrow> string \<times> string" where
  "read_field s =
     (case s of
        [] \<Rightarrow> ([], [])
      | c # r \<Rightarrow> if c = CHR 0x22 then unquote r
                 else (takeWhile (\<lambda>c. c \<notin> {CHR '','', CHR 0x0A}) s, dropWhile (\<lambda>c. c \<notin> {CHR '','', CHR 0x0A}) s))"

lemma unquote_escaped:
  "c \<noteq> CHR 0x22 \<Longrightarrow>
     unquote (concat (map (\<lambda>c. if c = CHR 0x22 then [CHR 0x22, CHR 0x22] else [c]) f) @ CHR 0x22 # c # rest) = (f, c # rest)"
  by (induction f) auto

lemma read_csv_field:
  assumes "c \<in> {CHR '','', CHR 0x0A}"
  shows "read_field (csv_field f @ c # rest) = (f, c # rest)"
proof (cases "fieldNeedsQuotes f")
  case True
  then show ?thesis using assms unquote_escaped [of c f rest] by (auto simp: csv_field_def read_field_def)
next
  case False
  have bare: "\<forall>x \<in> set f. x \<notin> {CHR '','', CHR 0x22, CHR 0x0D, CHR 0x0A}"
    using False by (auto simp: fieldNeedsQuotes_def list_ex_iff)
  then have "takeWhile (\<lambda>c. c \<notin> {CHR '','', CHR 0x0A}) (f @ c # rest) = f"
    "dropWhile (\<lambda>c. c \<notin> {CHR '','', CHR 0x0A}) (f @ c # rest) = c # rest"
    using assms by (induction f) auto
  moreover have "hd (f @ c # rest) \<noteq> CHR 0x22" using bare assms by (cases f) auto
  ultimately show ?thesis using False by (cases "f @ c # rest") (auto simp: csv_field_def read_field_def)
qed

lemma csv_line_Cons:
  "csv_line (f # fs) = csv_field f @ (if fs = [] then [CHR 0x0A] else CHR '','' # csv_line fs)"
  by (cases fs) (auto simp: csv_line_def)

lemma csv_line_inject:
  "csv_line r @ s = csv_line r' @ s' \<Longrightarrow> r \<noteq> [] \<Longrightarrow> r' \<noteq> [] \<Longrightarrow> r = r' \<and> s = s'"
proof (induction r arbitrary: r')
  case (Cons f fs)
  obtain g gs where r': "r' = g # gs" using Cons.prems(3) by (cases r') auto
  let ?after = "\<lambda>fs s. if fs = [] then CHR 0x0A # s else CHR '','' # csv_line fs @ s"
  have lines: "csv_line (f # fs) @ s = csv_field f @ ?after fs s" for f fs s by (simp add: csv_line_Cons)
  have read: "read_field (csv_line (f # fs) @ s) = (f, ?after fs s)" for f fs s
    unfolding lines by (simp add: read_csv_field)
  from Cons.prems(1) have "(f, ?after fs s) = (g, ?after gs s')" unfolding r' read [symmetric] by simp
  then have "f = g" "?after fs s = ?after gs s'" by auto
  with Cons.IH [of gs] show ?case by (auto simp: r' split: if_splits)
qed simp

lemma WriteAll_inject:
  "WriteAll g = WriteAll g' \<Longrightarrow> [] \<notin> set g \<Longrightarrow> [] \<notin> set g' \<Longrightarrow> g = g'"
proof (induction g arbitrary: g')
  case Nil
  then show ?case by (cases g') (auto simp: WriteAll_def csv_line_def)
next
  case (Cons r g)
  then obtain r' h where g': "g' = r' # h" by (cases g') (auto simp: WriteAll_def csv_line_def)
  with Cons.prems have "r = r' \<and> WriteAll g = WriteAll h" by (intro csv_line_inject) (auto simp: WriteAll_def)
  with Cons g' show ?case by auto
qed

section \<open>Columns and cells\<close>

lemma mset_insert_by: "mset (insert_by le x ys) = add_mset x (mset ys)"
  by (induction ys) auto

lemma mset_sort_by [simp]: "mset (sort_by le xs) = mset xs"
  by (induction xs) (auto simp: sort_by_def mset_insert_by)

lemma set_sort_by [simp]: "set (sort_by le xs) = set xs"
  using mset_sort_by by (metis set_mset_mset)

lemma length_sort_by [simp]: "length (sort_by le xs) = length xs"
  using mset_sort_by by (metis size_mset)

lemma field_columns_keys:
  "distinct (map fst (field_columns wits))"
  "fst ` set (field_columns wits) = (\<Union>wit \<in> set (processed_types wits). fst ` set (wt_Fields wit))"
proof -
  have d: "distinct (map fst (foldl add_column acc cs))" if "distinct (map fst acc)" for acc cs
    using that by (induction cs arbitrary: acc) (auto simp: add_column_def)
  show "distinct (map fst (field_columns wits))" unfolding field_columns_def by (rule d) simp
  have k: "fst ` set (foldl add_column acc cs) = fst ` set acc \<union> fst ` set cs" for acc cs
    by (induction cs arbitrary: acc) (auto simp: add_column_def)
  have t: "map fst (type_columns wit) = map fst (wt_Fields wit)" for wit
    by (simp add: type_columns_def extractWorkItemTypeFields_def)
  have "fst ` set (type_columns wit) = fst ` set (wt_Fields wit)" for wit
    using arg_cong [OF t, of set] by simp
  then show "fst ` set (field_columns wits) = (\<Union>wit \<in> set (processed_types wits). fst ` set (wt_Fields wit))"
    unfolding field_columns_def k by (simp add: image_UN)
qed

lemma find_column:
  "distinct (map snd cols) \<Longrightarrow> (k, l) \<in> set cols \<Longrightarrow> find (\<lambda>c. snd c = l) cols = Some (k, l)"
  by (induction cols) force+

lemma sorted_columns_complete:
  assumes "distinct (map snd cols)"
  shows "set (sorted_columns cols) = set cols"
proof -
  have "(case find (\<lambda>c. snd c = l) cols of Some c \<Rightarrow> fst c | None \<Rightarrow> [], l) = (k, l)" if "(k, l) \<in> set cols" for k l
    using find_column [OF assms that] by simp
  then show ?thesis unfolding sorted_columns_def set_map set_sort_by image_image by force
qed

lemma processed_types_find:
  "find (\<lambda>t. wt_ID t = i) (processed_types wits) = Some wit \<Longrightarrow> wit \<in> set (processed_types wits) \<and> wt_ID wit = i"
  by (auto simp: find_Some_iff)

lemma processed_types_subset: "set (processed_types wits) \<subseteq> set wits"
proof -
  have "set (foldl (\<lambda>seen wit. if wt_ID wit \<in> wt_ID ` set seen then seen else seen @ [wit]) acc ws) \<subseteq> set acc \<union> set ws" for acc ws
  proof (induction ws arbitrary: acc)
    case (Cons w ws)
    show ?case using Cons [of acc] Cons [of "acc @ [w]"] by auto
  qed simp
  from this [of "[]" wits] show ?thesis by (simp add: processed_types_def)
qed

lemma csv_cells_Ok:
  "csv_cells X childLinks parents wit wi values keys s = (Ok cs, t) \<Longrightarrow>
     length cs = length keys \<and>
     (\<forall>i < length keys. keys ! i \<notin> {witNameKey, parentNumberKey, childsNumbersKey} \<longrightarrow>
        cs ! i = (case map_of values (keys ! i) of Some v \<Rightarrow> v | None \<Rightarrow> []))"
proof (induction keys arbitrary: s cs)
  case (Cons k ks)
  from Cons.prems obtain c u cs' where c: "csv_cell X childLinks parents wit wi values k s = (Ok c, u)"
    and cs': "csv_cells X childLinks parents wit wi values ks u = (Ok cs', t)" "cs = c # cs'"
    by (auto simp: act_bind_Ok_iff act_return_def)
  have "k \<notin> {witNameKey, parentNumberKey, childsNumbersKey} \<Longrightarrow> c = (case map_of values k of Some v \<Rightarrow> v | None \<Rightarrow> [])"
    using c by (auto simp: csv_cell_def act_return_def)
  with Cons.IH [OF cs'(1)] cs'(2) show ?case by (auto simp: nth_Cons split: nat.splits)
qed (simp add: act_return_def)

lemma csv_field_values_keys:
  "csv_field_values X wi fs s = (Ok vals, t) \<Longrightarrow> map fst vals = map fst fs"
proof (induction fs arbitrary: s vals)
  case (Cons f fs)
  then show ?case by (cases f) (auto simp: act_bind_Ok_iff act_return_def)
qed (simp add: act_return_def)

definition line_of :: "export_env \<Rightarrow> work_item_type list \<Rightarrow> work_item \<Rightarrow> string list \<Rightarrow> bool" where
  "line_of X wits wi row \<longleftrightarrow> length row = length (csv_columns wits) \<and>
     (\<exists>wit vals u v. wit \<in> set (processed_types wits) \<and> wt_ID wit = w_Type wi \<and> convertWorkItemFieldValues X wit wi u = (Ok vals, v) \<and>
        map fst vals = map fst (wt_Fields wit) \<and>
        (\<forall>i < length row. fst (csv_columns wits ! i) \<notin> {witNameKey, parentNumberKey, childsNumbersKey} \<longrightarrow>
           row ! i = (case map_of vals (fst (csv_columns wits ! i)) of Some x \<Rightarrow> x | None \<Rightarrow> [])))"

lemma csv_rows_Ok:
  "csv_rows X childLinks parents (processed_types wits) (map fst (csv_columns wits)) wis s = (Ok rows, t) \<Longrightarrow>
     list_all2 (line_of X wits) wis rows"
proof (induction wis arbitrary: s rows)
  case (Cons wi wis)
  from Cons.prems obtain r u rs where
    r: "csv_row X childLinks parents (processed_types wits) (map fst (csv_columns wits)) wi s = (Ok r, u)"
    and rs: "csv_rows X childLinks parents (processed_types wits) (map fst (csv_columns wits)) wis u = (Ok rs, t)" "rows = r # rs"
    by (auto simp: act_bind_Ok_iff act_return_def)
  from r obtain wit vals v w where
    wit: "find (\<lambda>t. wt_ID t = w_Type wi) (processed_types wits) = Some wit"
    and vs: "convertWorkItemFieldValues X wit wi v = (Ok vals, w)"
    and cells: "csv_cells X childLinks parents wit wi vals (map fst (csv_columns wits)) w = (Ok r, u)"
    by (auto simp: csv_row_def act_bind_Ok_iff act_return_def act_fail_def split: goval.splits option.splits)
  have "wit \<in> set (processed_types wits)" "wt_ID wit = w_Type wi" using processed_types_find [OF wit] by auto
  with vs csv_cells_Ok [OF cells] csv_field_values_keys [OF vs [unfolded convertWorkItemFieldValues_def]]
  have "line_of X wits wi r" unfolding line_of_def by (intro conjI exI [of _ wit] exI [of _ vals] exI [of _ v] exI [of _ w]) auto
  with Cons.IH [OF rs(1)] rs(2) show ?case by simp
qed (simp add: act_return_def)

text \<open>A line with the converted value of every field of the type of the work item, each under the label of its field.\<close>

definition line_complete :: "export_env \<Rightarrow> work_item_type list \<Rightarrow> string list \<Rightarrow> work_item \<Rightarrow> string list \<Rightarrow> bool" where
  "line_complete X wits header wi row \<longleftrightarrow> length row = length header \<and>
     (\<exists>wit vals u v. wit \<in> set wits \<and> wt_ID wit = w_Type wi \<and> convertWorkItemFieldValues X wit wi u = (Ok vals, v) \<and>
        (\<forall>k \<in> fst ` set (wt_Fields wit) - {witNameKey, parentNumberKey, childsNumbersKey}.
           \<exists>i < length row. (k, header ! i) \<in> set (field_columns wits) \<and> map_of vals k = Some (row ! i)))"

lemma line_of_complete:
  assumes "line_of X wits wi row" "distinct (map snd (field_columns wits))"
  shows "line_complete X wits (map snd (csv_columns wits)) wi row"
proof -
  from assms(1) obtain wit vals u v where
    l: "length row = length (csv_columns wits)" "wit \<in> set (processed_types wits)" "wt_ID wit = w_Type wi"
      "convertWorkItemFieldValues X wit wi u = (Ok vals, v)" "map fst vals = map fst (wt_Fields wit)"
    and r: "\<And>i. i < length row \<Longrightarrow> fst (csv_columns wits ! i) \<notin> {witNameKey, parentNumberKey, childsNumbersKey} \<Longrightarrow>
         row ! i = (case map_of vals (fst (csv_columns wits ! i)) of Some x \<Rightarrow> x | None \<Rightarrow> [])"
    by (auto simp: line_of_def)
  have "\<exists>i < length row. (k, map snd (csv_columns wits) ! i) \<in> set (field_columns wits) \<and> map_of vals k = Some (row ! i)"
    if k: "k \<in> fst ` set (wt_Fields wit) - {witNameKey, parentNumberKey, childsNumbersKey}" for k
  proof -
    from k l(2) have "k \<in> fst ` set (field_columns wits)" unfolding field_columns_keys(2) by blast
    then obtain lab where col: "(k, lab) \<in> set (field_columns wits)" by force
    then have "(k, lab) \<in> set (csv_columns wits)" using sorted_columns_complete [OF assms(2)] by (simp add: csv_columns_def)
    then obtain i where i: "i < length (csv_columns wits)" "csv_columns wits ! i = (k, lab)" by (auto simp: in_set_conv_nth)
    have "k \<in> fst ` set vals" using k arg_cong [OF l(5), of set] by simp
    then obtain x where x: "map_of vals k = Some x" by (metis map_of_eq_None_iff option.exhaust)
    with r [of i] i k l(1) col show ?thesis by (intro exI [of _ i]) auto
  qed
  moreover have "wit \<in> set wits" using l(2) processed_types_subset by blast
  ultimately show ?thesis
    using l(1,3,4) unfolding line_complete_def
    by (intro conjI exI [of _ wit] exI [of _ vals] exI [of _ u] exI [of _ v] ballI) auto
qed

text \<open>
  C12. The export shows everything: if no two fields have the same label, the text is that of a header and one line per
  work item and of no other table, and every line has, under the label of each field of the type of its work item, the
  converted value of the field.
\<close>
theorem csv_export_complete:
  assumes "ConvertWorkItemsToCSV X wits wis childLinks parents True s = (Ok (csv, header), t)" "wis \<noteq> []"
    and "distinct (map snd (field_columns wits))"
  shows "\<exists>rows. csv = WriteAll (header # rows) \<and> (\<forall>g. WriteAll g = csv \<and> [] \<notin> set g \<longrightarrow> g = header # rows) \<and>
    list_all2 (line_complete X wits header) wis rows"
proof -
  from assms(1,2) obtain rows u v where
    rows: "csv_rows X childLinks parents (processed_types wits) (map fst (csv_columns wits)) wis u = (Ok rows, v)"
    and csv: "csv = WriteAll (header # rows)" and header: "header = map snd (csv_columns wits)"
    by (auto simp: ConvertWorkItemsToCSV_def Let_def act_bind_Ok_iff act_return_def act_modify_def)
  have lines: "list_all2 (line_of X wits) wis rows" by (rule csv_rows_Ok [OF rows])
  have cols: "csv_columns wits \<noteq> []" by (simp add: csv_columns_def)
  have "row \<noteq> []" if "row \<in> set rows" for row
    using lines that cols by (auto simp: list_all2_conv_all_nth in_set_conv_nth line_of_def)
  with header cols have nonempty: "[] \<notin> set (header # rows)" by auto
  have unique: "g = header # rows" if "WriteAll g = csv" "[] \<notin> set g" for g
    using WriteAll_inject [of g "header # rows"] that nonempty csv by simp
  have "list_all2 (line_complete X wits header) wis rows"
    using lines by (rule list.rel_mono_strong) (use line_of_complete [OF _ assms(3)] header in simp)
  with csv unique show ?thesis by blast
qed

text \<open>
  C37. Two different fields with the same label do not fit: the column of the label is filled from the first of them
  twice, and the other field has no column at all.
\<close>
theorem equal_labels_lose_field:
  assumes "(k, l) \<in> set (field_columns wits)" "(k', l) \<in> set (field_columns wits)" "k \<noteq> k'"
  shows "k \<notin> fst ` set (sorted_columns (field_columns wits)) \<or> k' \<notin> fst ` set (sorted_columns (field_columns wits))"
proof -
  have first: "find (\<lambda>c. snd c = l) (field_columns wits) = Some (x, l)"
    if x: "x \<in> fst ` set (sorted_columns (field_columns wits))" and xl: "(x, l) \<in> set (field_columns wits)" for x
  proof -
    from x obtain l' c where c: "c \<in> set (field_columns wits)" "snd c = l'"
      "x = (case find (\<lambda>c. snd c = l') (field_columns wits) of Some c \<Rightarrow> fst c | None \<Rightarrow> [])"
      by (auto simp: sorted_columns_def)
    have "find (\<lambda>c. snd c = l') (field_columns wits) \<noteq> None" using c(1,2) unfolding find_None_iff by blast
    then obtain d where d: "find (\<lambda>c. snd c = l') (field_columns wits) = Some d" by blast
    then have d': "x = fst d" using c(3) by simp
    from d have "d \<in> set (field_columns wits)" "snd d = l'" by (auto simp: find_Some_iff)
    with xl d' have "d = (x, l)"
      using field_columns_keys(1) [of wits] by (cases d) (auto dest: eq_key_imp_eq_value)
    with d \<open>snd d = l'\<close> show ?thesis by auto
  qed
  show ?thesis
  proof (rule ccontr)
    assume "\<not> ?thesis"
    with first [OF _ assms(1)] first [OF _ assms(2)] have "Some (k, l) = Some (k', l)" by simp
    with assms(3) show False by simp
  qed
qed

theorem equal_labels_lose_field_witness:
  "\<exists>k \<in> {SystemTitle, SystemNumber}. k \<notin> fst ` set (sorted_columns (field_columns [sample_type]))"
proof -
  have cols: "field_columns [sample_type] = [(SystemTitle, ''label''), (SystemNumber, ''label'')]"
    by (simp add: field_columns_def processed_types_def type_columns_def extractWorkItemTypeFields_def add_column_def
        sample_type_def plain_field_def SystemTitle_def SystemNumber_def)
  have "(SystemTitle, ''label'') \<in> set (field_columns [sample_type])" "(SystemNumber, ''label'') \<in> set (field_columns [sample_type])"
    "SystemTitle \<noteq> SystemNumber"
    unfolding cols by (simp_all add: SystemTitle_def SystemNumber_def)
  from equal_labels_lose_field [OF this] show ?thesis by blast
qed

definition csv_sample_type :: work_item_type where
  "csv_sample_type = sample_type\<lparr>wt_Fields := [(SystemTitle, (plain_field KindString)\<lparr>fd_Label := ''Title''\<rparr>),
     (SystemNumber, (plain_field KindInteger)\<lparr>fd_Label := ''Number''\<rparr>)]\<rparr>"

definition csv_sample_item :: work_item where
  "csv_sample_item = \<lparr>w_ID = 5, w_Number = 7, w_Type = 9, w_Version = 0, w_SpaceID = 3,
     w_Fields = [(SystemTitle, VString ''a, b''), (SystemNumber, VInt 7)], w_relationShipsChangedAt = None\<rparr>"

definition csv_sample_env :: export_env where
  "csv_sample_env = \<lparr>xe_repo = repo_sample, xe_accounts = sample_accounts, xe_iterations = iteration_sample_env, xe_stack = [],
     xe_timeout = False\<rparr>"

lemma csv_sample_columns:
  "field_columns [csv_sample_type] = [(SystemTitle, ''Title''), (SystemNumber, ''Number'')]"
  "csv_columns [csv_sample_type] = [(witNameKey, ''_Type''), (parentNumberKey, ''_Parent''), (childsNumbersKey, ''_Children''),
     (SystemNumber, ''Number''), (SystemTitle, ''Title'')]"
proof -
  show cols: "field_columns [csv_sample_type] = [(SystemTitle, ''Title''), (SystemNumber, ''Number'')]"
    by (simp add: field_columns_def processed_types_def type_columns_def extractWorkItemTypeFields_def add_column_def
        csv_sample_type_def SystemTitle_def SystemNumber_def)
  show "csv_columns [csv_sample_type] = [(witNameKey, ''_Type''), (parentNumberKey, ''_Parent''), (childsNumbersKey, ''_Children''),
     (SystemNumber, ''Number''), (SystemTitle, ''Title'')]"
    by (simp add: csv_columns_def cols sorted_columns_def sort_by_def text_le_def name_code_def)
qed

lemma csv_sample_export:
  "is_ok (fst (ConvertWorkItemsToCSV csv_sample_env [csv_sample_type] [csv_sample_item] [] [] True s))"
proof -
  have types: "processed_types [csv_sample_type] = [csv_sample_type]" by (simp add: processed_types_def)
  have number: "map_get (w_Fields csv_sample_item) SystemNumber = VInt 7"
    by (simp add: csv_sample_item_def map_get_def SystemTitle_def SystemNumber_def)
  have wit: "wt_ID csv_sample_type = w_Type csv_sample_item"
    by (simp add: csv_sample_type_def csv_sample_item_def sample_type_def)
  have seven: "itoa 7 = ''7''" by code_simp
  have vals: "convertWorkItemFieldValues csv_sample_env csv_sample_type csv_sample_item u =
      (Ok [(SystemTitle, ''a, b''), (SystemNumber, ''7'')], u)" for u
    by (simp add: convertWorkItemFieldValues_def csv_sample_type_def csv_sample_item_def field_value_text_def act_defs
        plain_field_def simple_of_def SimpleType_ConvertToStringSlice_def convertValueToString_def map_get_def
        SystemTitle_def SystemNumber_def string_kind_def seven)
  have keys: "SystemNumber \<notin> {witNameKey, parentNumberKey, childsNumbersKey}" "SystemTitle \<notin> {witNameKey, parentNumberKey, childsNumbersKey}"
    by (simp_all add: SystemTitle_def SystemNumber_def witNameKey_def parentNumberKey_def childsNumbersKey_def)
  show ?thesis
    using keys by (simp add: ConvertWorkItemsToCSV_def act_defs csv_row_def types number wit vals csv_sample_columns csv_cell_def
        remember_number_def parent_cell_def children_cell_def witNameKey_def parentNumberKey_def childsNumbersKey_def sort_by_def Let_def)
qed

theorem csv_export_complete_witness:
  "\<forall>s. \<exists>csv header rows. fst (ConvertWorkItemsToCSV csv_sample_env [csv_sample_type] [csv_sample_item] [] [] True s) = Ok (csv, header) \<and>
     csv = WriteAll (header # rows) \<and> list_all2 (line_complete csv_sample_env [csv_sample_type] header) [csv_sample_item] rows"
proof
  fix s
  obtain csv header t where
    ok: "ConvertWorkItemsToCSV csv_sample_env [csv_sample_type] [csv_sample_item] [] [] True s = (Ok (csv, header), t)"
    using csv_sample_export [of s] by (cases "ConvertWorkItemsToCSV csv_sample_env [csv_sample_type] [csv_sample_item] [] [] True s")
      (auto simp: is_ok_iff)
  have "distinct (map snd (field_columns [csv_sample_type]))" by (simp add: csv_sample_columns)
  from csv_export_complete [OF ok _ this] obtain rows where
    "csv = WriteAll (header # rows)" "list_all2 (line_complete csv_sample_env [csv_sample_type] header) [csv_sample_item] rows"
    by blast
  with ok show "\<exists>csv header rows. fst (ConvertWorkItemsToCSV csv_sample_env [csv_sample_type] [csv_sample_item] [] [] True s) = Ok (csv, header) \<and>
     csv = WriteAll (header # rows) \<and> list_all2 (line_complete csv_sample_env [csv_sample_type] header) [csv_sample_item] rows"
    by (metis fst_conv)
qed

end
