(* ===== verification/Codebases.thy ===== *)
theory Codebases
  imports Tables Content
begin

text \<open>
  The codebases of a space: the record and the repository of \<^verbatim>\<open>codebase/codebase.go\<close> with the index of
  migration 084, and \<^verbatim>\<open>setupCodebase\<close> of \<^verbatim>\<open>controller/workitem.go\<close>, which registers the codebase of a work item.
\<close>

section \<open>Records\<close>

record codebase =
  co_Lifecycle :: lifecycle
  co_ID :: uuid
  co_SpaceID :: uuid
  co_Type :: string
  co_URL :: string
  co_StackID :: "string option"
  co_LastUsedWorkspace :: string
  co_CVEScan :: bool

type_synonym 'a codebase_repo = "(codebase list, 'a) action"

definition Codebase_TableName :: string where "Codebase_TableName = ''codebases''"

definition codebase_index :: string where "codebase_index = ''codebases_spaceid_url_idx''"

definition codebase_entry :: "codebase \<Rightarrow> string \<times> uuid" where
  "codebase_entry c = (co_URL c, co_SpaceID c)"

definition codebase_violation :: "codebase \<Rightarrow> codebase list \<Rightarrow> go_error option" where
  "codebase_violation c rows = first_violation
     [(index_taken co_Lifecycle co_ID codebase_entry c rows, unique_violation codebase_index)]"

definition live_codebases :: "codebase list \<Rightarrow> codebase list" where
  "live_codebases rows = live_rows co_Lifecycle rows"

section \<open>The repository\<close>

definition codebase_not_found :: "uuid_lib \<Rightarrow> uuid \<Rightarrow> go_error" where
  "codebase_not_found U i = NewNotFoundError ''codebase'' (uString U i)"

definition Codebase_Create :: "db_env \<Rightarrow> codebase \<Rightarrow> codebase codebase_repo" where
  "Codebase_Create E c0 =
     (let c = (if co_ID c0 = uuid_Nil then c0\<lparr>co_ID := env_newID E ''codebase''\<rparr> else c0);
          new = c\<lparr>co_Lifecycle := stamped E (co_Lifecycle c)\<rparr>
      in act_bind (act_map_err
             (\<lambda>e. if IsUniqueViolation (Some e) codebase_index then NewDataConflictError ''codebase already exists'' else EWrap [] e)
             (gorm_insert E Codebase_TableName co_ID (codebase_violation new) new)) (\<lambda>_. act_return new))"

definition Codebase_Delete :: "uuid_lib \<Rightarrow> db_env \<Rightarrow> uuid \<Rightarrow> unit codebase_repo" where
  "Codebase_Delete U E i =
     (if i = uuid_Nil then act_fail (codebase_not_found U i)
      else act_bind (act_map_err NewInternalError (gorm_delete E ''delete codebase''
             (\<lambda>x. alive (co_Lifecycle x) \<and> keyed co_ID i x) (\<lambda>x. x\<lparr>co_Lifecycle := removed E (co_Lifecycle x)\<rparr>))) (\<lambda>n.
           if n = 0 then act_fail (codebase_not_found U i) else act_return ()))"

definition Codebase_Load :: "uuid_lib \<Rightarrow> db_env \<Rightarrow> uuid \<Rightarrow> codebase codebase_repo" where
  "Codebase_Load U E i = gorm_first E ''codebase'' (by_id co_Lifecycle co_ID i) (codebase_not_found U i)"

definition Codebase_Save :: "uuid_lib \<Rightarrow> db_env \<Rightarrow> codebase \<Rightarrow> codebase codebase_repo" where
  "Codebase_Save U E c =
     (let new = c\<lparr>co_Lifecycle := touched E (co_Lifecycle c)\<rparr>
      in act_bind (gorm_first E ''codebase'' (by_id co_Lifecycle co_ID (co_ID c)) (codebase_not_found U (co_ID c))) (\<lambda>_.
         act_bind (act_map_err NewInternalError (gorm_update E ''update codebase''
           (\<lambda>x. alive (co_Lifecycle x) \<and> co_ID x = co_ID c) (codebase_violation new) new)) (\<lambda>_. act_return new)))"

definition codebase_page_error :: "int option \<Rightarrow> int option \<Rightarrow> go_error option" where
  "codebase_page_error start limit =
     (if start \<noteq> None \<and> the start < 0 then Some (NewBadParameterError ''start'' (VInt (word_of_int (the start))))
      else if limit \<noteq> None \<and> the limit \<le> 0 then Some (NewBadParameterError ''limit'' (VInt (word_of_int (the limit))))
      else None)"

text \<open>
  A page of the rows that match, with their number: the window count is read from the first row of the page, and a
  second statement counts if the page is empty. The errors of the two statements are wrapped differently by the callers.
\<close>

definition codebase_page ::
  "db_env \<Rightarrow> (go_error \<Rightarrow> go_error) \<Rightarrow> (codebase \<Rightarrow> bool) \<Rightarrow> int option \<Rightarrow> int option \<Rightarrow> (codebase list \<times> nat) codebase_repo" where
  "codebase_page E wrapCount P start limit =
     (case codebase_page_error start limit of
        Some e \<Rightarrow> act_fail e
      | None \<Rightarrow>
          act_bind (statement E ''list codebases'' (\<lambda>e. e)) (\<lambda>_.
          act_bind (act_gets (\<lambda>s. Ok (filter P (live_codebases s)))) (\<lambda>rows.
          let result = page_of start limit rows in
          if result \<noteq> [] then act_return (result, length rows)
          else act_bind (statement E ''count codebases'' wrapCount) (\<lambda>_.
               act_gets (\<lambda>s. Ok (result, length (filter P (live_codebases s))))))))"

definition Codebase_List :: "db_env \<Rightarrow> uuid \<Rightarrow> int option \<Rightarrow> int option \<Rightarrow> (codebase list \<times> nat) codebase_repo" where
  "Codebase_List E spaceID start limit = codebase_page E (\<lambda>e. e) (\<lambda>c. co_SpaceID c = spaceID) start limit"

definition SearchByURL :: "db_env \<Rightarrow> string \<Rightarrow> int option \<Rightarrow> int option \<Rightarrow> (codebase list \<times> nat) codebase_repo" where
  "SearchByURL E url start limit = codebase_page E NewInternalError (\<lambda>c. co_URL c = url) start limit"

definition Codebase_CheckExists :: "uuid_lib \<Rightarrow> db_env \<Rightarrow> uuid \<Rightarrow> unit codebase_repo" where
  "Codebase_CheckExists U E = CheckExists U E Codebase_TableName (\<lambda>s. map co_ID (live_codebases s))"

definition LoadByRepo :: "db_env \<Rightarrow> uuid \<Rightarrow> string \<Rightarrow> codebase codebase_repo" where
  "LoadByRepo E spaceID repository =
     gorm_first E ''codebase by repository''
       (\<lambda>s. first_row co_ID (filter (\<lambda>c. co_URL c = repository \<and> co_SpaceID c = spaceID) (live_codebases s)))
       (NewNotFoundError ''codebase url'' repository)"

section \<open>The codebase of a work item\<close>

definition new_codebase :: "uuid \<Rightarrow> string \<Rightarrow> codebase" where
  "new_codebase spaceID url =
     \<lparr>co_Lifecycle = \<lparr>lc_CreatedAt = zero_time, lc_UpdatedAt = zero_time, lc_DeletedAt = None\<rparr>, co_ID = uuid_Nil,
      co_SpaceID = spaceID, co_Type = ''git'', co_URL = url, co_StackID = Some ''java-centos'', co_LastUsedWorkspace = [],
      co_CVEScan = False\<rparr>"

text \<open>
  The content gets the identifier of the codebase with its repository, which is created if it is missing. An error of the
  lookup counts as missing. The content is filled in place; the result is the content afterwards.
\<close>

definition setupCodebase :: "uuid_lib \<Rightarrow> db_env \<Rightarrow> codebase_content \<Rightarrow> uuid \<Rightarrow> codebase_content codebase_repo" where
  "setupCodebase U E cb spaceID =
     (if cb_CodebaseID cb \<noteq> [] then act_return cb
      else (\<lambda>s. case LoadByRepo E spaceID (cb_Repository cb) s of
              (Ok existing, t) \<Rightarrow> (Ok (cb\<lparr>cb_CodebaseID := uString U (co_ID existing)\<rparr>), t)
            | (_, t) \<Rightarrow> act_bind (act_map_err NewInternalError (Codebase_Create E (new_codebase spaceID (cb_Repository cb))))
                 (\<lambda>c. act_return (cb\<lparr>cb_CodebaseID := uString U (co_ID c)\<rparr>)) t))"

section \<open>Facts\<close>

definition codebases_wf :: "codebase list \<Rightarrow> bool" where
  "codebases_wf rows \<longleftrightarrow> unique_index co_Lifecycle co_ID codebase_entry rows"

lemma Codebase_Create_Ok_iff:
  "Codebase_Create E c s = (Ok new, t) \<longleftrightarrow>
     (let c' = (if co_ID c = uuid_Nil then c\<lparr>co_ID := env_newID E ''codebase''\<rparr> else c)
      in new = c'\<lparr>co_Lifecycle := stamped E (co_Lifecycle c')\<rparr>) \<and>
     env_fault E (''insert '' @ Codebase_TableName) = None \<and> co_ID new \<notin> co_ID ` set s \<and>
     \<not> index_taken co_Lifecycle co_ID codebase_entry new s \<and> t = s @ [new]"
  by (auto simp: Codebase_Create_def Let_def act_bind_Ok_iff act_return_def gorm_insert_Ok_iff codebase_violation_def)

lemma atomic_Codebase_Create: "atomic (Codebase_Create E c)"
  unfolding Codebase_Create_def Let_def by (intro action_intro atomic_bind_total [OF atomic_map_err])

lemma Codebase_Create_wf: "codebases_wf s \<Longrightarrow> codebases_wf (snd (Codebase_Create E c s))"
proof (cases "Codebase_Create E c s")
  case (Pair r t)
  assume wf: "codebases_wf s"
  show ?thesis
  proof (cases r)
    case (Ok new)
    with Pair have "Codebase_Create E c s = (Ok new, t)" by simp
    with wf Pair show ?thesis by (auto simp: Codebase_Create_Ok_iff codebases_wf_def intro: unique_index_insert)
  qed (use Pair wf atomicD [OF atomic_Codebase_Create Pair] in auto)
qed

lemma Codebase_Save_wf: "codebases_wf s \<Longrightarrow> codebases_wf (snd (Codebase_Save U E c s))"
proof (cases "Codebase_Save U E c s")
  case (Pair r t)
  assume wf: "codebases_wf s"
  have "atomic (Codebase_Save U E c)"
    unfolding Codebase_Save_def Let_def by (intro action_intro atomic_bind_total [OF atomic_map_err])
  note undone = atomicD [OF this Pair]
  show ?thesis
  proof (cases r)
    case (Ok new)
    let ?new = "c\<lparr>co_Lifecycle := touched E (co_Lifecycle c)\<rparr>"
    let ?t = "map (\<lambda>x. if alive (co_Lifecycle x) \<and> co_ID x = co_ID c then ?new else x) s"
    have "Codebase_Save U E c s = (Ok new, t)" using Ok Pair by simp
    then have "t = s \<or> \<not> index_taken co_Lifecycle co_ID codebase_entry ?new s \<and> t = ?t"
      by (auto simp: Codebase_Save_def Let_def act_bind_Ok_iff act_return_def gorm_update_Ok_iff gorm_first_Ok_iff
          codebase_violation_def map_no_match split: if_splits)
    moreover have "codebases_wf ?t" if "\<not> index_taken co_Lifecycle co_ID codebase_entry ?new s"
      using wf that unfolding codebases_wf_def by (intro unique_index_replace) auto
    ultimately show ?thesis using Pair wf by auto
  qed (use Pair wf undone in auto)
qed

lemma Codebase_Delete_wf: "codebases_wf s \<Longrightarrow> codebases_wf (snd (Codebase_Delete U E i s))"
  by (auto simp: Codebase_Delete_def gorm_delete_def statement_def act_defs codebases_wf_def intro: unique_index_mark split: option.splits)

lemma LoadByRepo_reads: "LoadByRepo E i url s = (r, t) \<Longrightarrow> t = s"
  by (erule readonlyD [rotated]) (simp add: LoadByRepo_def readonly_first)

lemma setupCodebase_wf: "codebases_wf s \<Longrightarrow> codebases_wf (snd (setupCodebase U E cb i s))"
  using Codebase_Create_wf [of s E "new_codebase i (cb_Repository cb)"]
  by (auto simp: setupCodebase_def act_bind_def act_map_err_def act_return_def split: prod.splits gres.splits dest!: LoadByRepo_reads)

text \<open>
  The codebase of a repository is registered once: after a content was set up, the space has the repository under the
  identifier that the content got, and setting another content with the repository up changes nothing and gives it
  the same identifier.
\<close>

lemma setup_Ok_cases:
  assumes "setupCodebase U E cb i s = (Ok cb', t)" "cb_CodebaseID cb = []"
  obtains (found) x where "LoadByRepo E i (cb_Repository cb) s = (Ok x, s)" "t = s" "cb' = cb\<lparr>cb_CodebaseID := uString U (co_ID x)\<rparr>"
  | (new) c where "Codebase_Create E (new_codebase i (cb_Repository cb)) s = (Ok c, t)" "cb' = cb\<lparr>cb_CodebaseID := uString U (co_ID c)\<rparr>"
proof (cases "LoadByRepo E i (cb_Repository cb) s")
  case (Pair r u)
  then have [simp]: "u = s" by (rule LoadByRepo_reads)
  show ?thesis
  proof (cases r)
    case (Ok x)
    with assms Pair show ?thesis by (intro found) (auto simp: setupCodebase_def)
  qed (use assms Pair in \<open>auto simp: setupCodebase_def act_bind_Ok_iff act_return_def intro: new\<close>)
qed

lemma setup_codebase_once:
  assumes "setupCodebase U E cb i s = (Ok cb', t)" "cb_CodebaseID cb = []" "codebases_wf s"
    and "cb_Repository dup = cb_Repository cb" "cb_CodebaseID dup = []" "no_faults E'"
  shows "\<exists>c \<in> set (live_codebases t). codebase_entry c = (cb_Repository cb, i) \<and> cb_CodebaseID cb' = uString U (co_ID c) \<and>
    setupCodebase U E' dup i t = (Ok (dup\<lparr>cb_CodebaseID := uString U (co_ID c)\<rparr>), t)"
proof -
  let ?P = "\<lambda>c. co_URL c = cb_Repository cb \<and> co_SpaceID c = i"
  have wf: "codebases_wf t" using setupCodebase_wf [OF assms(3), of U E cb i] assms(1) by simp
  have "\<exists>c \<in> set (live_codebases t). ?P c \<and> cb_CodebaseID cb' = uString U (co_ID c)"
    using assms(1,2)
  proof (cases rule: setup_Ok_cases)
    case (found x)
    then have "x \<in> set (live_codebases s)" "?P x"
      by (auto simp: LoadByRepo_def gorm_first_Ok_iff dest!: first_row_SomeD)
    with found show ?thesis by (intro bexI [of _ x]) simp_all
  next
    case (new c)
    then have "c \<in> set (live_codebases t)" "?P c"
      by (auto simp: Codebase_Create_Ok_iff new_codebase_def live_codebases_def alive_def stamped_def Let_def)
    with new show ?thesis by (intro bexI [of _ c]) simp_all
  qed
  then obtain c where c: "c \<in> set (live_codebases t)" "?P c" "cb_CodebaseID cb' = uString U (co_ID c)" by blast
  have unique: "x = c" if "x \<in> set (live_codebases t)" "?P x" for x
  proof -
    have mem: "x \<in> set t" "alive (co_Lifecycle x)" "c \<in> set t" "alive (co_Lifecycle c)"
      using that(1) c(1) by (simp_all add: live_codebases_def)
    have "codebase_entry x = codebase_entry c" using that(2) c(2) by (simp add: codebase_entry_def)
    with unique_indexD [OF wf [unfolded codebases_wf_def] mem(1,3,2,4)] have "co_ID x = co_ID c" .
    moreover have "inj_on co_ID (set t)" using wf by (simp add: codebases_wf_def unique_index_def distinct_map)
    ultimately show ?thesis using mem(1,3) by (metis inj_onD)
  qed
  have "first_row co_ID (filter ?P (live_codebases t)) = Some c"
  proof (rule first_row_unique)
    show "c \<in> set (filter ?P (live_codebases t))" using c(1,2) by simp
    show "x = c" if "x \<in> set (filter ?P (live_codebases t))" for x
      by (rule unique) (use that in simp_all)
  qed
  then have "LoadByRepo E' i (cb_Repository dup) t = (Ok c, t)"
    using assms(4,6) by (simp add: LoadByRepo_def gorm_first_Ok_iff no_faults_def)
  then have "setupCodebase U E' dup i t = (Ok (dup\<lparr>cb_CodebaseID := uString U (co_ID c)\<rparr>), t)"
    using assms(5) by (simp add: setupCodebase_def)
  moreover have "codebase_entry c = (cb_Repository cb, i)" using c(2) by (simp add: codebase_entry_def)
  ultimately show ?thesis using c(1,3) by blast
qed

end
