(* ===== verification/Work_Item_Handlers.thy ===== *)
theory Work_Item_Handlers
  imports Link_Invariants Spaces Areas Iterations Labels Codebases Accounts "HOL-Library.Multiset"
begin

text \<open>
  The handlers of work items: \<^verbatim>\<open>controller/workitem.go\<close> (\<^verbatim>\<open>Update\<close>, \<^verbatim>\<open>Show\<close>, \<^verbatim>\<open>Delete\<close> and the conversion
  \<^verbatim>\<open>ConvertJSONAPIToWorkItem\<close> of a request) and \<^verbatim>\<open>controller/workitems.go\<close> (\<^verbatim>\<open>Create\<close> and \<^verbatim>\<open>Reorder\<close>), over the
  repositories they call, up to the point where the response is built from the result. Which spaces the token of the
  caller may change is a parameter: the answer comes from the authorization service.
\<close>

section \<open>State\<close>

record tracker_db =
  hd_Links :: link_db
  hd_Spaces :: space_db
  hd_Accounts :: account_db
  hd_Iterations :: iteration_db
  hd_Areas :: area_db
  hd_Labels :: "label list"
  hd_Codebases :: "codebase list"

type_synonym 'a handler = "(tracker_db, 'a) action"

record handler_env =
  he_repo :: repo_env
  he_spaces :: space_env
  he_accounts :: account_env
  he_iterations :: iteration_env
  he_cause :: "go_error \<Rightarrow> go_error"
  he_stack :: string
  he_timeout :: bool
  he_caller :: "uuid res"
  he_authorize :: "uuid \<Rightarrow> bool res"

abbreviation he_uuid :: "handler_env \<Rightarrow> uuid_lib" where
  "he_uuid H \<equiv> re_uuid (he_repo H)"

abbreviation he_db :: "handler_env \<Rightarrow> db_env" where
  "he_db H \<equiv> re_db (he_repo H)"

definition on_links :: "'a link_repo \<Rightarrow> 'a handler" where
  "on_links = on_table hd_Links (\<lambda>t s. s\<lparr>hd_Links := t\<rparr>)"

definition on_work_items :: "'a repo \<Rightarrow> 'a handler" where
  "on_work_items m = on_links (on_items m)"

definition on_space_tables :: "'a space_repo \<Rightarrow> 'a handler" where
  "on_space_tables = on_table hd_Spaces (\<lambda>t s. s\<lparr>hd_Spaces := t\<rparr>)"

definition on_iteration_table :: "'a iteration_repo \<Rightarrow> 'a handler" where
  "on_iteration_table m = on_table hd_Iterations (\<lambda>t s. s\<lparr>hd_Iterations := t\<rparr>) (fresh_handle m)"

definition on_area_table :: "'a area_repo \<Rightarrow> 'a handler" where
  "on_area_table m = on_table hd_Areas (\<lambda>t s. s\<lparr>hd_Areas := t\<rparr>) (fresh_handle m)"

definition on_codebase_table :: "'a codebase_repo \<Rightarrow> 'a handler" where
  "on_codebase_table = on_table hd_Codebases (\<lambda>t s. s\<lparr>hd_Codebases := t\<rparr>)"

text \<open>A rollback restores the tables; the cache of work item types belongs to the process.\<close>

definition rollback_tracker :: "tracker_db \<Rightarrow> tracker_db \<Rightarrow> tracker_db" where
  "rollback_tracker s t = s\<lparr>hd_Links := rollback_links (hd_Links s) (hd_Links t)\<rparr>"

text \<open>
  A transaction whose function assigns variables of the handler: the variables are a second component of the state
  that no rollback touches.
\<close>

definition transaction_result :: "handler_env \<Rightarrow> 'a handler \<Rightarrow> 'a handler" where
  "transaction_result H m =
     (\<lambda>s. case Transactional (he_db H) (he_stack H) (he_timeout H) (\<lambda>(s, _) (t, v). (rollback_tracker s t, v))
               (\<lambda>(s, _). case m s of
                  (Ok x, t) \<Rightarrow> (Ok (), (t, Some x))
                | (Err e, t) \<Rightarrow> (Err e, (t, None))
                | (Panic, t) \<Rightarrow> (Panic, (t, None))) (s, None) of
            (Ok _, (t, Some x)) \<Rightarrow> (Ok x, t)
          | (Err e, (t, _)) \<Rightarrow> (Err e, t)
          | (_, (t, _)) \<Rightarrow> (Panic, t))"

section \<open>Requests\<close>

text \<open>
  The data of a request: the attributes, and the relationships, of which each may be missing, may lack data, or has
  identifiers that may be missing. \<open>rs_other\<close> stands for the relationships that no handler reads.
\<close>

record relationships =
  rs_Assignees :: "string option list option option"
  rs_Labels :: "string option list option option"
  rs_Boardcolumns :: "string option list option option"
  rs_Iteration :: "string option option option"
  rs_Area :: "string option option option"
  rs_BaseType :: "uuid option option"
  rs_other :: bool

record item_payload =
  pl_ID :: "uuid option"
  pl_Attributes :: fields
  pl_Relationships :: "relationships option"

definition no_relationships :: relationships where
  "no_relationships = \<lparr>rs_Assignees = None, rs_Labels = None, rs_Boardcolumns = None, rs_Iteration = None, rs_Area = None,
     rs_BaseType = None, rs_other = False\<rparr>"

definition SystemVersion :: string where "SystemVersion = ''version''"

definition SystemDescriptionMarkup :: string where "SystemDescriptionMarkup = ''system.description.markup''"

definition SystemCodebase :: string where "SystemCodebase = ''system.codebase''"

definition SystemAssignees :: string where "SystemAssignees = ''system.assignees''"

definition SystemLabels :: string where "SystemLabels = ''system.labels''"

definition SystemArea :: string where "SystemArea = ''system.area''"

definition MethodPost :: string where "MethodPost = ''POST''"

definition MethodPatch :: string where "MethodPatch = ''PATCH''"

definition getVersion :: "(goval \<Rightarrow> string) \<Rightarrow> goval \<Rightarrow> 64 word res" where
  "getVersion sprint version =
     (if version = VNil then Ok (- 1)
      else case atoi (sprint version) of
        None \<Rightarrow> Err (NewBadParameterError ''data.attributes.version'' version)
      | Some v \<Rightarrow> Ok (word_of_int v))"

section \<open>From a request to a work item\<close>

text \<open>The identifiers of a relationship; a missing one is a nil dereference.\<close>

fun relation_ids :: "uuid_lib \<Rightarrow> string \<Rightarrow> (uuid \<Rightarrow> bool) \<Rightarrow> string option list \<Rightarrow> string list res" where
  "relation_ids U field valid [] = Ok []"
| "relation_ids U field valid (None # ds) = Panic"
| "relation_ids U field valid (Some str # ds) =
     (case uFromString U str of
        None \<Rightarrow> Err (NewBadParameterError field (VString str))
      | Some i \<Rightarrow>
          if \<not> valid i then Err (NewBadParameterError field (VString str))
          else res_bind (relation_ids U field valid ds) (\<lambda>ids. Ok (uString U i # ids)))"

definition set_field :: "string \<Rightarrow> goval \<Rightarrow> work_item \<Rightarrow> work_item" where
  "set_field k v wi = wi\<lparr>w_Fields := AList.update k v (w_Fields wi)\<rparr>"

definition convert_assignees :: "handler_env \<Rightarrow> relationships \<Rightarrow> work_item \<Rightarrow> work_item handler" where
  "convert_assignees H rs wi =
     (case rs_Assignees rs of
        None \<Rightarrow> act_return wi
      | Some None \<Rightarrow> act_return (wi\<lparr>w_Fields := AList.delete SystemAssignees (w_Fields wi)\<rparr>)
      | Some (Some ds) \<Rightarrow>
          act_bind (act_gets (\<lambda>s. relation_ids (he_uuid H) ''data.relationships.assignees.data.id''
            (\<lambda>i. Identity_IsValid (he_accounts H) i (hd_Accounts s)) ds)) (\<lambda>ids.
          act_return (set_field SystemAssignees (VStrSlice ids) wi)))"

text \<open>The identifiers of labels and columns are collected in a map; the order of the list is that of the map.\<close>

definition convert_labels :: "handler_env \<Rightarrow> relationships \<Rightarrow> work_item \<Rightarrow> work_item handler" where
  "convert_labels H rs wi =
     (case rs_Labels rs of
        None \<Rightarrow> act_return wi
      | Some None \<Rightarrow> act_fail (NewBadParameterError ''data.relationships.labels.data'' VNil)
      | Some (Some ds) \<Rightarrow>
          act_bind (act_gets (\<lambda>s. relation_ids (he_uuid H) ''data.relationships.labels.data.id''
            (\<lambda>i. Label_IsValid (he_uuid H) (he_db H) i (hd_Labels s)) ds)) (\<lambda>ids.
          act_return (set_field SystemLabels (VStrSlice (remdups ids)) wi)))"

definition convert_boardcolumns :: "handler_env \<Rightarrow> relationships \<Rightarrow> work_item \<Rightarrow> work_item handler" where
  "convert_boardcolumns H rs wi =
     (case rs_Boardcolumns rs of
        None \<Rightarrow> act_return wi
      | Some None \<Rightarrow> act_fail (NewBadParameterError SystemBoardcolumns VNil)
      | Some (Some ds) \<Rightarrow>
          act_bind (act_lift (relation_ids (he_uuid H) SystemBoardcolumns (\<lambda>_. True) ds)) (\<lambda>ids.
          act_return (set_field SystemBoardcolumns (VStrSlice (remdups ids)) wi)))"

text \<open>
  Without an iteration or area the root of the space is loaded in any case; it is assigned when the work item is
  created, and on an update only if the relationship is there without data.
\<close>

definition assigns_root :: "string \<Rightarrow> 'a option option \<Rightarrow> bool" where
  "assigns_root method rel \<longleftrightarrow> method = MethodPost \<or> method = MethodPatch \<and> rel = Some None"

definition convert_iteration :: "handler_env \<Rightarrow> string \<Rightarrow> uuid \<Rightarrow> relationships \<Rightarrow> work_item \<Rightarrow> work_item handler" where
  "convert_iteration H method spaceID rs wi =
     (case rs_Iteration rs of
        Some (Some d) \<Rightarrow>
          (case d of
             None \<Rightarrow> act_lift Panic
           | Some str \<Rightarrow>
               (case uFromString (he_uuid H) str of
                  None \<Rightarrow> act_fail (NewBadParameterError ''data.relationships.iteration.data.id'' (VString str))
                | Some i \<Rightarrow>
                    act_bind (act_map_err (\<lambda>_. NewNotFoundError ''data.relationships.iteration.data.id'' str)
                      (on_iteration_table (Iteration_CheckExists (he_iterations H) i))) (\<lambda>_.
                    act_return (set_field SystemIteration (VString (uString (he_uuid H) i)) wi))))
      | rel \<Rightarrow>
          act_bind (act_map_err NewInternalError (on_iteration_table (Iteration_Root (he_iterations H) spaceID))) (\<lambda>root.
          act_return (if assigns_root method rel
            then set_field SystemIteration (VString (uString (he_uuid H) (it_ID root))) wi else wi)))"

definition is_not_found :: "go_error \<Rightarrow> bool" where
  "is_not_found e = (case e of NotFoundError _ \<Rightarrow> True | _ \<Rightarrow> False)"

definition convert_area :: "handler_env \<Rightarrow> string \<Rightarrow> uuid \<Rightarrow> relationships \<Rightarrow> work_item \<Rightarrow> work_item handler" where
  "convert_area H method spaceID rs wi =
     (case rs_Area rs of
        Some (Some d) \<Rightarrow>
          (case d of
             None \<Rightarrow> act_lift Panic
           | Some str \<Rightarrow>
               (case uFromString (he_uuid H) str of
                  None \<Rightarrow> act_fail (NewBadParameterError ''data.relationships.area.data.id'' (VString str))
                | Some i \<Rightarrow>
                    act_bind (act_map_err
                      (\<lambda>e. if is_not_found (he_cause H e) then NewNotFoundError ''data.relationships.area.data.id'' str
                           else EWrap ''unknown error when verifying the area id'' e)
                      (on_area_table (Area_CheckExists (he_uuid H) (he_db H) i))) (\<lambda>_.
                    act_return (set_field SystemArea (VString (uString (he_uuid H) i)) wi))))
      | rel \<Rightarrow>
          act_bind (act_map_err NewInternalError (on_space_tables (Space_CheckExists (he_spaces H) spaceID))) (\<lambda>_.
          act_bind (on_area_table (Area_Root (he_uuid H) (he_db H) spaceID)) (\<lambda>root.
          act_return (if assigns_root method rel
            then set_field SystemArea (VString (uString (he_uuid H) (ar_ID root))) wi else wi))))"

definition convert_type :: "relationships \<Rightarrow> work_item \<Rightarrow> work_item" where
  "convert_type rs wi = (case rs_BaseType rs of Some (Some ty) \<Rightarrow> wi\<lparr>w_Type := ty\<rparr> | _ \<Rightarrow> wi)"

text \<open>The description of a work item is replaced text and markup apart; other values are a failed type assertion.\<close>

definition update_description :: "(markup_content \<Rightarrow> markup_content) \<Rightarrow> markup_content \<Rightarrow> work_item \<Rightarrow> work_item res" where
  "update_description change initial wi =
     (case map_get (w_Fields wi) SystemDescription of
        VNil \<Rightarrow> Ok (set_field SystemDescription (VMarkup initial) wi)
      | VMarkup m \<Rightarrow> Ok (set_field SystemDescription (VMarkup (change m)) wi)
      | _ \<Rightarrow> Panic)"

text \<open>An error of the set-up of a codebase is dropped; a value that is no codebase is a nil dereference.\<close>

definition convert_codebase :: "handler_env \<Rightarrow> uuid \<Rightarrow> goval \<Rightarrow> work_item \<Rightarrow> work_item handler" where
  "convert_codebase H spaceID val wi =
     act_bind (act_map_err (EWrap ''failed to create new codebase from value'') (act_lift (NewCodebaseContentFromValue val))) (\<lambda>m.
     case m of
       None \<Rightarrow> act_lift Panic
     | Some cb \<Rightarrow>
         act_bind (\<lambda>s. case on_codebase_table (setupCodebase (he_uuid H) (he_db H) cb spaceID) s of
             (Err _, t) \<Rightarrow> (Ok cb, t) | (r, t) \<Rightarrow> (r, t)) (\<lambda>cb'.
         act_return (set_field SystemCodebase (VCodebase cb') wi)))"

definition convert_attribute :: "handler_env \<Rightarrow> uuid \<Rightarrow> string \<times> goval \<Rightarrow> work_item \<Rightarrow> work_item handler" where
  "convert_attribute H spaceID kv wi =
     (if fst kv = SystemDescription then
        act_lift (res_bind (NewMarkupContentFromValue (snd kv)) (\<lambda>m.
          case m of None \<Rightarrow> Ok wi | Some mc \<Rightarrow> update_description (\<lambda>old. old\<lparr>mc_Content := mc_Content mc\<rparr>) mc wi))
      else if fst kv = SystemDescriptionMarkup then
        (case snd kv of
           VString markup \<Rightarrow> act_lift (update_description (\<lambda>old. old\<lparr>mc_Markup := markup\<rparr>)
             \<lparr>mc_Content = [], mc_Markup = markup\<rparr> wi)
         | _ \<Rightarrow> act_lift Panic)
      else if fst kv = SystemCodebase then convert_codebase H spaceID (snd kv) wi
      else act_return (set_field (fst kv) (snd kv) wi))"

fun convert_attributes :: "handler_env \<Rightarrow> uuid \<Rightarrow> fields \<Rightarrow> work_item \<Rightarrow> work_item handler" where
  "convert_attributes H spaceID [] wi = act_return wi"
| "convert_attributes H spaceID (kv # kvs) wi =
     act_bind (convert_attribute H spaceID kv wi) (convert_attributes H spaceID kvs)"

definition check_markup :: "work_item \<Rightarrow> work_item res" where
  "check_markup wi =
     (case map_get (w_Fields wi) SystemDescription of
        VMarkup m \<Rightarrow>
          if IsMarkupSupported (mc_Markup m) then Ok wi
          else Err (NewBadParameterError ''data.relationships.attributes[system.description].markup'' (VString (mc_Markup m)))
      | _ \<Rightarrow> Ok wi)"

definition convert_relationships :: "handler_env \<Rightarrow> string \<Rightarrow> uuid \<Rightarrow> relationships option \<Rightarrow> work_item \<Rightarrow> work_item handler" where
  "convert_relationships H method spaceID rel wi =
     (case rel of
        None \<Rightarrow> act_return wi
      | Some rs \<Rightarrow>
          act_bind (convert_assignees H rs wi) (\<lambda>wi.
          act_bind (convert_labels H rs wi) (\<lambda>wi.
          act_bind (convert_boardcolumns H rs wi) (\<lambda>wi.
          act_bind (convert_iteration H method spaceID rs wi) (\<lambda>wi.
          act_bind (convert_area H method spaceID rs wi) (\<lambda>wi.
          act_return (convert_type rs wi)))))))"

definition ConvertJSONAPIToWorkItem :: "handler_env \<Rightarrow> string \<Rightarrow> item_payload \<Rightarrow> work_item \<Rightarrow> uuid \<Rightarrow> work_item handler" where
  "ConvertJSONAPIToWorkItem H method source target spaceID =
     act_bind (act_lift (getVersion (re_sprint (he_repo H)) (map_get (pl_Attributes source) SystemVersion))) (\<lambda>version.
     act_bind (convert_relationships H method spaceID (pl_Relationships source) (target\<lparr>w_Version := version\<rparr>)) (\<lambda>wi.
     act_bind (convert_attributes H spaceID (pl_Attributes source) wi) (\<lambda>wi. act_lift (check_markup wi))))"

section \<open>Authorization\<close>

definition WorkitemCreatorOrSpaceOwner :: "handler_env \<Rightarrow> uuid \<Rightarrow> uuid \<Rightarrow> uuid \<Rightarrow> unit handler" where
  "WorkitemCreatorOrSpaceOwner H spaceID creatorID editorID =
     (if editorID = creatorID then act_return ()
      else act_bind (act_map_err (\<lambda>_. NewNotFoundError ''space'' (uString (he_uuid H) spaceID))
             (on_space_tables (Space_Load (he_spaces H) spaceID))) (\<lambda>space.
           if editorID = sp_OwnerID space then act_return ()
           else act_fail (NewForbiddenError ''user is not a workitem creator or space owner'')))"

definition authorizeWorkitemEditor :: "handler_env \<Rightarrow> uuid \<Rightarrow> string \<Rightarrow> string \<Rightarrow> bool res" where
  "authorizeWorkitemEditor H spaceID creatorID editorID =
     (if editorID = creatorID then Ok True
      else map_err (\<lambda>e. NewUnauthorizedError (re_text (he_repo H) e)) (he_authorize H spaceID))"

definition current_user :: "handler_env \<Rightarrow> uuid res" where
  "current_user H = map_err (\<lambda>e. NewUnauthorizedError (re_text (he_repo H) e)) (he_caller H)"

text \<open>The creator of a work item, as text and as identifier.\<close>

definition item_creator :: "handler_env \<Rightarrow> work_item \<Rightarrow> (string \<times> uuid) res" where
  "item_creator H wi =
     (case map_get (w_Fields wi) SystemCreator of
        VNil \<Rightarrow> Err (NewInternalError (EErrorf ''work item doesn't have creator''))
      | VString str \<Rightarrow>
          (case uFromString (he_uuid H) str of None \<Rightarrow> Err (EErrorf ''uuid'') | Some i \<Rightarrow> Ok (str, i))
      | _ \<Rightarrow> Err (EErrorf ''failed to convert user to string''))"

section \<open>The handlers\<close>

definition load_item :: "handler_env \<Rightarrow> (go_error \<Rightarrow> go_error) \<Rightarrow> uuid \<Rightarrow> work_item handler" where
  "load_item H wrap i = transaction_result H (act_map_err wrap (on_work_items (LoadByID (he_repo H) i)))"

text \<open>A change of the type must come alone: with the version, and with nothing else.\<close>

definition changes_type :: "item_payload \<Rightarrow> work_item \<Rightarrow> bool" where
  "changes_type data wi \<longleftrightarrow>
     (case pl_Relationships data of
        Some rs \<Rightarrow> (case rs_BaseType rs of Some (Some ty) \<Rightarrow> ty \<noteq> w_Type wi | _ \<Rightarrow> False)
      | None \<Rightarrow> False)"

definition check_type_change :: "handler_env \<Rightarrow> item_payload \<Rightarrow> work_item \<Rightarrow> uuid \<Rightarrow> uuid \<Rightarrow> item_payload handler" where
  "check_type_change H data wi creatorID editorID =
     (if \<not> changes_type data wi then act_return data
      else act_bind (WorkitemCreatorOrSpaceOwner H (w_SpaceID wi) creatorID editorID) (\<lambda>_.
        let rs = (case pl_Relationships data of Some rs \<Rightarrow> rs | None \<Rightarrow> no_relationships);
            attributes = AList.delete SystemVersion (pl_Attributes data)
        in if rs\<lparr>rs_BaseType := None\<rparr> \<noteq> no_relationships \<or> attributes \<noteq> []
           then act_fail (NewBadParameterErrorFromString ''cannot update type along with other fields'')
           else act_return (data\<lparr>pl_Attributes :=
             AList.update SystemVersion (map_get (pl_Attributes data) SystemVersion) attributes\<rparr>)))"

definition save_update :: "handler_env \<Rightarrow> item_payload \<Rightarrow> work_item \<Rightarrow> uuid \<Rightarrow> (work_item \<times> revision) handler" where
  "save_update H data wi editorID =
     act_bind (ConvertJSONAPIToWorkItem H MethodPatch data wi (w_SpaceID wi)) (\<lambda>wi'.
     act_map_err (EWrap ''Error updating work item'')
       (on_work_items (WIR_Save (he_repo H) (w_SpaceID wi') (wi'\<lparr>w_Number := w_Number wi\<rparr>) editorID)))"

definition handle_Update :: "handler_env \<Rightarrow> item_payload option \<Rightarrow> (work_item \<times> work_item_type) handler" where
  "handle_Update H payload =
     (case payload of
        None \<Rightarrow> act_fail (NewBadParameterError ''missing data.ID element in request'' VNil)
      | Some data \<Rightarrow>
          (case pl_ID data of
             None \<Rightarrow> act_fail (NewBadParameterError ''missing data.ID element in request'' VNil)
           | Some i \<Rightarrow>
               act_bind (act_lift (current_user H)) (\<lambda>editorID.
               act_bind (load_item H (\<lambda>e. e) i) (\<lambda>wi.
               act_bind (act_lift (item_creator H wi)) (\<lambda>(creatorStr, creatorID).
               act_bind (act_lift (authorizeWorkitemEditor H (w_SpaceID wi) creatorStr (uString (he_uuid H) editorID))) (\<lambda>authorized.
               if \<not> authorized then act_fail (NewForbiddenError ''user is not authorized to access the space'')
               else
               act_bind (check_type_change H data wi creatorID editorID) (\<lambda>data'.
               act_bind (transaction_result H (save_update H data' wi editorID)) (\<lambda>(saved, rev).
               act_bind (act_map_err (EWrap ''failed to load work item type'') (on_work_items (WITR_Load (he_repo H) (w_Type saved)))) (\<lambda>wit.
               act_return (saved, wit))))))))))"

definition handle_Show :: "handler_env \<Rightarrow> uuid \<Rightarrow> (work_item \<times> work_item_type) handler" where
  "handle_Show H i =
     transaction_result H
       (act_bind (act_map_err (EWrap ''Fail to load work item with id'') (on_work_items (LoadByID (he_repo H) i))) (\<lambda>wi.
        act_bind (act_map_err (EWrap ''failed to load work item type'') (on_work_items (WITR_Load (he_repo H) (w_Type wi)))) (\<lambda>wit.
        act_return (wi, wit))))"

definition delete_with_links :: "handler_env \<Rightarrow> uuid \<Rightarrow> uuid \<Rightarrow> unit handler" where
  "delete_with_links H i editorID =
     act_bind (act_map_err (EWrap ''failed to delete work item links related to work item'')
       (on_links (DeleteRelatedLinks (he_repo H) i editorID))) (\<lambda>_.
     act_map_err (EWrap ''error deleting work item'') (on_work_items (WIR_Delete (he_repo H) i editorID)))"

definition handle_Delete :: "handler_env \<Rightarrow> uuid \<Rightarrow> unit handler" where
  "handle_Delete H i =
     act_bind (act_lift (current_user H)) (\<lambda>editorID.
     act_bind (load_item H (EWrap ''Fail to load work item with id'') i) (\<lambda>wi.
     act_bind (act_lift (item_creator H wi)) (\<lambda>(_, creatorID).
     act_bind (act_map_err (\<lambda>e. if fst (IsForbiddenError (he_cause H) e)
           then NewForbiddenError ''user is not authorized to delete the workitem'' else e)
         (WorkitemCreatorOrSpaceOwner H (w_SpaceID wi) creatorID editorID)) (\<lambda>_.
     transaction_result H (delete_with_links H i editorID)))))"

text \<open>The owners of spaces in which every user may create work items.\<close>

definition open_owners :: "string list" where
  "open_owners = [''7b50ddb4-5e12-4031-bca7-3b88f92e2339'', ''ae68a343-c866-430c-b6ce-a36f0b38d8e5'']"

definition empty_item :: work_item where
  "empty_item = \<lparr>w_ID = uuid_Nil, w_Number = 0, w_Type = uuid_Nil, w_Version = 0, w_SpaceID = uuid_Nil, w_Fields = [],
     w_relationShipsChangedAt = None\<rparr>"

definition create_item :: "handler_env \<Rightarrow> uuid \<Rightarrow> item_payload \<Rightarrow> uuid \<Rightarrow> uuid \<Rightarrow> (work_item \<times> revision) handler" where
  "create_item H spaceID data typeID creatorID =
     act_bind (on_space_tables (Space_CheckExists (he_spaces H) spaceID)) (\<lambda>_.
     act_bind (act_map_err (EWrap ''Error creating work item'') (ConvertJSONAPIToWorkItem H MethodPost data empty_item spaceID)) (\<lambda>wi.
     act_map_err (EWrap ''Error creating work item'')
       (on_work_items (WIR_Create (he_repo H) spaceID typeID (w_Fields wi) creatorID))))"

definition handle_Create :: "handler_env \<Rightarrow> uuid \<Rightarrow> item_payload option \<Rightarrow> (work_item \<times> work_item_type) handler" where
  "handle_Create H spaceID payload =
     act_bind (act_lift (current_user H)) (\<lambda>creatorID.
     act_bind (transaction_result H (act_map_err
         (\<lambda>_. Expected (NewBadParameterError ''space'' (VString (uString (he_uuid H) spaceID))) (VString ''valid space ID''))
         (on_space_tables (Space_Load (he_spaces H) spaceID)))) (\<lambda>space.
     act_bind (if uString (he_uuid H) (sp_OwnerID space) \<in> set open_owners then act_return True
               else act_lift (map_err NewInternalError (he_authorize H spaceID))) (\<lambda>authorized.
     if \<not> authorized then act_fail (NewForbiddenError ''user is not authorized to access the space'')
     else case payload of
       Some data \<Rightarrow>
         (case map_option rs_BaseType (pl_Relationships data) of
            Some (Some (Some typeID)) \<Rightarrow>
              act_bind (transaction_result H (create_item H spaceID data typeID creatorID)) (\<lambda>(wi, rev).
              act_bind (on_work_items (WITR_Load (he_repo H) typeID)) (\<lambda>wit. act_return (wi, wit)))
          | _ \<Rightarrow> act_fail (NewBadParameterError ''Data.Relationships.BaseType.Data.ID'' VNil))
     | None \<Rightarrow> act_fail (NewBadParameterError ''Data.Relationships.BaseType.Data.ID'' VNil))))"

definition reorder_one :: "handler_env \<Rightarrow> uuid \<Rightarrow> string \<Rightarrow> uuid option \<Rightarrow> item_payload \<Rightarrow> uuid \<Rightarrow> work_item handler" where
  "reorder_one H spaceID direction targetID data editorID =
     (case pl_ID data of
        None \<Rightarrow> act_lift Panic
      | Some i \<Rightarrow>
          act_bind (act_map_err (EWrap ''failed to reorder work item'') (on_work_items (LoadByID (he_repo H) i))) (\<lambda>wi.
          act_bind (act_map_err (\<lambda>_. NewNotFoundError ''work item'' (itoa (sint (w_Number wi))))
            (on_work_items (WIR_Load (he_repo H) spaceID (w_Number wi)))) (\<lambda>_.
          act_bind (act_map_err (EWrap ''failed to reorder work item'') (ConvertJSONAPIToWorkItem H MethodPatch data wi spaceID)) (\<lambda>wi.
          act_bind (on_work_items (Reorder (he_repo H) spaceID direction targetID wi editorID)) (\<lambda>wi.
          act_bind (act_map_err (EWrap []) (on_work_items (WITR_Load (he_repo H) (w_Type wi)))) (\<lambda>_. act_return wi))))))"

fun reorder_all :: "handler_env \<Rightarrow> uuid \<Rightarrow> string \<Rightarrow> uuid option \<Rightarrow> item_payload list \<Rightarrow> uuid \<Rightarrow> work_item list handler" where
  "reorder_all H spaceID direction targetID [] editorID = act_return []"
| "reorder_all H spaceID direction targetID (d # ds) editorID =
     act_bind (reorder_one H spaceID direction targetID d editorID) (\<lambda>wi.
     act_bind (reorder_all H spaceID direction targetID ds editorID) (\<lambda>wis. act_return (wi # wis)))"

definition handle_Reorder :: "handler_env \<Rightarrow> uuid \<Rightarrow> (item_payload list \<times> string \<times> uuid option) option \<Rightarrow> work_item list handler" where
  "handle_Reorder H spaceID payload =
     act_bind (act_lift (current_user H)) (\<lambda>editorID.
     act_bind (act_lift (map_err (\<lambda>e. NewUnauthorizedError (re_text (he_repo H) e)) (he_authorize H spaceID))) (\<lambda>authorized.
     if \<not> authorized then act_fail (NewForbiddenError ''user is not authorized to access the space'')
     else case payload of
       None \<Rightarrow> act_fail (NewBadParameterError ''missing payload element in request'' VNil)
     | Some (items, direction, targetID) \<Rightarrow>
         transaction_result H (reorder_all H spaceID direction targetID items editorID)))"

section \<open>What the handlers leave alone\<close>

text \<open>Only the cache of work item types may have changed.\<close>

definition tables_kept :: "tracker_db \<Rightarrow> tracker_db \<Rightarrow> bool" where
  "tables_kept s t \<longleftrightarrow> (\<exists>c. t = s\<lparr>hd_Links := with_cache (hd_Links s) c\<rparr>)"

lemma with_cache_same [simp]: "with_cache s (db_cache (ld_items s)) = s"
  by (simp add: with_cache_def)

lemma with_cache_twice [simp]: "with_cache (with_cache s c) d = with_cache s d"
  by (simp add: with_cache_def)

lemma tables_kept_refl [simp]: "tables_kept s s"
  unfolding tables_kept_def by (rule exI [of _ "db_cache (ld_items (hd_Links s))"]) simp

lemma tables_kept_trans: "tables_kept s t \<Longrightarrow> tables_kept t u \<Longrightarrow> tables_kept s u"
  unfolding tables_kept_def by auto

lemma tables_kept_rollback [simp]: "tables_kept s (rollback_tracker s t)"
  unfolding tables_kept_def rollback_tracker_def
  by (rule exI [of _ "db_cache (ld_items (hd_Links t))"]) (simp add: rollback_links_def rollback_db_def with_cache_def)

definition keeps :: "'a handler \<Rightarrow> bool" where
  "keeps m \<longleftrightarrow> (\<forall>s r t. m s = (r, t) \<longrightarrow> tables_kept s t)"

lemma keepsD: "keeps m \<Longrightarrow> m s = (r, t) \<Longrightarrow> tables_kept s t"
  unfolding keeps_def by blast

lemma keeps_lift: "keeps (act_lift r)"
  by (simp add: keeps_def)

lemma keeps_map_err: "keeps m \<Longrightarrow> keeps (act_map_err f m)"
  by (auto simp: keeps_def act_map_err_def split: prod.splits)

lemma keeps_simple: "keeps (act_return x)" "keeps (act_fail e)"
  by (simp_all add: keeps_def)

lemma keeps_bind: "keeps m \<Longrightarrow> (\<And>x. keeps (f x)) \<Longrightarrow> keeps (act_bind m f)"
  unfolding keeps_def act_bind_def by (fastforce split: prod.splits gres.splits intro: tables_kept_trans)

lemma keeps_work_items: "reads m \<Longrightarrow> keeps (on_work_items m)"
  unfolding keeps_def on_work_items_def on_links_def on_table_def tables_kept_def
  by (auto split: prod.splits dest!: on_items_reads)

lemma transaction_result_begin:
  "env_fault (he_db H) ''begin'' = Some e \<Longrightarrow> transaction_result H m s = (Err (EWrap [] e), s)"
  "he_timeout H \<Longrightarrow> env_fault (he_db H) ''begin'' = None \<Longrightarrow>
     transaction_result H m s = (Err (EErrorf ''database transaction timeout''), s)"
  by (simp_all add: transaction_result_def Transactional_def)

lemma transaction_result_run:
  assumes "env_fault (he_db H) ''begin'' = None" "\<not> he_timeout H"
  shows "transaction_result H m s =
    (case m s of
       (Ok x, t) \<Rightarrow> (Ok x, if env_fault (he_db H) ''commit'' = None then t else rollback_tracker s t)
     | (Err e, t) \<Rightarrow> (Err (EWrap [] e), rollback_tracker s t)
     | (Panic, t) \<Rightarrow> (Err (EWrap [] (EErrorf (''recovered '' @ he_stack H))), rollback_tracker s t))"
proof -
  obtain r t where m: "m s = (r, t)" by fastforce
  show ?thesis
    by (cases r; cases "env_fault (he_db H) ''commit''")
      (simp_all add: transaction_result_def Transactional_def assms m)
qed

text \<open>The result of a transaction is that of its function, unless it was rolled back.\<close>

lemma transaction_result_cases:
  assumes "transaction_result H m s = (r, t)"
  obtains (kept) "tables_kept s t" "is_ok r \<longrightarrow> env_fault (he_db H) ''commit'' \<noteq> None \<and> (\<exists>u. m s = (r, u))"
  | (ran) "m s = (r, t)" "is_ok r"
proof (cases "env_fault (he_db H) ''begin'' = None \<and> \<not> he_timeout H")
  case False
  then have "t = s \<and> \<not> is_ok r"
    using assms transaction_result_begin(1) [of H _ m s] transaction_result_begin(2) [of H m s] by (cases "env_fault (he_db H) ''begin''") auto
  then show ?thesis using kept by simp
next
  case True
  obtain r' t' where m: "m s = (r', t')" by fastforce
  have run: "transaction_result H m s = (r, t)" by fact
  show ?thesis
  proof (cases r')
    case (Ok x)
    with run m True show ?thesis
      using kept ran by (cases "env_fault (he_db H) ''commit''") (auto simp: transaction_result_run)
  next
    case (Err e)
    with run m True show ?thesis using kept by (auto simp: transaction_result_run)
  next
    case Panic
    with run m True show ?thesis using kept by (auto simp: transaction_result_run)
  qed
qed

lemma keeps_transaction: "keeps m \<Longrightarrow> keeps (transaction_result H m)"
  unfolding keeps_def [of "transaction_result H m"] by (metis keepsD transaction_result_cases)

lemma keeps_load_item: "keeps (load_item H f i)"
  unfolding load_item_def by (intro keeps_transaction keeps_map_err keeps_work_items reads_batch)

lemma load_item_Ok:
  assumes "load_item H f i s = (Ok wi, t)"
  shows "\<exists>u. on_work_items (LoadByID (he_repo H) i) s = (Ok wi, u)"
  using assms unfolding load_item_def
  by (cases rule: transaction_result_cases) (auto simp: act_map_err_Ok_iff)

section \<open>Only who is authorized changes work items\<close>

lemma creator_or_owner_Ok:
  assumes "WorkitemCreatorOrSpaceOwner H spaceID creatorID editorID s = (Ok u, t)"
  shows "t = s \<and> (editorID = creatorID \<or>
    (\<exists>p \<in> set (live_spaces (hd_Spaces s)). sp_ID p = spaceID \<and> sp_OwnerID p = editorID))"
  using assms
  by (auto simp: WorkitemCreatorOrSpaceOwner_def act_bind_Ok_iff act_return_def act_fail_def on_space_tables_def on_table_Ok_iff
      Space_Load_def on_spaces_def gorm_first_Ok_iff live_spaces_def dest!: by_id_SomeD split: if_splits)

lemma keeps_space_load: "keeps (on_space_tables (Space_Load S i))"
proof -
  have ro: "readonly (Space_Load S i)"
    unfolding Space_Load_def on_spaces_def
    by (auto simp: readonly_def on_table_def split: prod.splits dest: readonlyD [OF readonly_first])
  then have "t = s" if "on_space_tables (Space_Load S i) s = (r, t)" for r s t
    using that by (auto simp: on_space_tables_def on_table_def split: prod.splits dest!: readonlyD [OF ro])
  then show ?thesis unfolding keeps_def by (metis tables_kept_refl)
qed

lemma keeps_creator_or_owner: "keeps (WorkitemCreatorOrSpaceOwner H spaceID creatorID editorID)"
  unfolding WorkitemCreatorOrSpaceOwner_def
  by (auto intro!: keeps_bind keeps_map_err keeps_space_load keeps_simple)

text \<open>What a handler found before the tables could change: who called, and what allows the call.\<close>

definition may_edit :: "handler_env \<Rightarrow> uuid \<Rightarrow> work_item \<Rightarrow> bool" where
  "may_edit H editorID wi \<longleftrightarrow>
     map_get (w_Fields wi) SystemCreator = VString (uString (he_uuid H) editorID) \<or>
     he_authorize H (w_SpaceID wi) = Ok True"

definition may_administer :: "handler_env \<Rightarrow> tracker_db \<Rightarrow> uuid \<Rightarrow> work_item \<Rightarrow> bool" where
  "may_administer H s editorID wi \<longleftrightarrow>
     (\<exists>str. map_get (w_Fields wi) SystemCreator = VString str \<and> uFromString (he_uuid H) str = Some editorID) \<or>
     (\<exists>p \<in> set (live_spaces (hd_Spaces s)). sp_ID p = w_SpaceID wi \<and> sp_OwnerID p = editorID)"

text \<open>A call acts when it succeeds or changes the tables; then each of its checks has passed.\<close>

definition acts :: "tracker_db \<Rightarrow> 'a res \<Rightarrow> tracker_db \<Rightarrow> bool" where
  "acts s r t \<longleftrightarrow> is_ok r \<or> \<not> tables_kept s t"

lemma acts_bind:
  assumes "act_bind m f s = (r, t)" "acts s r t" "keeps m"
  obtains x s1 where "m s = (Ok x, s1)" "tables_kept s s1" "f x s1 = (r, t)" "acts s1 r t"
  using assms tables_kept_trans [of s _ t]
  by (auto simp: acts_def act_bind_def split: prod.splits gres.splits dest: keepsD)

lemma acts_lift:
  assumes "act_bind (act_lift r') f s = (r, t)" "acts s r t"
  obtains x where "r' = Ok x" "f x s = (r, t)"
  using assms by (auto simp: acts_def act_bind_def act_lift_def split: gres.splits)

lemma acts_lift_pair:
  assumes "act_bind (act_lift r') (\<lambda>(a, b). f a b) s = (r, t)" "acts s r t"
  obtains a b where "r' = Ok (a, b)" "f a b s = (r, t)"
proof (rule acts_lift [OF assms])
  fix x assume "r' = Ok x" "(case x of (a, b) \<Rightarrow> f a b) s = (r, t)"
  with that show thesis by (cases x) simp
qed

lemma acts_passed:
  assumes "act_bind m f s = (r, t)" "acts s r t" "keeps m"
  shows "\<exists>x s1. m s = (Ok x, s1)"
  using acts_bind [OF assms] by blast

lemma acts_fail [simp]: "act_fail e s = (r, t) \<Longrightarrow> \<not> acts s r t"
  by (auto simp: acts_def act_fail_def)

lemma acts_guard:
  assumes "act_bind m (\<lambda>ok. if \<not> ok then act_fail e else f) s = (r, t)" "acts s r t" "keeps m"
  obtains s1 where "m s = (Ok True, s1)" "tables_kept s s1" "f s1 = (r, t)" "acts s1 r t"
proof (rule acts_bind [OF assms])
  fix ok s1
  assume *: "m s = (Ok ok, s1)" "tables_kept s s1" "(if \<not> ok then act_fail e else f) s1 = (r, t)" "acts s1 r t"
  then have "ok" by (cases ok) auto
  with * that show thesis by simp
qed

lemma tables_kept_spaces: "tables_kept s t \<Longrightarrow> hd_Spaces t = hd_Spaces s"
  by (auto simp: tables_kept_def)

lemma current_user_Ok: "current_user H = Ok i \<longleftrightarrow> he_caller H = Ok i"
  by (cases "he_caller H") (simp_all add: current_user_def)

lemma item_creator_Ok:
  "item_creator H wi = Ok (str, i) \<Longrightarrow>
    map_get (w_Fields wi) SystemCreator = VString str \<and> uFromString (he_uuid H) str = Some i"
  by (auto simp: item_creator_def split: goval.splits option.splits)

lemma creator_or_owner_may_administer:
  assumes "WorkitemCreatorOrSpaceOwner H (w_SpaceID wi) creatorID editorID s1 = (Ok u, s2)"
    and "tables_kept s s1" "item_creator H wi = Ok (str, creatorID)"
  shows "may_administer H s editorID wi"
  using creator_or_owner_Ok [OF assms(1)] item_creator_Ok [OF assms(3)] tables_kept_spaces [OF assms(2)]
  unfolding may_administer_def by metis

lemma keeps_type_change: "keeps (check_type_change H data wi creatorID editorID)"
  unfolding check_type_change_def Let_def
  by (auto intro!: keeps_bind keeps_creator_or_owner keeps_simple split: option.splits)

lemma Delete_authorized:
  assumes "handle_Delete H i s = (r, t)" "acts s r t"
  shows "\<exists>editorID wi u. he_caller H = Ok editorID \<and> on_work_items (LoadByID (he_repo H) i) s = (Ok wi, u) \<and>
    may_administer H s editorID wi"
proof -
  obtain editorID where caller: "current_user H = Ok editorID"
    and 1: "act_bind (load_item H (EWrap ''Fail to load work item with id'') i) (\<lambda>wi.
       act_bind (act_lift (item_creator H wi)) (\<lambda>(_, creatorID).
       act_bind (act_map_err (\<lambda>e. if fst (IsForbiddenError (he_cause H) e)
             then NewForbiddenError ''user is not authorized to delete the workitem'' else e)
           (WorkitemCreatorOrSpaceOwner H (w_SpaceID wi) creatorID editorID)) (\<lambda>_.
       transaction_result H (delete_with_links H i editorID)))) s = (r, t)"
    by (rule acts_lift [OF assms(1) [unfolded handle_Delete_def] assms(2)])
  obtain wi s1 where
    loaded: "load_item H (EWrap ''Fail to load work item with id'') i s = (Ok wi, s1)" and k1: "tables_kept s s1"
    and 2: "act_bind (act_lift (item_creator H wi)) (\<lambda>(_, creatorID).
       act_bind (act_map_err (\<lambda>e. if fst (IsForbiddenError (he_cause H) e)
             then NewForbiddenError ''user is not authorized to delete the workitem'' else e)
           (WorkitemCreatorOrSpaceOwner H (w_SpaceID wi) creatorID editorID)) (\<lambda>_.
       transaction_result H (delete_with_links H i editorID))) s1 = (r, t)" "acts s1 r t"
    by (rule acts_bind [OF 1 assms(2) keeps_load_item])
  obtain str creatorID where creator: "item_creator H wi = Ok (str, creatorID)"
    and 3: "act_bind (act_map_err (\<lambda>e. if fst (IsForbiddenError (he_cause H) e)
             then NewForbiddenError ''user is not authorized to delete the workitem'' else e)
           (WorkitemCreatorOrSpaceOwner H (w_SpaceID wi) creatorID editorID)) (\<lambda>_.
       transaction_result H (delete_with_links H i editorID)) s1 = (r, t)"
    by (rule acts_lift_pair [OF 2])
  from acts_passed [OF 3 2(2) keeps_map_err [OF keeps_creator_or_owner]] creator_or_owner_may_administer [OF _ k1 creator]
  have "may_administer H s editorID wi" by auto
  with caller load_item_Ok [OF loaded] show ?thesis by (auto simp: current_user_Ok)
qed

lemma Update_authorized:
  assumes "handle_Update H (Some data) s = (r, t)" "pl_ID data = Some i" "acts s r t"
  shows "\<exists>editorID wi u. he_caller H = Ok editorID \<and> on_work_items (LoadByID (he_repo H) i) s = (Ok wi, u) \<and>
    may_edit H editorID wi \<and> (changes_type data wi \<longrightarrow> may_administer H s editorID wi)"
proof -
  let ?store = "\<lambda>editorID wi data'. act_bind (transaction_result H (save_update H data' wi editorID)) (\<lambda>(saved, rev).
     act_bind (act_map_err (EWrap ''failed to load work item type'') (on_work_items (WITR_Load (he_repo H) (w_Type saved)))) (\<lambda>wit.
     act_return (saved, wit)))"
  let ?guarded = "\<lambda>editorID wi creatorStr creatorID.
     act_bind (act_lift (authorizeWorkitemEditor H (w_SpaceID wi) creatorStr (uString (he_uuid H) editorID))) (\<lambda>authorized.
     if \<not> authorized then act_fail (NewForbiddenError ''user is not authorized to access the space'')
     else act_bind (check_type_change H data wi creatorID editorID) (?store editorID wi))"
  have run: "act_bind (act_lift (current_user H)) (\<lambda>editorID.
     act_bind (load_item H (\<lambda>e. e) i) (\<lambda>wi.
     act_bind (act_lift (item_creator H wi)) (\<lambda>(creatorStr, creatorID). ?guarded editorID wi creatorStr creatorID))) s = (r, t)"
    using assms(1,2) by (simp add: handle_Update_def)
  obtain editorID where caller: "current_user H = Ok editorID"
    and 1: "act_bind (load_item H (\<lambda>e. e) i) (\<lambda>wi.
     act_bind (act_lift (item_creator H wi)) (\<lambda>(creatorStr, creatorID). ?guarded editorID wi creatorStr creatorID)) s = (r, t)"
    by (rule acts_lift [OF run assms(3)])
  obtain wi s1 where loaded: "load_item H (\<lambda>e. e) i s = (Ok wi, s1)" and k1: "tables_kept s s1"
    and 2: "act_bind (act_lift (item_creator H wi)) (\<lambda>(creatorStr, creatorID). ?guarded editorID wi creatorStr creatorID) s1 = (r, t)"
      "acts s1 r t"
    by (rule acts_bind [OF 1 assms(3) keeps_load_item])
  obtain str creatorID where creator: "item_creator H wi = Ok (str, creatorID)" and 3: "?guarded editorID wi str creatorID s1 = (r, t)"
    by (rule acts_lift_pair [OF 2])
  obtain s2 where "act_lift (authorizeWorkitemEditor H (w_SpaceID wi) str (uString (he_uuid H) editorID)) s1 = (Ok True, s2)"
    and k2: "tables_kept s1 s2" and 4: "act_bind (check_type_change H data wi creatorID editorID) (?store editorID wi) s2 = (r, t)" "acts s2 r t"
    by (rule acts_guard [OF 3 2(2) keeps_lift])
  then have edit: "may_edit H editorID wi"
    using item_creator_Ok [OF creator]
    by (cases "he_authorize H (w_SpaceID wi)") (auto simp: authorizeWorkitemEditor_def act_lift_def may_edit_def split: if_splits)
  have "may_administer H s editorID wi" if "changes_type data wi"
  proof -
    from acts_passed [OF 4 keeps_type_change] obtain x s3 where "check_type_change H data wi creatorID editorID s2 = (Ok x, s3)"
      by blast
    with that obtain u s4 where "WorkitemCreatorOrSpaceOwner H (w_SpaceID wi) creatorID editorID s2 = (Ok u, s4)"
      by (auto simp: check_type_change_def act_bind_Ok_iff)
    with creator_or_owner_may_administer [OF _ tables_kept_trans [OF k1 k2] creator] show ?thesis by blast
  qed
  with edit caller load_item_Ok [OF loaded] show ?thesis by (auto simp: current_user_Ok)
qed

lemma Create_authorized:
  assumes "handle_Create H spaceID payload s = (r, t)" "acts s r t"
  shows "\<exists>creatorID p. he_caller H = Ok creatorID \<and> p \<in> set (live_spaces (hd_Spaces s)) \<and> sp_ID p = spaceID \<and>
    (uString (he_uuid H) (sp_OwnerID p) \<in> set open_owners \<or> he_authorize H spaceID = Ok True)"
proof -
  let ?make = "\<lambda>creatorID. case payload of
       Some data \<Rightarrow>
         (case map_option rs_BaseType (pl_Relationships data) of
            Some (Some (Some typeID)) \<Rightarrow>
              act_bind (transaction_result H (create_item H spaceID data typeID creatorID)) (\<lambda>(wi, rev).
              act_bind (on_work_items (WITR_Load (he_repo H) typeID)) (\<lambda>wit. act_return (wi, wit)))
          | _ \<Rightarrow> act_fail (NewBadParameterError ''Data.Relationships.BaseType.Data.ID'' VNil))
     | None \<Rightarrow> act_fail (NewBadParameterError ''Data.Relationships.BaseType.Data.ID'' VNil)"
  let ?load = "transaction_result H (act_map_err
         (\<lambda>_. Expected (NewBadParameterError ''space'' (VString (uString (he_uuid H) spaceID))) (VString ''valid space ID''))
         (on_space_tables (Space_Load (he_spaces H) spaceID)))"
  let ?allow = "\<lambda>space. if uString (he_uuid H) (sp_OwnerID space) \<in> set open_owners then act_return True
               else act_lift (map_err NewInternalError (he_authorize H spaceID))"
  obtain creatorID where caller: "current_user H = Ok creatorID"
    and 1: "act_bind ?load (\<lambda>space. act_bind (?allow space) (\<lambda>authorized.
      if \<not> authorized then act_fail (NewForbiddenError ''user is not authorized to access the space'')
      else ?make creatorID)) s = (r, t)"
    by (rule acts_lift [OF assms(1) [unfolded handle_Create_def] assms(2)])
  have keeps: "keeps ?load" by (intro keeps_transaction keeps_map_err keeps_space_load)
  obtain p s1 where load: "?load s = (Ok p, s1)" "tables_kept s s1"
    and 2: "act_bind (?allow p) (\<lambda>authorized.
      if \<not> authorized then act_fail (NewForbiddenError ''user is not authorized to access the space'')
      else ?make creatorID) s1 = (r, t)" "acts s1 r t"
    by (rule acts_bind [OF 1 assms(2) keeps])
  have allow: "keeps (?allow p)" by (simp add: keeps_simple keeps_lift)
  obtain s2 where ok: "?allow p s1 = (Ok True, s2)" by (rule acts_guard [OF 2 allow])
  from load(1) have "\<exists>u. on_space_tables (Space_Load (he_spaces H) spaceID) s = (Ok p, u)"
    by (cases rule: transaction_result_cases) (auto simp: act_map_err_Ok_iff)
  then have "p \<in> set (live_spaces (hd_Spaces s)) \<and> sp_ID p = spaceID"
    by (auto simp: on_space_tables_def on_table_Ok_iff Space_Load_def on_spaces_def gorm_first_Ok_iff live_spaces_def dest!: by_id_SomeD)
  with caller ok show ?thesis
    by (cases "he_authorize H spaceID") (auto simp: current_user_Ok act_return_def act_lift_def split: if_splits)
qed

lemma Reorder_authorized:
  assumes "handle_Reorder H spaceID payload s = (r, t)" "acts s r t"
  shows "is_ok (he_caller H) \<and> he_authorize H spaceID = Ok True"
proof -
  obtain editorID where caller: "current_user H = Ok editorID"
    and "act_bind (act_lift (map_err (\<lambda>e. NewUnauthorizedError (re_text (he_repo H) e)) (he_authorize H spaceID))) (\<lambda>authorized.
     if \<not> authorized then act_fail (NewForbiddenError ''user is not authorized to access the space'')
     else case payload of
       None \<Rightarrow> act_fail (NewBadParameterError ''missing payload element in request'' VNil)
     | Some (items, direction, targetID) \<Rightarrow>
         transaction_result H (reorder_all H spaceID direction targetID items editorID)) s = (r, t)"
    by (rule acts_lift [OF assms(1) [unfolded handle_Reorder_def] assms(2)])
  from this(2) assms(2) keeps_lift obtain s1
    where "act_lift (map_err (\<lambda>e. NewUnauthorizedError (re_text (he_repo H) e)) (he_authorize H spaceID)) s = (Ok True, s1)"
    by (rule acts_guard)
  with caller show ?thesis by (cases "he_authorize H spaceID") (simp_all add: current_user_Ok act_lift_def)
qed

section \<open>The calls of the handlers\<close>

datatype handler_call =
  CallCreate uuid "item_payload option"
| CallUpdate "item_payload option"
| CallDelete uuid
| CallReorder uuid "(item_payload list \<times> string \<times> uuid option) option"

fun run_call :: "handler_env \<Rightarrow> handler_call \<Rightarrow> unit handler" where
  "run_call H (CallCreate spaceID payload) = act_bind (handle_Create H spaceID payload) (\<lambda>_. act_return ())"
| "run_call H (CallUpdate payload) = act_bind (handle_Update H payload) (\<lambda>_. act_return ())"
| "run_call H (CallDelete i) = handle_Delete H i"
| "run_call H (CallReorder spaceID payload) = act_bind (handle_Reorder H spaceID payload) (\<lambda>_. act_return ())"

fun authorized_call :: "handler_env \<Rightarrow> tracker_db \<Rightarrow> uuid \<Rightarrow> handler_call \<Rightarrow> bool" where
  "authorized_call H s caller (CallCreate spaceID _) \<longleftrightarrow>
     (\<exists>p \<in> set (live_spaces (hd_Spaces s)). sp_ID p = spaceID \<and>
       (uString (he_uuid H) (sp_OwnerID p) \<in> set open_owners \<or> he_authorize H spaceID = Ok True))"
| "authorized_call H s caller (CallUpdate payload) \<longleftrightarrow>
     (\<exists>data i wi u. payload = Some data \<and> pl_ID data = Some i \<and> on_work_items (LoadByID (he_repo H) i) s = (Ok wi, u) \<and>
       may_edit H caller wi \<and> (changes_type data wi \<longrightarrow> may_administer H s caller wi))"
| "authorized_call H s caller (CallDelete i) \<longleftrightarrow>
     (\<exists>wi u. on_work_items (LoadByID (he_repo H) i) s = (Ok wi, u) \<and> may_administer H s caller wi)"
| "authorized_call H s caller (CallReorder spaceID _) \<longleftrightarrow> he_authorize H spaceID = Ok True"

lemma acts_forget:
  assumes "act_bind m (\<lambda>_. act_return ()) s = (r, t)" "acts s r t"
  obtains r' where "m s = (r', t)" "acts s r' t"
  using assms by (cases "m s") (auto simp: acts_def act_bind_def act_return_def is_ok_iff split: gres.splits)

lemma authorized_changes:
  assumes "run_call H c s = (r, t)" "acts s r t"
  shows "\<exists>caller. he_caller H = Ok caller \<and> authorized_call H s caller c"
proof (cases c)
  case (CallCreate spaceID payload)
  with assms have "act_bind (handle_Create H spaceID payload) (\<lambda>_. act_return ()) s = (r, t)" by simp
  then obtain r' where "handle_Create H spaceID payload s = (r', t)" "acts s r' t" using assms(2) by (rule acts_forget)
  from Create_authorized [OF this] show ?thesis unfolding CallCreate authorized_call.simps by blast
next
  case (CallUpdate payload)
  with assms have "act_bind (handle_Update H payload) (\<lambda>_. act_return ()) s = (r, t)" by simp
  then obtain r' where u: "handle_Update H payload s = (r', t)" "acts s r' t" using assms(2) by (rule acts_forget)
  obtain data where data: "payload = Some data"
    using u by (cases payload) (simp_all add: handle_Update_def)
  moreover obtain i where i: "pl_ID data = Some i"
    using u data by (cases "pl_ID data") (simp_all add: handle_Update_def)
  moreover note Update_authorized [OF u(1) [unfolded data] i u(2)]
  ultimately show ?thesis unfolding CallUpdate authorized_call.simps by blast
next
  case (CallDelete i)
  with assms have "handle_Delete H i s = (r, t)" by simp
  from Delete_authorized [OF this assms(2)] show ?thesis unfolding CallDelete authorized_call.simps by blast
next
  case (CallReorder spaceID payload)
  with assms have "act_bind (handle_Reorder H spaceID payload) (\<lambda>_. act_return ()) s = (r, t)" by simp
  then obtain r' where "handle_Reorder H spaceID payload s = (r', t)" "acts s r' t" using assms(2) by (rule acts_forget)
  from Reorder_authorized [OF this] show ?thesis unfolding CallReorder authorized_call.simps is_ok_iff by blast
qed

section \<open>Deleting a work item with its links\<close>

lemma erased_not_live:
  assumes "x \<in> set (filter (\<lambda>w. alive (lc w)) (map (\<lambda>w. if k w = i \<and> alive (lc w) then f w else w) rows))"
    and "\<And>w. \<not> alive (lc (f w))"
  shows "k x \<noteq> i"
  using assms by (induction rows) (auto split: if_splits)

lemma deleteLink_gone:
  assumes "deleteLink R l m s = (r, t)" "env_fault (re_db R) ''delete link'' = None"
  shows "\<forall>x \<in> set (live_links t). l_ID x \<noteq> l_ID l"
proof (cases "list_ex (\<lambda>x. l_ID x = l_ID l) (live_links s)")
  case False
  with assms have "t = s" by (simp add: deleteLink_def act_defs statement_def)
  with False show ?thesis by (simp add: list_ex_iff)
next
  case True
  let ?d = "s\<lparr>ld_links := map (\<lambda>x. if l_ID x = l_ID l \<and> alive (l_Lifecycle x)
                  then x\<lparr>l_Lifecycle := removed (re_db R) (l_Lifecycle x)\<rparr> else x) (ld_links s)\<rparr>"
  obtain r' t' where rev: "LinkRevision_Create R m RevisionTypeDelete l ?d = (r', t')" by fastforce
  with assms True have "t = t'" by (simp add: deleteLink_def act_defs statement_def)
  with LinkRevision_Create_tables [OF rev] have t: "ld_links t = map (\<lambda>x. if l_ID x = l_ID l \<and> alive (l_Lifecycle x)
      then x\<lparr>l_Lifecycle := removed (re_db R) (l_Lifecycle x)\<rparr> else x) (ld_links s)" by simp
  have "l_ID x \<noteq> l_ID l" if "x \<in> set (live_links t)" for x
    using that unfolding live_links_def t by (rule erased_not_live) simp
  then show ?thesis by blast
qed

lemma delete_links_gone:
  "delete_links R m locked ls s = (Ok u, t) \<Longrightarrow> env_fault (re_db R) ''delete link'' = None \<Longrightarrow> l \<in> set ls \<Longrightarrow>
     \<forall>x \<in> set (live_links t). l_ID x \<noteq> l_ID l"
proof (induction R m locked ls arbitrary: s rule: delete_links.induct)
  case (2 R m locked k ks)
  then obtain s1 s2 where del: "ignore_error (deleteLink R k m) s1 = (Ok (), s2)" and rest: "delete_links R m True ks s2 = (Ok u, t)"
    by (auto simp: act_bind_Ok_iff)
  from ignore_error_state [OF del] "2.prems"(2) have "\<forall>x \<in> set (live_links s2). l_ID x \<noteq> l_ID k" using deleteLink_gone by blast
  moreover from delete_links_unlinks [OF rest] have "set (live_links t) \<subseteq> set (live_links s2)" by (simp add: unlinks_def)
  ultimately show ?case using "2.IH" [OF rest "2.prems"(2)] "2.prems"(3) by auto
qed simp

lemma DeleteRelatedLinks_gone:
  assumes "DeleteRelatedLinks R i m s = (Ok u, t)" "env_fault (re_db R) ''delete link'' = None"
    and "env_fault (re_db R) ''links of work item'' = None"
  shows "links_at i t = []"
proof -
  from assms have run: "delete_links R m False (links_at i s) s = (Ok u, t)"
    by (auto simp: DeleteRelatedLinks_def act_bind_Ok_iff)
  from DeleteRelatedLinks_unlinks [OF assms(1)] have sub: "set (live_links t) \<subseteq> set (live_links s)" by (simp add: unlinks_def)
  have "l \<notin> set (links_at i t)" for l
  proof
    assume l: "l \<in> set (links_at i t)"
    with sub have "l \<in> set (links_at i s)" by (auto simp: links_at_def)
    from delete_links_gone [OF run assms(2) this] l show False by (auto simp: links_at_def)
  qed
  then show ?thesis by (cases "links_at i t") auto
qed

lemma delete_with_links_gone:
  assumes "delete_with_links H i m s = (Ok u, t)" "env_fault (he_db H) ''delete link'' = None"
    and "env_fault (he_db H) ''links of work item'' = None"
  shows "links_at i (hd_Links t) = [] \<and> i \<notin> wi_ID ` set (live_items (ld_items (hd_Links t)))"
proof -
  from assms(1) obtain s1 where links: "on_links (DeleteRelatedLinks (he_repo H) i m) s = (Ok (), s1)"
    and item: "on_work_items (WIR_Delete (he_repo H) i m) s1 = (Ok u, t)"
    by (auto simp: delete_with_links_def act_bind_Ok_iff)
  from links have gone: "links_at i (hd_Links s1) = []"
    using assms by (auto simp: on_links_def on_table_Ok_iff dest: DeleteRelatedLinks_gone)
  from item obtain w where w: "WIR_Delete (he_repo H) i m (ld_items (hd_Links s1)) = (Ok u, w)"
    and t: "hd_Links t = (hd_Links s1)\<lparr>ld_items := w\<rparr>"
    by (cases "WIR_Delete (he_repo H) i m (ld_items (hd_Links s1))")
      (auto simp: on_work_items_def on_links_def on_table_Ok_iff on_items_def)
  have same: "live_links (hd_Links t) = live_links (hd_Links s1)" by (simp add: t live_links_def)
  from WIR_Delete_Ok [OF w] have i: "db_items w = delete_item (re_db (he_repo H)) i (db_items (ld_items (hd_Links s1)))" by auto
  have "wi_ID x \<noteq> i" if "x \<in> set (live_items w)" for x
    using that unfolding live_items_def i delete_item_def by (rule erased_not_live) simp
  then have "i \<notin> wi_ID ` set (live_items (ld_items (hd_Links t)))" by (auto simp: t)
  with gone same show ?thesis by (simp add: links_at_def)
qed

section \<open>The order of the attributes\<close>

text \<open>
  What an attribute does to the fields as a map. The description and its markup are two attributes of one field.
\<close>

definition describe :: "(markup_content \<Rightarrow> markup_content) \<Rightarrow> markup_content \<Rightarrow> (string \<rightharpoonup> goval) \<Rightarrow> (string \<rightharpoonup> goval) option" where
  "describe change initial m =
     (case case m SystemDescription of None \<Rightarrow> VNil | Some v \<Rightarrow> v of
        VNil \<Rightarrow> Some (m(SystemDescription \<mapsto> VMarkup initial))
      | VMarkup old \<Rightarrow> Some (m(SystemDescription \<mapsto> VMarkup (change old)))
      | _ \<Rightarrow> None)"

definition new_codebase_value :: "handler_env \<Rightarrow> uuid \<Rightarrow> goval \<Rightarrow> tracker_db \<Rightarrow> (goval \<times> tracker_db) option" where
  "new_codebase_value H spaceID val s =
     (case NewCodebaseContentFromValue val of
        Ok (Some cb) \<Rightarrow>
          (case on_codebase_table (setupCodebase (he_uuid H) (he_db H) cb spaceID) s of
             (Ok cb', t) \<Rightarrow> Some (VCodebase cb', t)
           | (Err _, t) \<Rightarrow> Some (VCodebase cb, t)
           | (Panic, t) \<Rightarrow> None)
      | _ \<Rightarrow> None)"

definition attribute_effect ::
  "handler_env \<Rightarrow> uuid \<Rightarrow> string \<times> goval \<Rightarrow> (string \<rightharpoonup> goval) \<times> tracker_db \<Rightarrow> ((string \<rightharpoonup> goval) \<times> tracker_db) option" where
  "attribute_effect H spaceID kv x =
     (if fst kv = SystemDescription then
        (case NewMarkupContentFromValue (snd kv) of
           Ok None \<Rightarrow> Some x
         | Ok (Some mc) \<Rightarrow> map_option (\<lambda>m. (m, snd x)) (describe (\<lambda>old. old\<lparr>mc_Content := mc_Content mc\<rparr>) mc (fst x))
         | _ \<Rightarrow> None)
      else if fst kv = SystemDescriptionMarkup then
        (case snd kv of
           VString markup \<Rightarrow> map_option (\<lambda>m. (m, snd x))
             (describe (\<lambda>old. old\<lparr>mc_Markup := markup\<rparr>) \<lparr>mc_Content = [], mc_Markup = markup\<rparr> (fst x))
         | _ \<Rightarrow> None)
      else if fst kv = SystemCodebase then
        map_option (\<lambda>(v, t). ((fst x)(SystemCodebase \<mapsto> v), t)) (new_codebase_value H spaceID (snd kv) (snd x))
      else Some ((fst x)(fst kv \<mapsto> snd kv), snd x))"

lemma handler_names [simp]:
  "SystemDescriptionMarkup \<noteq> SystemDescription" "SystemCodebase \<noteq> SystemDescription" "SystemCodebase \<noteq> SystemDescriptionMarkup"
  "SystemDescription \<noteq> SystemDescriptionMarkup" "SystemDescription \<noteq> SystemCodebase" "SystemDescriptionMarkup \<noteq> SystemCodebase"
  by (simp_all add: SystemDescriptionMarkup_def SystemCodebase_def SystemDescription_def)

lemma map_of_set_field [simp]: "map_of (w_Fields (set_field k v wi)) = (map_of (w_Fields wi))(k \<mapsto> v)"
  by (simp add: set_field_def update_conv')

text \<open>Attributes with different names commute.\<close>

lemma markup_swap: "(m :: markup_content)\<lparr>mc_Content := c, mc_Markup := k\<rparr> = m\<lparr>mc_Markup := k, mc_Content := c\<rparr>"
  by (cases m) simp

lemma describe_commute:
  "Option.bind (describe (\<lambda>old. old\<lparr>mc_Content := mc_Content mc\<rparr>) mc m)
     (describe (\<lambda>old. old\<lparr>mc_Markup := mk\<rparr>) \<lparr>mc_Content = [], mc_Markup = mk\<rparr>) =
   Option.bind (describe (\<lambda>old. old\<lparr>mc_Markup := mk\<rparr>) \<lparr>mc_Content = [], mc_Markup = mk\<rparr> m)
     (describe (\<lambda>old. old\<lparr>mc_Content := mc_Content mc\<rparr>) mc)"
  by (cases mc) (simp add: describe_def markup_swap split: option.split goval.split)

lemma describe_other:
  "k \<noteq> SystemDescription \<Longrightarrow> describe f i (m(k \<mapsto> v)) = map_option (\<lambda>m. m(k \<mapsto> v)) (describe f i m)"
  by (simp add: describe_def fun_upd_twist split: option.split goval.split)

definition sets_description :: "string \<Rightarrow> bool" where
  "sets_description k \<longleftrightarrow> k = SystemDescription \<or> k = SystemDescriptionMarkup"

lemma effect_description:
  assumes "sets_description (fst a)"
  shows "\<exists>g. (\<forall>m s. attribute_effect H sp a (m, s) = map_option (\<lambda>m. (m, s)) (g m)) \<and>
    (\<forall>k v m. k \<noteq> SystemDescription \<longrightarrow> g (m(k \<mapsto> v)) = map_option (\<lambda>m. m(k \<mapsto> v)) (g m))"
proof (cases "fst a = SystemDescription")
  case True
  let ?g = "\<lambda>m. case NewMarkupContentFromValue (snd a) of Ok None \<Rightarrow> Some m
    | Ok (Some mc) \<Rightarrow> describe (\<lambda>old. old\<lparr>mc_Content := mc_Content mc\<rparr>) mc m | _ \<Rightarrow> None"
  from True show ?thesis
    by (intro exI [of _ ?g]) (auto simp: attribute_effect_def describe_other split: gres.split option.split)
next
  case False
  let ?g = "\<lambda>m. case snd a of VString markup \<Rightarrow>
    describe (\<lambda>old. old\<lparr>mc_Markup := markup\<rparr>) \<lparr>mc_Content = [], mc_Markup = markup\<rparr> m | _ \<Rightarrow> None"
  from False assms show ?thesis
    by (intro exI [of _ ?g]) (auto simp: attribute_effect_def sets_description_def describe_other split: goval.split)
qed

lemma effect_other:
  assumes "\<not> sets_description (fst a)"
  shows "\<exists>g. (\<forall>m s. attribute_effect H sp a (m, s) = map_option (\<lambda>(v, t). (m(fst a \<mapsto> v), t)) (g s)) \<and>
    (fst a \<noteq> SystemCodebase \<longrightarrow> g = (\<lambda>s. Some (snd a, s)))"
proof (cases "fst a = SystemCodebase")
  case True
  with assms show ?thesis
    by (intro exI [of _ "new_codebase_value H sp (snd a)"]) (simp add: attribute_effect_def)
next
  case False
  with assms show ?thesis
    by (intro exI [of _ "\<lambda>s. Some (snd a, s)"]) (simp add: attribute_effect_def sets_description_def)
qed

lemma bind_none: "Option.bind x (\<lambda>_. None) = None"
  by (cases x) simp_all

lemma description_and_markup:
  "Option.bind (attribute_effect H sp (SystemDescription, u) x) (attribute_effect H sp (SystemDescriptionMarkup, v)) =
   Option.bind (attribute_effect H sp (SystemDescriptionMarkup, v) x) (attribute_effect H sp (SystemDescription, u))"
proof (cases "\<exists>mk mc. v = VString mk \<and> NewMarkupContentFromValue u = Ok (Some mc)")
  case True
  then obtain mk mc where v: "v = VString mk" and u: "NewMarkupContentFromValue u = Ok (Some mc)" by blast
  have swap: "Option.bind (map_option (\<lambda>m. (m, snd x)) w) (\<lambda>y. map_option (\<lambda>m. (m, snd y)) (f (fst y))) =
    map_option (\<lambda>m. (m, snd x)) (Option.bind w f)" for w :: "(string \<rightharpoonup> goval) option" and f
    by (cases w) simp_all
  have "attribute_effect H sp (SystemDescription, u) =
      (\<lambda>y. map_option (\<lambda>m. (m, snd y)) (describe (\<lambda>old. old\<lparr>mc_Content := mc_Content mc\<rparr>) mc (fst y)))"
    "attribute_effect H sp (SystemDescriptionMarkup, v) =
      (\<lambda>y. map_option (\<lambda>m. (m, snd y)) (describe (\<lambda>old. old\<lparr>mc_Markup := mk\<rparr>) \<lparr>mc_Content = [], mc_Markup = mk\<rparr> (fst y)))"
    by (simp_all add: fun_eq_iff attribute_effect_def v u)
  then show ?thesis using describe_commute [of mc "fst x" mk] by (simp only: swap)
next
  case False
  then have "attribute_effect H sp (SystemDescription, u) = Some \<or> attribute_effect H sp (SystemDescription, u) = (\<lambda>_. None) \<or>
    attribute_effect H sp (SystemDescriptionMarkup, v) = (\<lambda>_. None)"
    by (cases "NewMarkupContentFromValue u"; cases v) (auto simp: fun_eq_iff attribute_effect_def split: option.split)
  then show ?thesis by (elim disjE) (simp_all add: bind_none)
qed

lemma effect_twist:
  assumes "sets_description (fst a)" "\<not> sets_description (fst b)"
  shows "Option.bind (attribute_effect H sp a x) (attribute_effect H sp b) =
    Option.bind (attribute_effect H sp b x) (attribute_effect H sp a)"
proof -
  obtain m s where x: "x = (m, s)" by fastforce
  obtain f where f: "\<And>m s. attribute_effect H sp a (m, s) = map_option (\<lambda>m. (m, s)) (f m)"
    "\<And>k v m. k \<noteq> SystemDescription \<Longrightarrow> f (m(k \<mapsto> v)) = map_option (\<lambda>m. m(k \<mapsto> v)) (f m)"
    using effect_description [OF assms(1), of H sp] by blast
  obtain g where g: "\<forall>m s. attribute_effect H sp b (m, s) = map_option (\<lambda>(v, t). (m(fst b \<mapsto> v), t)) (g s)"
    using effect_other [OF assms(2), of H sp] by (elim exE conjE) (rule that)
  from assms(2) have "fst b \<noteq> SystemDescription" by (auto simp: sets_description_def)
  with f g show ?thesis by (cases "f m"; cases "g s") (auto simp: x)
qed

lemma effects_commute:
  assumes "fst a \<noteq> fst b"
  shows "Option.bind (attribute_effect H sp a x) (attribute_effect H sp b) =
    Option.bind (attribute_effect H sp b x) (attribute_effect H sp a)"
proof (cases "sets_description (fst a)"; cases "sets_description (fst b)")
  assume "sets_description (fst a)" "sets_description (fst b)"
  with assms description_and_markup [of H sp "snd a" x "snd b"] description_and_markup [of H sp "snd b" x "snd a"]
  show ?thesis by (cases a; cases b) (auto simp: sets_description_def)
next
  assume other: "\<not> sets_description (fst a)" "\<not> sets_description (fst b)"
  obtain m s where x: "x = (m, s)" by fastforce
  obtain f where f: "\<forall>m s. attribute_effect H sp a (m, s) = map_option (\<lambda>(v, t). (m(fst a \<mapsto> v), t)) (f s)"
    "fst a \<noteq> SystemCodebase \<longrightarrow> f = (\<lambda>s. Some (snd a, s))"
    using effect_other [OF other(1), of H sp] by (elim exE conjE) (rule that)
  obtain g where g: "\<forall>m s. attribute_effect H sp b (m, s) = map_option (\<lambda>(v, t). (m(fst b \<mapsto> v), t)) (g s)"
    "fst b \<noteq> SystemCodebase \<longrightarrow> g = (\<lambda>s. Some (snd b, s))"
    using effect_other [OF other(2), of H sp] by (elim exE conjE) (rule that)
  from assms have "fst a \<noteq> SystemCodebase \<or> fst b \<noteq> SystemCodebase" by auto
  then show ?thesis
    using f g assms by (cases "f s"; cases "g s") (auto simp: x fun_upd_twist)
qed (simp_all add: effect_twist, metis effect_twist)

text \<open>So the effect of a list of attributes with distinct names does not depend on their order.\<close>

definition effects :: "handler_env \<Rightarrow> uuid \<Rightarrow> fields \<Rightarrow> ((string \<rightharpoonup> goval) \<times> tracker_db) option \<Rightarrow> ((string \<rightharpoonup> goval) \<times> tracker_db) option" where
  "effects H sp kvs = fold (\<lambda>kv x. Option.bind x (attribute_effect H sp kv)) kvs"

lemma effects_permuted:
  assumes "distinct (map fst kvs)" "mset kvs' = mset kvs"
  shows "effects H sp kvs' x = effects H sp kvs x"
proof -
  let ?f = "\<lambda>kv x. Option.bind x (attribute_effect H sp kv)"
  have "?f a \<circ> ?f b = ?f b \<circ> ?f a" if "a \<in> set kvs" "b \<in> set kvs" for a b
  proof (cases "a = b")
    case False
    with that assms(1) have "fst a \<noteq> fst b" by (auto simp: distinct_map inj_on_def)
    from effects_commute [OF this] show ?thesis by (auto simp: fun_eq_iff)
  qed simp
  from fold_multiset_equiv [of kvs ?f kvs'] this assms(2) show ?thesis by (simp add: effects_def)
qed

lemma set_field_item: "set_field k v wi = wi\<lparr>w_Fields := w_Fields (set_field k v wi)\<rparr>"
  by (simp add: set_field_def)

lemma update_description_describe:
  "update_description c i wi =
    (case describe c i (map_of (w_Fields wi)) of None \<Rightarrow> Panic | Some m \<Rightarrow> Ok (set_field SystemDescription (the (m SystemDescription)) wi))"
  by (simp add: update_description_def describe_def map_get_def split: option.split goval.split)

lemma describe_Some: "describe c i m = Some m' \<Longrightarrow> m' = m(SystemDescription \<mapsto> the (m' SystemDescription))"
  by (auto simp: describe_def split: option.splits goval.splits)

lemma update_description_Ok:
  assumes "update_description c i wi = Ok wi'"
  shows "describe c i (map_of (w_Fields wi)) = Some (map_of (w_Fields wi')) \<and> wi' = wi\<lparr>w_Fields := w_Fields wi'\<rparr>"
proof (cases "describe c i (map_of (w_Fields wi))")
  case None
  with assms show ?thesis by (simp add: update_description_describe)
next
  case (Some m)
  with assms have wi': "wi' = set_field SystemDescription (the (m SystemDescription)) wi" by (simp add: update_description_describe)
  with describe_Some [OF Some] have "map_of (w_Fields wi') = m" by simp
  with Some set_field_item show ?thesis by (simp add: wi')
qed

lemma describe_update:
  "describe c i (map_of (w_Fields wi)) = Some m \<Longrightarrow> \<exists>fs. update_description c i wi = Ok (wi\<lparr>w_Fields := fs\<rparr>) \<and> map_of fs = m"
  using update_description_Ok [of c i wi] by (cases "update_description c i wi") (force simp: update_description_describe)+

lemma convert_attribute_Ok:
  assumes "convert_attribute H sp kv wi s = (Ok wi', t)"
  shows "attribute_effect H sp kv (map_of (w_Fields wi), s) = Some (map_of (w_Fields wi'), t) \<and> wi' = wi\<lparr>w_Fields := w_Fields wi'\<rparr>"
proof -
  consider (description) "fst kv = SystemDescription" | (markup) "fst kv = SystemDescriptionMarkup"
    | (codebase) "fst kv = SystemCodebase" | (plain) "fst kv \<notin> {SystemDescription, SystemDescriptionMarkup, SystemCodebase}"
    by blast
  then show ?thesis
  proof cases
    case description
    with assms obtain mc where mc: "NewMarkupContentFromValue (snd kv) = Ok mc" and t: "t = s"
      and up: "(case mc of None \<Rightarrow> Ok wi | Some mc \<Rightarrow> update_description (\<lambda>old. old\<lparr>mc_Content := mc_Content mc\<rparr>) mc wi) = Ok wi'"
      by (auto simp: convert_attribute_def act_lift_def res_bind_Ok_iff)
    show ?thesis
    proof (cases mc)
      case None
      with up description mc t show ?thesis by (simp add: attribute_effect_def)
    next
      case (Some c)
      with up update_description_Ok description mc t show ?thesis by (fastforce simp: attribute_effect_def)
    qed
  next
    case markup
    with assms obtain mk where "snd kv = VString mk" by (cases "snd kv") (auto simp: convert_attribute_def act_lift_def)
    with assms markup show ?thesis
      by (auto simp: convert_attribute_def attribute_effect_def act_lift_def dest!: update_description_Ok)
  next
    case codebase
    with assms obtain cb where cb: "NewCodebaseContentFromValue (snd kv) = Ok (Some cb)"
      by (cases "NewCodebaseContentFromValue (snd kv)")
        (auto simp: convert_attribute_def convert_codebase_def act_bind_def act_lift_def act_map_err_def split: option.splits)
    obtain r u where set: "on_codebase_table (setupCodebase (he_uuid H) (he_db H) cb sp) s = (r, u)" by fastforce
    from assms codebase cb set show ?thesis
      by (cases r) (auto simp: convert_attribute_def attribute_effect_def convert_codebase_def new_codebase_value_def
          act_bind_def act_lift_def act_map_err_def act_return_def, (auto simp: set_field_def)?)
  next
    case plain
    with assms show ?thesis
      by (auto simp: convert_attribute_def attribute_effect_def act_return_def, (auto simp: set_field_def)?)
  qed
qed

lemma effect_convert:
  assumes "attribute_effect H sp kv (map_of (w_Fields wi), s) = Some (m, t)"
  shows "\<exists>wi'. convert_attribute H sp kv wi s = (Ok wi', t)"
proof -
  consider (description) "fst kv = SystemDescription" | (markup) "fst kv = SystemDescriptionMarkup"
    | (codebase) "fst kv = SystemCodebase" | (plain) "fst kv \<notin> {SystemDescription, SystemDescriptionMarkup, SystemCodebase}"
    by blast
  then show ?thesis
  proof cases
    case description
    then show ?thesis
    proof (cases "NewMarkupContentFromValue (snd kv)")
      case (Ok mc)
      with assms description show ?thesis
        by (cases mc) (auto simp: attribute_effect_def convert_attribute_def act_lift_def dest!: describe_update)
    qed (use assms description in \<open>simp_all add: attribute_effect_def\<close>)
  next
    case markup
    with assms obtain mk where "snd kv = VString mk" by (cases "snd kv") (auto simp: attribute_effect_def)
    with assms markup show ?thesis
      by (auto simp: convert_attribute_def attribute_effect_def act_lift_def dest!: describe_update)
  next
    case codebase
    with assms obtain cb where cb: "NewCodebaseContentFromValue (snd kv) = Ok (Some cb)"
      by (cases "NewCodebaseContentFromValue (snd kv)") (auto simp: attribute_effect_def new_codebase_value_def split: option.splits)
    obtain r u where "on_codebase_table (setupCodebase (he_uuid H) (he_db H) cb sp) s = (r, u)" by fastforce
    with assms codebase cb show ?thesis
      by (cases r) (simp_all add: convert_attribute_def attribute_effect_def convert_codebase_def new_codebase_value_def
          act_bind_def act_lift_def act_map_err_def act_return_def)
  next
    case plain
    with assms show ?thesis by (auto simp: convert_attribute_def attribute_effect_def act_return_def)
  qed
qed

lemma convert_attribute_effect:
  "(\<exists>fs. convert_attribute H sp kv wi s = (Ok (wi\<lparr>w_Fields := fs\<rparr>), t) \<and> map_of fs = m) \<longleftrightarrow>
   attribute_effect H sp kv (map_of (w_Fields wi), s) = Some (m, t)"
proof
  assume "\<exists>fs. convert_attribute H sp kv wi s = (Ok (wi\<lparr>w_Fields := fs\<rparr>), t) \<and> map_of fs = m"
  then show "attribute_effect H sp kv (map_of (w_Fields wi), s) = Some (m, t)" by (auto dest: convert_attribute_Ok)
next
  assume e: "attribute_effect H sp kv (map_of (w_Fields wi), s) = Some (m, t)"
  from effect_convert [OF this] obtain wi' where c: "convert_attribute H sp kv wi s = (Ok wi', t)" by blast
  from convert_attribute_Ok [OF c] e have "map_of (w_Fields wi') = m" "wi' = wi\<lparr>w_Fields := w_Fields wi'\<rparr>" by simp_all
  with c show "\<exists>fs. convert_attribute H sp kv wi s = (Ok (wi\<lparr>w_Fields := fs\<rparr>), t) \<and> map_of fs = m" by metis
qed

lemma effects_None: "effects H sp kvs None = None"
  by (induction kvs) (simp_all add: effects_def)

lemma convert_attributes_effects:
  "(\<exists>fs. convert_attributes H sp kvs wi s = (Ok (wi\<lparr>w_Fields := fs\<rparr>), t) \<and> map_of fs = m) \<longleftrightarrow>
   effects H sp kvs (Some (map_of (w_Fields wi), s)) = Some (m, t)"
proof (induction kvs arbitrary: wi s)
  case Nil
  have "wi = wi\<lparr>w_Fields := fs\<rparr> \<longleftrightarrow> fs = w_Fields wi" for fs by (cases wi) auto
  then show ?case by (auto simp: act_return_def effects_def)
next
  case (Cons kv kvs)
  have rest: "effects H sp (kv # kvs) (Some (map_of (w_Fields wi), s)) =
    Option.bind (attribute_effect H sp kv (map_of (w_Fields wi), s)) (\<lambda>x. effects H sp kvs (Some x))"
    by (cases "attribute_effect H sp kv (map_of (w_Fields wi), s)") (simp_all add: effects_def effects_None [unfolded effects_def])
  show ?case
  proof
    assume "\<exists>fs. convert_attributes H sp (kv # kvs) wi s = (Ok (wi\<lparr>w_Fields := fs\<rparr>), t) \<and> map_of fs = m"
    then obtain fs wi1 s1 where 1: "convert_attribute H sp kv wi s = (Ok wi1, s1)"
      and 2: "convert_attributes H sp kvs wi1 s1 = (Ok (wi\<lparr>w_Fields := fs\<rparr>), t)" "map_of fs = m"
      by (auto simp: act_bind_Ok_iff)
    from convert_attribute_Ok [OF 1] 2 obtain gs where wi1: "wi1 = wi\<lparr>w_Fields := gs\<rparr>"
      and "convert_attributes H sp kvs wi1 s1 = (Ok (wi1\<lparr>w_Fields := fs\<rparr>), t)" by auto
    with Cons.IH [of wi1 s1] 2 have "effects H sp kvs (Some (map_of (w_Fields wi1), s1)) = Some (m, t)" by blast
    moreover from 1 wi1 convert_attribute_effect [of H sp kv wi s s1 "map_of gs"]
    have "attribute_effect H sp kv (map_of (w_Fields wi), s) = Some (map_of (w_Fields wi1), s1)" by auto
    ultimately show "effects H sp (kv # kvs) (Some (map_of (w_Fields wi), s)) = Some (m, t)" by (simp add: rest)
  next
    assume "effects H sp (kv # kvs) (Some (map_of (w_Fields wi), s)) = Some (m, t)"
    then have "Option.bind (attribute_effect H sp kv (map_of (w_Fields wi), s)) (\<lambda>x. effects H sp kvs (Some x)) = Some (m, t)"
      by (simp only: rest)
    then obtain m1 s1 where 1: "attribute_effect H sp kv (map_of (w_Fields wi), s) = Some (m1, s1)"
      and 2: "effects H sp kvs (Some (m1, s1)) = Some (m, t)"
      by (cases "attribute_effect H sp kv (map_of (w_Fields wi), s)") auto
    from 1 obtain gs where gs: "convert_attribute H sp kv wi s = (Ok (wi\<lparr>w_Fields := gs\<rparr>), s1)" "map_of gs = m1"
      using convert_attribute_effect by blast
    with 2 Cons.IH [of "wi\<lparr>w_Fields := gs\<rparr>" s1] obtain fs where
      "convert_attributes H sp kvs (wi\<lparr>w_Fields := gs\<rparr>) s1 = (Ok (wi\<lparr>w_Fields := fs\<rparr>), t)" "map_of fs = m" by auto
    with gs show "\<exists>fs. convert_attributes H sp (kv # kvs) wi s = (Ok (wi\<lparr>w_Fields := fs\<rparr>), t) \<and> map_of fs = m"
      by (auto simp: act_bind_def)
  qed
qed

lemma convert_attributes_Ok:
  assumes "convert_attributes H sp kvs wi s = (Ok wi', t)"
  shows "effects H sp kvs (Some (map_of (w_Fields wi), s)) = Some (map_of (w_Fields wi'), t) \<and> wi' = wi\<lparr>w_Fields := w_Fields wi'\<rparr>"
proof -
  have item: "wi' = wi\<lparr>w_Fields := w_Fields wi'\<rparr>"
    using assms
  proof (induction kvs arbitrary: wi s)
    case (Cons kv kvs)
    then obtain wi1 s1 where 1: "convert_attribute H sp kv wi s = (Ok wi1, s1)" and "convert_attributes H sp kvs wi1 s1 = (Ok wi', t)"
      by (auto simp: act_bind_Ok_iff)
    from Cons.IH [OF this(2)] have 2: "wi' = wi1\<lparr>w_Fields := w_Fields wi'\<rparr>" .
    from convert_attribute_Ok [OF 1] obtain fs where "wi1 = wi\<lparr>w_Fields := fs\<rparr>" by blast
    with 2 show ?case by simp
  qed (simp add: act_return_def)
  with assms have "convert_attributes H sp kvs wi s = (Ok (wi\<lparr>w_Fields := w_Fields wi'\<rparr>), t)" by simp
  with convert_attributes_effects [of H sp kvs wi s t "map_of (w_Fields wi')"] item show ?thesis by blast
qed

lemma check_markup_Ok: "check_markup wi = Ok wi' \<Longrightarrow> wi' = wi"
  by (cases "map_get (w_Fields wi) SystemDescription") (auto simp: check_markup_def split: if_splits)

lemma check_markup_fields:
  assumes "check_markup wi = Ok wi" "map_of fs = map_of (w_Fields wi)"
  shows "check_markup (wi\<lparr>w_Fields := fs\<rparr>) = Ok (wi\<lparr>w_Fields := fs\<rparr>)"
proof -
  have "map_get fs SystemDescription = map_get (w_Fields wi) SystemDescription" by (simp add: map_get_def assms(2))
  with assms(1) show ?thesis
    by (cases "map_get (w_Fields wi) SystemDescription") (auto simp: check_markup_def split: if_splits)
qed

section \<open>The properties\<close>

text \<open>
  C3. A handler that succeeds, or changes a table whether it succeeds or not, was called by a known user who is
  allowed to: to create a work item the space is open or authorized; to reorder it is authorized; to update a work item
  the caller is its creator or the space is authorized, and for a change of the type the caller is its creator or
  owns the space; to delete a work item the caller is its creator or owns the space.
\<close>
theorem only_authorized_changes:
  assumes "run_call H c s = (r, t)" "is_ok r \<or> \<not> tables_kept s t"
  shows "\<exists>caller. he_caller H = Ok caller \<and> authorized_call H s caller c"
  using assms by (intro authorized_changes) (auto simp: acts_def)

text \<open>
  C16. When a work item is deleted and no statement fails, the work item is gone and no link is left that has it as
  source or target.
\<close>
theorem delete_leaves_no_links:
  assumes "handle_Delete H i s = (Ok u, t)" "no_faults (he_db H)"
  shows "i \<notin> wi_ID ` set (live_items (ld_items (hd_Links t))) \<and> links_at i (hd_Links t) = []"
proof -
  from assms(1) obtain s1 m where "transaction_result H (delete_with_links H i m) s1 = (Ok u, t)"
    by (auto simp: handle_Delete_def act_bind_Ok_iff split: prod.splits)
  then have "delete_with_links H i m s1 = (Ok u, t)"
    using assms(2) by (cases rule: transaction_result_cases) (simp_all add: no_faults_def)
  from delete_with_links_gone [OF this] assms(2) show ?thesis by (simp add: no_faults_def)
qed

text \<open>
  C4. The attributes of a request are a map, whose order Go does not fix: whatever the order in which a conversion that
  succeeds goes through them, it succeeds in every other order, with the same fields and the same tables.
\<close>
theorem attribute_order_irrelevant:
  assumes "distinct (map fst (pl_Attributes p))" "mset (pl_Attributes q) = mset (pl_Attributes p)"
    and "pl_Relationships q = pl_Relationships p"
    and "ConvertJSONAPIToWorkItem H method p target sp s = (Ok wi, t)"
  shows "\<exists>fs. ConvertJSONAPIToWorkItem H method q target sp s = (Ok (wi\<lparr>w_Fields := fs\<rparr>), t) \<and> map_of fs = map_of (w_Fields wi)"
proof -
  from assms(1,2) have "distinct (map fst (pl_Attributes q))" by (metis mset_eq_imp_distinct_iff mset_map)
  then have same: "map_of (pl_Attributes q) = map_of (pl_Attributes p)"
    using assms(1) mset_eq_setD [OF assms(2)] by (simp add: map_of_inject_set)
  from assms(4) obtain version wi1 s1 wi2 where
    version: "getVersion (re_sprint (he_repo H)) (map_get (pl_Attributes p) SystemVersion) = Ok version" and
    rel: "convert_relationships H method sp (pl_Relationships p) (target\<lparr>w_Version := version\<rparr>) s = (Ok wi1, s1)" and
    atts: "convert_attributes H sp (pl_Attributes p) wi1 s1 = (Ok wi2, t)" and check: "check_markup wi2 = Ok wi"
    by (auto simp: ConvertJSONAPIToWorkItem_def act_bind_Ok_iff act_lift_def)
  from check_markup_Ok [OF check] have wi: "wi2 = wi" by simp
  from convert_attributes_Ok [OF atts] have effect: "effects H sp (pl_Attributes p) (Some (map_of (w_Fields wi1), s1)) = Some (map_of (w_Fields wi), t)"
    and wi1: "wi = wi1\<lparr>w_Fields := w_Fields wi\<rparr>" by (simp_all only: wi)
  from effect have "effects H sp (pl_Attributes q) (Some (map_of (w_Fields wi1), s1)) = Some (map_of (w_Fields wi), t)"
    by (simp only: effects_permuted [OF assms(1,2)])
  then obtain fs where fs: "convert_attributes H sp (pl_Attributes q) wi1 s1 = (Ok (wi1\<lparr>w_Fields := fs\<rparr>), t)" "map_of fs = map_of (w_Fields wi)"
    using convert_attributes_effects by blast
  have item: "wi1\<lparr>w_Fields := fs\<rparr> = wi\<lparr>w_Fields := fs\<rparr>" by (subst wi1) simp
  have "check_markup (wi\<lparr>w_Fields := fs\<rparr>) = Ok (wi\<lparr>w_Fields := fs\<rparr>)"
    using check fs(2) by (intro check_markup_fields) (simp_all only: wi)
  then have "ConvertJSONAPIToWorkItem H method q target sp s = (Ok (wi\<lparr>w_Fields := fs\<rparr>), t)"
    using version rel fs(1) same assms(3) item by (simp add: ConvertJSONAPIToWorkItem_def act_bind_def act_lift_def map_get_def)
  with fs(2) show ?thesis by blast
qed

section \<open>A sample\<close>

text \<open>Two linked work items whose creator deletes the first.\<close>

definition created_type :: work_item_type where
  "created_type = sample_type\<lparr>wt_Fields := [(SystemCreator, plain_field KindString)]\<rparr>"

definition created_row :: "uuid \<Rightarrow> work_item_storage" where
  "created_row i = sample_storage\<lparr>wi_ID := i, wi_Fields := [(SystemCreator, VString (uString canonical_uuid 8))]\<rparr>"

definition handler_sample_db :: tracker_db where
  "handler_sample_db = \<lparr>
     hd_Links = \<lparr>ld_items = (Work_Item_Invariants.sample_db [created_row 1, created_row 2])\<lparr>db_types := [created_type],
         db_cache := Cache_Put NewWorkItemTypeCache created_type\<rparr>,
       ld_links = [sample_link 5 1 2], ld_linkTypes = [sample_linkType TopologyTree], ld_linkRevisions = [],
       ld_spaceTemplates = [4]\<rparr>,
     hd_Spaces = sample_spaces, hd_Accounts = \<lparr>ac_Users = [], ac_Identities = []\<rparr>,
     hd_Iterations = \<lparr>td_rows = [], td_sequences = (\<lambda>_. None), td_carried = []\<rparr>,
     hd_Areas = \<lparr>td_rows = [], td_sequences = (\<lambda>_. None), td_carried = []\<rparr>,
     hd_Labels = [], hd_Codebases = []\<rparr>"

definition handler_sample_env :: handler_env where
  "handler_sample_env = \<lparr>he_repo = repo_sample, he_spaces = sample_space_env, he_accounts = sample_accounts,
     he_iterations = iteration_sample_env, he_cause = (\<lambda>e. e), he_stack = [], he_timeout = False, he_caller = Ok 8,
     he_authorize = (\<lambda>_. Ok False)\<rparr>"

lemma handler_sample_uuid: "he_uuid handler_sample_env = canonical_uuid"
  by (simp add: handler_sample_env_def repo_sample_def sample_field_env_def)

definition created_item :: work_item where
  "created_item = \<lparr>w_ID = 1, w_Number = 7, w_Type = 9, w_Version = 0, w_SpaceID = 3,
     w_Fields = [(SystemCreator, VString (uString canonical_uuid 8)), (SystemOrder, VFloat 0)],
     w_relationShipsChangedAt = None\<rparr>"

lemma created_model: "to_model repo_sample created_type (created_row 1) = Ok created_item"
  by (simp add: to_model_def ConvertWorkItemStorageToModel_def WorkItemType_ConvertWorkItemStorageToModel_def created_type_def
      sample_type_def created_row_def sample_storage_def plain_field_def simple_of_def FieldDefinition_ConvertFromModel_def
      set_if_defined_def created_item_def map_get_def repo_sample_def system_names SimpleType_ConvertFromModel_def string_kind_def)

lemma created_load: "LoadByID repo_sample 1 (ld_items (hd_Links handler_sample_db)) =
    (Ok created_item, ld_items (hd_Links handler_sample_db))"
proof -
  have "LoadFromDB repo_sample 1 (ld_items (hd_Links handler_sample_db)) = (Ok (created_row 1), ld_items (hd_Links handler_sample_db))"
    by (simp add: LoadFromDB_def statement_def act_defs live_items_def handler_sample_db_def Work_Item_Invariants.sample_db_def)
      (simp add: created_row_def sample_storage_def alive_def)
  moreover have "WITR_Load repo_sample 9 (ld_items (hd_Links handler_sample_db)) = (Ok created_type, ld_items (hd_Links handler_sample_db))"
    by (simp add: WITR_Load_def act_defs Cache_Get_def Cache_Put_def handler_sample_db_def created_type_def sample_type_def)
  moreover have "wi_Type (created_row 1) = 9" by (simp add: created_row_def sample_storage_def)
  ultimately show ?thesis by (simp add: LoadByID_def act_defs created_model)
qed

lemma sample_deletion: "\<exists>t. delete_with_links handler_sample_env 1 8 handler_sample_db = (Ok (), t)"
proof -
  let ?L = "hd_Links handler_sample_db"
  have repo: "he_repo handler_sample_env = repo_sample" by (simp add: handler_sample_env_def)
  have "links_at 1 ?L = [sample_link 5 1 2]"
    by (simp add: links_at_def live_links_def handler_sample_db_def) (simp add: sample_link_def)
  moreover have "lock_source repo_sample (sample_link 5 1 2) ?L = (Ok (), ?L)"
    using created_load
    by (simp add: lock_source_def on_items_def act_defs acquireLock_def statement_def) (simp add: sample_link_def act_defs)
  moreover obtain u where del: "deleteLink repo_sample (sample_link 5 1 2) 8 ?L = (Ok (), u)" and items: "ld_items u = ld_items ?L"
  proof -
    have "list_ex (\<lambda>l. l_ID l = l_ID (sample_link 5 1 2)) (live_links ?L)"
      by (simp add: live_links_def handler_sample_db_def)
    then show thesis
      using that by (simp add: deleteLink_def act_defs statement_def LinkRevision_Create_def Let_def)
  qed
  ultimately have related: "DeleteRelatedLinks repo_sample 1 8 ?L = (Ok (), u)"
    by (simp add: DeleteRelatedLinks_def act_bind_def act_gets_def act_return_def ignore_error_def)
  from items have "is_ok (fst (WIR_Delete repo_sample 1 8 (ld_items u)))"
    by (simp add: WIR_Delete_def act_defs statement_def live_items_def handler_sample_db_def Work_Item_Invariants.sample_db_def
        Revision_Create_def Let_def) (auto simp: created_row_def intro!: image_eqI [of _ _ "created_row 1"])
  then obtain w where "WIR_Delete repo_sample 1 8 (ld_items u) = (Ok (), w)"
    by (cases "WIR_Delete repo_sample 1 8 (ld_items u)") (auto simp: is_ok_iff)
  with related show ?thesis
    by (simp add: delete_with_links_def act_bind_def act_map_err_def repo on_links_def on_table_def on_work_items_def on_items_def)
qed

lemma sample_delete: "\<exists>t. handle_Delete handler_sample_env 1 handler_sample_db = (Ok (), t)"
proof -
  let ?H = handler_sample_env and ?s = handler_sample_db
  have env: "he_repo ?H = repo_sample" "\<not> he_timeout ?H" "current_user ?H = Ok 8"
    by (simp_all add: handler_sample_env_def current_user_def)
  have load: "on_work_items (LoadByID repo_sample 1) ?s = (Ok created_item, ?s)"
    using created_load by (simp add: on_work_items_def on_links_def on_table_def on_items_def)
  then have "load_item ?H f 1 ?s = (Ok created_item, ?s)" for f
    using env by (simp add: load_item_def transaction_result_run act_map_err_def)
  moreover have "item_creator ?H created_item = Ok (uString canonical_uuid 8, 8)"
    by (simp add: item_creator_def handler_sample_uuid created_item_def map_get_def uuid_ok_roundtrip [OF canonical_uuid_ok])
  moreover obtain t where "delete_with_links ?H 1 8 ?s = (Ok (), t)"
    using sample_deletion env by auto
  ultimately show ?thesis
    using env by (simp add: handle_Delete_def act_bind_def act_lift_def act_map_err_def WorkitemCreatorOrSpaceOwner_def
        act_return_def transaction_result_run)
qed

theorem only_authorized_changes_witness:
  "\<exists>t. run_call handler_sample_env (CallDelete 1) handler_sample_db = (Ok (), t) \<and>
     authorized_call handler_sample_env handler_sample_db 8 (CallDelete 1)"
proof -
  obtain t where t: "run_call handler_sample_env (CallDelete 1) handler_sample_db = (Ok (), t)"
    using sample_delete by auto
  from only_authorized_changes [OF t] have "authorized_call handler_sample_env handler_sample_db 8 (CallDelete 1)"
    by (auto simp: handler_sample_env_def)
  with t show ?thesis by blast
qed

theorem delete_leaves_no_links_witness:
  "\<exists>t. handle_Delete handler_sample_env 1 handler_sample_db = (Ok (), t) \<and>
     links_at 1 (hd_Links handler_sample_db) = [sample_link 5 1 2] \<and> links_at 1 (hd_Links t) = []"
proof -
  obtain t where t: "handle_Delete handler_sample_env 1 handler_sample_db = (Ok (), t)" using sample_delete by auto
  have "no_faults (he_db handler_sample_env)" by (simp add: no_faults_def handler_sample_env_def)
  from delete_leaves_no_links [OF t this] t show ?thesis
    by (auto simp: links_at_def live_links_def handler_sample_db_def) (simp_all add: sample_link_def)
qed

definition described :: "fields" where
  "described = [(SystemDescription, VString ''text''), (SystemDescriptionMarkup, VString SystemMarkupMarkdown)]"

theorem attribute_order_irrelevant_witness:
  "\<exists>wi fs t. ConvertJSONAPIToWorkItem handler_sample_env MethodPatch \<lparr>pl_ID = None, pl_Attributes = described, pl_Relationships = None\<rparr>
       empty_item 3 handler_sample_db = (Ok wi, t) \<and>
     ConvertJSONAPIToWorkItem handler_sample_env MethodPatch \<lparr>pl_ID = None, pl_Attributes = rev described, pl_Relationships = None\<rparr>
       empty_item 3 handler_sample_db = (Ok (wi\<lparr>w_Fields := fs\<rparr>), t) \<and>
     map_of fs SystemDescription = Some (VMarkup \<lparr>mc_Content = ''text'', mc_Markup = SystemMarkupMarkdown\<rparr>)"
proof -
  let ?p = "\<lparr>pl_ID = None, pl_Attributes = described, pl_Relationships = None\<rparr>"
  let ?q = "\<lparr>pl_ID = None, pl_Attributes = rev described, pl_Relationships = None\<rparr>"
  obtain wi t where p: "ConvertJSONAPIToWorkItem handler_sample_env MethodPatch ?p empty_item 3 handler_sample_db = (Ok wi, t)"
    and d: "map_of (w_Fields wi) SystemDescription = Some (VMarkup \<lparr>mc_Content = ''text'', mc_Markup = SystemMarkupMarkdown\<rparr>)"
  proof
    let ?wi = "empty_item\<lparr>w_Version := - 1, w_Fields := [(SystemDescription, VMarkup \<lparr>mc_Content = ''text'', mc_Markup = SystemMarkupMarkdown\<rparr>)]\<rparr>"
    show "ConvertJSONAPIToWorkItem handler_sample_env MethodPatch ?p empty_item 3 handler_sample_db = (Ok ?wi, handler_sample_db)"
      by (simp add: ConvertJSONAPIToWorkItem_def act_bind_def act_lift_def act_return_def getVersion_def map_get_def described_def
          SystemVersion_def convert_relationships_def convert_attribute_def update_description_def set_field_def
          check_markup_def IsMarkupSupported_def empty_item_def NewMarkupContentFromLegacy_def SystemDescription_def SystemDescriptionMarkup_def SystemMarkupMarkdown_def)
  qed simp
  have "distinct (map fst (pl_Attributes ?p))" "mset (pl_Attributes ?q) = mset (pl_Attributes ?p)" "pl_Relationships ?q = pl_Relationships ?p"
    by (simp_all add: described_def)
  from attribute_order_irrelevant [OF this p] obtain fs where
    q: "ConvertJSONAPIToWorkItem handler_sample_env MethodPatch ?q empty_item 3 handler_sample_db = (Ok (wi\<lparr>w_Fields := fs\<rparr>), t)"
    "map_of fs = map_of (w_Fields wi)" by blast
  from q(2) d have "map_of fs SystemDescription = Some (VMarkup \<lparr>mc_Content = ''text'', mc_Markup = SystemMarkupMarkdown\<rparr>)" by simp
  with p q(1) show ?thesis by blast
qed

end
