(* ===== verification/Template_Import.thy ===== *)
theory Template_Import
  imports Boards Accounts Links
begin

text \<open>
  Importing a space template: \<^verbatim>\<open>spacetemplate/importer/import_helper.go\<close> and \<^verbatim>\<open>repository.go\<close>.
  A template comes with its work item types, link types, groups of types and boards; what exists is updated, what does
  not is created, and groups and boards are replaced. Reading the YAML text and the templates built into the binary are
  parameters.
\<close>

section \<open>Templates\<close>

record import_helper =
  ih_Template :: space_template
  ih_WITs :: "work_item_type list"
  ih_WILTs :: "link_type list"
  ih_WITGs :: "type_group list"
  ih_WIBs :: "board list"

text \<open>The space template of an artifact must be the one it comes with.\<close>

definition check_template :: "uuid_lib \<Rightarrow> string \<Rightarrow> uuid \<Rightarrow> uuid \<Rightarrow> unit res" where
  "check_template U what templateID i =
     (if i \<noteq> templateID then
        Err (Expected (NewBadParameterError what (VString (uString U i))) (VString (uString U templateID)))
      else Ok ())"

fun check_all :: "('x \<Rightarrow> unit res) \<Rightarrow> 'x list \<Rightarrow> unit res" where
  "check_all f [] = Ok ()"
| "check_all f (x # xs) = res_bind (f x) (\<lambda>_. check_all f xs)"

definition ImportHelper_Validate :: "field_env \<Rightarrow> import_helper \<Rightarrow> unit res" where
  "ImportHelper_Validate F s =
     (let i = tp_ID (ih_Template s) in
      res_bind (map_err (EWrap ''failed to validate space template'') (SpaceTemplate_Validate (ih_Template s))) (\<lambda>_.
      res_bind (check_all (\<lambda>wit.
        res_bind (check_template (fe_uuid F) ''work item types's space template ID'' i (wt_SpaceTemplateID wit)) (\<lambda>_.
          map_err (EWrap ''failed to validate work item type'') (WorkItemType_Validate F wit))) (ih_WITs s)) (\<lambda>_.
      res_bind (check_all (\<lambda>wilt.
        check_template (fe_uuid F) ''work item link type's space template ID'' i (wlt_SpaceTemplateID wilt)) (ih_WILTs s)) (\<lambda>_.
      res_bind (check_all (\<lambda>witg.
        check_template (fe_uuid F) ''work item type group's space template ID'' i (tg_SpaceTemplateID witg)) (ih_WITGs s)) (\<lambda>_.
      check_all (\<lambda>wib.
        check_template (fe_uuid F) ''work item board's space template ID'' i (bo_SpaceTemplateID wib)) (ih_WIBs s))))))"

definition SetID :: "uuid \<Rightarrow> import_helper \<Rightarrow> import_helper" where
  "SetID i s = s\<lparr>ih_Template := (ih_Template s)\<lparr>tp_ID := i\<rparr>,
     ih_WITs := map (\<lambda>x. x\<lparr>wt_SpaceTemplateID := i\<rparr>) (ih_WITs s),
     ih_WILTs := map (\<lambda>x. x\<lparr>wlt_SpaceTemplateID := i\<rparr>) (ih_WILTs s),
     ih_WITGs := map (\<lambda>x. x\<lparr>tg_SpaceTemplateID := i\<rparr>) (ih_WITGs s),
     ih_WIBs := map (\<lambda>x. x\<lparr>bo_SpaceTemplateID := i\<rparr>) (ih_WIBs s)\<rparr>"

fun all_equal :: "('x \<Rightarrow> 'x \<Rightarrow> bool res) \<Rightarrow> 'x list \<Rightarrow> 'x list \<Rightarrow> bool res" where
  "all_equal eq [] [] = Ok True"
| "all_equal eq (x # xs) (y # ys) = and_then (eq x y) (all_equal eq xs ys)"
| "all_equal eq _ _ = Ok False"

definition same_length :: "'x list \<Rightarrow> 'x list \<Rightarrow> bool res \<Rightarrow> bool res" where
  "same_length xs ys r = (if length xs \<noteq> length ys then Ok False else r)"

text \<open>The parts are compared by the method that the caller of the comparison asks for.\<close>

definition ImportHelper_Equal :: "bool \<Rightarrow> import_helper \<Rightarrow> import_helper \<Rightarrow> bool res" where
  "ImportHelper_Equal b s other =
     and_then (Ok ((if b then SpaceTemplate_EqualValue else SpaceTemplate_Equal) (ih_Template s) (ih_Template other)))
     (same_length (ih_WITs s) (ih_WITs other)
     (and_then (all_equal (\<lambda>x y. CascadeEqual b (WorkItemType_Equal False) WorkItemType_EqualValue x y) (ih_WITs s) (ih_WITs other))
     (same_length (ih_WILTs s) (ih_WILTs other)
     (and_then (all_equal (\<lambda>x y. Ok ((if b then WorkItemLinkType_EqualValue else WorkItemLinkType_Equal) x y)) (ih_WILTs s) (ih_WILTs other))
     (same_length (ih_WITGs s) (ih_WITGs other)
     (and_then (all_equal (\<lambda>x y. Ok ((if b then WorkItemTypeGroup_EqualValue else WorkItemTypeGroup_Equal) x y)) (ih_WITGs s) (ih_WITGs other))
     (same_length (ih_WIBs s) (ih_WIBs other)
     (all_equal (\<lambda>x y. Ok ((if b then Board_EqualValue else Board_Equal False) x y)) (ih_WIBs s) (ih_WIBs other)))))))))"

definition ImportHelper_EqualValue :: "import_helper \<Rightarrow> import_helper \<Rightarrow> bool res" where
  "ImportHelper_EqualValue s other = ImportHelper_Equal True s other"

text \<open>A template without an identifier gets one; all its artifacts are bound to it.\<close>

definition FromString :: "field_env \<Rightarrow> uuid \<Rightarrow> (string \<Rightarrow> import_helper res) \<Rightarrow> string \<Rightarrow> import_helper res" where
  "FromString F newID unmarshal templ =
     res_bind (map_err (EWrap ''failed to parse YAML space template'') (unmarshal templ)) (\<lambda>s0.
     let s = SetID (if tp_ID (ih_Template s0) = uuid_Nil then newID else tp_ID (ih_Template s0)) s0
     in res_bind (map_err (EWrap ''failed to validate space template'') (ImportHelper_Validate F s)) (\<lambda>_. Ok s))"

definition SystemLegacyTemplateID :: uuid where "SystemLegacyTemplateID = 0x929c963a174c4c37b487272067e88bd4"

definition SystemScrumTemplateID :: uuid where "SystemScrumTemplateID = 0xcfff59dc007a4fa5acf7376d5345aef2"

definition SystemAgileTemplateID :: uuid where "SystemAgileTemplateID = 0xf405fa41a8bb46db88002dbe13da1418"

definition built_in ::
  "field_env \<Rightarrow> uuid \<Rightarrow> (string \<Rightarrow> import_helper res) \<Rightarrow> (string \<Rightarrow> string res) \<Rightarrow> string \<Rightarrow> uuid \<Rightarrow> import_helper res" where
  "built_in F newID unmarshal asset name i =
     res_bind (map_err (EWrap (''failed to load '' @ name @ '' template'')) (asset (name @ ''.yaml''))) (\<lambda>bs.
     res_bind (map_err (EWrap []) (FromString F newID unmarshal bs)) (\<lambda>s. Ok (SetID i s)))"

definition BaseTemplate :: "field_env \<Rightarrow> uuid \<Rightarrow> (string \<Rightarrow> import_helper res) \<Rightarrow> (string \<Rightarrow> string res) \<Rightarrow> import_helper res" where
  "BaseTemplate F newID unmarshal asset = built_in F newID unmarshal asset ''base'' SystemBaseTemplateID"

definition LegacyTemplate :: "field_env \<Rightarrow> uuid \<Rightarrow> (string \<Rightarrow> import_helper res) \<Rightarrow> (string \<Rightarrow> string res) \<Rightarrow> import_helper res" where
  "LegacyTemplate F newID unmarshal asset = built_in F newID unmarshal asset ''legacy'' SystemLegacyTemplateID"

definition ScrumTemplate :: "field_env \<Rightarrow> uuid \<Rightarrow> (string \<Rightarrow> import_helper res) \<Rightarrow> (string \<Rightarrow> string res) \<Rightarrow> import_helper res" where
  "ScrumTemplate F newID unmarshal asset = built_in F newID unmarshal asset ''scrum'' SystemScrumTemplateID"

definition AgileTemplate :: "field_env \<Rightarrow> uuid \<Rightarrow> (string \<Rightarrow> import_helper res) \<Rightarrow> (string \<Rightarrow> string res) \<Rightarrow> import_helper res" where
  "AgileTemplate F newID unmarshal asset = built_in F newID unmarshal asset ''agile'' SystemAgileTemplateID"

section \<open>State\<close>

record import_db =
  im_Links :: link_db
  im_Templates :: template_db

type_synonym 'a import_repo = "(import_db, 'a) action"

definition on_link_tables :: "'a link_repo \<Rightarrow> 'a import_repo" where
  "on_link_tables = on_table im_Links (\<lambda>t s. s\<lparr>im_Links := t\<rparr>)"

definition on_type_tables :: "'a repo \<Rightarrow> 'a import_repo" where
  "on_type_tables m = on_link_tables (on_items m)"

definition on_template_tables :: "'a tb_repo \<Rightarrow> 'a import_repo" where
  "on_template_tables = on_table im_Templates (\<lambda>t s. s\<lparr>im_Templates := t\<rparr>)"

text \<open>The table of space templates, whose identifiers the tables of links keep as well.\<close>

definition on_space_templates :: "'a template_repo \<Rightarrow> 'a import_repo" where
  "on_space_templates = on_table (\<lambda>s. tb_Templates (im_Templates s))
     (\<lambda>rows s. s\<lparr>im_Templates := (im_Templates s)\<lparr>tb_Templates := rows\<rparr>,
                im_Links := (im_Links s)\<lparr>ld_spaceTemplates := template_ids rows\<rparr>\<rparr>)"

text \<open>The n-th artifact of a loop gets identifiers of its own.\<close>

definition nth_env :: "db_env \<Rightarrow> nat \<Rightarrow> db_env" where
  "nth_env E n = E\<lparr>env_newID := (\<lambda>what. env_newID E (nth_label what n))\<rparr>"

definition nth_repo :: "repo_env \<Rightarrow> nat \<Rightarrow> repo_env" where
  "nth_repo R n = R\<lparr>re_db := nth_env (re_db R) n\<rparr>"

section \<open>Existing artifacts\<close>

text \<open>Loading decides between creation and update; other errors than that there is none are wrapped.\<close>

definition not_found_cause :: "(go_error \<Rightarrow> go_error) \<Rightarrow> go_error \<Rightarrow> bool" where
  "not_found_cause cause e = (case cause e of NotFoundError _ \<Rightarrow> True | _ \<Rightarrow> False)"

definition create_or_update ::
  "(go_error \<Rightarrow> go_error) \<Rightarrow> string \<Rightarrow> ('s, 'r) action \<Rightarrow> ('s, 'a) action \<Rightarrow> ('r \<Rightarrow> ('s, 'a) action) \<Rightarrow> ('s, 'a) action" where
  "create_or_update cause what load create update =
     (\<lambda>s. case load s of
        (Ok r, t) \<Rightarrow> update r t
      | (Err e, t) \<Rightarrow> if not_found_cause cause e then create t else (Err (EWrap (''failed to load '' @ what) e), t)
      | (Panic, t) \<Rightarrow> (Panic, t))"

definition import_template :: "repo_env \<Rightarrow> (go_error \<Rightarrow> go_error) \<Rightarrow> space_template \<Rightarrow> space_template template_repo" where
  "import_template R cause templ =
     create_or_update cause ''space template'' (SpaceTemplate_Load (re_uuid R) (re_db R) (tp_ID templ))
       (act_map_err (EWrap ''failed to create space template'') (SpaceTemplate_Create (re_db R) templ))
       (\<lambda>loaded.
          let new = loaded\<lparr>tp_Name := tp_Name templ, tp_Description := tp_Description templ, tp_CanConstruct := tp_CanConstruct templ\<rparr>;
              updated = new\<lparr>tp_Lifecycle := touched (re_db R) (tp_Lifecycle new)\<rparr>
          in act_bind (act_map_err (EWrap ''update space template is not valid'') (act_lift (SpaceTemplate_Validate new))) (\<lambda>_.
             act_bind (act_map_err (EWrap ''failed to update space template'')
               (gorm_save (re_db R) ''space_templates'' tp_Lifecycle tp_ID template_violation updated
                 (new\<lparr>tp_Lifecycle := stamped (re_db R) (tp_Lifecycle updated)\<rparr>))) (\<lambda>_. act_return updated)))"

section \<open>Work item types\<close>

text \<open>The query behind the check is plain SQL and also counts deleted rows.\<close>

definition no_id_missing :: "db_env \<Rightarrow> string \<Rightarrow> ('s \<Rightarrow> uuid list) \<Rightarrow> uuid list \<Rightarrow> ('s, unit) action" where
  "no_id_missing E what existing imported =
     act_bind (statement E (''ids of '' @ what) (EWrap (''failed to load all '' @ what))) (\<lambda>_.
     act_gets (\<lambda>s. if set (existing s) \<subseteq> set imported then Ok ()
                   else Err (EErrorf (what @ '' to be imported must not remove existing ones''))))"

definition checkNoWITIsMissing :: "repo_env \<Rightarrow> uuid \<Rightarrow> work_item_type list \<Rightarrow> unit repo" where
  "checkNoWITIsMissing R templateID wits =
     no_id_missing (re_db R) ''work item types''
       (\<lambda>s. map wt_ID (filter (\<lambda>t. wt_SpaceTemplateID t = templateID) (db_types s))) (map wt_ID wits)"

text \<open>
  The type of a field must stay the same, its default value apart; an enumeration may get new values.
\<close>

definition check_field_type :: "field_env \<Rightarrow> string \<Rightarrow> field_type \<Rightarrow> field_definition \<Rightarrow> unit res" where
  "check_field_type F name old fd =
     res_bind (map_err (EWrap ''failed to temporarily overwrite default of new field type'')
       (SetDefaultValue F (fd_Type fd) (GetDefaultValue old))) (\<lambda>new.
     res_bind (FieldType_Equal False new old) (\<lambda>equal.
     res_bind (if equal then Ok True else case (old, new) of (FEnum orig, FEnum new) \<Rightarrow> EnumType_EqualEnclosing new orig | _ \<Rightarrow> Ok False) (\<lambda>equal.
     if equal then Ok () else Err (EErrorf (''type of the field '' @ name @ '' changed'')))))"

text \<open>The fields that have not been found in the new definition.\<close>

fun fields_to_find :: "field_env \<Rightarrow> field_definitions \<Rightarrow> (string \<times> field_type) list \<Rightarrow> (string \<times> field_type) list res" where
  "fields_to_find F [] toBeFound = Ok toBeFound"
| "fields_to_find F ((name, fd) # rest) toBeFound =
     res_bind (case map_of toBeFound name of None \<Rightarrow> Ok () | Some old \<Rightarrow> check_field_type F name old fd) (\<lambda>_.
       fields_to_find F rest (AList.delete name toBeFound))"

definition add_fields :: "field_definitions \<Rightarrow> field_definitions \<Rightarrow> field_definitions" where
  "add_fields new base = fold (\<lambda>(name, field). AList.update name field) new base"

definition on_types :: "(work_item_type list, 'a) action \<Rightarrow> 'a repo" where
  "on_types = on_table db_types (\<lambda>rows s. s\<lparr>db_types := rows\<rparr>)"

text \<open>
  The fields of a type are a map that the type shares with its entry in the cache: when the new fields are added to the
  map of the loaded type, or to that of the type it extends, the entry changes too.
\<close>

definition share_fields :: "work_item_type \<Rightarrow> field_definitions \<Rightarrow> unit repo" where
  "share_fields base fs = act_modify (\<lambda>s. s\<lparr>db_cache := Cache_Put (db_cache s) (base\<lparr>wt_Fields := fs\<rparr>)\<rparr>)"

definition extended_type :: "repo_env \<Rightarrow> work_item_type \<Rightarrow> work_item_type option repo" where
  "extended_type R wit =
     (if wt_Extends wit = uuid_Nil then act_return None
      else act_bind (act_map_err (EWrap ''failed to load WIT to be extended'') (WITR_Load R (wt_Extends wit))) (\<lambda>e. act_return (Some e)))"

definition fields_missing :: "work_item_type option \<Rightarrow> (string \<times> field_type) list \<Rightarrow> (string \<times> field_type) list" where
  "fields_missing extended left =
     (case extended of None \<Rightarrow> left | Some e \<Rightarrow> filter (\<lambda>(k, _). map_of (wt_Fields e) k = None) left)"

definition updated_type :: "repo_env \<Rightarrow> work_item_type \<Rightarrow> work_item_type \<Rightarrow> work_item_type \<Rightarrow> work_item_type" where
  "updated_type R wit loaded base =
     loaded\<lparr>wt_Name := wt_Name wit, wt_Description := wt_Description wit, wt_Icon := wt_Icon wit,
       wt_CanConstruct := wt_CanConstruct wit, wt_Fields := add_fields (wt_Fields wit) (wt_Fields base),
       wt_Lifecycle := touched (re_db R) (wt_Lifecycle loaded), wt_Extends := uuid_Nil, wt_ChildTypeIDs := []\<rparr>"

definition store_type :: "repo_env \<Rightarrow> work_item_type \<Rightarrow> work_item_type \<Rightarrow> unit repo" where
  "store_type R base saved =
     act_bind (share_fields base (wt_Fields saved)) (\<lambda>_.
     act_bind (act_map_err (EWrap ''failed to update work item type'')
       (on_types (gorm_save (re_db R) ''work_item_types'' wt_Lifecycle wt_ID (\<lambda>_ _. None) saved
          (saved\<lparr>wt_Lifecycle := stamped (re_db R) (wt_Lifecycle saved)\<rparr>)))) (\<lambda>_.
     ClearGlobalWorkItemTypeCache))"

definition update_wit :: "repo_env \<Rightarrow> uuid \<Rightarrow> work_item_type \<Rightarrow> work_item_type \<Rightarrow> unit repo" where
  "update_wit R templateID wit loaded =
     (if wt_SpaceTemplateID loaded \<noteq> templateID then
        act_fail (EErrorf ''work item type exists and is bound to another space template'')
      else
        act_bind (act_lift (fields_to_find (re_field R) (wt_Fields wit) (map (\<lambda>(k, fd). (k, fd_Type fd)) (wt_Fields loaded)))) (\<lambda>left.
        act_bind (extended_type R wit) (\<lambda>extended.
        let base = (case extended of Some e \<Rightarrow> e | None \<Rightarrow> loaded)
        in if fields_missing extended left \<noteq> [] then
             act_fail (EErrorf ''you must not remove these fields from the new work item type definition'')
           else store_type R base (updated_type R wit loaded base))))"

definition import_wit :: "repo_env \<Rightarrow> (go_error \<Rightarrow> go_error) \<Rightarrow> uuid \<Rightarrow> nat \<Rightarrow> work_item_type \<Rightarrow> unit repo" where
  "import_wit R cause templateID n wit =
     create_or_update cause ''work item type'' (WITR_Load R (wt_ID wit))
       (act_bind (act_map_err (EWrap ''failed to create work item type'') (CreateFromModel (nth_repo R n) wit)) (\<lambda>_. act_return ()))
       (update_wit R templateID wit)"

text \<open>Loops over the artifacts of a template.\<close>

fun each :: "(nat \<Rightarrow> 'x \<Rightarrow> ('s, 'a) action) \<Rightarrow> nat \<Rightarrow> 'x list \<Rightarrow> ('s, 'a list) action" where
  "each f n [] = act_return []"
| "each f n (x # xs) = act_bind (f n x) (\<lambda>y. act_bind (each f (Suc n) xs) (\<lambda>ys. act_return (y # ys)))"

definition replace_child_types :: "repo_env \<Rightarrow> work_item_type \<Rightarrow> unit repo" where
  "replace_child_types R wit =
     act_bind (statement (re_db R) ''delete child types'' (\<lambda>e. NewInternalError (EWrap ''failed to deleted previous work item child types'' e))) (\<lambda>_.
     act_bind (act_modify (\<lambda>s. s\<lparr>db_childTypes := filter (\<lambda>c. ct_ParentWorkItemTypeID c \<noteq> wt_ID wit) (db_childTypes s)\<rparr>)) (\<lambda>_.
     act_map_err (EWrap ''failed to add child types to work item type'') (AddChildTypes R (wt_ID wit) (wt_ChildTypeIDs wit))))"

definition createOrUpdateWITs :: "repo_env \<Rightarrow> (go_error \<Rightarrow> go_error) \<Rightarrow> uuid \<Rightarrow> work_item_type list \<Rightarrow> unit repo" where
  "createOrUpdateWITs R cause templateID wits =
     act_bind (act_map_err (EWrap []) (checkNoWITIsMissing R templateID wits)) (\<lambda>_.
     act_bind (each (import_wit R cause templateID) 0 wits) (\<lambda>_.
     act_bind (each (\<lambda>_. replace_child_types R) 0 wits) (\<lambda>_. act_return ())))"

section \<open>Link types, groups and boards\<close>

definition checkNoWILTIsMissing :: "repo_env \<Rightarrow> uuid \<Rightarrow> link_type list \<Rightarrow> unit link_repo" where
  "checkNoWILTIsMissing R templateID wilts =
     no_id_missing (re_db R) ''work item link types''
       (\<lambda>s. map wlt_ID (filter (\<lambda>t. wlt_SpaceTemplateID t = templateID) (ld_linkTypes s))) (map wlt_ID wilts)"

definition on_link_types :: "(link_type list, 'a) action \<Rightarrow> 'a link_repo" where
  "on_link_types = on_table ld_linkTypes (\<lambda>rows s. s\<lparr>ld_linkTypes := rows\<rparr>)"

definition link_type_violation :: "link_type \<Rightarrow> link_type list \<Rightarrow> go_error option" where
  "link_type_violation t rows =
     (if index_taken wlt_Lifecycle wlt_ID (\<lambda>x. (wlt_Name x, wlt_SpaceTemplateID x)) t rows
      then Some (unique_violation linkType_index) else None)"

text \<open>An existing link type is overwritten by the one of the template, its version included.\<close>

definition import_wilt :: "repo_env \<Rightarrow> (go_error \<Rightarrow> go_error) \<Rightarrow> uuid \<Rightarrow> nat \<Rightarrow> link_type \<Rightarrow> link_type link_repo" where
  "import_wilt R cause templateID n wilt =
     create_or_update cause ''work item link type'' (LinkType_Load R (wlt_ID wilt))
       (let new = wilt\<lparr>wlt_ID := if wlt_ID wilt = uuid_Nil then env_newID (re_db R) (nth_label ''link type'' n) else wlt_ID wilt,
                       wlt_SpaceTemplateID := templateID\<rparr>
        in act_bind (act_map_err (EWrap ''failed to create work item link type'') (LinkType_Create R new)) (\<lambda>_. act_return new))
       (\<lambda>loaded.
          if wlt_SpaceTemplateID loaded \<noteq> templateID then
            act_fail (EErrorf ''work item link type exists and is bound to another space template'')
          else let new = wilt\<lparr>wlt_Lifecycle := touched (re_db R) (wlt_Lifecycle wilt)\<rparr>
               in act_bind (act_map_err (EWrap ''failed to update work item link type'')
                    (on_link_types (gorm_save (re_db R) ''work_item_link_types'' wlt_Lifecycle wlt_ID link_type_violation new
                      (new\<lparr>wlt_Lifecycle := stamped (re_db R) (wlt_Lifecycle new)\<rparr>)))) (\<lambda>_. act_return new))"

definition createOrUpdateWILTs :: "repo_env \<Rightarrow> (go_error \<Rightarrow> go_error) \<Rightarrow> uuid \<Rightarrow> link_type list \<Rightarrow> link_type list link_repo" where
  "createOrUpdateWILTs R cause templateID wilts =
     act_bind (act_map_err (EWrap []) (checkNoWILTIsMissing R templateID wilts)) (\<lambda>_.
     each (import_wilt R cause templateID) 0 wilts)"

text \<open>A permanent deletion takes the rows with it that refer to the deleted ones.\<close>

definition purge_groups :: "db_env \<Rightarrow> uuid \<Rightarrow> unit tb_repo" where
  "purge_groups E templateID =
     act_bind (statement E ''purge type groups''
       (\<lambda>e. NewInternalError (EWrap ''failed to deleted previous work item type groups'' e))) (\<lambda>_.
     act_modify (\<lambda>s. let gone = map tg_ID (filter (\<lambda>g. tg_SpaceTemplateID g = templateID) (tb_Groups s))
       in s\<lparr>tb_Groups := filter (\<lambda>g. tg_SpaceTemplateID g \<noteq> templateID) (tb_Groups s),
            tb_Members := filter (\<lambda>m. gm_TypeGroupID m \<notin> set gone) (tb_Members s)\<rparr>))"

definition purge_boards :: "db_env \<Rightarrow> uuid \<Rightarrow> unit tb_repo" where
  "purge_boards E templateID =
     act_bind (statement E ''purge boards''
       (\<lambda>e. NewInternalError (EWrap ''failed to delete previous work item boards'' e))) (\<lambda>_.
     act_modify (\<lambda>s. let gone = map bo_ID (filter (\<lambda>b. bo_SpaceTemplateID b = templateID) (tb_Boards s))
       in s\<lparr>tb_Boards := filter (\<lambda>b. bo_SpaceTemplateID b \<noteq> templateID) (tb_Boards s),
            tb_Columns := filter (\<lambda>c. bc_BoardID c \<notin> set gone) (tb_Columns s)\<rparr>))"

definition import_group :: "db_env \<Rightarrow> nat \<Rightarrow> type_group \<Rightarrow> type_group tb_repo" where
  "import_group E pos witg =
     (let g = witg\<lparr>tg_Position := int pos\<rparr>
      in act_bind (act_map_err (EWrap ''failed to create work item type group'') (TypeGroup_Create (nth_env E pos) g)) (\<lambda>_. act_return g))"

definition createOrUpdateWITGs :: "db_env \<Rightarrow> uuid \<Rightarrow> type_group list \<Rightarrow> type_group list tb_repo" where
  "createOrUpdateWITGs E templateID groups =
     act_bind (purge_groups E templateID) (\<lambda>_. each (import_group E) 0 groups)"

definition createOrUpdateWIBs :: "db_env \<Rightarrow> uuid \<Rightarrow> board list \<Rightarrow> unit tb_repo" where
  "createOrUpdateWIBs E templateID boards =
     act_bind (purge_boards E templateID) (\<lambda>_.
     act_bind (each (\<lambda>n b. act_map_err (EWrap ''failed to create work item board'') (Board_Create (nth_env E n) b)) 0 boards) (\<lambda>_. act_return ()))"

section \<open>The import\<close>

definition Import :: "repo_env \<Rightarrow> (go_error \<Rightarrow> go_error) \<Rightarrow> import_helper \<Rightarrow> import_helper import_repo" where
  "Import R cause s =
     (let i = tp_ID (ih_Template s) in
      act_bind (act_map_err (EWrap ''space template is invalid'') (act_lift (ImportHelper_Validate (re_field R) s))) (\<lambda>_.
      act_bind (on_space_templates (import_template R cause (ih_Template s))) (\<lambda>templ.
      act_bind (act_map_err (EWrap ''failed to create or update work item types'')
        (on_type_tables (createOrUpdateWITs R cause i (ih_WITs s)))) (\<lambda>_.
      act_bind (act_map_err (EWrap ''failed to create or update work item link types'')
        (on_link_tables (createOrUpdateWILTs R cause i (ih_WILTs s)))) (\<lambda>wilts.
      act_bind (act_map_err (EWrap ''failed to create or update work item type groups'')
        (on_template_tables (createOrUpdateWITGs (re_db R) i (ih_WITGs s)))) (\<lambda>groups.
      act_bind (act_map_err (EWrap ''failed to create or update work item boards'')
        (on_template_tables (createOrUpdateWIBs (re_db R) i (ih_WIBs s)))) (\<lambda>_.
      act_return (s\<lparr>ih_Template := templ, ih_WILTs := wilts, ih_WITGs := groups\<rparr>))))))))"

section \<open>The cache of types\<close>

text \<open>The cache holds types as the table has them, and no two types have the same identifier.\<close>

definition live_types :: "wi_db \<Rightarrow> work_item_type list" where
  "live_types s = live_rows wt_Lifecycle (db_types s)"

definition cached_row :: "work_item_type \<Rightarrow> work_item_type \<Rightarrow> bool" where
  "cached_row t r \<longleftrightarrow> t = r\<lparr>wt_ChildTypeIDs := wt_ChildTypeIDs t\<rparr>"

definition types_coherent :: "wi_db \<Rightarrow> bool" where
  "types_coherent s \<longleftrightarrow> distinct (map wt_ID (live_types s)) \<and>
     (\<forall>i t. db_cache s i = Some t \<longrightarrow> (\<exists>r \<in> set (live_types s). wt_ID r = i \<and> cached_row t r))"

lemma cached_row_same [simp]:
  assumes "cached_row t r"
  shows "wt_ID t = wt_ID r" "wt_Fields t = wt_Fields r" "wt_SpaceTemplateID t = wt_SpaceTemplateID r" "wt_Lifecycle t = wt_Lifecycle r"
proof -
  have t: "t = r\<lparr>wt_ChildTypeIDs := wt_ChildTypeIDs t\<rparr>" using assms by (simp only: cached_row_def)
  show "wt_ID t = wt_ID r" by (subst t) simp
  show "wt_Fields t = wt_Fields r" by (subst t) simp
  show "wt_SpaceTemplateID t = wt_SpaceTemplateID r" by (subst t) simp
  show "wt_Lifecycle t = wt_Lifecycle r" by (subst t) simp
qed

lemma live_types_cache [simp]:
  "live_types (s\<lparr>db_cache := c\<rparr>) = live_types s" "live_types (s\<lparr>db_childTypes := cs\<rparr>) = live_types s"
  by (simp_all add: live_types_def)

lemma find_type_live: "find_type i s = Some r \<Longrightarrow> r \<in> set (live_types s) \<and> wt_ID r = i"
  by (auto simp: find_type_def live_types_def live_rows_def dest!: first_row_SomeD)

lemma find_type_None: "find_type i s = None \<longleftrightarrow> i \<notin> wt_ID ` set (live_types s)"
  by (auto simp: find_type_def live_types_def live_rows_def filter_empty_conv)

lemma WITR_Load_coherent:
  assumes "WITR_Load R i s = (Ok ty, t)" "types_coherent s"
  shows "types_coherent t \<and> (\<exists>c. t = s\<lparr>db_cache := c\<rparr> \<and> c i = Some ty) \<and>
    (\<exists>r \<in> set (live_types s). wt_ID r = i \<and> cached_row ty r)"
proof (cases "db_cache s i")
  case (Some t')
  with assms(1) have t: "t = s" "ty = t'" by (simp_all add: WITR_Load_def act_defs Cache_Get_def)
  with Some assms(2) have "\<exists>r \<in> set (live_types s). wt_ID r = i \<and> cached_row ty r" by (simp add: types_coherent_def)
  with Some assms(2) t show ?thesis by (auto intro!: exI [of _ "db_cache s"])
next
  case None
  with assms(1) obtain r cs where r: "find_type i s = Some r" and ty: "ty = r\<lparr>wt_ChildTypeIDs := cs\<rparr>"
    and t: "t = s\<lparr>db_cache := Cache_Put (db_cache s) ty\<rparr>"
    by (auto simp: WITR_Load_def loadChildTypeList_def Cache_Get_def act_bind_Ok_iff Let_def act_gets_def act_modify_def act_return_def
        split: option.splits)
  from find_type_live [OF r] have live: "r \<in> set (live_types s)" "wt_ID r = i" by auto
  have row: "cached_row ty r" by (simp add: ty cached_row_def)
  have "types_coherent t"
    using assms(2) live row unfolding types_coherent_def t Cache_Put_def by (auto simp: ty)
  moreover have "Cache_Put (db_cache s) ty i = Some ty" by (simp add: Cache_Put_def ty live(2))
  ultimately show ?thesis using live row t by blast
qed

lemma WITR_Load_missing:
  assumes "WITR_Load R i s = (Err e, t)" "not_found_cause cause e" "cause_ok cause"
  shows "t = s \<and> i \<notin> wt_ID ` set (live_types s)"
proof (cases "find_type i s")
  case None
  with assms(1) show ?thesis
    unfolding find_type_None [symmetric]
    by (auto simp: WITR_Load_def loadChildTypeList_def Cache_Get_def act_bind_Err_iff statement_def act_defs split: option.splits)
next
  case (Some r)
  have "cause (NewInternalError e') = NewInternalError e'" "cause (EWrap m (NewInternalError e')) = NewInternalError e'" for m e'
    using assms(3) by (simp_all add: cause_ok_def NewInternalError_def)
  then have no: "\<not> not_found_cause cause (NewInternalError e')" "\<not> not_found_cause cause (EWrap m (NewInternalError e'))" for m e'
    by (simp_all add: not_found_cause_def NewInternalError_def)
  from Some assms(1) have "(\<exists>e'. e = NewInternalError e') \<or> (\<exists>m e'. e = EWrap m (NewInternalError e'))"
    by (auto simp: WITR_Load_def loadChildTypeList_def Cache_Get_def act_defs statement_def Let_def split: option.splits)
  with no assms(2) show ?thesis by blast
qed

section \<open>What an import keeps\<close>

definition field_names :: "work_item_type \<Rightarrow> string set" where
  "field_names t = fst ` set (wt_Fields t)"

text \<open>Every type is still there with its fields; types of other templates are as they were.\<close>

definition types_kept :: "uuid \<Rightarrow> wi_db \<Rightarrow> wi_db \<Rightarrow> bool" where
  "types_kept templateID s t \<longleftrightarrow>
     (\<forall>r \<in> set (live_types s). \<exists>r' \<in> set (live_types t). wt_ID r' = wt_ID r \<and> wt_SpaceTemplateID r' = wt_SpaceTemplateID r \<and>
        field_names r \<subseteq> field_names r' \<and> (wt_SpaceTemplateID r \<noteq> templateID \<longrightarrow> r' = r))"

lemma types_kept_same: "live_types t = live_types s \<Longrightarrow> types_kept i s t"
  by (auto simp: types_kept_def)

lemma types_kept_trans: "types_kept i s t \<Longrightarrow> types_kept i t u \<Longrightarrow> types_kept i s u"
  unfolding types_kept_def by (metis order_trans)

lemma fields_to_find_left:
  "fields_to_find F new old = Ok left \<Longrightarrow> dom (map_of left) = dom (map_of old) - fst ` set new"
  by (induction F new old rule: fields_to_find.induct) (auto simp: res_bind_Ok_iff delete_conv')

lemma add_fields_dom: "dom (map_of (add_fields new base)) = fst ` set new \<union> dom (map_of base)"
  unfolding add_fields_def by (induction new arbitrary: base) (auto simp: update_conv' split: prod.splits if_splits)

lemma extended_type_Ok:
  assumes "extended_type R wit s = (Ok extended, t)" "types_coherent s"
  shows "types_coherent t \<and> (\<exists>c. t = s\<lparr>db_cache := c\<rparr>)"
proof (cases "wt_Extends wit = uuid_Nil")
  case True
  with assms show ?thesis by (auto simp: extended_type_def act_return_def intro!: exI [of _ "db_cache s"])
next
  case False
  with assms(1) obtain e where "WITR_Load R (wt_Extends wit) s = (Ok e, t)"
    by (auto simp: extended_type_def act_bind_Ok_iff act_return_def)
  from WITR_Load_coherent [OF this assms(2)] show ?thesis by blast
qed

lemma store_type_Ok:
  assumes "store_type R base saved s = (Ok u, t)" "wt_ID saved \<noteq> uuid_Nil" "wt_ID saved \<in> wt_ID ` set (live_types s)"
  shows "t = s\<lparr>db_types := map (\<lambda>x. if alive (wt_Lifecycle x) \<and> wt_ID x = wt_ID saved then saved else x) (db_types s),
    db_cache := Map.empty\<rparr>"
proof -
  let ?hit = "\<lambda>x. alive (wt_Lifecycle x) \<and> wt_ID x = wt_ID saved"
  from assms(3) have hit: "filter ?hit (db_types s) \<noteq> []" by (auto simp: live_types_def live_rows_def filter_empty_conv)
  from assms(1) obtain s2 where "on_types (gorm_save (re_db R) ''work_item_types'' wt_Lifecycle wt_ID (\<lambda>_ _. None) saved
      (saved\<lparr>wt_Lifecycle := stamped (re_db R) (wt_Lifecycle saved)\<rparr>)) (s\<lparr>db_cache := Cache_Put (db_cache s) (base\<lparr>wt_Fields := wt_Fields saved\<rparr>)\<rparr>)
      = (Ok (), s2)" and t: "t = s2\<lparr>db_cache := Map.empty\<rparr>"
    by (auto simp: store_type_def act_bind_Ok_iff share_fields_def act_modify_def ClearGlobalWorkItemTypeCache_def Cache_Clear_def)
  then have "s2 = s\<lparr>db_types := map (\<lambda>x. if ?hit x then saved else x) (db_types s),
      db_cache := Cache_Put (db_cache s) (base\<lparr>wt_Fields := wt_Fields saved\<rparr>)\<rparr>"
    using hit assms(2) by (auto simp: on_types_def on_table_Ok_iff gorm_save_def act_bind_Ok_iff gorm_update_Ok_iff act_return_def)
  with t show ?thesis by simp
qed

lemma live_replaced:
  "alive (lc r') \<Longrightarrow> filter (\<lambda>x. alive (lc x)) (map (\<lambda>x. if alive (lc x) \<and> key x = i then r' else x) rows) =
    map (\<lambda>x. if key x = i then r' else x) (filter (\<lambda>x. alive (lc x)) rows)"
  by (induction rows) simp_all

lemma replaced_types_kept:
  assumes "types_coherent s" "r \<in> set (live_types s)" "wt_ID saved = wt_ID r" "wt_SpaceTemplateID saved = wt_SpaceTemplateID r"
    and "alive (wt_Lifecycle saved)" "field_names r \<subseteq> field_names saved" "wt_SpaceTemplateID r = templateID"
    and t: "t = s\<lparr>db_types := map (\<lambda>x. if alive (wt_Lifecycle x) \<and> wt_ID x = wt_ID saved then saved else x) (db_types s), db_cache := Map.empty\<rparr>"
  shows "types_coherent t \<and> types_kept templateID s t"
proof -
  have live: "live_types t = map (\<lambda>x. if wt_ID x = wt_ID r then saved else x) (live_types s)"
    unfolding live_types_def live_rows_def t using live_replaced [of wt_Lifecycle saved wt_ID "wt_ID saved" "db_types s"] assms(3,5)
    by simp
  have ids: "map wt_ID (live_types t) = map wt_ID (live_types s)" using assms(3) by (simp add: live)
  have "db_cache t = Map.empty" by (simp add: t)
  with ids assms(1) have "types_coherent t" by (simp add: types_coherent_def)
  moreover have only: "x = r" if "x \<in> set (live_types s)" "wt_ID x = wt_ID r" for x
    using assms(1,2) that by (auto simp: types_coherent_def distinct_map inj_on_def)
  have "\<exists>r' \<in> set (live_types t). wt_ID r' = wt_ID x \<and> wt_SpaceTemplateID r' = wt_SpaceTemplateID x \<and>
      field_names x \<subseteq> field_names r' \<and> (wt_SpaceTemplateID x \<noteq> templateID \<longrightarrow> r' = x)" if "x \<in> set (live_types s)" for x
  proof (cases "wt_ID x = wt_ID r")
    case True
    with only that have "x = r" by blast
    with that assms(3-7) show ?thesis unfolding live by (intro bexI [of _ saved]) (auto intro!: image_eqI [of _ _ r])
  next
    case False
    with that show ?thesis unfolding live by (intro bexI [of _ x]) (auto intro!: image_eqI [of _ _ x])
  qed
  then have "types_kept templateID s t" unfolding types_kept_def by blast
  ultimately show ?thesis by simp
qed

lemma update_wit_Ok:
  assumes "update_wit R templateID wit loaded s = (Ok u, t)"
  obtains left extended base s1 where "wt_SpaceTemplateID loaded = templateID"
    "fields_to_find (re_field R) (wt_Fields wit) (map (\<lambda>(k, fd). (k, fd_Type fd)) (wt_Fields loaded)) = Ok left"
    "extended_type R wit s = (Ok extended, s1)" "fields_missing extended left = []"
    "base = (case extended of Some e \<Rightarrow> e | None \<Rightarrow> loaded)"
    "store_type R base (updated_type R wit loaded base) s1 = (Ok u, t)"
proof -
  from assms have own: "wt_SpaceTemplateID loaded = templateID"
    by (cases "wt_SpaceTemplateID loaded = templateID") (simp_all add: update_wit_def act_fail_def)
  obtain lr where lr: "fields_to_find (re_field R) (wt_Fields wit) (map (\<lambda>(k, fd). (k, fd_Type fd)) (wt_Fields loaded)) = lr" by blast
  with assms own obtain left where left: "lr = Ok left" by (cases lr) (simp_all add: update_wit_def act_bind_def act_lift_def)
  obtain er s1 where er: "extended_type R wit s = (er, s1)" by fastforce
  with assms own lr left obtain extended where ext: "er = Ok extended"
    by (cases er) (simp_all add: update_wit_def act_bind_def act_lift_def)
  have run: "(let base = (case extended of Some e \<Rightarrow> e | None \<Rightarrow> loaded)
        in if fields_missing extended left \<noteq> [] then
             act_fail (EErrorf ''you must not remove these fields from the new work item type definition'')
           else store_type R base (updated_type R wit loaded base)) s1 = (Ok u, t)"
    using assms own lr left er ext by (simp add: update_wit_def act_bind_def act_lift_def)
  then have "fields_missing extended left = []"
    by (cases "fields_missing extended left") (simp_all add: Let_def act_fail_def)
  with run own lr left er ext show thesis by (intro that [OF _ _ _ _ refl]) (simp_all add: Let_def)
qed

lemma update_wit_keeps:
  assumes "update_wit R templateID wit loaded s = (Ok u, t)" "types_coherent s"
    and "r \<in> set (live_types s)" "cached_row loaded r" "wt_ID r \<noteq> uuid_Nil"
  shows "types_coherent t \<and> types_kept templateID s t"
proof -
  from update_wit_Ok [OF assms(1)] obtain left extended base s1 where own: "wt_SpaceTemplateID loaded = templateID"
    and left: "fields_to_find (re_field R) (wt_Fields wit) (map (\<lambda>(k, fd). (k, fd_Type fd)) (wt_Fields loaded)) = Ok left"
    and ext: "extended_type R wit s = (Ok extended, s1)" and missing: "fields_missing extended left = []"
    and base: "base = (case extended of Some e \<Rightarrow> e | None \<Rightarrow> loaded)"
    and saved: "store_type R base (updated_type R wit loaded base) s1 = (Ok u, t)" .
  let ?saved = "updated_type R wit loaded base"
  from extended_type_Ok [OF ext assms(2)] obtain c where s1: "types_coherent s1" "s1 = s\<lparr>db_cache := c\<rparr>" by blast
  with assms(3) have r: "r \<in> set (live_types s1)" by simp
  have alive: "alive (wt_Lifecycle r)" using assms(3) by (simp add: live_types_def live_rows_def)
  have cols: "wt_ID ?saved = wt_ID r" "wt_SpaceTemplateID ?saved = wt_SpaceTemplateID r" "alive (wt_Lifecycle ?saved)"
    using alive assms(4) by (simp_all add: updated_type_def touched_def) (simp add: alive_def)
  from r have "wt_ID ?saved \<in> wt_ID ` set (live_types s1)" by (simp add: cols(1))
  with store_type_Ok [OF saved] assms(5) cols(1) have t: "t = s1\<lparr>db_types := map (\<lambda>x. if alive (wt_Lifecycle x) \<and>
      wt_ID x = wt_ID ?saved then ?saved else x) (db_types s1), db_cache := Map.empty\<rparr>" by metis
  have "dom (map_of left) = field_names r - fst ` set (wt_Fields wit)"
    using fields_to_find_left [OF left] assms(4) by (simp add: field_names_def dom_map_of_conv_image_fst image_image case_prod_beta)
  moreover have "dom (map_of left) \<subseteq> dom (map_of (wt_Fields base))"
  proof (cases extended)
    case None
    with missing show ?thesis by (simp add: fields_missing_def)
  next
    case (Some e)
    with missing have "\<forall>kv \<in> set left. map_of (wt_Fields e) (fst kv) \<noteq> None"
      by (simp add: fields_missing_def filter_empty_conv case_prod_beta)
    with Some base show ?thesis by (fastforce dest: map_of_SomeD)
  qed
  moreover have "field_names ?saved = fst ` set (wt_Fields wit) \<union> dom (map_of (wt_Fields base))"
    using add_fields_dom [of "wt_Fields wit" "wt_Fields base"] by (simp add: field_names_def updated_type_def dom_map_of_conv_image_fst)
  ultimately have names: "field_names r \<subseteq> field_names ?saved" by blast
  have "wt_SpaceTemplateID r = templateID" using own assms(4) by simp
  from replaced_types_kept [OF s1(1) r cols names this t] have "types_coherent t" "types_kept templateID s1 t" by auto
  moreover have "types_kept templateID s s1" by (rule types_kept_same) (simp add: s1(2))
  ultimately show ?thesis by (blast intro: types_kept_trans)
qed

lemma created_row_appended:
  assumes "CreateFromModel R model s = (Ok new, t)" "wt_ID model \<noteq> uuid_Nil"
  shows "\<exists>row. alive (wt_Lifecycle row) \<and> wt_ID row = wt_ID model \<and> t = s\<lparr>db_types := db_types s @ [row]\<rparr>"
proof -
  have alive: "alive (created E)" for E by (simp add: created_def alive_def)
  have "wt_ID new = wt_ID model \<and> alive (wt_Lifecycle new) \<and>
      t = s\<lparr>db_types := db_types s @ [new\<lparr>wt_Extends := uuid_Nil, wt_ChildTypeIDs := []\<rparr>]\<rparr>"
    using assms unfolding CreateFromModel_def Let_def
    by (auto simp: act_bind_Ok_iff act_modify_def alive split: if_splits option.splits prod.splits)
  then show ?thesis by (intro exI [of _ "new\<lparr>wt_Extends := uuid_Nil, wt_ChildTypeIDs := []\<rparr>"]) simp
qed

text \<open>What each step of an import does to the types.\<close>

definition keeps_types :: "uuid \<Rightarrow> 'a repo \<Rightarrow> bool" where
  "keeps_types templateID m \<longleftrightarrow>
     (\<forall>s r t. m s = (Ok r, t) \<longrightarrow> types_coherent s \<longrightarrow> types_coherent t \<and> types_kept templateID s t)"

lemma keeps_typesD:
  "keeps_types i m \<Longrightarrow> m s = (Ok r, t) \<Longrightarrow> types_coherent s \<Longrightarrow> types_coherent t \<and> types_kept i s t"
  unfolding keeps_types_def by blast

lemma keeps_types_bind: "keeps_types i m \<Longrightarrow> (\<And>x. keeps_types i (f x)) \<Longrightarrow> keeps_types i (act_bind m f)"
  unfolding keeps_types_def act_bind_Ok_iff by (metis types_kept_trans)

lemma keeps_types_map_err: "keeps_types i m \<Longrightarrow> keeps_types i (act_map_err f m)"
  by (simp add: keeps_types_def)

lemma keeps_types_simple:
  "keeps_types i (act_return x)" "keeps_types i (act_fail e)" "keeps_types i (act_lift r)" "keeps_types i (act_gets f)"
  "keeps_types i (statement E l w)"
proof -  show "keeps_types i (act_return x)" "keeps_types i (act_fail e)" "keeps_types i (act_lift r)" "keeps_types i (act_gets f)"
    "keeps_types i (statement E l w)"
    unfolding keeps_types_def by (auto dest!: readonlyD [OF readonly_simple(1)] readonlyD [OF readonly_simple(2)]
      readonlyD [OF readonly_simple(3)] readonlyD [OF readonly_simple(4)] readonlyD [OF readonly_simple(5)] intro: types_kept_same)
qed

lemma keeps_types_each: "(\<And>n x. x \<in> set xs \<Longrightarrow> keeps_types i (f n x)) \<Longrightarrow> keeps_types i (each f n xs)"
  by (induction f n xs rule: each.induct)
    (auto intro!: keeps_types_bind keeps_types_simple)

lemma keeps_types_wit:
  assumes "cause_ok cause" "wt_ID wit \<noteq> uuid_Nil"
  shows "keeps_types templateID (import_wit R cause templateID n wit)"
  unfolding keeps_types_def
proof (intro allI impI)
  fix s r t
  assume run: "import_wit R cause templateID n wit s = (Ok r, t)" and coh: "types_coherent s"
  obtain lr s1 where load: "WITR_Load R (wt_ID wit) s = (lr, s1)" by fastforce
  show "types_coherent t \<and> types_kept templateID s t"
  proof (cases lr)
    case (Ok loaded)
    with run load have up: "update_wit R templateID wit loaded s1 = (Ok r, t)" by (simp add: import_wit_def create_or_update_def)
    from WITR_Load_coherent [OF load [unfolded Ok] coh] obtain row c where s1: "types_coherent s1" "s1 = s\<lparr>db_cache := c\<rparr>"
      and row: "row \<in> set (live_types s)" "wt_ID row = wt_ID wit" "cached_row loaded row" by blast
    from row s1 have "row \<in> set (live_types s1)" by simp
    from update_wit_keeps [OF up s1(1) this row(3)] row(2) assms(2) have "types_coherent t" "types_kept templateID s1 t" by auto
    moreover have "types_kept templateID s s1" by (rule types_kept_same) (simp add: s1(2))
    ultimately show ?thesis by (blast intro: types_kept_trans)
  next
    case (Err e)
    with run load have nf: "not_found_cause cause e"
      by (cases "not_found_cause cause e") (simp_all add: import_wit_def create_or_update_def)
    with run load Err obtain new where "CreateFromModel (nth_repo R n) wit s1 = (Ok new, t)"
      by (auto simp: import_wit_def create_or_update_def act_bind_Ok_iff act_return_def)
    from created_row_appended [OF this assms(2)] WITR_Load_missing [OF load [unfolded Err] nf assms(1)] obtain row where
      row: "alive (wt_Lifecycle row)" "wt_ID row = wt_ID wit" and t: "t = s\<lparr>db_types := db_types s @ [row]\<rparr>"
      and new: "wt_ID wit \<notin> wt_ID ` set (live_types s)" by auto
    have live: "live_types t = live_types s @ [row]" using row(1) by (simp add: live_types_def live_rows_def t)
    have "db_cache t = db_cache s" by (simp add: t)
    with coh new row(2) live have "types_coherent t" by (auto simp: types_coherent_def)
    moreover have "types_kept templateID s t" by (auto simp: types_kept_def live)
    ultimately show ?thesis by simp
  next
    case Panic
    with run load show ?thesis by (simp add: import_wit_def create_or_update_def)
  qed
qed

lemma keeps_types_child_types: "keeps_types i (replace_child_types R wit)"
proof -
  have modify: "keeps_types i (act_modify f)"
    if "\<And>s. live_types (f s) = live_types s" "\<And>s. db_cache (f s) = db_cache s \<or> db_cache (f s) = Map.empty" for f
  proof -
    have "types_coherent (f s)" if "types_coherent s" for s
      using that \<open>live_types (f s) = live_types s\<close> \<open>db_cache (f s) = db_cache s \<or> db_cache (f s) = Map.empty\<close>
      by (auto simp: types_coherent_def)
    with that(1) show ?thesis by (auto simp: keeps_types_def act_modify_def intro: types_kept_same)
  qed
  have ins: "keeps_types i (insert_child_types R p n is)" for p n "is"
    by (induction R p n "is" rule: insert_child_types.induct)
      (auto intro!: keeps_types_bind keeps_types_simple modify simp: live_types_def)
  show ?thesis
    unfolding replace_child_types_def AddChildTypes_def ClearGlobalWorkItemTypeCache_def Cache_Clear_def
    by (auto intro!: keeps_types_bind keeps_types_map_err keeps_types_simple modify ins simp: live_types_def)
qed

lemma keeps_types_WITs:
  assumes "cause_ok cause" "\<forall>w \<in> set wits. wt_ID w \<noteq> uuid_Nil"
  shows "keeps_types templateID (createOrUpdateWITs R cause templateID wits)"
  unfolding createOrUpdateWITs_def checkNoWITIsMissing_def no_id_missing_def
  using assms by (intro keeps_types_bind keeps_types_each keeps_types_wit keeps_types_child_types keeps_types_map_err
    keeps_types_simple) auto

text \<open>The other steps leave the tables of work items and their types alone.\<close>

definition keeps_items :: "'a link_repo \<Rightarrow> bool" where
  "keeps_items m \<longleftrightarrow> (\<forall>s. ld_items (snd (m s)) = ld_items s)"

lemma keeps_items_simple:
  "keeps_items (act_return x)" "keeps_items (act_fail e)" "keeps_items (act_lift r)" "keeps_items (act_gets f)"
  "keeps_items (statement E l w)" "keeps_items (on_link_types m)"
  by (simp_all add: keeps_items_def act_defs statement_def on_link_types_def on_table_def split: option.split prod.split)

lemma keeps_items_modify: "(\<And>s. ld_items (f s) = ld_items s) \<Longrightarrow> keeps_items (act_modify f)"
  by (simp add: keeps_items_def act_modify_def)

lemma keeps_items_map_err: "keeps_items m \<Longrightarrow> keeps_items (act_map_err f m)"
  by (simp add: keeps_items_def act_map_err_def case_prod_beta)

lemma keeps_items_bind:
  assumes "keeps_items m" "\<And>x. keeps_items (f x)"
  shows "keeps_items (act_bind m f)"
  unfolding keeps_items_def
proof
  fix s
  obtain r t where m: "m s = (r, t)" by fastforce
  with assms(1) have "ld_items t = ld_items s" by (metis keeps_items_def snd_conv)
  with assms(2) m show "ld_items (snd (act_bind m f s)) = ld_items s"
    by (cases r) (simp_all add: act_bind_def keeps_items_def)
qed

lemma keeps_items_each: "(\<And>n x. keeps_items (f n x)) \<Longrightarrow> keeps_items (each f n xs)"
  by (induction f n xs rule: each.induct) (auto intro!: keeps_items_bind keeps_items_simple)

lemma keeps_items_create_or_update:
  assumes "keeps_items load" "keeps_items create" "\<And>r. keeps_items (update r)"
  shows "keeps_items (create_or_update cause what load create update)"
  unfolding keeps_items_def
proof
  fix s
  obtain r t where l: "load s = (r, t)" by fastforce
  with assms(1) have "ld_items t = ld_items s" by (metis keeps_items_def snd_conv)
  with assms(2,3) l show "ld_items (snd (create_or_update cause what load create update s)) = ld_items s"
    by (cases r) (simp_all add: create_or_update_def keeps_items_def)
qed

lemma keeps_items_WILTs: "keeps_items (createOrUpdateWILTs R cause templateID wilts)"
proof -
  have "keeps_items (LinkType_Create R new)" for new
    unfolding LinkType_Create_def Let_def insert_row_def
    by (intro keeps_items_bind keeps_items_map_err keeps_items_simple keeps_items_modify) simp
  moreover have "keeps_items (LinkType_Load R i)" for i
    unfolding LinkType_Load_def by (intro keeps_items_bind keeps_items_simple)
  ultimately show ?thesis
    unfolding createOrUpdateWILTs_def checkNoWILTIsMissing_def no_id_missing_def import_wilt_def Let_def
    by (intro keeps_items_bind keeps_items_map_err keeps_items_simple keeps_items_each keeps_items_create_or_update)
      (auto intro!: keeps_items_bind keeps_items_map_err keeps_items_simple)
qed

abbreviation im_types :: "import_db \<Rightarrow> wi_db" where
  "im_types s \<equiv> ld_items (im_Links s)"

lemma import_types:
  assumes "Import R cause h s = (Ok res, t)" "cause_ok cause" "\<forall>w \<in> set (ih_WITs h). wt_ID w \<noteq> uuid_Nil"
    and "types_coherent (im_types s)"
  shows "types_coherent (im_types t) \<and> types_kept (tp_ID (ih_Template h)) (im_types s) (im_types t)"
proof -
  let ?i = "tp_ID (ih_Template h)"
  from assms(1) obtain s0 templ s1 s2 wilts s3 groups s4 where
    s0: "act_lift (ImportHelper_Validate (re_field R) h) s = (Ok (), s0)" and
    s1: "on_space_templates (import_template R cause (ih_Template h)) s0 = (Ok templ, s1)" and
    s2: "on_type_tables (createOrUpdateWITs R cause ?i (ih_WITs h)) s1 = (Ok (), s2)" and
    s3: "on_link_tables (createOrUpdateWILTs R cause ?i (ih_WILTs h)) s2 = (Ok wilts, s3)" and
    s4: "on_template_tables (createOrUpdateWITGs (re_db R) ?i (ih_WITGs h)) s3 = (Ok groups, s4)" and
    s5: "on_template_tables (createOrUpdateWIBs (re_db R) ?i (ih_WIBs h)) s4 = (Ok (), t)"
    unfolding Import_def Let_def by (auto simp: act_bind_Ok_iff act_return_def)
  have 1: "im_types s1 = im_types s"
    using s0 s1 by (auto simp: act_lift_def on_space_templates_def on_table_Ok_iff)
  from s2 obtain w where "createOrUpdateWITs R cause ?i (ih_WITs h) (im_types s1) = (Ok (), w)" and 2: "im_types s2 = w"
    by (cases "createOrUpdateWITs R cause ?i (ih_WITs h) (im_types s1)")
      (auto simp: on_type_tables_def on_link_tables_def on_table_Ok_iff on_items_def)
  from keeps_typesD [OF keeps_types_WITs [OF assms(2,3)] this(1)] assms(4) 1 2
  have w: "types_coherent (im_types s2)" "types_kept ?i (im_types s) (im_types s2)" by auto
  from s3 keeps_items_WILTs [of R cause ?i "ih_WILTs h"] have 3: "im_types s3 = im_types s2"
    by (auto simp: on_link_tables_def on_table_def keeps_items_def split: prod.splits) (metis snd_conv)
  from s4 s5 have "im_types t = im_types s3" by (auto simp: on_template_tables_def on_table_Ok_iff)
  with w 3 show ?thesis by simp
qed

section \<open>The groups of a template\<close>

lemma TypeGroup_Create_Ok:
  assumes "TypeGroup_Create E g s = (Ok new, t)" "parts_refer s" "alive (tg_Lifecycle g)"
  shows "tg_ID new \<notin> tg_ID ` set (tb_Groups s) \<and> alive (tg_Lifecycle new) \<and> tg_Name new = tg_Name g \<and>
    tg_Position new = tg_Position g \<and> tg_SpaceTemplateID new = tg_SpaceTemplateID g \<and>
    tb_Groups t = tb_Groups s @ [new\<lparr>tg_TypeList := []\<rparr>] \<and> tb_Templates t = tb_Templates s \<and> parts_refer t \<and>
    map gm_WorkItemTypeID (members_of (tg_ID new) t) = tg_TypeList g \<and>
    (\<forall>i. i \<noteq> tg_ID new \<longrightarrow> members_of i t = members_of i s)"
proof -
  from assms(1,3) obtain s1 where new: "tg_ID new \<notin> tg_ID ` set (tb_Groups s)" "alive (tg_Lifecycle new)" "tg_TypeList new = tg_TypeList g"
      "tg_Name new = tg_Name g" "tg_Position new = tg_Position g" "tg_SpaceTemplateID new = tg_SpaceTemplateID g"
    and s1: "s1 = s\<lparr>tb_Groups := tb_Groups s @ [new\<lparr>tg_TypeList := []\<rparr>]\<rparr>"
    and parts: "create_each (create_member E (tg_ID new)) 0 (tg_TypeList new) s1 = (Ok (), t)"
    by (auto simp: TypeGroup_Create_def Let_def act_bind_Ok_iff on_tables_Ok_iff gorm_insert_Ok_iff split: if_splits)
  note t = create_members_Ok [OF parts]
  let ?ms = "map (\<lambda>(k, i). new_member E (tg_ID new) k i) (enumerate 0 (tg_TypeList new))"
  have own: "\<forall>m \<in> set ?ms. gm_TypeGroupID m = tg_ID new" by (auto simp: new_member_def)
  have fresh: "tg_ID new \<notin> gm_TypeGroupID ` set (tb_Members s)" using assms(2) new(1) unfolding parts_refer_def by blast
  have "members_of (tg_ID new) t = ?ms"
    unfolding t s1 members_of_def using members_of_new [OF fresh] by simp
  then have "map gm_WorkItemTypeID (members_of (tg_ID new) t) = tg_TypeList g" by (simp add: new_member_def comp_def split_beta new(3))
  moreover have "members_of i t = members_of i s" if "i \<noteq> tg_ID new" for i
  proof -
    have "filter (\<lambda>m. gm_TypeGroupID m = i) (live_rows gm_Lifecycle ?ms) = []"
      using that own by (auto simp: filter_empty_conv live_rows_def)
    then show ?thesis by (simp add: members_of_def t s1 live_rows_def)
  qed
  moreover have "parts_refer t"
    using assms(2) own by (auto simp: parts_refer_def t s1)
  ultimately show ?thesis using new by (simp add: t s1)
qed

lemma import_group_Ok_iff:
  "import_group E n g s = (Ok y, t) \<longleftrightarrow>
     y = g\<lparr>tg_Position := int n\<rparr> \<and> (\<exists>new. TypeGroup_Create (nth_env E n) (g\<lparr>tg_Position := int n\<rparr>) s = (Ok new, t))"
  by (auto simp: import_group_def Let_def act_bind_Ok_iff act_return_def)

lemma import_groups_Ok:
  assumes "each (import_group E) n gs s = (Ok res, t)" "parts_refer s" "\<forall>g \<in> set gs. alive (tg_Lifecycle g) \<and> tg_SpaceTemplateID g = i"
  shows "\<exists>rows. tb_Groups t = tb_Groups s @ rows \<and> tb_Templates t = tb_Templates s \<and>
    (\<forall>g \<in> set (tb_Groups s). members_of (tg_ID g) t = members_of (tg_ID g) s) \<and>
    (\<forall>g \<in> set rows. alive (tg_Lifecycle g) \<and> tg_SpaceTemplateID g = i) \<and>
    map tg_Name rows = map tg_Name gs \<and> map tg_Position rows = map int [n..<n + length gs] \<and>
    map (\<lambda>g. map gm_WorkItemTypeID (members_of (tg_ID g) t)) rows = map tg_TypeList gs"
  using assms
proof (induction gs arbitrary: n s res)
  case Nil
  then show ?case by (auto simp: act_return_def)
next
  case (Cons g gs)
  from Cons.prems(1) obtain s1 new rest where g: "TypeGroup_Create (nth_env E n) (g\<lparr>tg_Position := int n\<rparr>) s = (Ok new, s1)"
    and rest: "each (import_group E) (Suc n) gs s1 = (Ok rest, t)"
    by (auto simp: act_bind_Ok_iff import_group_Ok_iff)
  from Cons.prems(3) have "alive (tg_Lifecycle (g\<lparr>tg_Position := int n\<rparr>))" by simp
  from TypeGroup_Create_Ok [OF g Cons.prems(2) this] have new: "tg_ID new \<notin> tg_ID ` set (tb_Groups s)" "alive (tg_Lifecycle new)"
      "tg_Name new = tg_Name g" "tg_Position new = int n" "tg_SpaceTemplateID new = tg_SpaceTemplateID g"
    and s1: "tb_Groups s1 = tb_Groups s @ [new\<lparr>tg_TypeList := []\<rparr>]" "tb_Templates s1 = tb_Templates s" "parts_refer s1"
    and types: "map gm_WorkItemTypeID (members_of (tg_ID new) s1) = tg_TypeList g"
    and others: "\<And>i. i \<noteq> tg_ID new \<Longrightarrow> members_of i s1 = members_of i s" by auto
  from Cons.prems(3) have "\<forall>g \<in> set gs. alive (tg_Lifecycle g) \<and> tg_SpaceTemplateID g = i" by simp
  from Cons.IH [OF rest s1(3) this] obtain rows where rows: "tb_Groups t = tb_Groups s1 @ rows" "tb_Templates t = tb_Templates s1"
    "\<And>g. g \<in> set (tb_Groups s1) \<Longrightarrow> members_of (tg_ID g) t = members_of (tg_ID g) s1"
    "\<forall>g \<in> set rows. alive (tg_Lifecycle g) \<and> tg_SpaceTemplateID g = i"
    "map tg_Name rows = map tg_Name gs" "map tg_Position rows = map int [Suc n..<Suc n + length gs]"
    "map (\<lambda>g. map gm_WorkItemTypeID (members_of (tg_ID g) t)) rows = map tg_TypeList gs" by blast
  have old: "members_of (tg_ID x) t = members_of (tg_ID x) s" if "x \<in> set (tb_Groups s)" for x
  proof -
    from that new(1) have "tg_ID x \<noteq> tg_ID new" by (metis imageI)
    with rows(3) [of x] others [of "tg_ID x"] that show ?thesis by (simp add: s1(1))
  qed
  have "members_of (tg_ID new) t = members_of (tg_ID new) s1"
    using rows(3) [of "new\<lparr>tg_TypeList := []\<rparr>"] by (simp add: s1(1))
  with types rows new old Cons.prems(3) s1 show ?case
    by (intro exI [of _ "new\<lparr>tg_TypeList := []\<rparr> # rows"]) (simp add: upt_rec)
qed

lemma load_each_pure:
  "(\<And>r s. load r s = (Ok (f s r), s)) \<Longrightarrow> load_each load rs s = (Ok (map (f s) rs), s)"
  by (induction rs) (simp_all add: act_bind_def act_return_def)

section \<open>The properties\<close>

text \<open>
  C15. A successful import loses no work item type and no field of one: every type that was there is still there under its
  identifier with all the fields it had; the types of other templates are unchanged, and the cache of types agrees with
  the table again.
\<close>
theorem import_keeps_types:
  assumes "Import R cause h s = (Ok res, t)" "cause_ok cause" "\<forall>w \<in> set (ih_WITs h). wt_ID w \<noteq> uuid_Nil"
    and "types_coherent (im_types s)"
  shows "types_coherent (im_types t) \<and>
    (\<forall>r \<in> set (live_types (im_types s)). \<exists>r' \<in> set (live_types (im_types t)).
       wt_ID r' = wt_ID r \<and> wt_SpaceTemplateID r' = wt_SpaceTemplateID r \<and> field_names r \<subseteq> field_names r' \<and>
       (wt_SpaceTemplateID r \<noteq> tp_ID (ih_Template h) \<longrightarrow> r' = r))"
  using import_types [OF assms] by (simp add: types_kept_def)

text \<open>
  C25. The groups of a template are replaced: after the import the listing of the template shows the groups it came with, in
  their order, each with its types in their order; the groups of other templates are the same rows.
\<close>
theorem import_replaces_groups:
  assumes "createOrUpdateWITGs E i gs s = (Ok res, t)" "parts_refer s"
    and "\<forall>g \<in> set gs. alive (tg_Lifecycle g) \<and> tg_SpaceTemplateID g = i" "i \<in> set (template_ids (tb_Templates s))" "no_faults E'"
  shows "\<exists>ls. TypeGroup_List U E' i t = (Ok ls, t) \<and> map tg_Name ls = map tg_Name gs \<and> map tg_TypeList ls = map tg_TypeList gs \<and>
    map tg_Position ls = map int [0..<length gs] \<and>
    filter (\<lambda>g. tg_SpaceTemplateID g \<noteq> i) (tb_Groups t) = filter (\<lambda>g. tg_SpaceTemplateID g \<noteq> i) (tb_Groups s)"
proof -
  let ?others = "filter (\<lambda>g. tg_SpaceTemplateID g \<noteq> i) (tb_Groups s)"
  from assms(1) obtain s1 where purge: "purge_groups E i s = (Ok (), s1)" and loop: "each (import_group E) 0 gs s1 = (Ok res, t)"
    by (auto simp: createOrUpdateWITGs_def act_bind_Ok_iff)
  from purge have s1: "tb_Groups s1 = ?others" "tb_Templates s1 = tb_Templates s" and members: "tb_Members s1 =
      filter (\<lambda>m. gm_TypeGroupID m \<notin> tg_ID ` {g \<in> set (tb_Groups s). tg_SpaceTemplateID g = i}) (tb_Members s)"
    and boards: "tb_Boards s1 = tb_Boards s" "tb_Columns s1 = tb_Columns s"
    by (auto simp: purge_groups_def act_bind_Ok_iff act_modify_def Let_def)
  have refer: "parts_refer s1"
  proof -
    have "gm_TypeGroupID m \<in> tg_ID ` set ?others" if "m \<in> set (tb_Members s1)" for m
    proof -
      from that members assms(2) obtain g where g: "g \<in> set (tb_Groups s)" "gm_TypeGroupID m = tg_ID g" and "m \<in> set (tb_Members s)"
        by (auto simp: parts_refer_def)
      with that members have "tg_SpaceTemplateID g \<noteq> i" by auto
      with g show ?thesis by simp
    qed
    with assms(2) show ?thesis by (auto simp: parts_refer_def s1 boards)
  qed
  from import_groups_Ok [OF loop refer assms(3)] obtain rows where rows: "tb_Groups t = ?others @ rows" "tb_Templates t = tb_Templates s"
    "\<forall>g \<in> set rows. alive (tg_Lifecycle g) \<and> tg_SpaceTemplateID g = i" "map tg_Name rows = map tg_Name gs"
    "map tg_Position rows = map int [0..<length gs]" "map (\<lambda>g. map gm_WorkItemTypeID (members_of (tg_ID g) t)) rows = map tg_TypeList gs"
    using s1 by auto
  have mine: "filter (\<lambda>g. tg_SpaceTemplateID g = i) (live_rows tg_Lifecycle (tb_Groups t)) = rows"
    using rows(3) by (auto simp: rows(1) live_rows_def filter_id_conv filter_empty_conv)
  have "sorted (map tg_Position rows)" by (simp only: rows(5) sorted_map) (simp add: sorted_wrt_upt sorted_wrt_map)
  then have sorted: "sort_key tg_Position rows = rows" by (simp add: sort_key_id_if_sorted)
  let ?full = "\<lambda>g. g\<lparr>tg_TypeList := map gm_WorkItemTypeID (members_of (tg_ID g) t)\<rparr>"
  have "load_each (\<lambda>g. act_bind (act_map_err (EWrap []) (loadTypeList E' (tg_ID g))) (\<lambda>typeList.
      act_return (g\<lparr>tg_TypeList := typeList\<rparr>))) rows t = (Ok (map ?full rows), t)"
    using assms(5) by (intro load_each_pure [where f = "\<lambda>s g. g\<lparr>tg_TypeList := map gm_WorkItemTypeID (members_of (tg_ID g) s)\<rparr>"])
      (simp add: loadTypeList_def statement_def no_faults_def act_defs)
  moreover have "template_exists U E' i t = (Ok (), t)"
    using assms(4,5) by (simp add: template_exists_def CheckExists_def Exists_def rows(2) statement_def no_faults_def act_defs)
  ultimately have "TypeGroup_List U E' i t = (Ok (map ?full rows), t)"
    using assms(5) by (simp add: TypeGroup_List_def act_bind_def statement_def no_faults_def act_gets_def act_return_def mine sorted)
  moreover have "map tg_TypeList (map ?full rows) = map tg_TypeList gs" using rows(6) by (simp add: comp_def)
  moreover have "map tg_Name (map ?full rows) = map tg_Name gs" "map tg_Position (map ?full rows) = map int [0..<length gs]"
    using rows(4,5) by (simp_all add: comp_def)
  moreover have "filter (\<lambda>g. tg_SpaceTemplateID g \<noteq> i) (tb_Groups t) = ?others"
    using rows(3) by (auto simp: rows(1) filter_id_conv filter_empty_conv)
  ultimately show ?thesis by blast
qed

text \<open>
  C38. The importer adds new fields to a map that it shares with the cache of types before it writes the type. If the
  statement fails, the rollback restores the table but not the cache, and the process goes on serving the type with the new
  field.
\<close>
theorem failed_import_poisons_cache:
  assumes "update_wit R i wit loaded s = (r, t)" "env_fault (re_db R) ''update work_item_types'' = Some e"
    and "wt_SpaceTemplateID loaded = i" "wt_Extends wit = uuid_Nil" "wt_ID loaded \<noteq> uuid_Nil"
    and "fields_to_find (re_field R) (wt_Fields wit) (map (\<lambda>(k, fd). (k, fd_Type fd)) (wt_Fields loaded)) = Ok []"
    and "find_type (wt_ID loaded) s = Some row" "k \<in> field_names wit" "k \<notin> field_names row"
  shows "\<not> is_ok r \<and> find_type (wt_ID loaded) (rollback_db s t) = Some row \<and>
    (\<exists>ty. WITR_Load R' (wt_ID loaded) (rollback_db s t) = (Ok ty, rollback_db s t) \<and> k \<in> field_names ty)"
proof -
  let ?ty = "loaded\<lparr>wt_Fields := add_fields (wt_Fields wit) (wt_Fields loaded)\<rparr>"
  let ?saved = "updated_type R wit loaded loaded"
  have saved: "wt_ID ?saved \<noteq> uuid_Nil" "wt_Fields ?saved = wt_Fields ?ty" using assms(5) by (simp_all add: updated_type_def)
  have "update_wit R i wit loaded s = store_type R loaded ?saved s"
    using assms(3,4,6) by (simp add: update_wit_def act_bind_def act_lift_def extended_type_def act_return_def fields_missing_def)
  also have "\<dots> = (Err (EWrap ''failed to update work item type'' e), s\<lparr>db_cache := Cache_Put (db_cache s) ?ty\<rparr>)"
    using assms(2) saved
    by (simp add: store_type_def share_fields_def act_bind_def act_modify_def on_types_def on_table_def gorm_save_def gorm_update_def
        statement_def act_fail_def act_map_err_def)
  finally have t: "r = Err (EWrap ''failed to update work item type'' e)" "rollback_db s t = s\<lparr>db_cache := Cache_Put (db_cache s) ?ty\<rparr>"
    using assms(1) by (auto simp: rollback_db_def)
  have "k \<in> field_names ?ty"
    using assms(8) add_fields_dom [of "wt_Fields wit" "wt_Fields loaded"] by (simp add: field_names_def dom_map_of_conv_image_fst)
  moreover have "WITR_Load R' (wt_ID loaded) (rollback_db s t) = (Ok ?ty, rollback_db s t)"
    by (simp add: t(2) WITR_Load_def act_bind_def act_gets_def Cache_Get_def Cache_Put_def act_return_def)
  moreover have "find_type (wt_ID loaded) (rollback_db s t) = Some row" using assms(7) by (simp add: t(2) find_type_def)
  ultimately show ?thesis using t(1) by auto
qed

section \<open>A sample\<close>

definition sample_template :: space_template where
  "sample_template = \<lparr>tp_Lifecycle = wi_Lifecycle sample_storage, tp_ID = 4, tp_Version = 0, tp_Name = ''scrum'',
     tp_Description = None, tp_CanConstruct = True\<rparr>"

definition numbered_type :: work_item_type where
  "numbered_type = bare_type\<lparr>wt_Fields := [(SystemNumber, plain_field KindInteger)]\<rparr>"

definition sample_helper :: import_helper where
  "sample_helper = \<lparr>ih_Template = sample_template, ih_WITs = [numbered_type], ih_WILTs = [], ih_WITGs = [], ih_WIBs = []\<rparr>"

definition sample_import_db :: import_db where
  "sample_import_db = \<lparr>im_Links = (sample_links TopologyTree [])\<lparr>ld_linkTypes := []\<rparr>,
     im_Templates = empty_templates\<lparr>tb_Templates := [sample_template]\<rparr>\<rparr>"

lemma numbered_cols: "wt_ID numbered_type = 9" "wt_SpaceTemplateID numbered_type = 4" "wt_Extends numbered_type = 0"
  "wt_Fields numbered_type = [(SystemNumber, plain_field KindInteger)]" "wt_Name numbered_type = ''Bug''" "wt_ChildTypeIDs numbered_type = []"
  by (simp_all add: numbered_type_def bare_type_def sample_type_def)

lemma bare_cols: "wt_ID bare_type = 9" "wt_SpaceTemplateID bare_type = 4" "wt_Fields bare_type = []" "alive (wt_Lifecycle bare_type)"
  by (simp_all add: bare_type_def sample_type_def)

lemma sample_update_wit:
  assumes "db_types s = [bare_type]"
  shows "is_ok (fst (update_wit repo_sample 4 numbered_type bare_type s))"
  using assms
  by (simp add: update_wit_def act_defs extended_type_def fields_missing_def numbered_cols bare_cols store_type_def share_fields_def
      on_types_def on_table_def gorm_save_def gorm_update_def gorm_insert_def insert_row_def statement_def updated_type_def
      ClearGlobalWorkItemTypeCache_def)

lemma sample_import_WITs:
  "is_ok (fst (createOrUpdateWITs repo_sample unwrap_cause 4 [numbered_type] (sample_db items)))"
proof -
  have load: "WITR_Load repo_sample 9 (sample_db items) = (Ok bare_type, (sample_db items)\<lparr>db_cache := Cache_Put NewWorkItemTypeCache bare_type\<rparr>)"
    by (rule sample_load) (simp_all add: sample_db_def)
  obtain t where up: "update_wit repo_sample 4 numbered_type bare_type ((sample_db items)\<lparr>db_cache := Cache_Put NewWorkItemTypeCache bare_type\<rparr>) = (Ok (), t)"
    using sample_update_wit [of "(sample_db items)\<lparr>db_cache := Cache_Put NewWorkItemTypeCache bare_type\<rparr>"]
    by (cases "update_wit repo_sample 4 numbered_type bare_type ((sample_db items)\<lparr>db_cache := Cache_Put NewWorkItemTypeCache bare_type\<rparr>)")
      (auto simp: is_ok_iff sample_db_def)
  have "checkNoWITIsMissing repo_sample 4 [numbered_type] (sample_db items) = (Ok (), sample_db items)"
    by (auto simp: checkNoWITIsMissing_def no_id_missing_def statement_def act_defs sample_db_def numbered_cols bare_cols)
  moreover have "import_wit repo_sample unwrap_cause 4 0 numbered_type (sample_db items) = (Ok (), t)"
    using load up by (simp add: import_wit_def create_or_update_def numbered_cols)
  moreover have "\<exists>u. replace_child_types repo_sample numbered_type t = (Ok (), u)"
    by (simp add: replace_child_types_def statement_def act_defs AddChildTypes_def numbered_cols)
  ultimately show ?thesis by (auto simp: createOrUpdateWITs_def act_bind_def act_map_err_def act_return_def)
qed

lemma sample_valid: "ImportHelper_Validate (re_field repo_sample) sample_helper = Ok ()"
proof -
  have "FieldDefinition_Validate (re_field repo_sample) (plain_field KindInteger) = Ok ()"
  proof -
    have "TrimSpace ''label'' \<noteq> []" by code_simp
    then show ?thesis by (simp add: FieldDefinition_Validate_def plain_field_def simple_of_def SimpleType_Validate_def IsSimpleType_def SimpleType_SetDefaultValue_def)
  qed
  then have "WorkItemType_Validate (re_field repo_sample) numbered_type = Ok ()"
  proof -
    assume field: "FieldDefinition_Validate (re_field repo_sample) (plain_field KindInteger) = Ok ()"
    have "TrimSpace ''Bug'' \<noteq> []" by code_simp
    with field show ?thesis by (simp add: WorkItemType_Validate_def FieldDefinitions_Validate_def numbered_cols)
  qed
  then show ?thesis
    by (simp add: ImportHelper_Validate_def sample_helper_def sample_template_def SpaceTemplate_Validate_def check_template_def
        numbered_cols)
qed

lemma sample_import: "is_ok (fst (Import repo_sample unwrap_cause sample_helper sample_import_db))"
proof -
  let ?s = sample_import_db
  have "is_ok (fst (import_template repo_sample unwrap_cause sample_template [sample_template]))"
    by (simp add: import_template_def create_or_update_def SpaceTemplate_Load_def statement_def act_defs by_id_def live_rows_def Let_def
        SpaceTemplate_Validate_def gorm_save_def gorm_update_def template_violation_def first_violation.simps index_taken_def
        sample_template_def alive_def sample_storage_def touched_def)
  then obtain templ rows where "import_template repo_sample unwrap_cause sample_template [sample_template] = (Ok templ, rows)"
    by (cases "import_template repo_sample unwrap_cause sample_template [sample_template]") (auto simp: is_ok_iff)
  then obtain s1 where s1: "on_space_templates (import_template repo_sample unwrap_cause sample_template) ?s = (Ok templ, s1)"
    and items: "im_types s1 = sample_db [sample_row 1 0, sample_row 2 0]" "ld_linkTypes (im_Links s1) = []"
    by (simp add: on_space_templates_def on_table_def sample_import_db_def sample_links_def)
  obtain w where "createOrUpdateWITs repo_sample unwrap_cause 4 [numbered_type] (im_types s1) = (Ok (), w)"
    using sample_import_WITs [of "[sample_row 1 0, sample_row 2 0]"]
    by (cases "createOrUpdateWITs repo_sample unwrap_cause 4 [numbered_type] (im_types s1)") (auto simp: is_ok_iff items)
  then obtain s2 where s2: "on_type_tables (createOrUpdateWITs repo_sample unwrap_cause 4 [numbered_type]) s1 = (Ok (), s2)"
    and links: "ld_linkTypes (im_Links s2) = []"
    using items by (simp add: on_type_tables_def on_link_tables_def on_table_def on_items_def)
  have s3: "on_link_tables (createOrUpdateWILTs repo_sample unwrap_cause 4 []) s2 = (Ok [], s2)"
    by (simp add: on_link_tables_def on_table_def createOrUpdateWILTs_def checkNoWILTIsMissing_def no_id_missing_def statement_def
        act_defs links)
  obtain s4 where s4: "on_template_tables (createOrUpdateWITGs (re_db repo_sample) 4 []) s2 = (Ok [], s4)"
    by (simp add: on_template_tables_def on_table_def createOrUpdateWITGs_def purge_groups_def statement_def act_defs Let_def)
  obtain s5 where s5: "on_template_tables (createOrUpdateWIBs (re_db repo_sample) 4 []) s4 = (Ok (), s5)"
    by (simp add: on_template_tables_def on_table_def createOrUpdateWIBs_def purge_boards_def statement_def act_defs Let_def)
  have "tp_ID sample_template = 4" by (simp add: sample_template_def)
  with sample_valid s1 s2 s3 s4 s5 show ?thesis
    by (simp add: Import_def Let_def act_bind_def act_map_err_def act_lift_def sample_helper_def act_return_def)
qed

theorem import_keeps_types_witness:
  "\<exists>res t. Import repo_sample unwrap_cause sample_helper sample_import_db = (Ok res, t) \<and>
     (\<exists>r' \<in> set (live_types (im_types t)). wt_ID r' = 9)"
proof -
  obtain res t where t: "Import repo_sample unwrap_cause sample_helper sample_import_db = (Ok res, t)"
    using sample_import by (cases "Import repo_sample unwrap_cause sample_helper sample_import_db") (auto simp: is_ok_iff)
  have ids: "\<forall>w \<in> set (ih_WITs sample_helper). wt_ID w \<noteq> uuid_Nil" by (simp add: sample_helper_def numbered_cols)
  have live: "live_types (im_types sample_import_db) = [bare_type]"
    by (simp add: live_types_def live_rows_def sample_import_db_def sample_links_def sample_db_def bare_cols)
  then have coh: "types_coherent (im_types sample_import_db)"
    by (simp add: types_coherent_def) (simp add: sample_import_db_def sample_links_def sample_db_def NewWorkItemTypeCache_def)
  from import_keeps_types [OF t unwrap_cause_ok ids coh] live t show ?thesis by (auto simp: bare_cols)
qed

definition torn_env :: repo_env where
  "torn_env = repo_sample\<lparr>re_db := (re_db repo_sample)\<lparr>env_fault := \<lambda>l. if l = ''update work_item_types'' then Some (EErrorf ''timeout'') else None\<rparr>\<rparr>"

theorem failed_import_poisons_cache_witness:
  "\<exists>r t ty. update_wit torn_env 4 numbered_type bare_type (sample_db []) = (r, t) \<and> \<not> is_ok r \<and>
     WITR_Load repo_sample 9 (rollback_db (sample_db []) t) = (Ok ty, rollback_db (sample_db []) t) \<and>
     SystemNumber \<in> field_names ty \<and> db_types (rollback_db (sample_db []) t) = [bare_type]"
proof -
  obtain r t where run: "update_wit torn_env 4 numbered_type bare_type (sample_db []) = (r, t)" by fastforce
  have row: "find_type 9 (sample_db []) = Some bare_type" by (simp add: find_type_def sample_db_def bare_cols)
  have fault: "env_fault (re_db torn_env) ''update work_item_types'' = Some (EErrorf ''timeout'')" by (simp add: torn_env_def)
  have "fields_to_find (re_field torn_env) (wt_Fields numbered_type) (map (\<lambda>(k, fd). (k, fd_Type fd)) (wt_Fields bare_type)) = Ok []"
    by (simp add: numbered_cols bare_cols)
  from failed_import_poisons_cache [OF run fault _ _ _ this, of bare_type SystemNumber repo_sample] row
  have "\<not> is_ok r" "\<exists>ty. WITR_Load repo_sample 9 (rollback_db (sample_db []) t) = (Ok ty, rollback_db (sample_db []) t) \<and> SystemNumber \<in> field_names ty"
    by (auto simp: numbered_cols bare_cols field_names_def)
  with run show ?thesis by (auto simp: rollback_db_def sample_db_def)
qed

definition scrum_group :: type_group where
  "scrum_group = sample_group\<lparr>tg_SpaceTemplateID := 4\<rparr>"

theorem import_replaces_groups_witness:
  "\<exists>res t ls. createOrUpdateWITGs counting_db 4 [scrum_group] (empty_templates\<lparr>tb_Templates := [sample_template]\<rparr>) = (Ok res, t) \<and>
     TypeGroup_List canonical_uuid counting_db 4 t = (Ok ls, t) \<and> map tg_TypeList ls = [[SystemTask, SystemBug]]"
proof -
  let ?s = "empty_templates\<lparr>tb_Templates := [sample_template]\<rparr>"
  have ids: "nth_label (nth_label ''type group member'' 0) 0 = ''type group member 0 0''"
    "nth_label (nth_label ''type group member'' (Suc 0)) 0 = ''type group member 1 0''"
    by code_simp+
  have "is_ok (fst (createOrUpdateWITGs counting_db 4 [scrum_group] ?s))"
    by (simp add: createOrUpdateWITGs_def purge_groups_def import_group_def nth_env_def
        TypeGroup_Create_def create_member_def new_member_def on_groups_def on_members_def on_table_def gorm_insert_def insert_row_def
        act_defs statement_def empty_templates_def counting_db_def scrum_group_def sample_group_def system_group_def group_violation_def
        member_violation_def first_violation.simps index_taken_def Let_def live_rows_def alive_def stamped_def zero_time_def
        BucketIteration_def BucketPortfolio_def BucketRequirement_def SystemTask_def SystemBug_def ids created_def)
  then obtain res t where t: "createOrUpdateWITGs counting_db 4 [scrum_group] ?s = (Ok res, t)"
    by (cases "createOrUpdateWITGs counting_db 4 [scrum_group] ?s") (auto simp: is_ok_iff)
  have "parts_refer ?s" "\<forall>g \<in> set [scrum_group]. alive (tg_Lifecycle g) \<and> tg_SpaceTemplateID g = 4"
    "4 \<in> set (template_ids (tb_Templates ?s))" "no_faults counting_db"
    by (simp_all add: parts_refer_def empty_templates_def scrum_group_def sample_group_def system_group_def alive_def
        template_ids_def live_rows_def sample_template_def sample_storage_def no_faults_def counting_db_def)
  from import_replaces_groups [OF t this, of canonical_uuid] t show ?thesis
    by (auto simp: scrum_group_def sample_group_def system_group_def)
qed

end
