(* ===== verification/Spec2Isabelle.thy ===== *)
theory Spec2Isabelle
  imports Paths Paging Db_Codec Search_Filter Work_Item_Order Link_Invariants Spaces Areas Iterations Comments Boards Csv_Export Work_Item_Handlers Template_Import
begin

text \<open>
  Verification of the work item tracker.
\<close>

end
